(* ===== verification/KFB_Buffer.thy ===== *)
theory KFB_Buffer
  imports KFB_Prelude
begin

text \<open>
  The object buffer pool of \<^verbatim>\<open>kfastblock/src/buffer.c\<close>. Buffers live in an explicit heap: an
  address maps to the header the source places in front of the data (\<^verbatim>\<open>struct
  kfastblock_object_buffer_entry\<close>) and to the data bytes, because a recycled buffer keeps its
  old contents and the header decides at free time what happens to it. The allocator
  \<^verbatim>\<open>kvmalloc\<close> is a parameter: for a size it gives NULL, or an address and the bytes found there.
  The free list of the pool is the list of addresses linked through the headers. The pool
  pointer is an option because \<^verbatim>\<open>pool == NULL\<close> is a case the source handles.
\<close>

type_synonym addr = nat

record buffer_entry =
  be_capacity :: u64
  be_pooled :: bool
  be_data :: "u8 list"

type_synonym buf_heap = "addr \<Rightarrow> buffer_entry option"
type_synonym kvmalloc = "u64 \<Rightarrow> (addr \<times> u8 list) option"

record object_buffer_pool =
  bp_free_list :: "addr list"
  bp_cached :: u32
  bp_max_cached :: u32
  bp_chunk_bytes :: u32
  bp_cache_hits :: u64
  bp_cache_misses :: u64
  bp_cache_returns :: u64
  bp_cache_evictions :: u64
  bp_direct_allocs :: u64

text \<open>\<^verbatim>\<open>sizeof(struct kfastblock_object_buffer_entry)\<close> on a 64-bit kernel: a list node of two
  pointers, a \<^verbatim>\<open>size_t\<close> and a padded \<^verbatim>\<open>bool\<close>.\<close>

definition entry_size :: u64 where
  "entry_size = 32"

section \<open>Operations\<close>

definition kfastblock_buffer_pool_direct_alloc ::
    "kvmalloc \<Rightarrow> u64 \<Rightarrow> bool \<Rightarrow> (addr \<times> u8 list) option" where
  "kfastblock_buffer_pool_direct_alloc kv bytes zero =
     (if bytes = 0 then None
      else if zero then map_option (\<lambda>(a, bs). (a, map (\<lambda>_. 0) bs)) (kv bytes)
      else kv bytes)"

definition kfastblock_buffer_pool_direct_free :: "buf_heap \<Rightarrow> addr \<Rightarrow> buf_heap" where
  "kfastblock_buffer_pool_direct_free h a = h(a := None)"

definition kfastblock_buffer_pool_init :: "u32 \<Rightarrow> u32 \<Rightarrow> object_buffer_pool" where
  "kfastblock_buffer_pool_init chunk_bytes max_cached =
     \<lparr> bp_free_list = [], bp_cached = 0,
       bp_max_cached = (if max_cached \<noteq> 0 then max_cached else 1),
       bp_chunk_bytes = chunk_bytes,
       bp_cache_hits = 0, bp_cache_misses = 0, bp_cache_returns = 0,
       bp_cache_evictions = 0, bp_direct_allocs = 0 \<rparr>"

text \<open>The eviction loop of \<^verbatim>\<open>set_limit\<close>; its arguments are the fields the loop changes.\<close>

fun evict_loop ::
    "u32 \<Rightarrow> addr list \<Rightarrow> u32 \<Rightarrow> u64 \<Rightarrow> buf_heap \<Rightarrow> addr list \<times> u32 \<times> u64 \<times> buf_heap" where
  "evict_loop max_cached [] cached ev h = ([], cached, ev, h)"
| "evict_loop max_cached (a # fl) cached ev h =
     (if max_cached < cached
      then evict_loop max_cached fl (cached - 1) (ev + 1) (kfastblock_buffer_pool_direct_free h a)
      else (a # fl, cached, ev, h))"

definition kfastblock_buffer_pool_set_limit ::
    "object_buffer_pool \<Rightarrow> buf_heap \<Rightarrow> u32 \<Rightarrow> object_buffer_pool \<times> buf_heap" where
  "kfastblock_buffer_pool_set_limit pool h max_cached =
     (let m = (if max_cached \<noteq> 0 then max_cached else 1);
          (fl, c, ev, h') = evict_loop m (bp_free_list pool) (bp_cached pool)
                              (bp_cache_evictions pool) h
      in (pool \<lparr> bp_max_cached := m, bp_free_list := fl, bp_cached := c,
                 bp_cache_evictions := ev \<rparr>, h'))"

fun drain_loop :: "addr list \<Rightarrow> u32 \<Rightarrow> buf_heap \<Rightarrow> u32 \<times> buf_heap" where
  "drain_loop [] cached h = (cached, h)"
| "drain_loop (a # fl) cached h =
     drain_loop fl (cached - 1) (kfastblock_buffer_pool_direct_free h a)"

definition kfastblock_buffer_pool_cleanup ::
    "object_buffer_pool \<Rightarrow> buf_heap \<Rightarrow> object_buffer_pool \<times> buf_heap" where
  "kfastblock_buffer_pool_cleanup pool h =
     (let (c, h') = drain_loop (bp_free_list pool) (bp_cached pool) h
      in (pool \<lparr> bp_free_list := [], bp_cached := c \<rparr>, h'))"

text \<open>\<^verbatim>\<open>memset(p, 0, n)\<close> on the bytes of a buffer.\<close>

definition zero_prefix :: "nat \<Rightarrow> u8 list \<Rightarrow> u8 list" where
  "zero_prefix n bs = map (\<lambda>_. 0) (take n bs) @ drop n bs"

text \<open>The tail of \<^verbatim>\<open>alloc\<close>: a fresh entry of \<^verbatim>\<open>alloc_size\<close> data bytes behind its header.\<close>

definition alloc_fresh_entry ::
    "kvmalloc \<Rightarrow> buf_heap \<Rightarrow> u64 \<Rightarrow> bool \<Rightarrow> bool \<Rightarrow> buf_heap \<times> addr option" where
  "alloc_fresh_entry kv h alloc_size pooled zero =
     (case kfastblock_buffer_pool_direct_alloc kv (entry_size + alloc_size) zero of
        None \<Rightarrow> (h, None)
      | Some (a, bs) \<Rightarrow>
          (h(a := Some \<lparr> be_capacity = alloc_size, be_pooled = pooled,
                         be_data = drop (unat entry_size) bs \<rparr>), Some a))"

definition kfastblock_buffer_pool_alloc ::
    "kvmalloc \<Rightarrow> object_buffer_pool option \<Rightarrow> buf_heap \<Rightarrow> u64 \<Rightarrow> bool
      \<Rightarrow> object_buffer_pool option \<times> buf_heap \<times> addr option" where
  "kfastblock_buffer_pool_alloc kv pool h bytes zero =
     (if bytes = 0 then (pool, h, None)
      else case pool of
        None \<Rightarrow> (None, alloc_fresh_entry kv h bytes False zero)
      | Some p \<Rightarrow>
          (if bp_chunk_bytes p \<noteq> 0 \<and> bytes \<le> ucast (bp_chunk_bytes p) then
             (case bp_free_list p of
                a # fl \<Rightarrow>
                  (let h' = (if zero
                             then h(a := map_option
                                      (be_data_update (zero_prefix (unat bytes))) (h a))
                             else h)
                   in (Some (p \<lparr> bp_free_list := fl, bp_cached := bp_cached p - 1,
                                 bp_cache_hits := bp_cache_hits p + 1 \<rparr>), h', Some a))
              | [] \<Rightarrow>
                  (Some (p \<lparr> bp_cache_misses := bp_cache_misses p + 1 \<rparr>),
                   alloc_fresh_entry kv h (ucast (bp_chunk_bytes p)) True zero))
           else
             (Some (p \<lparr> bp_direct_allocs := bp_direct_allocs p + 1 \<rparr>),
              alloc_fresh_entry kv h bytes False zero)))"

text \<open>Freeing reads the header in front of the buffer. An address with no header behind it is
  outside the contract of the source (\<^verbatim>\<open>kvfree\<close> of a wild pointer); the model leaves the
  state alone there.\<close>

definition kfastblock_buffer_pool_free ::
    "object_buffer_pool option \<Rightarrow> buf_heap \<Rightarrow> addr option
      \<Rightarrow> object_buffer_pool option \<times> buf_heap" where
  "kfastblock_buffer_pool_free pool h buf =
     (case buf of
        None \<Rightarrow> (pool, h)
      | Some a \<Rightarrow>
          (case h a of
             None \<Rightarrow> (pool, h)
           | Some e \<Rightarrow>
               (case pool of
                  None \<Rightarrow> (None, kfastblock_buffer_pool_direct_free h a)
                | Some p \<Rightarrow>
                    (if \<not> be_pooled e \<or> be_capacity e \<noteq> ucast (bp_chunk_bytes p)
                     then (Some p, kfastblock_buffer_pool_direct_free h a)
                     else if bp_max_cached p \<le> bp_cached p
                     then (Some (p \<lparr> bp_cache_evictions := bp_cache_evictions p + 1 \<rparr>),
                           kfastblock_buffer_pool_direct_free h a)
                     else (Some (p \<lparr> bp_free_list := a # bp_free_list p,
                                     bp_cached := bp_cached p + 1,
                                     bp_cache_returns := bp_cache_returns p + 1 \<rparr>), h)))))"

section \<open>Ownership\<close>

text \<open>
  \<open>pool_ok\<close> is the data-structure invariant of the pool. \<open>owned_ok\<close> adds the ghost list of the
  buffers callers hold: the live heap is exactly the callers' buffers and the cached ones, and
  no buffer is both, so nothing leaks and nothing is handed out twice.
\<close>

definition chunk_entry :: "object_buffer_pool \<Rightarrow> buffer_entry \<Rightarrow> bool" where
  "chunk_entry p e \<longleftrightarrow>
     be_pooled e \<and> be_capacity e = ucast (bp_chunk_bytes p) \<and>
     unat (bp_chunk_bytes p) \<le> length (be_data e)"

definition pool_ok :: "object_buffer_pool \<Rightarrow> buf_heap \<Rightarrow> bool" where
  "pool_ok p h \<longleftrightarrow>
     unat (bp_cached p) = length (bp_free_list p) \<and> distinct (bp_free_list p) \<and>
     bp_cached p \<le> bp_max_cached p \<and> 0 < bp_max_cached p \<and>
     (\<forall>a \<in> set (bp_free_list p). \<exists>e. h a = Some e \<and> chunk_entry p e)"

definition owned_ok :: "object_buffer_pool \<Rightarrow> buf_heap \<Rightarrow> addr list \<Rightarrow> bool" where
  "owned_ok p h owned \<longleftrightarrow>
     pool_ok p h \<and> distinct owned \<and> set owned \<inter> set (bp_free_list p) = {} \<and>
     dom h = set owned \<union> set (bp_free_list p) \<and>
     (\<forall>a \<in> set owned. \<forall>e. h a = Some e \<longrightarrow>
        be_pooled e \<and> be_capacity e = ucast (bp_chunk_bytes p) \<longrightarrow> chunk_entry p e)"

text \<open>What the kernel promises of \<^verbatim>\<open>kvmalloc\<close>: fresh memory of the size asked for.\<close>

definition kvmalloc_ok :: "kvmalloc \<Rightarrow> buf_heap \<Rightarrow> bool" where
  "kvmalloc_ok kv h \<longleftrightarrow> (\<forall>n a bs. kv n = Some (a, bs) \<longrightarrow> h a = None \<and> length bs = unat n)"

text \<open>The histories of a pool: calls of its operations, callers freeing only what they hold.\<close>

inductive buffer_reach :: "object_buffer_pool \<Rightarrow> buf_heap \<Rightarrow> addr list \<Rightarrow> bool" where
  reach_init: "buffer_reach (kfastblock_buffer_pool_init chunk m) (\<lambda>_. None) []"
| reach_alloc: "\<lbrakk> buffer_reach p h owned; kvmalloc_ok kv h;
     kfastblock_buffer_pool_alloc kv (Some p) h bytes zero = (Some p', h', Some a) \<rbrakk>
     \<Longrightarrow> buffer_reach p' h' (a # owned)"
| reach_alloc_fail: "\<lbrakk> buffer_reach p h owned; kvmalloc_ok kv h;
     kfastblock_buffer_pool_alloc kv (Some p) h bytes zero = (Some p', h', None) \<rbrakk>
     \<Longrightarrow> buffer_reach p' h' owned"
| reach_free: "\<lbrakk> buffer_reach p h owned; a \<in> set owned;
     kfastblock_buffer_pool_free (Some p) h (Some a) = (Some p', h') \<rbrakk>
     \<Longrightarrow> buffer_reach p' h' (remove1 a owned)"
| reach_limit: "\<lbrakk> buffer_reach p h owned;
     kfastblock_buffer_pool_set_limit p h m = (p', h') \<rbrakk>
     \<Longrightarrow> buffer_reach p' h' owned"
| reach_cleanup: "\<lbrakk> buffer_reach p h owned;
     kfastblock_buffer_pool_cleanup p h = (p', h') \<rbrakk>
     \<Longrightarrow> buffer_reach p' h' owned"

lemma zero_prefix_length [simp]: "length (zero_prefix n bs) = length bs"
  by (simp add: zero_prefix_def)

lemma zero_prefix_take: "n \<le> length bs \<Longrightarrow> take n (zero_prefix n bs) = replicate n 0"
  by (simp add: zero_prefix_def map_replicate_const min_def)

lemma unat_entry_size [simp]: "unat entry_size = 32"
  by (simp add: entry_size_def)

lemma chunk_entry_size: "unat (entry_size + ucast (bp_chunk_bytes p)) = 32 + unat (bp_chunk_bytes p)"
  using unat_u32_bound [of "bp_chunk_bytes p"] by (simp add: unat_word_ariths)

lemma direct_alloc_fresh:
  assumes "kvmalloc_ok kv h" and "kfastblock_buffer_pool_direct_alloc kv n zero = Some (a, bs)"
  shows "h a = None \<and> length bs = unat n \<and> (zero \<longrightarrow> bs = replicate (unat n) 0)"
  using assms
  by (auto simp: kvmalloc_ok_def kfastblock_buffer_pool_direct_alloc_def map_replicate_const
      split: if_splits)

lemma owned_ok_cong:
  assumes "owned_ok p h owned"
    and "bp_free_list p' = bp_free_list p" "bp_cached p' = bp_cached p"
        "bp_max_cached p' = bp_max_cached p" "bp_chunk_bytes p' = bp_chunk_bytes p"
  shows "owned_ok p' h owned"
  using assms by (simp add: owned_ok_def pool_ok_def chunk_entry_def)

lemma owned_ok_new:
  assumes "owned_ok p h owned" "h a = None"
    and "be_pooled e \<and> be_capacity e = ucast (bp_chunk_bytes p) \<Longrightarrow> chunk_entry p e"
  shows "owned_ok p (h(a := Some e)) (a # owned)"
proof -
  have "a \<notin> dom h" using assms(2) by auto
  then have "a \<notin> set owned" "a \<notin> set (bp_free_list p)"
    using assms(1) by (auto simp: owned_ok_def)
  then show ?thesis using assms unfolding owned_ok_def pool_ok_def by auto
qed

lemma alloc_fresh_entry_owned:
  assumes "owned_ok p h owned" "kvmalloc_ok kv h"
    and "alloc_fresh_entry kv h n pooled zero = (h', r)"
    and "pooled \<Longrightarrow> n = ucast (bp_chunk_bytes p)"
  shows "case r of None \<Rightarrow> owned_ok p h' owned | Some a \<Rightarrow> owned_ok p h' (a # owned)"
proof (cases "kfastblock_buffer_pool_direct_alloc kv (entry_size + n) zero")
  case None
  then show ?thesis using assms by (simp add: alloc_fresh_entry_def)
next
  case (Some x)
  obtain a bs where x: "x = (a, bs)" by (cases x)
  have *: "h a = None" "length bs = unat (entry_size + n)"
    using direct_alloc_fresh [OF assms(2)] Some x by blast+
  have "owned_ok p (h(a := Some \<lparr>be_capacity = n, be_pooled = pooled,
          be_data = drop (unat entry_size) bs\<rparr>)) (a # owned)"
    using assms(1) *(1)
    by (rule owned_ok_new)
       (use assms(4) *(2) in \<open>auto simp: chunk_entry_def chunk_entry_size\<close>)
  then show ?thesis using assms(3) Some x by (auto simp: alloc_fresh_entry_def)
qed

lemma pool_ok_cached_pos:
  assumes "pool_ok p h" "bp_free_list p = a # fl"
  shows "unat (bp_cached p - 1) = length fl"
  using assms by (simp add: pool_ok_def unat_dec)

lemma heap_update_id: "h(a := map_option (be_data_update id) (h a)) = h"
  by (cases "h a") (simp_all add: fun_upd_idem)

lemma owned_ok_pop:
  assumes ok: "owned_ok p h owned" and fl: "bp_free_list p = a # fl"
    and h': "h' = h(a := map_option (be_data_update f) (h a))" and len: "\<And>bs. length (f bs) = length bs"
  shows "owned_ok (p \<lparr> bp_free_list := fl, bp_cached := bp_cached p - 1, bp_cache_hits := n \<rparr>)
           h' (a # owned)"
proof -
  obtain e where e: "h a = Some e" "chunk_entry p e"
    using ok fl by (auto simp: owned_ok_def pool_ok_def)
  have "unat (bp_cached p - 1) = length fl"
    using ok fl by (auto simp: owned_ok_def intro: pool_ok_cached_pos)
  moreover have "unat (bp_cached p) = Suc (length fl)"
    using ok fl by (simp add: owned_ok_def pool_ok_def)
  moreover have "a \<notin> set owned \<and> a \<notin> set fl"
    using ok fl by (auto simp: owned_ok_def pool_ok_def)
  ultimately show ?thesis
    using ok fl e unfolding h' owned_ok_def pool_ok_def
    by (auto simp: len chunk_entry_def word_le_nat_alt)
qed

lemma alloc_owned [kfb_inv]:
  assumes "owned_ok p h owned" "kvmalloc_ok kv h"
    and "kfastblock_buffer_pool_alloc kv (Some p) h bytes zero = (Some p', h', r)"
  shows "case r of None \<Rightarrow> owned_ok p' h' owned | Some a \<Rightarrow> owned_ok p' h' (a # owned)"
proof (cases "bytes = 0")
  case True
  then show ?thesis using assms by (simp add: kfastblock_buffer_pool_alloc_def)
next
  case nz: False
  show ?thesis
  proof (cases "bp_chunk_bytes p \<noteq> 0 \<and> bytes \<le> ucast (bp_chunk_bytes p)")
    case pooled: True
    show ?thesis
    proof (cases "bp_free_list p")
      case Nil
      then have p': "p' = p \<lparr> bp_cache_misses := bp_cache_misses p + 1 \<rparr>"
        and new: "alloc_fresh_entry kv h (ucast (bp_chunk_bytes p)) True zero = (h', r)"
        using assms(3) nz pooled by (auto simp: kfastblock_buffer_pool_alloc_def)
      have "owned_ok p' h owned" by (rule owned_ok_cong [OF assms(1)]) (simp_all add: p')
      from alloc_fresh_entry_owned [OF this assms(2) new] show ?thesis by (simp add: p')
    next
      case (Cons a fl)
      define f where "f = (if zero then zero_prefix (unat bytes) else id)"
      have "p' = p \<lparr> bp_free_list := fl, bp_cached := bp_cached p - 1,
                     bp_cache_hits := bp_cache_hits p + 1 \<rparr> \<and> r = Some a \<and>
            h' = h(a := map_option (be_data_update f) (h a))"
        using assms(3) nz pooled Cons
        by (cases zero) (auto simp: kfastblock_buffer_pool_alloc_def f_def heap_update_id)
      then show ?thesis using owned_ok_pop [OF assms(1) Cons] by (simp add: f_def)
    qed
  next
    case False
    then have p': "p' = p \<lparr> bp_direct_allocs := bp_direct_allocs p + 1 \<rparr>"
      and new: "alloc_fresh_entry kv h bytes False zero = (h', r)"
      using assms(3) nz by (auto simp: kfastblock_buffer_pool_alloc_def)
    have "owned_ok p' h owned" by (rule owned_ok_cong [OF assms(1)]) (simp_all add: p')
    from alloc_fresh_entry_owned [OF this assms(2) new] show ?thesis by (simp add: p')
  qed
qed

lemma owned_ok_drop:
  assumes "owned_ok p h owned" "a \<in> set owned"
  shows "owned_ok p (h(a := None)) (remove1 a owned)"
  using assms unfolding owned_ok_def pool_ok_def by auto

lemma owned_ok_return:
  assumes "owned_ok p h owned" "a \<in> set owned" "h a = Some e" "chunk_entry p e"
    and "bp_cached p < bp_max_cached p"
  shows "owned_ok (p \<lparr> bp_free_list := a # bp_free_list p, bp_cached := bp_cached p + 1,
                       bp_cache_returns := n \<rparr>) h (remove1 a owned)"
  using assms unat_inc_less [OF assms(5)]
  by (auto simp: owned_ok_def pool_ok_def chunk_entry_def word_le_nat_alt word_less_nat_alt)

lemma free_owned [kfb_inv]:
  assumes ok: "owned_ok p h owned" and a: "a \<in> set owned"
    and free: "kfastblock_buffer_pool_free (Some p) h (Some a) = (Some p', h')"
  shows "owned_ok p' h' (remove1 a owned)"
proof -
  have "a \<in> dom h" using ok a by (simp add: owned_ok_def)
  then obtain e where e: "h a = Some e" by auto
  show ?thesis
  proof (cases "be_pooled e \<and> be_capacity e = ucast (bp_chunk_bytes p)")
    case True
    then have ch: "chunk_entry p e" using ok a e by (auto simp: owned_ok_def)
    note drop = owned_ok_drop [OF ok a]
    have "owned_ok (p \<lparr> bp_cache_evictions := n \<rparr>) (h(a := None)) (remove1 a owned)" for n
      by (rule owned_ok_cong [OF drop]) simp_all
    then show ?thesis
      using free e True owned_ok_return [OF ok a e ch]
      by (auto simp: kfastblock_buffer_pool_free_def kfastblock_buffer_pool_direct_free_def
          not_le split: if_splits)
  next
    case False
    then show ?thesis
      using free e owned_ok_drop [OF ok a]
      by (auto simp: kfastblock_buffer_pool_free_def kfastblock_buffer_pool_direct_free_def)
  qed
qed

lemma owned_ok_evict:
  assumes "owned_ok p h owned" "bp_free_list p = a # fl"
  shows "owned_ok (p \<lparr> bp_free_list := fl, bp_cached := bp_cached p - 1 \<rparr>) (h(a := None)) owned"
proof -
  have "unat (bp_cached p - 1) = length fl"
    using assms by (auto simp: owned_ok_def intro: pool_ok_cached_pos)
  then show ?thesis
    using assms by (auto simp: owned_ok_def pool_ok_def chunk_entry_def word_le_nat_alt)
qed

text \<open>The loops keep the ownership discipline at every turn; \<open>pool_ok\<close> bounds the cache by the
  old limit during the loop and by the new one after it.\<close>

lemma evict_loop_owned:
  assumes "owned_ok (p \<lparr> bp_free_list := fl, bp_cached := c \<rparr>) h owned"
    and "evict_loop m fl c ev h = (fl', c', ev', h')"
  shows "owned_ok (p \<lparr> bp_free_list := fl', bp_cached := c' \<rparr>) h' owned \<and> c' \<le> m"
  using assms
proof (induction m fl c ev h rule: evict_loop.induct)
  case (1 m c ev h)
  then show ?case by (auto simp: owned_ok_def pool_ok_def unat_eq_0)
next
  case (2 m a fl c ev h)
  show ?case
  proof (cases "m < c")
    case True
    have "owned_ok (p \<lparr> bp_free_list := fl, bp_cached := c - 1 \<rparr>) (h(a := None)) owned"
      using owned_ok_evict [OF 2(2)] by simp
    then show ?thesis
      using 2(1,3) True by (simp add: kfastblock_buffer_pool_direct_free_def fun_upd_def)
  next
    case False
    then show ?thesis using 2(2,3) by auto
  qed
qed

lemma set_limit_owned [kfb_inv]:
  assumes "owned_ok p h owned" "kfastblock_buffer_pool_set_limit p h m = (p', h')"
  shows "owned_ok p' h' owned"
proof -
  define m' where "m' = (if m \<noteq> 0 then m else 1)"
  obtain fl c ev h1 where ev: "evict_loop m' (bp_free_list p) (bp_cached p)
      (bp_cache_evictions p) h = (fl, c, ev, h1)" by (metis prod_cases4)
  have "owned_ok (p \<lparr> bp_free_list := fl, bp_cached := c \<rparr>) h1 owned \<and> c \<le> m'"
    by (rule evict_loop_owned [OF _ ev]) (use assms(1) in simp)
  moreover have "0 < m'" by (simp add: m'_def word_gt_0)
  ultimately show ?thesis
    using assms(2) ev
    by (auto simp: kfastblock_buffer_pool_set_limit_def m'_def [symmetric] owned_ok_def
        pool_ok_def chunk_entry_def)
qed

lemma drain_loop_owned:
  assumes "owned_ok (p \<lparr> bp_free_list := fl, bp_cached := c \<rparr>) h owned"
    and "drain_loop fl c h = (c', h')"
  shows "owned_ok (p \<lparr> bp_free_list := [], bp_cached := c' \<rparr>) h' owned"
  using assms
proof (induction fl c h rule: drain_loop.induct)
  case (2 a fl c h)
  have "owned_ok (p \<lparr> bp_free_list := fl, bp_cached := c - 1 \<rparr>) (h(a := None)) owned"
    using owned_ok_evict [OF 2(2)] by simp
  then show ?case using 2(1,3) by (simp add: kfastblock_buffer_pool_direct_free_def fun_upd_def)
qed simp

lemma cleanup_owned [kfb_inv]:
  assumes "owned_ok p h owned" "kfastblock_buffer_pool_cleanup p h = (p', h')"
  shows "owned_ok p' h' owned \<and> bp_free_list p' = []"
proof -
  obtain c h1 where d: "drain_loop (bp_free_list p) (bp_cached p) h = (c, h1)" by fastforce
  have "owned_ok (p \<lparr> bp_free_list := [], bp_cached := c \<rparr>) h1 owned"
    by (rule drain_loop_owned [OF _ d]) (use assms(1) in simp)
  then show ?thesis using assms(2) d by (auto simp: kfastblock_buffer_pool_cleanup_def)
qed

lemma init_owned: "owned_ok (kfastblock_buffer_pool_init chunk m) (\<lambda>_. None) []"
  by (simp add: owned_ok_def pool_ok_def kfastblock_buffer_pool_init_def word_gt_0)

lemma buffer_reach_owned: "buffer_reach p h owned \<Longrightarrow> owned_ok p h owned"
proof (induction rule: buffer_reach.induct)
  case (reach_init chunk m)
  then show ?case by (rule init_owned)
next
  case (reach_alloc p h owned kv bytes zero p' h' a)
  then show ?case using alloc_owned [of p h owned kv bytes zero p' h' "Some a"] by simp
next
  case (reach_alloc_fail p h owned kv bytes zero p' h')
  then show ?case using alloc_owned [of p h owned kv bytes zero p' h' None] by simp
qed (auto dest: kfb_inv)

section \<open>Properties\<close>

lemma alloc_fresh_entry_result:
  assumes "kvmalloc_ok kv h" "alloc_fresh_entry kv h n pooled zero = (h', Some a)"
    and "unat n < 2 ^ 64 - 32"
  shows "\<exists>e. h' = h(a := Some e) \<and> h a = None \<and> length (be_data e) = unat n \<and>
             (zero \<longrightarrow> be_data e = replicate (unat n) 0)"
proof -
  have sz: "unat (entry_size + n) = 32 + unat n"
    using assms(3) by (simp add: unat_word_ariths)
  obtain bs where bs: "kfastblock_buffer_pool_direct_alloc kv (entry_size + n) zero = Some (a, bs)"
    and h': "h' = h(a := Some \<lparr>be_capacity = n, be_pooled = pooled, be_data = drop 32 bs\<rparr>)"
    using assms(2) by (auto simp: alloc_fresh_entry_def split: option.splits)
  show ?thesis using direct_alloc_fresh [OF assms(1) bs] sz h' by auto
qed

lemma alloc_result_cases:
  assumes "kfastblock_buffer_pool_alloc kv (Some p) h bytes zero = (Some p', h', Some a)"
  obtains (hit) fl where "bp_free_list p = a # fl" "bytes \<le> ucast (bp_chunk_bytes p)"
      "h' = h(a := map_option (be_data_update (if zero then zero_prefix (unat bytes) else id)) (h a))"
  | (miss) "bp_free_list p = []" "bytes \<le> ucast (bp_chunk_bytes p)"
      "alloc_fresh_entry kv h (ucast (bp_chunk_bytes p)) True zero = (h', Some a)"
  | (direct) "alloc_fresh_entry kv h bytes False zero = (h', Some a)"
  using assms heap_update_id [of h a]
  by (auto simp: kfastblock_buffer_pool_alloc_def Let_def split: if_splits list.splits)

lemma alloc_usable:
  assumes ok: "owned_ok p h owned" and kv: "kvmalloc_ok kv h"
    and al: "kfastblock_buffer_pool_alloc kv (Some p) h bytes zero = (Some p', h', Some a)"
    and sz: "unat bytes < 2 ^ 64 - 32"
  shows "a \<notin> set owned \<and> (\<forall>b. b \<noteq> a \<longrightarrow> h' b = h b) \<and>
     (\<exists>e. h' a = Some e \<and> unat bytes \<le> length (be_data e) \<and>
          (zero \<longrightarrow> take (unat bytes) (be_data e) = replicate (unat bytes) 0))"
  using al
proof (cases rule: alloc_result_cases)
  case (hit fl)
  obtain e where "h a = Some e" "chunk_entry p e"
    using ok hit(1) by (auto simp: owned_ok_def pool_ok_def)
  moreover have "unat bytes \<le> unat (bp_chunk_bytes p)"
    using hit(2) by (simp add: word_le_nat_alt)
  ultimately show ?thesis
    using ok hit by (auto simp: owned_ok_def chunk_entry_def zero_prefix_take)
next
  case miss
  have "unat (ucast (bp_chunk_bytes p) :: u64) < 2 ^ 64 - 32"
    using unat_u32_bound [of "bp_chunk_bytes p"] by simp
  moreover have "unat bytes \<le> unat (bp_chunk_bytes p)"
    using miss(2) by (simp add: word_le_nat_alt)
  ultimately show ?thesis
    using alloc_fresh_entry_result [OF kv miss(3)] ok by (auto simp: owned_ok_def min_def)
next
  case direct
  then show ?thesis
    using alloc_fresh_entry_result [OF kv direct sz] ok by (auto simp: owned_ok_def)
qed

text \<open>
  C10. In every history of a buffer pool the live memory is exactly what callers hold plus what
  the pool caches, no buffer is held twice or both held and cached, and the cache never
  exceeds its limit: the pool neither leaks nor hands a live buffer to a second caller.
\<close>

theorem buffer_pool_ownership:
  assumes "buffer_reach p h owned"
  shows "distinct (owned @ bp_free_list p) \<and> dom h = set owned \<union> set (bp_free_list p) \<and>
         unat (bp_cached p) = length (bp_free_list p) \<and> bp_cached p \<le> bp_max_cached p"
  using buffer_reach_owned [OF assms] by (auto simp: owned_ok_def pool_ok_def)

text \<open>
  C18. A successful allocation returns a buffer no caller holds, at least as large as asked for,
  zeroed on its first \<open>bytes\<close> bytes when zeroing was requested even if the buffer is a recycled
  one with old contents, and leaves every other buffer untouched.
\<close>

theorem buffer_pool_alloc_usable:
  assumes "buffer_reach p h owned" "kvmalloc_ok kv h"
    and "kfastblock_buffer_pool_alloc kv (Some p) h bytes zero = (Some p', h', Some a)"
    and "unat bytes < 2 ^ 64 - 32"
  shows "a \<notin> set owned \<and> (\<forall>b. b \<noteq> a \<longrightarrow> h' b = h b) \<and>
     (\<exists>e. h' a = Some e \<and> unat bytes \<le> length (be_data e) \<and>
          (zero \<longrightarrow> take (unat bytes) (be_data e) = replicate (unat bytes) 0))"
  using alloc_usable [OF buffer_reach_owned [OF assms(1)] assms(2-4)] .

section \<open>Witnesses\<close>

text \<open>A pool of four-byte chunks: allocate at address 7 (old contents all ones), free, allocate
  again with zeroing.\<close>

definition demo_kv :: kvmalloc where
  "demo_kv n = Some (7, replicate (unat n) 255)"

definition demo_entry :: buffer_entry where
  "demo_entry = \<lparr> be_capacity = 4, be_pooled = True, be_data = replicate 4 255 \<rparr>"

definition demo_pool :: object_buffer_pool where
  "demo_pool = (kfastblock_buffer_pool_init 4 2) \<lparr> bp_free_list := [7], bp_cached := 1,
     bp_cache_misses := 1, bp_cache_returns := 1 \<rparr>"

lemma demo_kv_ok: "kvmalloc_ok demo_kv (\<lambda>_. None)"
  by (simp add: kvmalloc_ok_def demo_kv_def)

lemma demo_reach: "buffer_reach demo_pool [7 \<mapsto> demo_entry] []"
proof -
  have "buffer_reach ((kfastblock_buffer_pool_init 4 2) \<lparr> bp_cache_misses := 1 \<rparr>) [7 \<mapsto> demo_entry] [7]"
    by (rule reach_alloc [OF reach_init demo_kv_ok, of 4 2 3 False])
       (simp add: kfastblock_buffer_pool_alloc_def kfastblock_buffer_pool_init_def demo_kv_def
          alloc_fresh_entry_def kfastblock_buffer_pool_direct_alloc_def entry_size_def demo_entry_def)
  then have "buffer_reach demo_pool [7 \<mapsto> demo_entry] (remove1 7 [7])"
    by (rule reach_free)
       (simp_all add: kfastblock_buffer_pool_free_def kfastblock_buffer_pool_init_def demo_entry_def
          demo_pool_def)
  then show ?thesis by simp
qed

theorem buffer_pool_ownership_witness:
  "dom [7 \<mapsto> demo_entry] = set [] \<union> set (bp_free_list demo_pool)"
  using buffer_pool_ownership [OF demo_reach] by blast

theorem buffer_pool_alloc_usable_witness:
  "\<exists>p' h'. kfastblock_buffer_pool_alloc (\<lambda>_. None) (Some demo_pool) [7 \<mapsto> demo_entry] 3 True
       = (Some p', h', Some 7) \<and>
     (\<exists>e. h' 7 = Some e \<and> take 3 (be_data e) = replicate 3 0)"
proof -
  obtain p' h' where al: "kfastblock_buffer_pool_alloc (\<lambda>_. None) (Some demo_pool)
      [7 \<mapsto> demo_entry] 3 True = (Some p', h', Some 7)"
    by (simp add: kfastblock_buffer_pool_alloc_def demo_pool_def kfastblock_buffer_pool_init_def)
  have "kvmalloc_ok (\<lambda>_. None) [7 \<mapsto> demo_entry]" by (simp add: kvmalloc_ok_def)
  from buffer_pool_alloc_usable [OF demo_reach this al] al show ?thesis by auto
qed

end
