(* ===== verification/KFB_Pipeline.thy ===== *)
theory KFB_Pipeline
  imports KFB_Prelude
begin

text \<open>
  The exchange table of one request, \<^verbatim>\<open>kfastblock/src/pipeline.c\<close>: a fixed array of entries, each
  linked on the free list or the in-flight list. A \<^verbatim>\<open>list_head\<close> of entries is the list of the
  entries' array indices, so a returned entry pointer is an index. The locale
  \<open>exchange_table\<close> states the contract the transport relies on (a FIFO association list from
  sequence numbers to object indices) and is interpreted on the C operations.
\<close>

record pipeline_entry =
  pe_seq :: u64
  pe_object_index :: u32
  pe_last_error :: int
  pe_response_body_len :: u32
  pe_transport_flags :: u32
  pe_response_status :: int
  pe_service :: u8
  pe_opcode :: u8
  pe_queued_jiffies :: u64
  pe_completed_jiffies :: u64
  pe_active :: bool

record pipeline_snapshot =
  pn_capacity :: u32
  pn_inflight :: u32
  pn_peak_inflight :: u32
  pn_free_entries :: u32
  pn_oldest_inflight_seq :: u64
  pn_newest_inflight_seq :: u64
  pn_oldest_queued_jiffies :: u64
  pn_newest_queued_jiffies :: u64

record pipeline_state =
  ps_free_list :: "nat list"
  ps_inflight_list :: "nat list"
  ps_entries :: "pipeline_entry list"
  ps_capacity :: u32
  ps_inflight :: u32
  ps_peak_inflight :: u32

section \<open>Operations\<close>

text \<open>The value every field is reset to; the old entry is overwritten completely.\<close>

definition kfastblock_pipeline_reset_entry :: "pipeline_entry \<Rightarrow> pipeline_entry" where
  "kfastblock_pipeline_reset_entry e =
     e \<lparr> pe_seq := 0, pe_object_index := 0, pe_last_error := 0, pe_response_body_len := 0,
         pe_transport_flags := 0, pe_response_status := 0, pe_service := 0, pe_opcode := 0,
         pe_queued_jiffies := 0, pe_completed_jiffies := 0, pe_active := False \<rparr>"

definition zero_entry :: pipeline_entry where
  "zero_entry =
     \<lparr> pe_seq = 0, pe_object_index = 0, pe_last_error = 0, pe_response_body_len = 0,
       pe_transport_flags = 0, pe_response_status = 0, pe_service = 0, pe_opcode = 0,
       pe_queued_jiffies = 0, pe_completed_jiffies = 0, pe_active = False \<rparr>"

definition empty_pipeline :: pipeline_state where
  "empty_pipeline =
     \<lparr> ps_free_list = [], ps_inflight_list = [], ps_entries = [], ps_capacity = 0,
       ps_inflight = 0, ps_peak_inflight = 0 \<rparr>"

text \<open>\<open>alloc_ok\<close> says whether \<^verbatim>\<open>kvcalloc\<close> returned memory; \<^verbatim>\<open>kvcalloc\<close> zeroes it.\<close>

definition kfastblock_pipeline_init :: "bool \<Rightarrow> u32 \<Rightarrow> int \<times> pipeline_state" where
  "kfastblock_pipeline_init alloc_ok capacity =
     (if capacity = 0 then (0, empty_pipeline)
      else if \<not> alloc_ok then (- ENOMEM, empty_pipeline)
      else (0, empty_pipeline
        \<lparr> ps_entries := map kfastblock_pipeline_reset_entry (replicate (unat capacity) zero_entry),
          ps_capacity := capacity,
          ps_free_list := [0..<unat capacity] \<rparr>))"

definition kfastblock_pipeline_reset :: "pipeline_state \<Rightarrow> pipeline_state" where
  "kfastblock_pipeline_reset s =
     s \<lparr> ps_free_list := [0..<unat (ps_capacity s)], ps_inflight_list := [],
         ps_inflight := 0, ps_peak_inflight := 0,
         ps_entries := map kfastblock_pipeline_reset_entry (take (unat (ps_capacity s)) (ps_entries s))
                       @ drop (unat (ps_capacity s)) (ps_entries s) \<rparr>"

definition kfastblock_pipeline_cleanup :: "pipeline_state \<Rightarrow> pipeline_state" where
  "kfastblock_pipeline_cleanup s =
     s \<lparr> ps_entries := [], ps_capacity := 0, ps_inflight := 0, ps_peak_inflight := 0,
         ps_free_list := [], ps_inflight_list := [] \<rparr>"

definition kfastblock_pipeline_find_locked :: "pipeline_state \<Rightarrow> u64 \<Rightarrow> nat option" where
  "kfastblock_pipeline_find_locked s sq =
     (if sq = 0 then None
      else List.find (\<lambda>i. pe_active (ps_entries s ! i) \<and> pe_seq (ps_entries s ! i) = sq)
             (ps_inflight_list s))"

definition kfastblock_pipeline_lookup :: "pipeline_state \<Rightarrow> u64 \<Rightarrow> pipeline_entry option" where
  "kfastblock_pipeline_lookup s sq =
     map_option (\<lambda>i. ps_entries s ! i) (kfastblock_pipeline_find_locked s sq)"

definition kfastblock_pipeline_has_seq :: "pipeline_state \<Rightarrow> u64 \<Rightarrow> bool" where
  "kfastblock_pipeline_has_seq s sq \<longleftrightarrow> kfastblock_pipeline_lookup s sq \<noteq> None"

definition kfastblock_pipeline_inflight_entries :: "pipeline_state \<Rightarrow> u32" where
  "kfastblock_pipeline_inflight_entries s = ps_inflight s"

definition kfastblock_pipeline_has_inflight_entries :: "pipeline_state \<Rightarrow> bool" where
  "kfastblock_pipeline_has_inflight_entries s \<longleftrightarrow> kfastblock_pipeline_inflight_entries s \<noteq> 0"

definition kfastblock_pipeline_empty :: "pipeline_state \<Rightarrow> bool" where
  "kfastblock_pipeline_empty s \<longleftrightarrow> kfastblock_pipeline_inflight_entries s = 0"

definition kfastblock_pipeline_full :: "pipeline_state \<Rightarrow> bool" where
  "kfastblock_pipeline_full s \<longleftrightarrow> ps_capacity s \<noteq> 0 \<and> ps_capacity s \<le> ps_inflight s"

text \<open>The free list is counted by walking it with a 32-bit counter.\<close>

definition kfastblock_pipeline_free_entries :: "pipeline_state \<Rightarrow> u32" where
  "kfastblock_pipeline_free_entries s = fold (\<lambda>_ n. n + 1) (ps_free_list s) 0"

definition kfastblock_pipeline_has_free_entries :: "pipeline_state \<Rightarrow> bool" where
  "kfastblock_pipeline_has_free_entries s \<longleftrightarrow> 0 < kfastblock_pipeline_free_entries s"

definition kfastblock_pipeline_spare_capacity :: "pipeline_state \<Rightarrow> u32" where
  "kfastblock_pipeline_spare_capacity s =
     (if ps_inflight s < ps_capacity s then ps_capacity s - ps_inflight s else 0)"

definition kfastblock_pipeline_peak_reached :: "pipeline_state \<Rightarrow> bool" where
  "kfastblock_pipeline_peak_reached s \<longleftrightarrow>
     ps_peak_inflight s \<noteq> 0 \<and> ps_peak_inflight s \<le> ps_inflight s"

text \<open>The fold of the snapshot over the in-flight list; the comparisons of \<^verbatim>\<open>queued_jiffies\<close> are
  plain unsigned ones, as written.\<close>

definition snapshot_step :: "pipeline_entry \<Rightarrow> pipeline_snapshot \<Rightarrow> pipeline_snapshot" where
  "snapshot_step e n =
     (let n1 = (if pn_oldest_inflight_seq n = 0 \<or> pe_queued_jiffies e < pn_oldest_queued_jiffies n
                then n \<lparr> pn_oldest_inflight_seq := pe_seq e,
                         pn_oldest_queued_jiffies := pe_queued_jiffies e \<rparr>
                else n)
      in if pn_newest_queued_jiffies n1 \<le> pe_queued_jiffies e
         then n1 \<lparr> pn_newest_inflight_seq := pe_seq e,
                   pn_newest_queued_jiffies := pe_queued_jiffies e \<rparr>
         else n1)"

definition kfastblock_pipeline_snapshot :: "pipeline_state \<Rightarrow> pipeline_snapshot" where
  "kfastblock_pipeline_snapshot s =
     fold snapshot_step (map (\<lambda>i. ps_entries s ! i) (ps_inflight_list s))
       \<lparr> pn_capacity = ps_capacity s, pn_inflight = ps_inflight s,
         pn_peak_inflight = ps_peak_inflight s,
         pn_free_entries = fold (\<lambda>_ n. n + 1) (ps_free_list s) 0,
         pn_oldest_inflight_seq = 0, pn_newest_inflight_seq = 0,
         pn_oldest_queued_jiffies = 0, pn_newest_queued_jiffies = 0 \<rparr>"

definition kfastblock_pipeline_utilization_pct :: "pipeline_state \<Rightarrow> u32" where
  "kfastblock_pipeline_utilization_pct s =
     (let n = kfastblock_pipeline_snapshot s
      in if pn_capacity n = 0 then 0 else min 100 ((pn_inflight n * 100) div pn_capacity n))"

text \<open>\<open>now\<close> is the value of \<^verbatim>\<open>jiffies\<close>.\<close>

definition kfastblock_pipeline_begin_exchange ::
    "u64 \<Rightarrow> pipeline_state \<Rightarrow> u64 \<Rightarrow> u32 \<Rightarrow> u8 \<Rightarrow> u8 \<Rightarrow> pipeline_state \<times> nat option" where
  "kfastblock_pipeline_begin_exchange now s sq object_index service opcode =
     (if sq = 0 then (s, None)
      else case ps_free_list s of
        [] \<Rightarrow> (s, None)
      | i # fl \<Rightarrow>
          (let e = (ps_entries s ! i)
                 \<lparr> pe_seq := sq, pe_object_index := object_index, pe_last_error := 0,
                   pe_response_body_len := 0, pe_transport_flags := 0, pe_response_status := 0,
                   pe_service := service, pe_opcode := opcode, pe_queued_jiffies := now,
                   pe_completed_jiffies := 0, pe_active := True \<rparr>;
               n = ps_inflight s + 1
           in (s \<lparr> ps_free_list := fl, ps_entries := (ps_entries s)[i := e],
                   ps_inflight_list := ps_inflight_list s @ [i], ps_inflight := n,
                   ps_peak_inflight := (if ps_peak_inflight s < n then n else ps_peak_inflight s) \<rparr>,
               Some i)))"

definition kfastblock_pipeline_enqueue ::
    "u64 \<Rightarrow> pipeline_state \<Rightarrow> u64 \<Rightarrow> u32 \<Rightarrow> pipeline_state \<times> nat option" where
  "kfastblock_pipeline_enqueue now s sq object_index =
     kfastblock_pipeline_begin_exchange now s sq object_index 0 0"

definition kfastblock_pipeline_finish_exchange ::
    "u64 \<Rightarrow> pipeline_state \<Rightarrow> u64 \<Rightarrow> int \<Rightarrow> int \<Rightarrow> u32 \<Rightarrow> u32 \<Rightarrow> pipeline_state \<times> nat option" where
  "kfastblock_pipeline_finish_exchange now s sq ret response_status response_body_len flags =
     (if sq = 0 then (s, None)
      else case kfastblock_pipeline_find_locked s sq of
        None \<Rightarrow> (s, None)
      | Some i \<Rightarrow>
          (let e = (ps_entries s ! i)
                 \<lparr> pe_last_error := ret, pe_response_status := response_status,
                   pe_response_body_len := response_body_len, pe_transport_flags := flags,
                   pe_completed_jiffies := now, pe_active := False \<rparr>
           in (s \<lparr> ps_inflight_list := remove1 i (ps_inflight_list s),
                   ps_entries := (ps_entries s)[i := e],
                   ps_inflight := (if ps_inflight s \<noteq> 0 then ps_inflight s - 1 else ps_inflight s),
                   ps_free_list := ps_free_list s @ [i] \<rparr>,
               Some i)))"

definition kfastblock_pipeline_complete ::
    "u64 \<Rightarrow> pipeline_state \<Rightarrow> u64 \<Rightarrow> int \<Rightarrow> pipeline_state \<times> nat option" where
  "kfastblock_pipeline_complete now s sq ret =
     kfastblock_pipeline_finish_exchange now s sq ret ret 0 0"

section \<open>The contract: a FIFO association list\<close>

fun del_first :: "'k \<Rightarrow> ('k \<times> 'v) list \<Rightarrow> ('k \<times> 'v) list" where
  "del_first k [] = []"
| "del_first k ((k', v) # xs) = (if k' = k then xs else (k', v) # del_first k xs)"

lemma del_first_notin [simp]: "k \<notin> fst ` set xs \<Longrightarrow> del_first k xs = xs"
  by (induction k xs rule: del_first.induct) auto

lemma map_of_del_first_other [simp]: "k' \<noteq> k \<Longrightarrow> map_of (del_first k xs) k' = map_of xs k'"
  by (induction k xs rule: del_first.induct) auto

lemma map_of_del_first_distinct:
  "distinct (map fst xs) \<Longrightarrow> map_of (del_first k xs) k = None"
  by (induction k xs rule: del_first.induct) (auto simp: map_of_eq_None_iff)

lemma set_del_first: "set (del_first k xs) \<subseteq> set xs"
  by (induction k xs rule: del_first.induct) auto

lemma distinct_del_first: "distinct (map fst xs) \<Longrightarrow> distinct (map fst (del_first k xs))"
proof (induction k xs rule: del_first.induct)
  case (2 k k' v xs)
  then show ?case using set_del_first [of k xs] by auto
qed simp

locale exchange_table =
  fixes inv :: "'s \<Rightarrow> bool"
    and abs :: "'s \<Rightarrow> (u64 \<times> u32) list"
    and cap :: "'s \<Rightarrow> nat"
    and start :: "'s \<Rightarrow> u64 \<Rightarrow> u32 \<Rightarrow> 's \<times> bool"
    and finish :: "'s \<Rightarrow> u64 \<Rightarrow> 's \<times> bool"
    and find :: "'s \<Rightarrow> u64 \<Rightarrow> u32 option"
  assumes bounded: "inv s \<Longrightarrow> length (abs s) \<le> cap s"
    and nonzero: "inv s \<Longrightarrow> 0 \<notin> fst ` set (abs s)"
    and start_inv: "inv s \<Longrightarrow> inv (fst (start s q i))"
    and start_cap: "inv s \<Longrightarrow> cap (fst (start s q i)) = cap s"
    and start_abs: "inv s \<Longrightarrow> abs (fst (start s q i)) =
          (if q \<noteq> 0 \<and> length (abs s) < cap s then abs s @ [(q, i)] else abs s)"
    and start_res: "inv s \<Longrightarrow> snd (start s q i) \<longleftrightarrow> q \<noteq> 0 \<and> length (abs s) < cap s"
    and finish_inv: "inv s \<Longrightarrow> inv (fst (finish s q))"
    and finish_cap: "inv s \<Longrightarrow> cap (fst (finish s q)) = cap s"
    and finish_abs: "inv s \<Longrightarrow> abs (fst (finish s q)) = del_first q (abs s)"
    and finish_res: "inv s \<Longrightarrow> snd (finish s q) \<longleftrightarrow> q \<in> fst ` set (abs s)"
    and find_abs: "inv s \<Longrightarrow> find s q = map_of (abs s) q"
begin

lemma find_started:
  assumes "inv s" "snd (start s q i)" "find s q = None"
  shows "find (fst (start s q i)) q = Some i"
  using assms by (simp add: find_abs start_inv start_abs start_res map_add_def)

lemma find_start_other:
  assumes "inv s" "q' \<noteq> q"
  shows "find (fst (start s q i)) q' = find s q'"
  using assms by (auto simp: find_abs start_inv start_abs map_add_def split: option.splits)

text \<open>A second exchange under a live sequence number is accepted but shadowed by the first.\<close>

lemma find_shadowed:
  assumes "inv s" "find s q = Some j"
  shows "find (fst (start s q i)) q = Some j"
  using assms by (auto simp: find_abs start_inv start_abs map_add_def split: option.splits)

lemma find_finished:
  assumes "inv s" "distinct (map fst (abs s))"
  shows "find (fst (finish s q)) q = None"
  using assms by (simp add: find_abs finish_inv finish_abs map_of_del_first_distinct)

lemma find_finish_other:
  assumes "inv s" "q' \<noteq> q"
  shows "find (fst (finish s q)) q' = find s q'"
  using assms by (simp add: find_abs finish_inv finish_abs)

text \<open>Sequences of exchanges: operations are starts and finishes in any order.\<close>

fun run_ops :: "'s \<Rightarrow> (u64 \<times> u32 + u64) list \<Rightarrow> 's" where
  "run_ops s [] = s"
| "run_ops s (Inl (q, i) # ops) = run_ops (fst (start s q i)) ops"
| "run_ops s (Inr q # ops) = run_ops (fst (finish s q)) ops"

lemma run_ops_inv: "inv s \<Longrightarrow> inv (run_ops s ops) \<and> cap (run_ops s ops) = cap s"
  by (induction s ops rule: run_ops.induct) (auto simp: start_inv finish_inv start_cap finish_cap)

end

section \<open>Invariant\<close>

definition pipeline_ok :: "pipeline_state \<Rightarrow> bool" where
  "pipeline_ok s \<longleftrightarrow>
     length (ps_entries s) = unat (ps_capacity s) \<and>
     distinct (ps_free_list s @ ps_inflight_list s) \<and>
     set (ps_free_list s @ ps_inflight_list s) = {..<length (ps_entries s)} \<and>
     unat (ps_inflight s) = length (ps_inflight_list s) \<and>
     ps_inflight s \<le> ps_peak_inflight s \<and> ps_peak_inflight s \<le> ps_capacity s \<and>
     (\<forall>i \<in> set (ps_inflight_list s). pe_active (ps_entries s ! i) \<and> pe_seq (ps_entries s ! i) \<noteq> 0) \<and>
     (\<forall>i \<in> set (ps_free_list s). \<not> pe_active (ps_entries s ! i))"

definition pipeline_abs :: "pipeline_state \<Rightarrow> (u64 \<times> u32) list" where
  "pipeline_abs s =
     map (\<lambda>i. (pe_seq (ps_entries s ! i), pe_object_index (ps_entries s ! i))) (ps_inflight_list s)"

lemma pipeline_ok_count:
  assumes "pipeline_ok s"
  shows "length (ps_free_list s) + length (ps_inflight_list s) = unat (ps_capacity s)"
proof -
  have "card (set (ps_free_list s @ ps_inflight_list s)) = length (ps_free_list s @ ps_inflight_list s)"
    using assms unfolding pipeline_ok_def by (intro distinct_card) simp
  then show ?thesis using assms unfolding pipeline_ok_def by simp
qed

lemma init_ok: "pipeline_ok (snd (kfastblock_pipeline_init alloc_ok capacity))"
  by (auto simp: kfastblock_pipeline_init_def pipeline_ok_def empty_pipeline_def
      kfastblock_pipeline_reset_entry_def zero_entry_def)

lemma reset_ok [kfb_inv]: "pipeline_ok s \<Longrightarrow> pipeline_ok (kfastblock_pipeline_reset s)"
  by (auto simp: kfastblock_pipeline_reset_def pipeline_ok_def kfastblock_pipeline_reset_entry_def)

lemma cleanup_ok [kfb_inv]: "pipeline_ok (kfastblock_pipeline_cleanup s)"
  by (simp add: kfastblock_pipeline_cleanup_def pipeline_ok_def)

lemma begin_ok [kfb_inv]:
  assumes "pipeline_ok s"
  shows "pipeline_ok (fst (kfastblock_pipeline_begin_exchange now s q i sv oc))"
proof (cases "q = 0 \<or> ps_free_list s = []")
  case True
  then show ?thesis
    using assms by (auto simp: kfastblock_pipeline_begin_exchange_def split: list.splits)
next
  case False
  then obtain k fl where fl: "ps_free_list s = k # fl" "q \<noteq> 0" by (cases "ps_free_list s") auto
  have "length (ps_inflight_list s) < unat (ps_capacity s)"
    using pipeline_ok_count [OF assms] fl by simp
  then have lt: "ps_inflight s < ps_capacity s"
    using assms by (simp add: pipeline_ok_def word_less_nat_alt)
  have k: "k < length (ps_entries s)" and neq: "\<And>j. j \<in> set fl \<union> set (ps_inflight_list s) \<Longrightarrow> k \<noteq> j"
    using assms fl by (auto simp: pipeline_ok_def)
  show ?thesis
    using assms fl k neq unat_inc_less [OF lt] inc_le [OF lt]
    unfolding pipeline_ok_def kfastblock_pipeline_begin_exchange_def
    by (auto simp: Let_def nth_list_update split: if_splits)
qed

lemma find_locked_Some:
  assumes "kfastblock_pipeline_find_locked s q = Some i"
  shows "i \<in> set (ps_inflight_list s) \<and> pe_seq (ps_entries s ! i) = q \<and> q \<noteq> 0"
  using assms by (auto simp: kfastblock_pipeline_find_locked_def find_Some_iff split: if_splits)

lemma finish_ok [kfb_inv]:
  assumes "pipeline_ok s"
  shows "pipeline_ok (fst (kfastblock_pipeline_finish_exchange now s q r rs bl fl))"
proof (cases "kfastblock_pipeline_find_locked s q")
  case None
  then show ?thesis using assms by (simp add: kfastblock_pipeline_finish_exchange_def)
next
  case (Some i)
  note f = find_locked_Some [OF Some]
  then have pos: "0 < unat (ps_inflight s)"
    using assms by (auto simp: pipeline_ok_def)
  then have nz: "ps_inflight s \<noteq> 0" by auto
  have "ps_inflight s - 1 \<le> ps_inflight s"
    by (simp add: word_le_nat_alt unat_dec [OF pos])
  moreover have "distinct (remove1 i (ps_inflight_list s))" "i \<notin> set (ps_free_list s)"
    using assms f by (auto simp: pipeline_ok_def)
  moreover have "set (remove1 i (ps_inflight_list s)) = set (ps_inflight_list s) - {i}"
    using assms by (intro set_remove1_eq) (simp add: pipeline_ok_def)
  moreover have "\<And>j. j \<in> set (ps_free_list s) \<Longrightarrow> i \<noteq> j" "i < length (ps_entries s)"
    using assms f by (auto simp: pipeline_ok_def)
  ultimately show ?thesis
    using assms f Some nz unat_dec [OF pos]
    unfolding pipeline_ok_def kfastblock_pipeline_finish_exchange_def
    by (auto simp: Let_def length_remove1 nth_list_update)
qed

section \<open>Refinement\<close>

lemma begin_capacity [simp]:
  "ps_capacity (fst (kfastblock_pipeline_begin_exchange now s q i sv oc)) = ps_capacity s"
  by (simp add: kfastblock_pipeline_begin_exchange_def Let_def split: list.split)

lemma finish_capacity [simp]:
  "ps_capacity (fst (kfastblock_pipeline_finish_exchange now s q r rs bl fl)) = ps_capacity s"
  by (simp add: kfastblock_pipeline_finish_exchange_def Let_def split: option.split)

lemma free_list_empty_iff:
  assumes "pipeline_ok s"
  shows "ps_free_list s = [] \<longleftrightarrow> \<not> length (pipeline_abs s) < unat (ps_capacity s)"
  using pipeline_ok_count [OF assms] by (cases "ps_free_list s") (auto simp: pipeline_abs_def)

lemma begin_result:
  assumes "pipeline_ok s"
  shows "snd (kfastblock_pipeline_begin_exchange now s q i sv oc) \<noteq> None
           \<longleftrightarrow> q \<noteq> 0 \<and> length (pipeline_abs s) < unat (ps_capacity s)"
  using free_list_empty_iff [OF assms]
  by (auto simp: kfastblock_pipeline_begin_exchange_def Let_def split: list.splits)

lemma begin_abs:
  assumes "pipeline_ok s"
  shows "pipeline_abs (fst (kfastblock_pipeline_begin_exchange now s q i sv oc)) =
     (if q \<noteq> 0 \<and> length (pipeline_abs s) < unat (ps_capacity s)
      then pipeline_abs s @ [(q, i)] else pipeline_abs s)"
proof (cases "q \<noteq> 0 \<and> ps_free_list s \<noteq> []")
  case True
  then obtain k fl where fl: "ps_free_list s = k # fl" by (cases "ps_free_list s") auto
  have "k < length (ps_entries s)" and "\<And>j. j \<in> set (ps_inflight_list s) \<Longrightarrow> k \<noteq> j"
    using assms fl by (auto simp: pipeline_ok_def)
  then show ?thesis
    using True fl free_list_empty_iff [OF assms]
    by (simp add: kfastblock_pipeline_begin_exchange_def Let_def pipeline_abs_def)
next
  case False
  then show ?thesis
    using free_list_empty_iff [OF assms]
    by (auto simp: kfastblock_pipeline_begin_exchange_def split: list.splits)
qed

lemma find_map_of:
  assumes "\<forall>i \<in> set is. pe_active (es ! i)"
  shows "map_option (\<lambda>i. pe_object_index (es ! i))
           (List.find (\<lambda>i. pe_active (es ! i) \<and> pe_seq (es ! i) = q) is) =
         map_of (map (\<lambda>i. (pe_seq (es ! i), pe_object_index (es ! i))) is) q"
  using assms by (induction "is") auto

lemma lookup_abs:
  assumes "pipeline_ok s"
  shows "map_option pe_object_index (kfastblock_pipeline_lookup s q) = map_of (pipeline_abs s) q"
proof (cases "q = 0")
  case True
  then have "q \<notin> fst ` set (pipeline_abs s)"
    using assms by (auto simp: pipeline_abs_def pipeline_ok_def)
  then have "map_of (pipeline_abs s) q = None" by (simp add: map_of_eq_None_iff)
  then show ?thesis
    using True by (simp add: kfastblock_pipeline_lookup_def kfastblock_pipeline_find_locked_def)
next
  case False
  then show ?thesis
    using assms find_map_of [of "ps_inflight_list s" "ps_entries s" q]
    by (simp add: kfastblock_pipeline_lookup_def kfastblock_pipeline_find_locked_def
        pipeline_abs_def pipeline_ok_def option.map_comp o_def)
qed

lemma find_locked_None_abs:
  assumes "pipeline_ok s"
  shows "kfastblock_pipeline_find_locked s q = None \<longleftrightarrow> q \<notin> fst ` set (pipeline_abs s)"
  using lookup_abs [OF assms, of q]
  by (metis kfastblock_pipeline_lookup_def map_of_eq_None_iff option.map_disc_iff)

lemma del_first_find:
  assumes "distinct is" "\<forall>i \<in> set is. pe_active (es ! i)"
    and "List.find (\<lambda>i. pe_active (es ! i) \<and> pe_seq (es ! i) = q) is = Some k"
  shows "map (\<lambda>i. (pe_seq (es ! i), pe_object_index (es ! i))) (remove1 k is) =
         del_first q (map (\<lambda>i. (pe_seq (es ! i), pe_object_index (es ! i))) is)"
  using assms by (induction "is") (auto simp: find_Some_iff split: if_splits)

lemma finish_abs:
  assumes "pipeline_ok s"
  shows "pipeline_abs (fst (kfastblock_pipeline_finish_exchange now s q r rs bl fl)) =
         del_first q (pipeline_abs s)"
proof (cases "kfastblock_pipeline_find_locked s q")
  case None
  then show ?thesis
    using find_locked_None_abs [OF assms, of q]
    by (simp add: kfastblock_pipeline_finish_exchange_def)
next
  case (Some k)
  let ?l = "remove1 k (ps_inflight_list s)"
  have d: "distinct (ps_inflight_list s)" "\<forall>i \<in> set (ps_inflight_list s). pe_active (ps_entries s ! i)"
    and q: "q \<noteq> 0" using assms Some find_locked_Some by (auto simp: pipeline_ok_def)
  have keep: "map (\<lambda>i. (pe_seq ((ps_entries s)[k := e] ! i), pe_object_index ((ps_entries s)[k := e] ! i))) ?l =
        map (\<lambda>i. (pe_seq (ps_entries s ! i), pe_object_index (ps_entries s ! i))) ?l" for e
    using d(1) by (intro map_cong) auto
  have "pipeline_abs (fst (kfastblock_pipeline_finish_exchange now s q r rs bl fl)) =
        map (\<lambda>i. (pe_seq (ps_entries s ! i), pe_object_index (ps_entries s ! i))) ?l"
    using Some q keep
    by (simp add: pipeline_abs_def kfastblock_pipeline_finish_exchange_def Let_def)
  also have "\<dots> = del_first q (pipeline_abs s)"
    unfolding pipeline_abs_def using d Some q
    by (intro del_first_find) (auto simp: kfastblock_pipeline_find_locked_def)
  finally show ?thesis .
qed

lemma finish_result:
  assumes "pipeline_ok s"
  shows "snd (kfastblock_pipeline_finish_exchange now s q r rs bl fl) \<noteq> None
           \<longleftrightarrow> q \<in> fst ` set (pipeline_abs s)"
  using find_locked_None_abs [OF assms, of q] find_locked_Some [of s q]
  by (auto simp: kfastblock_pipeline_finish_exchange_def Let_def split: option.splits)

interpretation pl: exchange_table pipeline_ok pipeline_abs "\<lambda>s. unat (ps_capacity s)"
    "\<lambda>s q i. map_prod id (\<lambda>r. r \<noteq> None) (kfastblock_pipeline_begin_exchange now s q i sv oc)"
    "\<lambda>s q. map_prod id (\<lambda>r. r \<noteq> None) (kfastblock_pipeline_finish_exchange now s q r rs bl fl)"
    "\<lambda>s q. map_option pe_object_index (kfastblock_pipeline_lookup s q)"
  for now sv oc r rs bl fl
proof (standard, goal_cases)
  case (1 s)
  then show ?case using pipeline_ok_count [OF 1] by (simp add: pipeline_abs_def)
next
  case (2 s)
  then show ?case by (auto simp: pipeline_abs_def pipeline_ok_def)
next
  case (5 s q i)
  then show ?case by (simp add: begin_abs)
qed (use begin_result finish_result in \<open>auto simp: begin_ok finish_ok finish_abs lookup_abs\<close>)

lemma fold_count: "fold (\<lambda>_ n. n + 1) xs (n :: u32) = n + of_nat (length xs)"
  by (induction xs arbitrary: n) (auto simp: algebra_simps)

lemma free_entries_count:
  assumes "pipeline_ok s"
  shows "unat (kfastblock_pipeline_free_entries s) = length (ps_free_list s)"
proof -
  have "length (ps_free_list s) < 2 ^ 32"
    using pipeline_ok_count [OF assms] unat_u32_bound [of "ps_capacity s"] by simp
  then show ?thesis
    by (simp add: kfastblock_pipeline_free_entries_def fold_count unat_of_nat_small)
qed

section \<open>Properties\<close>

text \<open>
  C13. The exchange table refines a FIFO association list: beginning an exchange appends
  (sequence number, object) exactly when the number is non-zero and an entry is free, finishing
  removes the oldest exchange with that number, looking up finds the oldest one, and both
  operations keep the entry array and the two lists consistent.
\<close>

theorem pipeline_refines_alist:
  assumes "pipeline_ok s"
  shows "pipeline_ok (fst (kfastblock_pipeline_begin_exchange now s q i sv oc)) \<and>
         pipeline_ok (fst (kfastblock_pipeline_finish_exchange now s q r rs bl fl)) \<and>
         pipeline_abs (fst (kfastblock_pipeline_begin_exchange now s q i sv oc)) =
           (if q \<noteq> 0 \<and> length (pipeline_abs s) < unat (ps_capacity s)
            then pipeline_abs s @ [(q, i)] else pipeline_abs s) \<and>
         pipeline_abs (fst (kfastblock_pipeline_finish_exchange now s q r rs bl fl)) =
           del_first q (pipeline_abs s) \<and>
         map_option pe_object_index (kfastblock_pipeline_lookup s q) = map_of (pipeline_abs s) q"
  using assms begin_abs [OF assms] finish_abs [OF assms] lookup_abs [OF assms]
  by (auto intro: kfb_inv)


section \<open>Witnesses\<close>

definition demo_pipeline :: pipeline_state where
  "demo_pipeline = fst (kfastblock_pipeline_begin_exchange 10
     (snd (kfastblock_pipeline_init True 2)) 7 1 2 3)"

lemma demo_pipeline_ok: "pipeline_ok demo_pipeline"
  by (simp add: demo_pipeline_def begin_ok init_ok)

theorem pipeline_refines_alist_witness:
  "pipeline_abs demo_pipeline = [(7, 1)] \<and>
   pipeline_abs (fst (kfastblock_pipeline_begin_exchange 11 demo_pipeline 8 0 2 3)) = [(7, 1), (8, 0)]"
proof -
  have *: "pipeline_abs demo_pipeline = [(7, 1)]" "ps_capacity demo_pipeline = 2"
    by (simp_all add: demo_pipeline_def kfastblock_pipeline_begin_exchange_def
        kfastblock_pipeline_init_def pipeline_abs_def empty_pipeline_def Let_def upt_rec)
  then show ?thesis
    using pipeline_refines_alist [OF demo_pipeline_ok, of 11 8 0 2 3] by simp
qed


end
