(* ===== verification/KFB_Scheduler.thy ===== *)
theory KFB_Scheduler
  imports KFB_Prelude
begin

text \<open>
  The dispatch window controller, \<^verbatim>\<open>kfastblock/src/scheduler.c\<close>: additive increase on success,
  halving on retry and on dispatch failure, a pressure policy with a cool-down. \<open>now\<close> is
  \<^verbatim>\<open>jiffies\<close> and \<open>m2j\<close> is \<^verbatim>\<open>msecs_to_jiffies\<close>. The policy is stored as the byte the source stores;
  an enum argument is a 32-bit value so that out-of-range values stay expressible. The locale
  \<open>window_controller\<close> is the contract request dispatch relies on: a window that is always
  within its bounds.
\<close>

abbreviation (input) KFASTBLOCK_SCHED_POLICY_STATIC :: "'a::len word" where
  "KFASTBLOCK_SCHED_POLICY_STATIC \<equiv> 0"
abbreviation (input) KFASTBLOCK_SCHED_POLICY_ADAPTIVE :: "'a::len word" where
  "KFASTBLOCK_SCHED_POLICY_ADAPTIVE \<equiv> 1"
abbreviation (input) KFASTBLOCK_SCHED_POLICY_PRESSURE :: "'a::len word" where
  "KFASTBLOCK_SCHED_POLICY_PRESSURE \<equiv> 2"

record scheduler_sample =
  ss_inflight_ios :: u32
  ss_request_objects :: u32
  ss_base_window :: u32
  ss_controller_window :: u32
  ss_pressure_window :: u32
  ss_effective_window :: u32
  ss_cooldown_active :: bool
  ss_policy :: u8

record scheduler_controller =
  sc_base_window :: u32
  sc_current_window :: u32
  sc_min_window :: u32
  sc_max_window :: u32
  sc_pressure_inflight_limit :: u32
  sc_cooldown_ms :: u32
  sc_consecutive_successes :: u32
  sc_shrink_events :: u32
  sc_grow_events :: u32
  sc_retry_events :: u32
  sc_dispatch_failures :: u32
  sc_sample_events :: u32
  sc_pressure_limited_samples :: u32
  sc_cooldown_limited_samples :: u32
  sc_cooldown_events :: u32
  sc_last_sample_inflight_ios :: u32
  sc_last_sample_request_objects :: u32
  sc_last_sample_controller_window :: u32
  sc_last_sample_pressure_window :: u32
  sc_last_sample_effective_window :: u32
  sc_cooldown_until_jiffies :: u64
  sc_policy :: u8
  sc_dynamic_enabled :: bool

section \<open>Operations\<close>

definition kfastblock_scheduler_clamp_window :: "u32 \<Rightarrow> u32 \<Rightarrow> u32 \<Rightarrow> u32" where
  "kfastblock_scheduler_clamp_window window min_window max_window =
     (let mn = (if min_window = 0 then 1 else min_window);
          mx0 = (if max_window = 0 then mn else max_window);
          mx = (if mx0 < mn then mn else mx0)
      in if window < mn then mn else if mx < window then mx else window)"

definition kfastblock_scheduler_policy_name :: "u32 \<Rightarrow> string" where
  "kfastblock_scheduler_policy_name policy =
     (if policy = KFASTBLOCK_SCHED_POLICY_STATIC then ''static''
      else if policy = KFASTBLOCK_SCHED_POLICY_ADAPTIVE then ''adaptive''
      else if policy = KFASTBLOCK_SCHED_POLICY_PRESSURE then ''pressure''
      else ''unknown'')"

definition kfastblock_scheduler_clamp_policy :: "u32 \<Rightarrow> u32" where
  "kfastblock_scheduler_clamp_policy policy =
     (if policy = KFASTBLOCK_SCHED_POLICY_STATIC \<or> policy = KFASTBLOCK_SCHED_POLICY_ADAPTIVE \<or>
         policy = KFASTBLOCK_SCHED_POLICY_PRESSURE
      then policy else KFASTBLOCK_SCHED_POLICY_ADAPTIVE)"

definition kfastblock_scheduler_is_cooldown_active_locked ::
    "u64 \<Rightarrow> scheduler_controller \<Rightarrow> bool" where
  "kfastblock_scheduler_is_cooldown_active_locked now c \<longleftrightarrow>
     sc_cooldown_ms c \<noteq> 0 \<and> time_before now (sc_cooldown_until_jiffies c)"

definition kfastblock_scheduler_activate_cooldown_locked ::
    "(u32 \<Rightarrow> u64) \<Rightarrow> u64 \<Rightarrow> scheduler_controller \<Rightarrow> scheduler_controller" where
  "kfastblock_scheduler_activate_cooldown_locked m2j now c =
     (if sc_cooldown_ms c = 0 \<or> sc_policy c \<noteq> KFASTBLOCK_SCHED_POLICY_PRESSURE \<or>
         \<not> sc_dynamic_enabled c
      then c
      else c \<lparr> sc_cooldown_until_jiffies := now + m2j (sc_cooldown_ms c),
               sc_cooldown_events := sc_cooldown_events c + 1 \<rparr>)"

text \<open>Returns the window and the two out-flags \<^verbatim>\<open>pressure_limited\<close> and \<^verbatim>\<open>cooldown_limited\<close>.\<close>

definition kfastblock_scheduler_limit_for_pressure_locked ::
    "scheduler_controller \<Rightarrow> u32 \<Rightarrow> u32 \<Rightarrow> bool \<Rightarrow> u32 \<times> bool \<times> bool" where
  "kfastblock_scheduler_limit_for_pressure_locked c window inflight_ios cooldown_active =
     (let limited = kfastblock_scheduler_clamp_window (if window \<noteq> 0 then window else 1)
                      (sc_min_window c) (sc_max_window c);
          (limited, pressure_limited) =
            (if sc_pressure_inflight_limit c \<noteq> 0 \<and> sc_pressure_inflight_limit c < inflight_ios then
               (let over = inflight_ios - sc_pressure_inflight_limit c;
                    reduced = (if limited \<le> over then sc_min_window c
                               else max (limited - over) (sc_min_window c))
                in if reduced < limited then (reduced, True) else (limited, False))
             else (limited, False));
          (limited, cooldown_limited) =
            (if cooldown_active \<and> sc_min_window c < limited then
               (let cooled = max (limited div 2) (sc_min_window c)
                in if cooled < limited then (cooled, True) else (limited, False))
             else (limited, False))
      in (kfastblock_scheduler_clamp_window limited (sc_min_window c) (sc_max_window c),
          pressure_limited, cooldown_limited))"

definition kfastblock_scheduler_init :: "u32 \<Rightarrow> u32 \<Rightarrow> u32 \<Rightarrow> scheduler_controller" where
  "kfastblock_scheduler_init base_window min_window max_window =
     (let mn = (if min_window \<noteq> 0 then min_window else 1);
          mx = (if max_window \<noteq> 0 then max_window else mn);
          base = kfastblock_scheduler_clamp_window
                   (if base_window \<noteq> 0 then base_window else mn) mn mx
      in \<lparr> sc_base_window = base, sc_current_window = base,
           sc_min_window = mn, sc_max_window = mx,
           sc_pressure_inflight_limit = max (base * 2) mn, sc_cooldown_ms = 250,
           sc_consecutive_successes = 0, sc_shrink_events = 0, sc_grow_events = 0,
           sc_retry_events = 0, sc_dispatch_failures = 0, sc_sample_events = 0,
           sc_pressure_limited_samples = 0, sc_cooldown_limited_samples = 0,
           sc_cooldown_events = 0, sc_last_sample_inflight_ios = 0,
           sc_last_sample_request_objects = 0, sc_last_sample_controller_window = base,
           sc_last_sample_pressure_window = base, sc_last_sample_effective_window = base,
           sc_cooldown_until_jiffies = 0, sc_policy = KFASTBLOCK_SCHED_POLICY_ADAPTIVE,
           sc_dynamic_enabled = True \<rparr>)"

definition kfastblock_scheduler_set_base_window ::
    "scheduler_controller \<Rightarrow> u32 \<Rightarrow> scheduler_controller" where
  "kfastblock_scheduler_set_base_window c base_window =
     (let base = kfastblock_scheduler_clamp_window
                   (if base_window \<noteq> 0 then base_window else sc_min_window c)
                   (sc_min_window c) (sc_max_window c)
      in c \<lparr> sc_base_window := base,
             sc_current_window := kfastblock_scheduler_clamp_window (sc_current_window c)
                                    (sc_min_window c) base,
             sc_consecutive_successes := 0 \<rparr>)"

definition kfastblock_scheduler_set_policy ::
    "scheduler_controller \<Rightarrow> u32 \<Rightarrow> scheduler_controller" where
  "kfastblock_scheduler_set_policy c policy =
     (let c1 = c \<lparr> sc_policy := ucast (kfastblock_scheduler_clamp_policy policy) \<rparr>
      in if sc_policy c1 = KFASTBLOCK_SCHED_POLICY_STATIC
         then c1 \<lparr> sc_current_window := sc_base_window c1, sc_consecutive_successes := 0,
                   sc_cooldown_until_jiffies := 0 \<rparr>
         else c1)"

definition kfastblock_scheduler_set_pressure_inflight_limit ::
    "scheduler_controller \<Rightarrow> u32 \<Rightarrow> scheduler_controller" where
  "kfastblock_scheduler_set_pressure_inflight_limit c inflight_limit =
     c \<lparr> sc_pressure_inflight_limit := inflight_limit \<rparr>"

definition kfastblock_scheduler_set_cooldown_ms ::
    "scheduler_controller \<Rightarrow> u32 \<Rightarrow> scheduler_controller" where
  "kfastblock_scheduler_set_cooldown_ms c cooldown_ms =
     (let c1 = c \<lparr> sc_cooldown_ms := cooldown_ms \<rparr>
      in if cooldown_ms = 0 then c1 \<lparr> sc_cooldown_until_jiffies := 0 \<rparr> else c1)"

definition kfastblock_scheduler_set_dynamic_enabled ::
    "scheduler_controller \<Rightarrow> bool \<Rightarrow> scheduler_controller" where
  "kfastblock_scheduler_set_dynamic_enabled c enabled =
     (let c1 = c \<lparr> sc_dynamic_enabled := enabled \<rparr>
      in if \<not> enabled
         then c1 \<lparr> sc_current_window := sc_base_window c1, sc_consecutive_successes := 0,
                   sc_cooldown_until_jiffies := 0 \<rparr>
         else c1)"

definition kfastblock_scheduler_sample_window ::
    "u64 \<Rightarrow> scheduler_controller \<Rightarrow> u32 \<Rightarrow> u32 \<Rightarrow> u32 \<times> scheduler_sample \<times> scheduler_controller" where
  "kfastblock_scheduler_sample_window now c inflight_ios request_objects =
     (let window = (if sc_dynamic_enabled c then sc_current_window c else sc_base_window c);
          policy = (if sc_dynamic_enabled c
                    then kfastblock_scheduler_clamp_policy (ucast (sc_policy c))
                    else KFASTBLOCK_SCHED_POLICY_STATIC);
          cooldown_active = (policy = KFASTBLOCK_SCHED_POLICY_PRESSURE \<and>
                             kfastblock_scheduler_is_cooldown_active_locked now c);
          (pressure_window, pressure_limited, cooldown_limited) =
            (if policy = KFASTBLOCK_SCHED_POLICY_PRESSURE
             then kfastblock_scheduler_limit_for_pressure_locked c window inflight_ios cooldown_active
             else (window, False, False));
          effective0 = (if pressure_window \<noteq> 0 then pressure_window else 1);
          effective1 = (if request_objects \<noteq> 0 then min effective0 request_objects else effective0);
          effective = kfastblock_scheduler_clamp_window effective1 (sc_min_window c) (sc_max_window c)
      in (if effective \<noteq> 0 then effective else 1,
          \<lparr> ss_inflight_ios = inflight_ios, ss_request_objects = request_objects,
            ss_base_window = sc_base_window c, ss_controller_window = window,
            ss_pressure_window = pressure_window, ss_effective_window = effective,
            ss_cooldown_active = cooldown_active, ss_policy = ucast policy \<rparr>,
          c \<lparr> sc_sample_events := sc_sample_events c + 1,
              sc_pressure_limited_samples :=
                (if pressure_limited then sc_pressure_limited_samples c + 1
                 else sc_pressure_limited_samples c),
              sc_cooldown_limited_samples :=
                (if cooldown_limited then sc_cooldown_limited_samples c + 1
                 else sc_cooldown_limited_samples c),
              sc_last_sample_inflight_ios := inflight_ios,
              sc_last_sample_request_objects := request_objects,
              sc_last_sample_controller_window := window,
              sc_last_sample_pressure_window := pressure_window,
              sc_last_sample_effective_window := effective \<rparr>))"

definition kfastblock_scheduler_note_success :: "scheduler_controller \<Rightarrow> scheduler_controller" where
  "kfastblock_scheduler_note_success c =
     (if \<not> sc_dynamic_enabled c \<or> sc_policy c = KFASTBLOCK_SCHED_POLICY_STATIC \<or>
         sc_base_window c \<le> sc_current_window c
      then c \<lparr> sc_consecutive_successes := 0 \<rparr>
      else (let successes = sc_consecutive_successes c + 1;
                grow_threshold = max (sc_current_window c) 1
            in if grow_threshold \<le> successes
               then c \<lparr> sc_current_window := min (sc_current_window c + 1) (sc_base_window c),
                        sc_grow_events := sc_grow_events c + 1,
                        sc_consecutive_successes := 0 \<rparr>
               else c \<lparr> sc_consecutive_successes := successes \<rparr>))"

text \<open>The common tail of \<^verbatim>\<open>note_retry\<close> and \<^verbatim>\<open>note_dispatch_failure\<close>, written twice in the source.\<close>

definition shrink_window :: "scheduler_controller \<Rightarrow> scheduler_controller" where
  "shrink_window c =
     (if \<not> sc_dynamic_enabled c \<or> sc_policy c = KFASTBLOCK_SCHED_POLICY_STATIC \<or>
         sc_current_window c \<le> sc_min_window c
      then c
      else (let next_window = max (sc_current_window c div 2) (sc_min_window c)
            in if next_window < sc_current_window c
               then c \<lparr> sc_current_window := next_window,
                        sc_shrink_events := sc_shrink_events c + 1 \<rparr>
               else c))"

definition kfastblock_scheduler_note_retry ::
    "(u32 \<Rightarrow> u64) \<Rightarrow> u64 \<Rightarrow> scheduler_controller \<Rightarrow> scheduler_controller" where
  "kfastblock_scheduler_note_retry m2j now c =
     shrink_window (kfastblock_scheduler_activate_cooldown_locked m2j now
       (c \<lparr> sc_retry_events := sc_retry_events c + 1, sc_consecutive_successes := 0 \<rparr>))"

definition kfastblock_scheduler_note_dispatch_failure ::
    "(u32 \<Rightarrow> u64) \<Rightarrow> u64 \<Rightarrow> scheduler_controller \<Rightarrow> scheduler_controller" where
  "kfastblock_scheduler_note_dispatch_failure m2j now c =
     shrink_window (kfastblock_scheduler_activate_cooldown_locked m2j now
       (c \<lparr> sc_dispatch_failures := sc_dispatch_failures c + 1, sc_consecutive_successes := 0 \<rparr>))"

section \<open>Invariant\<close>

text \<open>The upper bound clamping enforces is the larger of the two configured bounds: \<^verbatim>\<open>init\<close> stores
  \<^verbatim>\<open>max_window\<close> unchecked, and clamping treats a maximum below the minimum as the minimum.\<close>

definition sched_ok :: "scheduler_controller \<Rightarrow> bool" where
  "sched_ok c \<longleftrightarrow>
     0 < sc_min_window c \<and> sc_max_window c \<noteq> 0 \<and> sc_min_window c \<le> sc_current_window c \<and>
     sc_current_window c \<le> sc_base_window c \<and>
     sc_base_window c \<le> max (sc_min_window c) (sc_max_window c) \<and>
     sc_consecutive_successes c < sc_current_window c \<and>
     sc_policy c \<in> {KFASTBLOCK_SCHED_POLICY_STATIC, KFASTBLOCK_SCHED_POLICY_ADAPTIVE,
                     KFASTBLOCK_SCHED_POLICY_PRESSURE}"

lemma clamp_window_eq:
  assumes "0 < mn" "mx \<noteq> 0"
  shows "kfastblock_scheduler_clamp_window w mn mx = max mn (min w (max mn mx))"
  using assms by (auto simp: kfastblock_scheduler_clamp_window_def Let_def max_def min_def)

lemma clamp_window_bounds:
  "0 < kfastblock_scheduler_clamp_window w mn mx \<and> mn \<le> kfastblock_scheduler_clamp_window w mn mx"
  by (auto simp: kfastblock_scheduler_clamp_window_def Let_def word_gt_0 not_less)

lemma clamp_policy_range:
  "ucast (kfastblock_scheduler_clamp_policy p) \<in>
     {KFASTBLOCK_SCHED_POLICY_STATIC, KFASTBLOCK_SCHED_POLICY_ADAPTIVE,
      KFASTBLOCK_SCHED_POLICY_PRESSURE :: u8}"
  by (auto simp: kfastblock_scheduler_clamp_policy_def)

lemma sched_init_ok: "sched_ok (kfastblock_scheduler_init b mn mx)"
  using clamp_window_bounds [of "if b \<noteq> 0 then b else if mn \<noteq> 0 then mn else 1"
      "if mn \<noteq> 0 then mn else 1" "if mx \<noteq> 0 then mx else if mn \<noteq> 0 then mn else 1"]
  by (auto simp: sched_ok_def kfastblock_scheduler_init_def Let_def clamp_window_eq word_gt_0
      min_def max_def)

lemma set_base_window_ok [kfb_inv]:
  assumes "sched_ok c"
  shows "sched_ok (kfastblock_scheduler_set_base_window c b)"
proof -
  define base where "base = kfastblock_scheduler_clamp_window
      (if b \<noteq> 0 then b else sc_min_window c) (sc_min_window c) (sc_max_window c)"
  have base: "0 < base" "sc_min_window c \<le> base" "base \<le> max (sc_min_window c) (sc_max_window c)"
    using assms clamp_window_bounds [of _ "sc_min_window c" "sc_max_window c"]
    by (auto simp: base_def clamp_window_eq sched_ok_def)
  then have "kfastblock_scheduler_clamp_window (sc_current_window c) (sc_min_window c) base =
      max (sc_min_window c) (min (sc_current_window c) base)"
    using assms by (subst clamp_window_eq) (auto simp: sched_ok_def max_def)
  then show ?thesis
    using assms base
    by (auto simp: sched_ok_def kfastblock_scheduler_set_base_window_def Let_def
        base_def [symmetric] max_def min_def)
qed

lemma set_policy_ok [kfb_inv]:
  "sched_ok c \<Longrightarrow> sched_ok (kfastblock_scheduler_set_policy c p)"
  using clamp_policy_range [of p]
  by (auto simp: sched_ok_def kfastblock_scheduler_set_policy_def Let_def)

lemma set_pressure_ok [kfb_inv]:
  "sched_ok c \<Longrightarrow> sched_ok (kfastblock_scheduler_set_pressure_inflight_limit c n)"
  by (simp add: sched_ok_def kfastblock_scheduler_set_pressure_inflight_limit_def)

lemma set_cooldown_ok [kfb_inv]:
  "sched_ok c \<Longrightarrow> sched_ok (kfastblock_scheduler_set_cooldown_ms c n)"
  by (simp add: sched_ok_def kfastblock_scheduler_set_cooldown_ms_def Let_def)

lemma set_dynamic_ok [kfb_inv]:
  "sched_ok c \<Longrightarrow> sched_ok (kfastblock_scheduler_set_dynamic_enabled c e)"
  by (auto simp: sched_ok_def kfastblock_scheduler_set_dynamic_enabled_def Let_def)

lemma sample_fields [simp]:
  "sc_min_window (snd (snd (kfastblock_scheduler_sample_window now c n m))) = sc_min_window c"
  "sc_max_window (snd (snd (kfastblock_scheduler_sample_window now c n m))) = sc_max_window c"
  "sc_current_window (snd (snd (kfastblock_scheduler_sample_window now c n m))) = sc_current_window c"
  "sc_base_window (snd (snd (kfastblock_scheduler_sample_window now c n m))) = sc_base_window c"
  "sc_consecutive_successes (snd (snd (kfastblock_scheduler_sample_window now c n m))) = sc_consecutive_successes c"
  "sc_policy (snd (snd (kfastblock_scheduler_sample_window now c n m))) = sc_policy c"
  "sc_dynamic_enabled (snd (snd (kfastblock_scheduler_sample_window now c n m))) = sc_dynamic_enabled c"
  by (simp_all add: kfastblock_scheduler_sample_window_def Let_def case_prod_beta)

lemma sample_ok [kfb_inv]:
  "sched_ok c \<Longrightarrow> sched_ok (snd (snd (kfastblock_scheduler_sample_window now c n m)))"
  by (simp add: sched_ok_def)

lemma note_success_ok [kfb_inv]:
  assumes "sched_ok c"
  shows "sched_ok (kfastblock_scheduler_note_success c)"
proof (cases "sc_base_window c \<le> sc_current_window c")
  case True
  then show ?thesis using assms by (auto simp: sched_ok_def kfastblock_scheduler_note_success_def)
next
  case False
  then have lt: "sc_current_window c < sc_base_window c" by simp
  note inc_le [OF lt] unat_inc_less [OF lt]
  then show ?thesis
    using assms lt
    by (auto simp: sched_ok_def kfastblock_scheduler_note_success_def Let_def min_def not_le
        word_le_nat_alt word_less_nat_alt)
qed

lemma shrink_window_ok:
  assumes "sched_ok c" "sc_consecutive_successes c = 0"
  shows "sched_ok (shrink_window c)"
  using assms by (auto simp: sched_ok_def shrink_window_def Let_def less_max_iff_disj)

lemma activate_cooldown_ok:
  "sched_ok c \<Longrightarrow> sched_ok (kfastblock_scheduler_activate_cooldown_locked m2j now c)"
  by (auto simp: sched_ok_def kfastblock_scheduler_activate_cooldown_locked_def)

lemma activate_cooldown_window [simp]:
  "sc_consecutive_successes (kfastblock_scheduler_activate_cooldown_locked m2j now c) =
     sc_consecutive_successes c"
  "sc_current_window (kfastblock_scheduler_activate_cooldown_locked m2j now c) = sc_current_window c"
  "sc_min_window (kfastblock_scheduler_activate_cooldown_locked m2j now c) = sc_min_window c"
  "sc_dynamic_enabled (kfastblock_scheduler_activate_cooldown_locked m2j now c) = sc_dynamic_enabled c"
  "sc_policy (kfastblock_scheduler_activate_cooldown_locked m2j now c) = sc_policy c"
  by (simp_all add: kfastblock_scheduler_activate_cooldown_locked_def)

lemma note_retry_ok [kfb_inv]:
  assumes "sched_ok c"
  shows "sched_ok (kfastblock_scheduler_note_retry m2j now c)"
  unfolding kfastblock_scheduler_note_retry_def
  by (intro shrink_window_ok activate_cooldown_ok) (use assms in \<open>auto simp: sched_ok_def\<close>)

lemma note_dispatch_failure_ok [kfb_inv]:
  assumes "sched_ok c"
  shows "sched_ok (kfastblock_scheduler_note_dispatch_failure m2j now c)"
  unfolding kfastblock_scheduler_note_dispatch_failure_def
  by (intro shrink_window_ok activate_cooldown_ok) (use assms in \<open>auto simp: sched_ok_def\<close>)

text \<open>The histories of a controller.\<close>

inductive sched_reach :: "scheduler_controller \<Rightarrow> bool" where
  "sched_reach (kfastblock_scheduler_init b mn mx)"
| "sched_reach c \<Longrightarrow> sched_reach (kfastblock_scheduler_set_base_window c b)"
| "sched_reach c \<Longrightarrow> sched_reach (kfastblock_scheduler_set_policy c p)"
| "sched_reach c \<Longrightarrow> sched_reach (kfastblock_scheduler_set_pressure_inflight_limit c n)"
| "sched_reach c \<Longrightarrow> sched_reach (kfastblock_scheduler_set_cooldown_ms c n)"
| "sched_reach c \<Longrightarrow> sched_reach (kfastblock_scheduler_set_dynamic_enabled c e)"
| "sched_reach c \<Longrightarrow> sched_reach (snd (snd (kfastblock_scheduler_sample_window now c n m)))"
| "sched_reach c \<Longrightarrow> sched_reach (kfastblock_scheduler_note_success c)"
| "sched_reach c \<Longrightarrow> sched_reach (kfastblock_scheduler_note_retry m2j now c)"
| "sched_reach c \<Longrightarrow> sched_reach (kfastblock_scheduler_note_dispatch_failure m2j now c)"

lemma sched_reach_ok: "sched_reach c \<Longrightarrow> sched_ok c"
  by (induction rule: sched_reach.induct) (auto intro: sched_init_ok kfb_inv)

section \<open>Behaviour of the window\<close>

lemma limit_for_pressure_bounds:
  assumes "sched_ok c" "sc_min_window c \<le> w" "w \<le> max (sc_min_window c) (sc_max_window c)"
  shows "sc_min_window c \<le> fst (kfastblock_scheduler_limit_for_pressure_locked c w n cd) \<and>
         fst (kfastblock_scheduler_limit_for_pressure_locked c w n cd) \<le> w"
proof -
  have mn: "0 < sc_min_window c" and mx: "sc_max_window c \<noteq> 0"
    using assms(1) by (auto simp: sched_ok_def)
  have nz: "w \<noteq> 0" using mn assms(2) by auto
  have cl: "kfastblock_scheduler_clamp_window w (sc_min_window c) (sc_max_window c) = w"
    using mn mx assms by (simp add: clamp_window_eq)
  define lim1 where "lim1 = (if sc_pressure_inflight_limit c \<noteq> 0 \<and> sc_pressure_inflight_limit c < n then
               (let over = n - sc_pressure_inflight_limit c;
                    reduced = (if w \<le> over then sc_min_window c
                               else max (w - over) (sc_min_window c))
                in if reduced < w then (reduced, True) else (w, False))
             else (w, False))"
  define lim2 where "lim2 = (if cd \<and> sc_min_window c < fst lim1 then
               (let cooled = max (fst lim1 div 2) (sc_min_window c)
                in if cooled < fst lim1 then (cooled, True) else (fst lim1, False))
             else (fst lim1, False))"
  have "sc_min_window c \<le> fst lim1 \<and> fst lim1 \<le> w"
    using assms(2) by (auto simp: lim1_def Let_def)
  then have *: "sc_min_window c \<le> fst lim2 \<and> fst lim2 \<le> w"
    by (auto simp: lim2_def Let_def)
  have "fst (kfastblock_scheduler_limit_for_pressure_locked c w n cd) =
      kfastblock_scheduler_clamp_window (fst lim2) (sc_min_window c) (sc_max_window c)"
    unfolding kfastblock_scheduler_limit_for_pressure_locked_def lim1_def lim2_def
    using nz by (simp add: cl case_prod_beta Let_def)
  moreover have "\<dots> = fst lim2"
    using mn mx * assms(3) by (auto simp: clamp_window_eq)
  ultimately show ?thesis using * by simp
qed

text \<open>The window in force before the pressure policy and the request size are applied.\<close>

definition active_window :: "scheduler_controller \<Rightarrow> u32" where
  "active_window c = (if sc_dynamic_enabled c then sc_current_window c else sc_base_window c)"

lemma sample_window_bounds:
  assumes "sched_ok c"
  shows "sc_min_window c \<le> fst (kfastblock_scheduler_sample_window now c n m)"
    and "fst (kfastblock_scheduler_sample_window now c n m) \<le> active_window c"
    and "m \<noteq> 0 \<Longrightarrow> fst (kfastblock_scheduler_sample_window now c n m) \<le> max m (sc_min_window c)"
proof -
  have mn: "0 < sc_min_window c" and mx: "sc_max_window c \<noteq> 0"
    using assms by (auto simp: sched_ok_def)
  have aw: "sc_min_window c \<le> active_window c"
      "active_window c \<le> max (sc_min_window c) (sc_max_window c)"
    using assms by (auto simp: sched_ok_def active_window_def intro: order_trans)
  define pw where "pw = (if (if sc_dynamic_enabled c
                    then kfastblock_scheduler_clamp_policy (ucast (sc_policy c))
                    else 0) = 2
      then fst (kfastblock_scheduler_limit_for_pressure_locked c (active_window c) n
             (kfastblock_scheduler_is_cooldown_active_locked now c))
      else active_window c)"
  have pw: "sc_min_window c \<le> pw" "pw \<le> active_window c"
    using limit_for_pressure_bounds [OF assms aw] aw by (auto simp: pw_def)
  then have nz: "pw \<noteq> 0" using mn by auto
  have w: "fst (kfastblock_scheduler_sample_window now c n m) =
      kfastblock_scheduler_clamp_window (if m \<noteq> 0 then min pw m else pw)
        (sc_min_window c) (sc_max_window c)"
    using nz clamp_window_bounds
    unfolding kfastblock_scheduler_sample_window_def pw_def active_window_def
    by (cases "sc_dynamic_enabled c";
        cases "kfastblock_scheduler_clamp_policy (ucast (sc_policy c)) = 2")
       (simp_all add: Let_def case_prod_beta word_gt_0)
  show "sc_min_window c \<le> fst (kfastblock_scheduler_sample_window now c n m)"
    and "fst (kfastblock_scheduler_sample_window now c n m) \<le> active_window c"
    and "m \<noteq> 0 \<Longrightarrow> fst (kfastblock_scheduler_sample_window now c n m) \<le> max m (sc_min_window c)"
    unfolding w using mn mx pw aw by (auto simp: clamp_window_eq min_le_iff_disj le_max_iff_disj)
qed

section \<open>Convergence\<close>

text \<open>\<open>adaptive c\<close>: the controller adapts at all.\<close>

definition adaptive :: "scheduler_controller \<Rightarrow> bool" where
  "adaptive c \<longleftrightarrow> sc_dynamic_enabled c \<and> sc_policy c \<noteq> KFASTBLOCK_SCHED_POLICY_STATIC"

lemma shrink_fields [simp]:
  "sc_min_window (shrink_window c) = sc_min_window c"
  "sc_base_window (shrink_window c) = sc_base_window c"
  "adaptive (shrink_window c) = adaptive c"
  by (simp_all add: shrink_window_def Let_def adaptive_def)

lemma adaptive_cong [simp]:
  "adaptive (kfastblock_scheduler_activate_cooldown_locked m2j now c) = adaptive c"
  "adaptive (sc_retry_events_update f c) = adaptive c"
  "adaptive (sc_consecutive_successes_update g c) = adaptive c"
  by (simp_all add: adaptive_def)

lemma shrink_current:
  assumes "sc_min_window c \<le> sc_current_window c" "adaptive c"
  shows "sc_current_window (shrink_window c) = max (sc_current_window c div 2) (sc_min_window c)"
proof -
  have "sc_current_window c div 2 \<le> sc_current_window c"
    by (simp add: word_le_nat_alt unat_div)
  then show ?thesis using assms by (auto simp: shrink_window_def Let_def adaptive_def max_def)
qed

lemma note_retry_current:
  assumes "sched_ok c" "adaptive c"
  shows "sc_current_window (kfastblock_scheduler_note_retry m2j now c) =
           max (sc_current_window c div 2) (sc_min_window c)"
    and "sc_min_window (kfastblock_scheduler_note_retry m2j now c) = sc_min_window c"
    and "adaptive (kfastblock_scheduler_note_retry m2j now c)"
  using assms
  by (simp_all add: kfastblock_scheduler_note_retry_def shrink_current sched_ok_def)

text \<open>Retries one after the other, at arbitrary times.\<close>

definition retries :: "(u32 \<Rightarrow> u64) \<Rightarrow> u64 list \<Rightarrow> scheduler_controller \<Rightarrow> scheduler_controller" where
  "retries m2j ts c = fold (kfastblock_scheduler_note_retry m2j) ts c"

lemma retries_current:
  assumes "sched_ok c" "adaptive c"
  shows "unat (sc_current_window (retries m2j ts c)) =
           max (unat (sc_current_window c) div 2 ^ length ts) (unat (sc_min_window c))"
  using assms
proof (induction ts arbitrary: c)
  case Nil
  then show ?case by (simp add: retries_def sched_ok_def word_le_nat_alt)
next
  case (Cons t ts)
  let ?c = "kfastblock_scheduler_note_retry m2j t c"
  have IH: "unat (sc_current_window (retries m2j ts ?c)) =
      max (unat (sc_current_window ?c) div 2 ^ length ts) (unat (sc_min_window ?c))"
    using Cons by (intro Cons.IH) (auto intro: kfb_inv simp: note_retry_current)
  have cur: "unat (sc_current_window ?c) = max (unat (sc_current_window c) div 2) (unat (sc_min_window c))"
    using Cons.prems by (auto simp: note_retry_current max_def word_le_nat_alt unat_div)
  have "unat (sc_min_window c) div 2 ^ length ts \<le> unat (sc_min_window c)"
    by simp
  then show ?case
    using IH cur note_retry_current(2) [OF Cons.prems, of m2j t]
    by (auto simp: retries_def max_def div_mult2_eq intro: order_trans [OF div_le_dividend])
qed

lemma note_success_count:
  assumes "sched_ok c" "adaptive c" "sc_current_window c < sc_base_window c"
  shows "unat (sc_consecutive_successes c) + 1 < unat (sc_current_window c) \<Longrightarrow>
           kfastblock_scheduler_note_success c =
           c \<lparr> sc_consecutive_successes := sc_consecutive_successes c + 1 \<rparr>"
    and "unat (sc_consecutive_successes c) + 1 = unat (sc_current_window c) \<Longrightarrow>
           kfastblock_scheduler_note_success c =
           c \<lparr> sc_current_window := sc_current_window c + 1,
               sc_grow_events := sc_grow_events c + 1, sc_consecutive_successes := 0 \<rparr>"
proof -
  have pos: "0 < sc_current_window c" using assms by (auto simp: sched_ok_def)
  have lt: "sc_consecutive_successes c < sc_current_window c" using assms by (auto simp: sched_ok_def)
  have m: "max (sc_current_window c) 1 = sc_current_window c"
    using pos by (auto simp: max_def word_le_nat_alt word_less_nat_alt word_unat_eq_iff)
  note inc_le [OF assms(3)] unat_inc_less [OF lt]
  then show "unat (sc_consecutive_successes c) + 1 < unat (sc_current_window c) \<Longrightarrow>
           kfastblock_scheduler_note_success c =
           c \<lparr> sc_consecutive_successes := sc_consecutive_successes c + 1 \<rparr>"
    and "unat (sc_consecutive_successes c) + 1 = unat (sc_current_window c) \<Longrightarrow>
           kfastblock_scheduler_note_success c =
           c \<lparr> sc_current_window := sc_current_window c + 1,
               sc_grow_events := sc_grow_events c + 1, sc_consecutive_successes := 0 \<rparr>"
    using assms m by (auto simp: kfastblock_scheduler_note_success_def Let_def adaptive_def
        word_le_nat_alt word_less_nat_alt min_def)
qed

lemma successes_partial:
  assumes "sched_ok c" "adaptive c" "sc_current_window c < sc_base_window c"
    and "sc_consecutive_successes c = 0" "k < unat (sc_current_window c)"
  shows "(kfastblock_scheduler_note_success ^^ k) c = c \<lparr> sc_consecutive_successes := of_nat k \<rparr>"
  using assms(5)
proof (induction k)
  case 0
  then show ?case using assms(4) by simp
next
  case (Suc k)
  let ?c = "c \<lparr> sc_consecutive_successes := of_nat k \<rparr>"
  have k: "unat (of_nat k :: u32) = k"
    using Suc.prems unat_u32_bound [of "sc_current_window c"] by (intro unat_of_nat_small) simp
  have "sched_ok ?c"
    using assms(1) Suc.prems k by (simp add: sched_ok_def word_less_nat_alt)
  then have "kfastblock_scheduler_note_success ?c = c \<lparr> sc_consecutive_successes := of_nat k + 1 \<rparr>"
    using note_success_count(1) [of ?c] assms Suc.prems k by simp
  then show ?case using Suc by (simp add: add.commute)
qed

lemma successes_grow:
  assumes "sched_ok c" "adaptive c" "sc_current_window c < sc_base_window c"
    and "sc_consecutive_successes c = 0"
  shows "(kfastblock_scheduler_note_success ^^ unat (sc_current_window c)) c =
     c \<lparr> sc_current_window := sc_current_window c + 1, sc_grow_events := sc_grow_events c + 1 \<rparr>"
proof -
  define k where "k = unat (sc_current_window c) - 1"
  have pos: "0 < unat (sc_current_window c)"
    using assms(1) by (simp add: sched_ok_def word_less_nat_alt)
  then have S: "unat (sc_current_window c) = Suc k" by (simp add: k_def)
  let ?c = "c \<lparr> sc_consecutive_successes := of_nat k \<rparr>"
  have k: "unat (of_nat k :: u32) = k"
    using S unat_u32_bound [of "sc_current_window c"] by (intro unat_of_nat_small) simp
  have ok: "sched_ok ?c" using assms(1) S k by (simp add: sched_ok_def word_less_nat_alt)
  have "(kfastblock_scheduler_note_success ^^ unat (sc_current_window c)) c =
      kfastblock_scheduler_note_success ?c"
    using successes_partial [OF assms, of k] S by simp
  also have "\<dots> = c \<lparr> sc_current_window := sc_current_window c + 1,
      sc_grow_events := sc_grow_events c + 1, sc_consecutive_successes := 0 \<rparr>"
    using note_success_count(2) [OF ok] assms S k by simp
  finally show ?thesis using assms(4) by simp
qed

lemma successes_recover:
  assumes "sched_ok c" "adaptive c" "sc_consecutive_successes c = 0"
  shows "sc_current_window ((kfastblock_scheduler_note_success ^^
           (\<Sum>i = unat (sc_current_window c)..<unat (sc_base_window c). i)) c) = sc_base_window c"
  using assms
proof (induction "unat (sc_base_window c) - unat (sc_current_window c)" arbitrary: c)
  case 0
  then show ?case by (simp add: sched_ok_def word_le_nat_alt word_unat_eq_iff)
next
  case (Suc d)
  let ?w = "unat (sc_current_window c)" and ?b = "unat (sc_base_window c)"
  let ?c = "(kfastblock_scheduler_note_success ^^ ?w) c"
  have lt: "sc_current_window c < sc_base_window c" using Suc(2) by (simp add: word_less_nat_alt)
  have c: "?c = c \<lparr> sc_current_window := sc_current_window c + 1, sc_grow_events := sc_grow_events c + 1 \<rparr>"
    using Suc lt by (intro successes_grow)
  have w: "unat (sc_current_window c + 1) = ?w + 1" by (rule unat_inc_less [OF lt])
  have "sched_ok ?c"
    using Suc(3) inc_le [OF lt] w unfolding c
    by (simp add: sched_ok_def word_le_nat_alt word_less_nat_alt)
  then have IH: "sc_current_window ((kfastblock_scheduler_note_success ^^ (\<Sum>i = ?w + 1..<?b. i)) ?c) =
      sc_base_window c"
    using Suc(1) [of ?c] Suc(2-) w unfolding c by (simp add: adaptive_def)
  have "(\<Sum>i = ?w..<?b. i) = (\<Sum>i = ?w + 1..<?b. i) + ?w"
    using lt by (simp add: sum.atLeast_Suc_lessThan word_less_nat_alt)
  then show ?case using IH by (simp add: funpow_add)
qed

section \<open>The contract for request dispatch\<close>

locale window_controller =
  fixes inv :: "'s \<Rightarrow> bool"
    and lowest :: "'s \<Rightarrow> u32"
    and highest :: "'s \<Rightarrow> u32"
    and sample :: "'s \<Rightarrow> u32 \<Rightarrow> u32 \<Rightarrow> u32 \<times> 's"
  assumes lowest_pos: "inv s \<Longrightarrow> 0 < lowest s"
    and sample_lower: "inv s \<Longrightarrow> lowest s \<le> fst (sample s n m)"
    and sample_upper: "inv s \<Longrightarrow> fst (sample s n m) \<le> highest s"
    and sample_inv: "inv s \<Longrightarrow> inv (snd (sample s n m))"
    and sample_keeps: "inv s \<Longrightarrow> lowest (snd (sample s n m)) = lowest s \<and>
                                  highest (snd (sample s n m)) = highest s"
begin

text \<open>What a request of \<open>n\<close> objects does with a sampled window: clamp it between one and its own
  number of objects. The result lets at least one object out and never more than the controller
  allows or the request has.\<close>

definition request_window :: "'s \<Rightarrow> u32 \<Rightarrow> u32 \<Rightarrow> u32" where
  "request_window s inflight n =
     (let w = fst (sample s inflight n); hi = (if n \<noteq> 0 then n else 1)
      in if w < 1 then 1 else if hi < w then hi else w)"

lemma request_window_bounds:
  assumes "inv s"
  shows "0 < request_window s k n \<and> request_window s k n \<le> highest s \<and>
         (n \<noteq> 0 \<longrightarrow> request_window s k n \<le> n)"
proof -
  have "0 < fst (sample s k n)"
    using lowest_pos [OF assms] sample_lower [OF assms, of k n] by (rule less_le_trans)
  moreover have "1 \<le> n" if "n \<noteq> 0"
    using that by (simp add: word_le_nat_alt Suc_le_eq unat_gt_0)
  ultimately show ?thesis
    using sample_upper [OF assms, of k n]
    by (auto simp: request_window_def Let_def word_less_1 word_gt_0 intro: order_trans less_imp_le)
qed

end

interpretation wc: window_controller sched_ok sc_min_window active_window
    "\<lambda>c n m. (fst (kfastblock_scheduler_sample_window now c n m),
              snd (snd (kfastblock_scheduler_sample_window now c n m)))"
  for now
proof (standard, goal_cases)
  case (1 s)
  then show ?case by (simp add: sched_ok_def)
next
  case (5 s n m)
  then show ?case by (simp add: active_window_def)
qed (auto simp: sample_window_bounds intro: sample_ok)

section \<open>Properties\<close>


text \<open>
  Multiplicative decrease: after any sequence of k retries the window of an adaptive
  controller is the old window divided by 2^k, but never below the minimum.
\<close>

theorem scheduler_retries_halve:
  assumes "sched_reach c" "adaptive c"
  shows "unat (sc_current_window (fold (kfastblock_scheduler_note_retry m2j) ts c)) =
           max (unat (sc_current_window c) div 2 ^ length ts) (unat (sc_min_window c))"
  using retries_current [OF sched_reach_ok [OF assms(1)] assms(2)] by (simp add: retries_def)


section \<open>Witnesses\<close>

definition demo_sched :: scheduler_controller where
  "demo_sched = kfastblock_scheduler_note_retry (\<lambda>ms. ucast ms) 100 (kfastblock_scheduler_init 8 1 64)"

lemma demo_sched_reach: "sched_reach demo_sched"
  unfolding demo_sched_def by (intro sched_reach.intros)

lemma demo_sched_values:
  "sc_current_window demo_sched = 4" "sc_base_window demo_sched = 8" "sc_min_window demo_sched = 1"
  "sc_consecutive_successes demo_sched = 0" "adaptive demo_sched"
  by (simp_all add: demo_sched_def kfastblock_scheduler_note_retry_def kfastblock_scheduler_init_def
      kfastblock_scheduler_clamp_window_def kfastblock_scheduler_activate_cooldown_locked_def
      shrink_window_def adaptive_def Let_def word_le_nat_alt word_less_nat_alt max_def)


theorem scheduler_retries_halve_witness:
  "unat (sc_current_window (fold (kfastblock_scheduler_note_retry (\<lambda>ms. ucast ms)) [101, 102] demo_sched)) = 1"
  using scheduler_retries_halve [OF demo_sched_reach demo_sched_values(5), of _ "[101, 102]"]
  by (simp add: demo_sched_values)


end
