(* ===== verification/KFB_Strings.thy ===== *)
theory KFB_Strings
  imports KFB_Prelude
begin

text \<open>
  The string functions of the C and kernel library that the sources call: \<^verbatim>\<open>strsep\<close>, the bounded
  append of \<^verbatim>\<open>scnprintf\<close>, number printing (\<^verbatim>\<open>%u\<close>, \<^verbatim>\<open>%llu\<close>, \<^verbatim>\<open>%x\<close>) and number parsing (the
  \<^verbatim>\<open>kstrto*\<close> family of \<^verbatim>\<open>lib/kstrtox.c\<close>). A C string is the \<^typ>\<open>string\<close> of its characters
  before the terminating NUL.
\<close>

section \<open>Splitting\<close>

text \<open>All tokens successive calls of \<^verbatim>\<open>strsep\<close> return, empty ones included.\<close>

fun strsep_tokens :: "(char \<Rightarrow> bool) \<Rightarrow> string \<Rightarrow> string list" where
  "strsep_tokens p [] = [[]]"
| "strsep_tokens p (c # cs) =
     (if p c then [] # strsep_tokens p cs
      else (case strsep_tokens p cs of [] \<Rightarrow> [[c]] | t # ts \<Rightarrow> (c # t) # ts))"

fun join :: "char \<Rightarrow> string list \<Rightarrow> string" where
  "join d [] = []"
| "join d [t] = t"
| "join d (t # ts) = t @ d # join d ts"

lemma strsep_tokens_nonempty [simp]: "strsep_tokens p s \<noteq> []"
  by (induction p s rule: strsep_tokens.induct) (auto split: list.splits)

lemma strsep_tokens_append:
  assumes "\<forall>c \<in> set t. \<not> p c" "p d"
  shows "strsep_tokens p (t @ d # s) = t # strsep_tokens p s"
  using assms by (induction t) auto

lemma strsep_tokens_single: "\<forall>c \<in> set t. \<not> p c \<Longrightarrow> strsep_tokens p t = [t]"
  by (induction t) auto

lemma strsep_tokens_join:
  assumes "ts \<noteq> []" "\<forall>t \<in> set ts. \<forall>c \<in> set t. \<not> p c" "p d"
  shows "strsep_tokens p (join d ts) = ts"
  using assms
  by (induction d ts rule: join.induct) (auto simp: strsep_tokens_single strsep_tokens_append)

section \<open>Bounded output\<close>

text \<open>\<^verbatim>\<open>used += scnprintf(buf + used, buf_len - used, ...)\<close> where \<open>acc\<close> holds the \<^verbatim>\<open>used\<close> characters
  already written: at most \<^verbatim>\<open>buf_len - used - 1\<close> further ones fit.\<close>

definition scnprintf_at :: "nat \<Rightarrow> string \<Rightarrow> string \<Rightarrow> string" where
  "scnprintf_at buf_len acc s = acc @ take (buf_len - length acc - 1) s"

lemma scnprintf_at_fits [simp]:
  "length acc + length s < buf_len \<Longrightarrow> scnprintf_at buf_len acc s = acc @ s"
  by (simp add: scnprintf_at_def)

lemma scnprintf_at_bound:
  "length acc < buf_len \<Longrightarrow> length (scnprintf_at buf_len acc s) < buf_len"
  by (auto simp: scnprintf_at_def min_def)

section \<open>Numbers\<close>

definition digit_char :: "nat \<Rightarrow> char" where
  "digit_char n = (if n < 10 then char_of (48 + n) else char_of (87 + n))"

definition digit_val :: "char \<Rightarrow> nat option" where
  "digit_val c =
     (let k = of_char c :: nat
      in if 48 \<le> k \<and> k \<le> 57 then Some (k - 48)
         else if 97 \<le> k \<and> k \<le> 102 then Some (k - 87)
         else if 65 \<le> k \<and> k \<le> 70 then Some (k - 55)
         else None)"

function print_num :: "nat \<Rightarrow> nat \<Rightarrow> string" where
  "print_num b n = (if b < 2 \<or> n < b then [digit_char n] else print_num b (n div b) @ [digit_char (n mod b)])"
  by auto
termination by (relation "measure snd") auto

declare print_num.simps [simp del]

text \<open>\<^verbatim>\<open>_parse_integer\<close>: the value of the longest prefix of digits below the base, the number of
  digits read and the rest. The accumulator is unbounded; the callers check the range.\<close>

fun parse_integer :: "nat \<Rightarrow> string \<Rightarrow> nat \<Rightarrow> nat \<Rightarrow> nat \<times> nat \<times> string" where
  "parse_integer b [] acc k = (acc, k, [])"
| "parse_integer b (c # cs) acc k =
     (case digit_val c of
        Some v \<Rightarrow> if v < b then parse_integer b cs (acc * b + v) (Suc k) else (acc, k, c # cs)
      | None \<Rightarrow> (acc, k, c # cs))"

text \<open>\<^verbatim>\<open>_parse_integer_fixup_radix\<close>.\<close>

definition is_x :: "char \<Rightarrow> bool" where
  "is_x c \<longleftrightarrow> c = CHR ''x'' \<or> c = CHR ''X''"

definition fixup_radix :: "nat \<Rightarrow> string \<Rightarrow> nat \<times> string" where
  "fixup_radix base0 s =
     (let base = (if base0 \<noteq> 0 then base0
                  else case s of
                    c0 # c1 # c2 # _ \<Rightarrow>
                      if c0 = CHR ''0'' then if is_x c1 \<and> digit_val c2 \<noteq> None then 16 else 8 else 10
                  | c0 # _ \<Rightarrow> if c0 = CHR ''0'' then 8 else 10
                  | [] \<Rightarrow> 10)
      in (base, case s of
                  c0 # c1 # r \<Rightarrow> if base = 16 \<and> c0 = CHR ''0'' \<and> is_x c1 then r else s
                | _ \<Rightarrow> s))"

text \<open>\<^verbatim>\<open>kstrtoull\<close> followed by the range check of the narrower variants (\<open>limit\<close> is the number of
  values of the target type).\<close>

definition kstrtou :: "nat \<Rightarrow> nat \<Rightarrow> string \<Rightarrow> int + nat" where
  "kstrtou limit base0 s0 =
     (let s1 = (case s0 of c # r \<Rightarrow> if c = CHR ''+'' then r else s0 | [] \<Rightarrow> s0);
          (base, s2) = fixup_radix base0 s1;
          (val, k, r) = parse_integer base s2 0 0;
          r1 = (case r of c # r' \<Rightarrow> if c = CHR ''\<newline>'' then r' else r | [] \<Rightarrow> r)
      in if k = 0 then Inl (- EINVAL)
         else if 2 ^ 64 \<le> val then Inl (- ERANGE)
         else if r1 \<noteq> [] then Inl (- EINVAL)
         else if limit \<le> val then Inl (- ERANGE)
         else Inr val)"

definition kstrtou16 :: "nat \<Rightarrow> string \<Rightarrow> int + u16" where
  "kstrtou16 base s = map_sum id of_nat (kstrtou (2 ^ 16) base s)"

definition kstrtou32 :: "nat \<Rightarrow> string \<Rightarrow> int + u32" where
  "kstrtou32 base s = map_sum id of_nat (kstrtou (2 ^ 32) base s)"

definition kstrtou64 :: "nat \<Rightarrow> string \<Rightarrow> int + u64" where
  "kstrtou64 base s = map_sum id of_nat (kstrtou (2 ^ 64) base s)"

subsection \<open>Printing and parsing are inverse\<close>

lemma digit_val_char: "n < 16 \<Longrightarrow> digit_val (digit_char n) = Some n"
  by (auto simp: digit_val_def digit_char_def Let_def of_char_of take_bit_nat_eq_self_iff
      take_bit_nat_eq_self mod_less)

lemma parse_integer_append:
  "parse_integer b s acc k = (v, k', []) \<Longrightarrow>
   parse_integer b (s @ t) acc k = parse_integer b t v k'"
  by (induction b s acc k rule: parse_integer.induct) (auto split: option.splits if_splits)

lemma parse_print_num:
  assumes "2 \<le> b" "b \<le> 16"
  shows "\<exists>d k. parse_integer b (print_num b n) acc k0 = (acc * b ^ d + n, k, []) \<and> k0 < k \<and> n < b ^ d"
proof (induction n arbitrary: rule: less_induct)
  case (less n)
  show ?case
  proof (cases "n < b")
    case True
    then have "parse_integer b (print_num b n) acc k0 = (acc * b ^ 1 + n, Suc k0, [])"
      using assms by (simp add: print_num.simps digit_val_char)
    then show ?thesis using True by (intro exI [of _ 1] exI [of _ "Suc k0"]) auto
  next
    case False
    then have "n div b < n" using assms by auto
    from less [OF this] obtain d k where IH:
      "parse_integer b (print_num b (n div b)) acc k0 = (acc * b ^ d + n div b, k, [])"
      "k0 < k" "n div b < b ^ d" by blast
    have m: "n mod b < b" using assms by simp
    then have "digit_val (digit_char (n mod b)) = Some (n mod b)"
      using assms(2) by (intro digit_val_char) (rule less_le_trans)
    then have "parse_integer b (print_num b n) acc k0 =
        ((acc * b ^ d + n div b) * b + n mod b, Suc k, [])"
      using False assms m IH(1) by (subst print_num.simps) (simp add: parse_integer_append)
    moreover have "(acc * b ^ d + n div b) * b + n mod b = acc * b ^ Suc d + n"
      by (simp add: algebra_simps)
    moreover have "n < b ^ Suc d"
      using IH(3) assms by (simp add: div_less_iff_less_mult mult.commute)
    ultimately show ?thesis using IH(2) by (metis less_SucI)
  qed
qed

lemma parse_print:
  assumes "2 \<le> b" "b \<le> 16"
  obtains k where "parse_integer b (print_num b n) 0 0 = (n, k, [])" "0 < k"
  using parse_print_num [OF assms, of n 0 0] by auto

lemma parse_print_value:
  assumes "2 \<le> b" "b \<le> 16"
  shows "fst (parse_integer b (print_num b n) 0 0) = n"
  using parse_print_num [OF assms, of n 0 0] by auto

lemma print_num_inj:
  assumes "2 \<le> b" "b \<le> 16" "print_num b m = print_num b n"
  shows "m = n"
  by (metis assms parse_print_value)

lemma print_num_digits:
  assumes "2 \<le> b" "b \<le> 16" "c \<in> set (print_num b n)"
  shows "\<exists>d < b. c = digit_char d"
  using assms(3)
proof (induction n rule: less_induct)
  case (less n)
  show ?case
  proof (cases "n < b")
    case True
    then show ?thesis using less.prems by (auto simp: print_num.simps)
  next
    case False
    then have lt: "n div b < n" and m: "n mod b < b" using assms by auto
    have "print_num b n = print_num b (n div b) @ [digit_char (n mod b)]"
      using False assms by (subst print_num.simps) simp
    then have "c \<in> set (print_num b (n div b)) \<or> c = digit_char (n mod b)"
      using less.prems by auto
    then show ?thesis using less.IH [OF lt] m by blast
  qed
qed

lemma print_num_nonempty [simp]: "print_num b n \<noteq> []"
  by (simp add: print_num.simps)

lemma print_num_length:
  assumes "2 \<le> b" "n < b ^ d" "0 < d"
  shows "length (print_num b n) \<le> d"
  using assms(2,3)
proof (induction d arbitrary: n)
  case (Suc d)
  show ?case
  proof (cases "n < b")
    case True
    then show ?thesis by (simp add: print_num.simps)
  next
    case False
    have "n div b < b ^ d"
      using Suc.prems assms by (simp add: div_less_iff_less_mult mult.commute)
    moreover have "0 < d" using Suc.prems False by (cases d) auto
    ultimately have "length (print_num b (n div b)) \<le> d" by (rule Suc.IH)
    then show ?thesis using False assms(1) by (subst print_num.simps) simp
  qed
qed simp

lemma print_num_digit_val:
  assumes "2 \<le> b" "b \<le> 16" "c \<in> set (print_num b n)"
  shows "digit_val c \<noteq> None"
  using print_num_digits [OF assms] assms(2) digit_val_char by fastforce

lemma fixup_radix_hex: "s \<noteq> [] \<Longrightarrow> digit_val (hd s) \<noteq> None \<Longrightarrow> fixup_radix 0 (''0x'' @ s) = (16, s)"
  by (cases s) (auto simp: fixup_radix_def is_x_def)

lemma kstrtou_hex:
  assumes "n < limit" "limit \<le> 2 ^ 64"
  shows "kstrtou limit 0 (''0x'' @ print_num 16 n) = Inr n"
proof -
  obtain k where k: "parse_integer 16 (print_num 16 n) 0 0 = (n, k, [])" "0 < k"
    by (rule parse_print [of 16]) simp_all
  have "digit_val (hd (print_num 16 n)) \<noteq> None"
    by (rule print_num_digit_val [of 16 _ n]) simp_all
  then have "fixup_radix 0 (''0x'' @ print_num 16 n) = (16, print_num 16 n)"
    by (intro fixup_radix_hex) simp_all
  then show ?thesis using k assms by (simp add: kstrtou_def)
qed

lemma kstrtou_dec:
  assumes "n < limit" "limit \<le> 2 ^ 64"
  shows "kstrtou limit 10 (print_num 10 n) = Inr n"
proof -
  obtain k where k: "parse_integer 10 (print_num 10 n) 0 0 = (n, k, [])" "0 < k"
    by (rule parse_print [of 10]) simp_all
  have "fixup_radix 10 s = (10, s)" for s
    by (simp add: fixup_radix_def split: list.split)
  moreover obtain c cs where c: "print_num 10 n = c # cs" by (cases "print_num 10 n") auto
  moreover have "c \<noteq> CHR ''+''"
    using print_num_digit_val [of 10 c n] c by (auto simp: digit_val_def Let_def)
  ultimately show ?thesis using k assms by (simp add: kstrtou_def)
qed

end
