(* ===== verification/KFB_Fault.thy ===== *)
theory KFB_Fault
  imports KFB_Strings
begin

text \<open>
  Fault injection, \<^verbatim>\<open>kfastblock/src/fault.c\<close>: a mask of sites, an errno, and a budget of failures.
  The msk is read and shown as text through sysfs, so parsing and formatting are modelled down
  to the fixed 128-byte buffer and the bounded output.
\<close>

abbreviation (input) KFASTBLOCK_FAULT_MONITOR_CONNECT :: u32 where
  "KFASTBLOCK_FAULT_MONITOR_CONNECT \<equiv> 1"
abbreviation (input) KFASTBLOCK_FAULT_OSD_CONNECT :: u32 where
  "KFASTBLOCK_FAULT_OSD_CONNECT \<equiv> 2"
abbreviation (input) KFASTBLOCK_FAULT_LEADER_QUERY :: u32 where
  "KFASTBLOCK_FAULT_LEADER_QUERY \<equiv> 4"
abbreviation (input) KFASTBLOCK_FAULT_MONITOR_FETCH_IMAGE :: u32 where
  "KFASTBLOCK_FAULT_MONITOR_FETCH_IMAGE \<equiv> 8"
abbreviation (input) KFASTBLOCK_FAULT_MONITOR_FETCH_CLUSTER :: u32 where
  "KFASTBLOCK_FAULT_MONITOR_FETCH_CLUSTER \<equiv> 16"
abbreviation (input) KFASTBLOCK_FAULT_OBJECT_IO :: u32 where
  "KFASTBLOCK_FAULT_OBJECT_IO \<equiv> 32"

record fault_injection_state =
  fi_mask :: u32
  fi_errno_value :: int
  fi_budget :: u32
  fi_arm_count :: u32
  fi_reset_count :: u32
  fi_hit_count :: u32
  fi_skip_count :: u32
  fi_last_arm_jiffies :: u64
  fi_last_reset_jiffies :: u64
  fi_last_trigger_jiffies :: u64
  fi_last_site :: u32
  fi_last_errno :: int
  fi_enabled :: bool

definition kfastblock_fault_sites :: "(u32 \<times> string) list" where
  "kfastblock_fault_sites =
     [(KFASTBLOCK_FAULT_MONITOR_CONNECT, ''monitor_connect''),
      (KFASTBLOCK_FAULT_OSD_CONNECT, ''osd_connect''),
      (KFASTBLOCK_FAULT_LEADER_QUERY, ''leader_query''),
      (KFASTBLOCK_FAULT_MONITOR_FETCH_IMAGE, ''monitor_fetch_image''),
      (KFASTBLOCK_FAULT_MONITOR_FETCH_CLUSTER, ''monitor_fetch_cluster''),
      (KFASTBLOCK_FAULT_OBJECT_IO, ''object_io'')]"

section \<open>Parsing and formatting\<close>

definition kfastblock_fault_mask_for_token :: "string \<Rightarrow> u32" where
  "kfastblock_fault_mask_for_token token =
     (if token = [] then 0
      else if token = ''none'' then 0
      else if token = ''all'' then
        KFASTBLOCK_FAULT_MONITOR_CONNECT OR KFASTBLOCK_FAULT_OSD_CONNECT OR
        KFASTBLOCK_FAULT_LEADER_QUERY OR KFASTBLOCK_FAULT_MONITOR_FETCH_IMAGE OR
        KFASTBLOCK_FAULT_MONITOR_FETCH_CLUSTER OR KFASTBLOCK_FAULT_OBJECT_IO
      else case List.find (\<lambda>(_, name). token = name) kfastblock_fault_sites of
             Some (m, _) \<Rightarrow> m
           | None \<Rightarrow> U32_MAX)"

text \<open>The delimiter set \<^verbatim>\<open>",| \t\n"\<close>.\<close>

definition mask_delim :: "char \<Rightarrow> bool" where
  "mask_delim c \<longleftrightarrow> c \<in> {CHR '','', CHR ''|'', CHR '' '', CHR 0x09, CHR 0x0A}"

text \<open>The token loop: an error code, or the accumulated mask.\<close>

fun parse_mask_loop :: "string list \<Rightarrow> u32 \<Rightarrow> int + u32" where
  "parse_mask_loop [] msk = Inr msk"
| "parse_mask_loop (token # ts) msk =
     (if token = [] then parse_mask_loop ts msk
      else
        (let token_mask = kfastblock_fault_mask_for_token token
         in if token_mask = U32_MAX then
              (case kstrtou32 0 token of
                 Inl _ \<Rightarrow> Inl (- EINVAL)
               | Inr numeric \<Rightarrow> parse_mask_loop ts (msk OR numeric))
            else if token = ''none'' then parse_mask_loop ts 0
            else if token = ''all'' then parse_mask_loop ts token_mask
            else parse_mask_loop ts (msk OR token_mask)))"

definition kfastblock_fault_parse_mask :: "string \<Rightarrow> int + u32" where
  "kfastblock_fault_parse_mask buf =
     (if 128 \<le> length buf then Inl (- E2BIG)
      else parse_mask_loop (strsep_tokens mask_delim buf) 0)"

fun format_mask_loop :: "nat \<Rightarrow> (u32 \<times> string) list \<Rightarrow> string \<Rightarrow> u32 \<Rightarrow> string \<times> u32" where
  "format_mask_loop buf_len [] used msk = (used, msk)"
| "format_mask_loop buf_len ((m, name) # descs) used msk =
     (if msk AND m = 0 then format_mask_loop buf_len descs used msk
      else format_mask_loop buf_len descs
             (scnprintf_at buf_len used ((if used \<noteq> [] then '','' else []) @ name))
             (msk AND NOT m))"

definition kfastblock_fault_format_mask :: "u32 \<Rightarrow> nat \<Rightarrow> string" where
  "kfastblock_fault_format_mask msk buf_len =
     (if buf_len = 0 then []
      else if msk = 0 then scnprintf_at buf_len [] ''none''
      else let (used, rest) = format_mask_loop buf_len kfastblock_fault_sites [] msk
           in if rest \<noteq> 0 \<and> length used < buf_len
              then scnprintf_at buf_len used
                     ((if used \<noteq> [] then '','' else []) @ ''0x'' @ print_num 16 (unat rest))
              else used)"

definition kfastblock_fault_site_name :: "u32 \<Rightarrow> string" where
  "kfastblock_fault_site_name site =
     (case List.find (\<lambda>(m, _). m = site) kfastblock_fault_sites of
        Some (_, name) \<Rightarrow> name
      | None \<Rightarrow> ''unknown'')"

section \<open>The injection state\<close>

definition kfastblock_fault_injection_init :: fault_injection_state where
  "kfastblock_fault_injection_init =
     \<lparr> fi_mask = 0, fi_errno_value = - EIO, fi_budget = 0, fi_arm_count = 0, fi_reset_count = 0,
       fi_hit_count = 0, fi_skip_count = 0, fi_last_arm_jiffies = 0, fi_last_reset_jiffies = 0,
       fi_last_trigger_jiffies = 0, fi_last_site = 0, fi_last_errno = 0, fi_enabled = False \<rparr>"

definition kfastblock_fault_note_arm_locked ::
    "u64 \<Rightarrow> fault_injection_state \<Rightarrow> bool \<Rightarrow> fault_injection_state" where
  "kfastblock_fault_note_arm_locked now s enabled =
     (if \<not> enabled then s
      else s \<lparr> fi_arm_count := fi_arm_count s + 1, fi_last_arm_jiffies := now \<rparr>)"

definition kfastblock_fault_injection_set_mask ::
    "fault_injection_state \<Rightarrow> u32 \<Rightarrow> fault_injection_state" where
  "kfastblock_fault_injection_set_mask s msk = s \<lparr> fi_mask := msk \<rparr>"

definition kfastblock_fault_injection_set_errno ::
    "fault_injection_state \<Rightarrow> int \<Rightarrow> fault_injection_state" where
  "kfastblock_fault_injection_set_errno s errno_value =
     s \<lparr> fi_errno_value := (if errno_value \<noteq> 0 then errno_value else - EIO) \<rparr>"

definition kfastblock_fault_injection_set_budget ::
    "fault_injection_state \<Rightarrow> u32 \<Rightarrow> fault_injection_state" where
  "kfastblock_fault_injection_set_budget s budget = s \<lparr> fi_budget := budget \<rparr>"

definition kfastblock_fault_injection_set_enabled ::
    "u64 \<Rightarrow> fault_injection_state \<Rightarrow> bool \<Rightarrow> fault_injection_state" where
  "kfastblock_fault_injection_set_enabled now s enabled =
     kfastblock_fault_note_arm_locked now (s \<lparr> fi_enabled := enabled \<rparr>) enabled"

definition kfastblock_fault_injection_reset ::
    "u64 \<Rightarrow> fault_injection_state \<Rightarrow> fault_injection_state" where
  "kfastblock_fault_injection_reset now s =
     s \<lparr> fi_enabled := False, fi_mask := 0, fi_budget := 0, fi_last_site := 0, fi_last_errno := 0,
         fi_last_reset_jiffies := now, fi_reset_count := fi_reset_count s + 1 \<rparr>"

text \<open>The result is \<open>Some err\<close> when the call must fail with \<^verbatim>\<open>err\<close>, and \<open>None\<close> otherwise
  (\<^verbatim>\<open>*err_out\<close> is then 0).\<close>

definition kfastblock_fault_injection_should_fail ::
    "u64 \<Rightarrow> fault_injection_state \<Rightarrow> u32 \<Rightarrow> int option \<times> fault_injection_state" where
  "kfastblock_fault_injection_should_fail now s site =
     (if site = 0 then (None, s)
      else if \<not> fi_enabled s \<or> fi_mask s AND site = 0 then (None, s)
      else if fi_budget s = 0 then (None, s \<lparr> fi_skip_count := fi_skip_count s + 1 \<rparr>)
      else (let err = (if fi_errno_value s \<noteq> 0 then fi_errno_value s else - EIO)
            in (Some err,
                s \<lparr> fi_budget := fi_budget s - 1, fi_hit_count := fi_hit_count s + 1,
                    fi_last_site := site, fi_last_errno := err,
                    fi_last_trigger_jiffies := now \<rparr>)))"

text \<open>A sequence of calls at successive sites and times.\<close>

fun should_fail_run ::
    "fault_injection_state \<Rightarrow> (u64 \<times> u32) list \<Rightarrow> int option list \<times> fault_injection_state" where
  "should_fail_run s [] = ([], s)"
| "should_fail_run s ((now, site) # calls) =
     (let (r, s1) = kfastblock_fault_injection_should_fail now s site;
          (rs, s2) = should_fail_run s1 calls
      in (r # rs, s2))"

section \<open>Round trip\<close>

text \<open>The names the format loop selects, and the bits it leaves.\<close>

fun selected :: "(u32 \<times> string) list \<Rightarrow> u32 \<Rightarrow> string list \<times> u32" where
  "selected [] msk = ([], msk)"
| "selected ((m, name) # descs) msk =
     (if msk AND m = 0 then selected descs msk
      else let (ns, rest) = selected descs (msk AND NOT m) in (name # ns, rest))"

lemma join_snoc: "join d (ts @ [x]) = (if ts = [] then x else join d ts @ d # x)"
  by (induction d ts rule: join.induct) auto

lemma join_nonempty: "\<forall>t \<in> set ts. t \<noteq> [] \<Longrightarrow> (join d ts \<noteq> []) = (ts \<noteq> [])"
  by (induction d ts rule: join.induct) auto

lemma format_mask_loop_selected:
  assumes "length (join CHR '','' ts) + sum_list (map (\<lambda>d. length (snd d) + 1) descs) < n"
    and "\<forall>t \<in> set ts. t \<noteq> []" "\<forall>d \<in> set descs. snd d \<noteq> []"
  shows "format_mask_loop n descs (join CHR '','' ts) msk =
     (join CHR '','' (ts @ fst (selected descs msk)), snd (selected descs msk))"
  using assms
proof (induction descs arbitrary: ts msk)
  case (Cons d descs)
  obtain m name where d: "d = (m, name)" by (cases d)
  let ?used = "join CHR '','' ts"
  have used: "?used \<noteq> [] \<longleftrightarrow> ts \<noteq> []" using Cons.prems by (simp add: join_nonempty)
  have app: "scnprintf_at n ?used ((if ?used \<noteq> [] then '','' else []) @ name) = join CHR '','' (ts @ [name])"
    using Cons.prems d by (subst scnprintf_at_fits) (auto simp: used join_snoc)
  have "length (join CHR '','' (ts @ [name])) \<le> length ?used + length name + 1"
    by (auto simp: join_snoc)
  then have "format_mask_loop n descs (join CHR '','' (ts @ [name])) (msk AND NOT m) =
     (join CHR '','' ((ts @ [name]) @ fst (selected descs (msk AND NOT m))),
      snd (selected descs (msk AND NOT m)))"
    using Cons.prems d by (intro Cons.IH) auto
  then show ?case
    using Cons.prems Cons.IH [of ts msk] d app by (auto simp: case_prod_beta)
qed simp

lemma and_single_bit: "(x :: u32) AND 2 ^ k = 0 \<or> x AND 2 ^ k = 2 ^ k"
  by (cases "bit x k") (auto intro!: bit_word_eqI simp: bit_simps)

lemma site_single_bit:
  assumes "(m, name) \<in> set kfastblock_fault_sites" "x AND m \<noteq> 0"
  shows "x AND m = m"
proof -
  have "\<exists>k. m = 2 ^ k"
    using assms(1) by (auto simp: kfastblock_fault_sites_def
        intro: exI [of _ 0] exI [of _ 1] exI [of _ 2] exI [of _ 3] exI [of _ 4] exI [of _ 5])
  then show ?thesis using and_single_bit assms(2) by blast
qed

lemma selected_rest: "snd (selected descs msk) AND msk = snd (selected descs msk)"
proof (induction descs msk rule: selected.induct)
  case (2 m name descs msk)
  have "x AND (msk AND NOT m) = x \<Longrightarrow> x AND msk = x" for x
    by (metis (no_types, lifting) and.assoc and.commute and.left_idem)
  then show ?case using 2 by (auto simp: case_prod_beta)
qed simp

lemma selected_bits_step:
  fixes acc m msk rest :: u32
  assumes "msk AND m = m" "rest AND (msk AND NOT m) = rest"
  shows "(acc OR m) OR ((msk AND NOT m) AND NOT rest) = acc OR (msk AND NOT rest)"
proof (rule bit_word_eqI)
  fix n assume n: "n < LENGTH(32)"
  have "bit m n \<Longrightarrow> bit msk n" using assms(1) by (metis bit_and_iff)
  moreover have "bit rest n \<Longrightarrow> \<not> bit m n" using assms(2) by (metis bit_and_iff bit_not_iff)
  ultimately show "bit ((acc OR m) OR ((msk AND NOT m) AND NOT rest)) n = bit (acc OR (msk AND NOT rest)) n"
    using n by (auto simp: bit_simps)
qed

lemma mask_for_site:
  assumes "(m, name) \<in> set kfastblock_fault_sites"
  shows "kfastblock_fault_mask_for_token name = m \<and> name \<notin> {[], ''none'', ''all''} \<and> m \<noteq> U32_MAX"
proof -
  have "\<forall>(m, name) \<in> set kfastblock_fault_sites.
      kfastblock_fault_mask_for_token name = m \<and> name \<notin> {[], ''none'', ''all''} \<and> m \<noteq> U32_MAX"
    by code_simp
  then show ?thesis using assms by blast
qed

lemma parse_selected:
  assumes "set descs \<subseteq> set kfastblock_fault_sites"
  shows "parse_mask_loop (fst (selected descs msk) @ us) acc =
         parse_mask_loop us (acc OR (msk AND NOT (snd (selected descs msk))))"
  using assms
proof (induction descs arbitrary: msk acc)
  case (Cons d descs)
  obtain m name where d: "d = (m, name)" by (cases d)
  note site = mask_for_site [of m name]
  show ?case
  proof (cases "msk AND m = 0")
    case True
    then show ?thesis using Cons d by simp
  next
    case False
    then have m: "msk AND m = m" using Cons.prems d site_single_bit [of m name msk] by auto
    have "parse_mask_loop (fst (selected (d # descs) msk) @ us) acc =
        parse_mask_loop (fst (selected descs (msk AND NOT m)) @ us) (acc OR m)"
      using False Cons.prems d site by (auto simp: case_prod_beta)
    also have "\<dots> = parse_mask_loop us ((acc OR m) OR ((msk AND NOT m) AND NOT (snd (selected descs (msk AND NOT m)))))"
      using Cons by simp
    also have "\<dots> = parse_mask_loop us (acc OR (msk AND NOT (snd (selected descs (msk AND NOT m)))))"
      by (subst selected_bits_step [OF m selected_rest]) simp
    finally show ?thesis using False d by (simp add: case_prod_beta)
  qed
qed simp

lemma selected_names:
  "set (fst (selected descs msk)) \<subseteq> snd ` set descs"
  "length (join CHR '','' (fst (selected descs msk))) \<le> sum_list (map (\<lambda>d. length (snd d) + 1) descs)"
proof (induction descs msk rule: selected.induct)
  case (2 m name descs msk)
  have j: "length (join c (x # xs)) \<le> length x + 1 + length (join c xs)" for c x and xs :: "string list"
    by (cases xs) auto
  {
    case 1
    then show ?case using 2 by (auto simp: case_prod_beta)
  next
    case 2
    then show ?case
      using 2 "2.IH" j [of "CHR '',''" name "fst (selected descs (msk AND NOT m))"]
      by (auto simp: case_prod_beta)
  }
qed simp_all

lemma sites_clean:
  "\<forall>d \<in> set kfastblock_fault_sites. snd d \<noteq> [] \<and> (\<forall>c \<in> set (snd d). \<not> mask_delim c)"
  by code_simp

lemma sites_room: "sum_list (map (\<lambda>d. length (snd d) + 1) kfastblock_fault_sites) = 93"
  by code_simp

lemma delim_no_digit: "digit_val c \<noteq> None \<Longrightarrow> \<not> mask_delim c"
  by (auto simp: mask_delim_def digit_val_def Let_def)

lemma hex_token:
  "''0x'' @ print_num 16 n \<notin> {[], ''none'', ''all''}"
  "\<forall>c \<in> set (''0x'' @ print_num 16 n). \<not> mask_delim c"
  "kfastblock_fault_mask_for_token (''0x'' @ print_num 16 n) = U32_MAX"
  using delim_no_digit print_num_digit_val [of 16 _ n]
  by (auto simp: mask_delim_def kfastblock_fault_mask_for_token_def kfastblock_fault_sites_def)

lemma parse_hex_token:
  "parse_mask_loop [''0x'' @ print_num 16 (unat (x :: u32))] acc = Inr (acc OR x)"
proof -
  have "kstrtou32 0 (''0x'' @ print_num 16 (unat x)) = Inr x"
    using unat_u32_bound [of x] unfolding kstrtou32_def by (subst kstrtou_hex) simp_all
  then show ?thesis using hex_token [of "unat x"] by simp
qed

text \<open>The tokens a formatted non-zero mask consists of.\<close>

definition mask_tokens :: "u32 \<Rightarrow> string list" where
  "mask_tokens msk =
     (let (ns, rest) = selected kfastblock_fault_sites msk
      in ns @ (if rest \<noteq> 0 then [''0x'' @ print_num 16 (unat rest)] else []))"

lemma format_mask_tokens:
  assumes "msk \<noteq> 0" "128 \<le> n"
  shows "kfastblock_fault_format_mask msk n = join CHR '','' (mask_tokens msk)"
    and "length (join CHR '','' (mask_tokens msk)) < 128"
proof -
  obtain ns rest where sel: "selected kfastblock_fault_sites msk = (ns, rest)" by fastforce
  have loop: "format_mask_loop n kfastblock_fault_sites [] msk = (join CHR '','' ns, rest)"
    using format_mask_loop_selected [of "[]" kfastblock_fault_sites n msk] sel assms sites_room sites_clean
    by simp
  have len: "length (join CHR '','' ns) \<le> 93"
    using selected_names(2) [of kfastblock_fault_sites msk] sel sites_room by simp
  have "\<forall>t \<in> set ns. t \<noteq> []"
    using selected_names(1) [of kfastblock_fault_sites msk] sel sites_clean by fastforce
  then have used: "join CHR '','' ns \<noteq> [] \<longleftrightarrow> ns \<noteq> []" by (rule join_nonempty)
  have hex: "length (print_num 16 (unat rest)) \<le> 8"
    using unat_u32_bound [of rest] by (intro print_num_length) simp_all
  show "length (join CHR '','' (mask_tokens msk)) < 128"
    using len hex by (auto simp: mask_tokens_def sel join_snoc)
  show "kfastblock_fault_format_mask msk n = join CHR '','' (mask_tokens msk)"
    using assms loop len hex used
    by (auto simp: kfastblock_fault_format_mask_def mask_tokens_def sel join_snoc)
qed

lemma mask_tokens_parse:
  "parse_mask_loop (mask_tokens msk) 0 = Inr msk"
proof -
  obtain ns rest where sel: "selected kfastblock_fault_sites msk = (ns, rest)" by fastforce
  have sub: "rest AND msk = rest" using selected_rest [of kfastblock_fault_sites msk] sel by simp
  have "(msk AND NOT rest) OR rest = msk"
  proof (rule bit_word_eqI)
    fix k assume k: "k < LENGTH(32)"
    have "bit rest k \<Longrightarrow> bit msk k" using sub by (metis bit_and_iff)
    then show "bit ((msk AND NOT rest) OR rest) k = bit msk k" using k by (auto simp: bit_simps)
  qed
  then show ?thesis
    using parse_selected [of kfastblock_fault_sites msk _ 0] parse_hex_token [of rest] sel
    by (auto simp: mask_tokens_def)
qed

lemma mask_tokens_clean:
  assumes "msk \<noteq> 0"
  shows "mask_tokens msk \<noteq> [] \<and> (\<forall>t \<in> set (mask_tokens msk). \<forall>c \<in> set t. \<not> mask_delim c)"
proof -
  obtain ns rest where sel: "selected kfastblock_fault_sites msk = (ns, rest)" by fastforce
  have "\<forall>t \<in> set ns. \<forall>c \<in> set t. \<not> mask_delim c"
    using selected_names(1) [of kfastblock_fault_sites msk] sel sites_clean by fastforce
  moreover have "mask_tokens msk \<noteq> []"
    using mask_tokens_parse [of msk] assms by auto
  ultimately show ?thesis
    using hex_token(2) [of "unat rest"] by (auto simp: mask_tokens_def sel split: if_splits)
qed

section \<open>The budget\<close>

definition armed_at :: "fault_injection_state \<Rightarrow> u32 \<Rightarrow> bool" where
  "armed_at s site \<longleftrightarrow> fi_enabled s \<and> site \<noteq> 0 \<and> fi_mask s AND site \<noteq> 0"

definition injected_errno :: "fault_injection_state \<Rightarrow> int" where
  "injected_errno s = (if fi_errno_value s \<noteq> 0 then fi_errno_value s else - EIO)"

text \<open>What a budget promises: the first \<open>b\<close> matching calls fail, all others pass.\<close>

fun expected_failures :: "int \<Rightarrow> nat \<Rightarrow> bool list \<Rightarrow> int option list" where
  "expected_failures e b [] = []"
| "expected_failures e b (False # ms) = None # expected_failures e b ms"
| "expected_failures e 0 (True # ms) = None # expected_failures e 0 ms"
| "expected_failures e (Suc b) (True # ms) = Some e # expected_failures e b ms"

lemma expected_failures_count:
  "length (filter (\<lambda>r. r \<noteq> None) (expected_failures e b ms)) = min b (length (filter id ms))"
  by (induction e b ms rule: expected_failures.induct) auto

lemma should_fail_keeps:
  assumes "kfastblock_fault_injection_should_fail now s site = (r, s')"
  shows "armed_at s' = armed_at s \<and> injected_errno s' = injected_errno s"
  using assms
  by (auto simp: kfastblock_fault_injection_should_fail_def armed_at_def injected_errno_def Let_def
      split: if_splits)

lemma should_fail_cases:
  "kfastblock_fault_injection_should_fail now s site = (r, s') \<Longrightarrow>
     (\<not> armed_at s site \<and> r = None \<and> s' = s) \<or>
     (armed_at s site \<and> fi_budget s = 0 \<and> r = None \<and> fi_budget s' = 0) \<or>
     (armed_at s site \<and> fi_budget s \<noteq> 0 \<and> r = Some (injected_errno s) \<and> fi_budget s' = fi_budget s - 1)"
  by (auto simp: kfastblock_fault_injection_should_fail_def armed_at_def injected_errno_def Let_def
      split: if_splits)

lemma should_fail_run_expected:
  "fst (should_fail_run s calls) =
     expected_failures (injected_errno s) (unat (fi_budget s)) (map (\<lambda>c. armed_at s (snd c)) calls)"
proof (induction calls arbitrary: s)
  case (Cons call calls)
  obtain now site where call: "call = (now, site)" by (cases call)
  obtain r s1 where step: "kfastblock_fault_injection_should_fail now s site = (r, s1)" by fastforce
  have IH: "fst (should_fail_run s1 calls) =
      expected_failures (injected_errno s1) (unat (fi_budget s1)) (map (\<lambda>c. armed_at s1 (snd c)) calls)"
    by (rule Cons.IH)
  note keep = should_fail_keeps [OF step]
  have dec: "fi_budget s \<noteq> 0 \<Longrightarrow> unat (fi_budget s) = Suc (unat (fi_budget s - 1))"
    by (simp add: unat_minus_one unat_gt_0)
  have run: "fst (should_fail_run s ((now, site) # calls)) = r # fst (should_fail_run s1 calls)"
    using step by (simp add: case_prod_beta)
  from should_fail_cases [OF step] show ?case
  proof (elim disjE conjE)
    assume "\<not> armed_at s site" "r = None" "s1 = s"
    then show ?thesis using IH by (simp add: call run del: should_fail_run.simps)
  next
    assume "armed_at s site" "fi_budget s = 0" "r = None" "fi_budget s1 = 0"
    then show ?thesis by (simp add: call run IH keep del: should_fail_run.simps)
  next
    assume "armed_at s site" "fi_budget s \<noteq> 0" "r = Some (injected_errno s)"
      "fi_budget s1 = fi_budget s - 1"
    then show ?thesis by (simp add: call run IH keep dec del: should_fail_run.simps)
  qed
qed simp

section \<open>Properties\<close>

text \<open>
  C22. The text form of a fault mask is faithful: whatever the mask, also with bits that name no
  site, the string shown for it parses back to the same mask (for any output buffer of at least
  128 bytes, the size the parser accepts).
\<close>

theorem fault_mask_roundtrip:
  assumes "128 \<le> buf_len"
  shows "kfastblock_fault_parse_mask (kfastblock_fault_format_mask msk buf_len) = Inr msk"
proof (cases "msk = 0")
  case True
  have "kfastblock_fault_parse_mask ''none'' = Inr 0" by code_simp
  then show ?thesis using True assms by (simp add: kfastblock_fault_format_mask_def)
next
  case False
  have "strsep_tokens mask_delim (join CHR '','' (mask_tokens msk)) = mask_tokens msk"
    using mask_tokens_clean [OF False] by (intro strsep_tokens_join) (auto simp: mask_delim_def)
  then show ?thesis
    using format_mask_tokens [OF False assms] mask_tokens_parse [of msk]
    by (simp add: kfastblock_fault_parse_mask_def)
qed

text \<open>
  C23. A fault budget is exact: over any sequence of calls, precisely the first \<open>budget\<close> calls at
  an armed site fail, all with the configured errno, and no other call fails.
\<close>

theorem fault_budget_exact:
  "fst (should_fail_run s calls) =
     expected_failures (injected_errno s) (unat (fi_budget s)) (map (\<lambda>c. armed_at s (snd c)) calls) \<and>
   length (filter (\<lambda>r. r \<noteq> None) (fst (should_fail_run s calls))) =
     min (unat (fi_budget s)) (length (filter (\<lambda>c. armed_at s (snd c)) calls))"
  using expected_failures_count [of "injected_errno s" "unat (fi_budget s)"
      "map (\<lambda>c. armed_at s (snd c)) calls"]
  by (simp add: should_fail_run_expected filter_map o_def)

section \<open>Witnesses\<close>

theorem fault_mask_roundtrip_witness:
  "kfastblock_fault_parse_mask (kfastblock_fault_format_mask 0x8000000A 4096) = Inr 0x8000000A"
  by (rule fault_mask_roundtrip) simp

end
