(* ===== verification/KFB_Control.thy ===== *)
theory KFB_Control
  imports KFB_Strings
begin

text \<open>
  The sysfs control interface, \<^verbatim>\<open>kfastblock/src/control.c\<close>: parsing of the attach and detach
  argument strings and the two entry points. Pointers to strings that may be NULL are options;
  the fixed array of monitor endpoints is a list of eight. Memory allocation is an explicit list
  of outcomes consumed one per call (empty means success), so that every \<^verbatim>\<open>-ENOMEM\<close> path is
  reachable. \<^verbatim>\<open>kfastblock_volume_attach\<close> and \<^verbatim>\<open>kfastblock_volume_detach\<close> are arguments of the
  entry points.
\<close>

definition KFASTBLOCK_MAX_NAME_LEN :: nat where "KFASTBLOCK_MAX_NAME_LEN = 128"
definition KFASTBLOCK_MAX_ADDR_LEN :: nat where "KFASTBLOCK_MAX_ADDR_LEN = 256"
definition KFASTBLOCK_MAX_MONITORS :: u32 where "KFASTBLOCK_MAX_MONITORS = 8"
definition KFASTBLOCK_DEFAULT_MONITOR_PORT :: u16 where "KFASTBLOCK_DEFAULT_MONITOR_PORT = 3334"

record monitor_endpoint =
  me_host :: string
  me_port :: u16

record attach_spec =
  as_monitor_addr :: "string option"
  as_pool_name :: "string option"
  as_image_name :: "string option"
  as_read_only :: bool
  as_debug_size_bytes :: u64
  as_debug_object_size :: u32
  as_debug_pool_id :: u32
  as_debug_pg_count :: u32
  as_nr_monitors :: u32
  as_monitors :: "monitor_endpoint list"

definition zero_endpoint :: monitor_endpoint where
  "zero_endpoint = \<lparr> me_host = [], me_port = 0 \<rparr>"

text \<open>\<^verbatim>\<open>memset(spec, 0, sizeof(*spec))\<close>.\<close>

definition zero_spec :: attach_spec where
  "zero_spec =
     \<lparr> as_monitor_addr = None, as_pool_name = None, as_image_name = None, as_read_only = False,
       as_debug_size_bytes = 0, as_debug_object_size = 0, as_debug_pool_id = 0,
       as_debug_pg_count = 0, as_nr_monitors = 0, as_monitors = replicate 8 zero_endpoint \<rparr>"

section \<open>Library calls\<close>

type_synonym allocs = "bool list"

definition kalloc :: "allocs \<Rightarrow> bool \<times> allocs" where
  "kalloc al = (case al of [] \<Rightarrow> (True, []) | b # bs \<Rightarrow> (b, bs))"

definition sysfs_streq :: "string \<Rightarrow> string \<Rightarrow> bool" where
  "sysfs_streq a b \<longleftrightarrow> a = b \<or> a = b @ [CHR 0x0A] \<or> b = a @ [CHR 0x0A]"

definition strscpy :: "nat \<Rightarrow> string \<Rightarrow> string" where
  "strscpy n s = take (n - 1) s"

definition isspace :: "char \<Rightarrow> bool" where
  "isspace c \<longleftrightarrow> (9 \<le> (of_char c :: nat) \<and> (of_char c :: nat) \<le> 13) \<or> c = CHR '' '' \<or> c = CHR 0xA0"

text \<open>The effect of \<^verbatim>\<open>strim(token)\<close> on the memory at \<^verbatim>\<open>token\<close>: trailing blanks are cut off; leading
  ones stay, since the source drops the returned pointer.\<close>

definition strim_in_place :: "string \<Rightarrow> string" where
  "strim_in_place s = rev (dropWhile isspace (rev s))"

text \<open>\<^verbatim>\<open>strrchr(token, ':')\<close>: the parts before and after the last colon.\<close>

definition split_last_colon :: "string \<Rightarrow> (string \<times> string) option" where
  "split_last_colon s =
     (if CHR '':'' \<in> set s
      then Some (rev (tl (dropWhile (\<lambda>c. c \<noteq> CHR '':'') (rev s))),
                 rev (takeWhile (\<lambda>c. c \<noteq> CHR '':'') (rev s)))
      else None)"

section \<open>Parsing\<close>

definition kfastblock_parse_bool :: "string \<Rightarrow> bool option" where
  "kfastblock_parse_bool v =
     (if sysfs_streq v ''1'' \<or> sysfs_streq v ''true'' \<or> sysfs_streq v ''yes'' then Some True
      else if sysfs_streq v ''0'' \<or> sysfs_streq v ''false'' \<or> sysfs_streq v ''no'' then Some False
      else None)"

text \<open>\<^verbatim>\<open>kfastblock_dup_field\<close>: the old string is freed, the copy stored (NULL when it fails).\<close>

definition kfastblock_dup_field :: "allocs \<Rightarrow> string \<Rightarrow> int \<times> string option \<times> allocs" where
  "kfastblock_dup_field al v =
     (case kalloc al of (ok, al') \<Rightarrow> if ok then (0, Some v, al') else (- ENOMEM, None, al'))"

text \<open>One turn of the endpoint loop: an error, or host and port of the endpoint.\<close>

definition parse_endpoint :: "string \<Rightarrow> int + monitor_endpoint" where
  "parse_endpoint token =
     (case (case split_last_colon token of
              Some (host, port_str) \<Rightarrow>
                (case kstrtou32 10 port_str of
                   Inl e \<Rightarrow> Inl e
                 | Inr port \<Rightarrow> if port = 0 \<or> 0xFFFF < port then Inl (- EINVAL)
                                else Inr (host, ucast port))
            | None \<Rightarrow> Inr (token, KFASTBLOCK_DEFAULT_MONITOR_PORT)) of
        Inl e \<Rightarrow> Inl e
      | Inr (host, port) \<Rightarrow>
          (let h = strim_in_place host
           in if h = [] then Inl (- EINVAL)
              else Inr \<lparr> me_host = strscpy KFASTBLOCK_MAX_ADDR_LEN h, me_port = port \<rparr>))"

fun parse_monitor_loop :: "string list \<Rightarrow> attach_spec \<Rightarrow> int \<times> attach_spec" where
  "parse_monitor_loop [] spec = (0, spec)"
| "parse_monitor_loop (token # ts) spec =
     (if token = [] then parse_monitor_loop ts spec
      else if KFASTBLOCK_MAX_MONITORS \<le> as_nr_monitors spec then (- E2BIG, spec)
      else (case parse_endpoint token of
              Inl e \<Rightarrow> (e, spec)
            | Inr ep \<Rightarrow>
                parse_monitor_loop ts
                  (spec \<lparr> as_monitors := (as_monitors spec)[unat (as_nr_monitors spec) := ep],
                          as_nr_monitors := as_nr_monitors spec + 1 \<rparr>)))"

definition kfastblock_parse_monitor_addr ::
    "allocs \<Rightarrow> attach_spec \<Rightarrow> string \<Rightarrow> int \<times> attach_spec \<times> allocs" where
  "kfastblock_parse_monitor_addr al spec v =
     (if v = [] then (- EINVAL, spec, al)
      else case kalloc al of
        (ok, al') \<Rightarrow>
          if \<not> ok then (- ENOMEM, spec, al')
          else (case parse_monitor_loop (strsep_tokens (\<lambda>c. c = CHR '','') v)
                       (spec \<lparr> as_nr_monitors := 0 \<rparr>) of
                  (ret, spec') \<Rightarrow>
                    (if ret = 0 \<and> as_nr_monitors spec' = 0 then - EINVAL else ret, spec', al')))"

text \<open>One \<^verbatim>\<open>key=value\<close> token.\<close>

definition set_number :: "int + 'a \<Rightarrow> ('a \<Rightarrow> attach_spec) \<Rightarrow> attach_spec \<Rightarrow> int \<times> attach_spec" where
  "set_number r upd spec = (case r of Inl e \<Rightarrow> (e, spec) | Inr v \<Rightarrow> (0, upd v))"

definition parse_attach_field ::
    "allocs \<Rightarrow> attach_spec \<Rightarrow> string \<Rightarrow> string \<Rightarrow> int \<times> attach_spec \<times> allocs" where
  "parse_attach_field al spec key v =
     (if key = ''monitor_addr'' then
        (case kfastblock_dup_field al v of
           (ret, s, al') \<Rightarrow>
             (let spec' = spec \<lparr> as_monitor_addr := s \<rparr>
              in if ret \<noteq> 0 then (ret, spec', al')
                 else kfastblock_parse_monitor_addr al' spec' v))
      else if key = ''pool_name'' then
        (case kfastblock_dup_field al v of (ret, s, al') \<Rightarrow> (ret, spec \<lparr> as_pool_name := s \<rparr>, al'))
      else if key = ''image_name'' then
        (case kfastblock_dup_field al v of (ret, s, al') \<Rightarrow> (ret, spec \<lparr> as_image_name := s \<rparr>, al'))
      else if key = ''read_only'' then
        (case kfastblock_parse_bool v of
           None \<Rightarrow> (- EINVAL, spec, al)
         | Some b \<Rightarrow> (0, spec \<lparr> as_read_only := b \<rparr>, al))
      else if key = ''debug_size_bytes'' then
        (case set_number (kstrtou64 10 v) (\<lambda>n. spec \<lparr> as_debug_size_bytes := n \<rparr>) spec of
           (r, s) \<Rightarrow> (r, s, al))
      else if key = ''debug_object_size'' then
        (case set_number (kstrtou32 10 v) (\<lambda>n. spec \<lparr> as_debug_object_size := n \<rparr>) spec of
           (r, s) \<Rightarrow> (r, s, al))
      else if key = ''debug_pool_id'' then
        (case set_number (kstrtou32 10 v) (\<lambda>n. spec \<lparr> as_debug_pool_id := n \<rparr>) spec of
           (r, s) \<Rightarrow> (r, s, al))
      else if key = ''debug_pg_count'' then
        (case set_number (kstrtou32 10 v) (\<lambda>n. spec \<lparr> as_debug_pg_count := n \<rparr>) spec of
           (r, s) \<Rightarrow> (r, s, al))
      else (- EINVAL, spec, al))"

text \<open>\<^verbatim>\<open>key = strsep(&token, "=")\<close>: the key, and the rest unless there is no \<^verbatim>\<open>=\<close>.\<close>

definition split_key :: "string \<Rightarrow> string \<times> string option" where
  "split_key token =
     (takeWhile (\<lambda>c. c \<noteq> CHR ''='') token,
      case dropWhile (\<lambda>c. c \<noteq> CHR ''='') token of [] \<Rightarrow> None | _ # v \<Rightarrow> Some v)"

fun parse_attach_loop :: "allocs \<Rightarrow> string list \<Rightarrow> attach_spec \<Rightarrow> int \<times> attach_spec" where
  "parse_attach_loop al [] spec = (0, spec)"
| "parse_attach_loop al (token # ts) spec =
     (if token = [] then parse_attach_loop al ts spec
      else (case split_key token of
              (key, v) \<Rightarrow>
                if v = None \<or> v = Some [] then (- EINVAL, spec)
                else (case parse_attach_field al spec key (the v) of
                        (ret, spec', al') \<Rightarrow>
                          if ret \<noteq> 0 then (ret, spec') else parse_attach_loop al' ts spec')))"

definition kfastblock_control_cleanup_attach_spec :: "attach_spec \<Rightarrow> attach_spec" where
  "kfastblock_control_cleanup_attach_spec spec = zero_spec"

definition attach_delim :: "char \<Rightarrow> bool" where
  "attach_delim c \<longleftrightarrow> c \<in> {CHR '' '', CHR 0x09, CHR 0x0D, CHR 0x0A}"

text \<open>\<^verbatim>\<open>args\<close> is the string \<^verbatim>\<open>kmemdup_nul(args, count)\<close> yields; \<open>count\<close> is its guard.\<close>

definition kfastblock_parse_attach_spec ::
    "allocs \<Rightarrow> string \<Rightarrow> nat \<Rightarrow> bool \<Rightarrow> int \<times> attach_spec" where
  "kfastblock_parse_attach_spec al args count require_monitor =
     (if count = 0 then (- EINVAL, zero_spec)
      else case kalloc al of
        (ok, al') \<Rightarrow>
          if \<not> ok then (- ENOMEM, zero_spec)
          else (case parse_attach_loop al' (strsep_tokens attach_delim
                       (takeWhile (\<lambda>c. c \<noteq> CHR 0x00) (take count args))) zero_spec of
                  (ret0, spec) \<Rightarrow>
                    (let ret = (if ret0 \<noteq> 0 then ret0
                                else if as_pool_name spec = None \<or> as_image_name spec = None then - EINVAL
                                else if require_monitor \<and>
                                        (as_monitor_addr spec = None \<or> as_nr_monitors spec = 0)
                                then - EINVAL else 0)
                     in (ret, if ret \<noteq> 0 then kfastblock_control_cleanup_attach_spec spec else spec))))"

section \<open>Entry points\<close>

text \<open>Result: return code, the world after the volume call, and the last-error string.\<close>

definition kfastblock_control_attach ::
    "allocs \<Rightarrow> (attach_spec \<Rightarrow> 'w \<Rightarrow> int \<times> 'w) \<Rightarrow> string \<Rightarrow> nat \<Rightarrow> string \<Rightarrow> 'w
      \<Rightarrow> int \<times> string \<times> 'w" where
  "kfastblock_control_attach al volume_attach args count last_error w =
     (case kalloc al of
        (ok, al') \<Rightarrow>
          if \<not> ok then (- ENOMEM, last_error, w)
          else (case kfastblock_parse_attach_spec al' args count True of
                  (ret, spec) \<Rightarrow>
                    if ret \<noteq> 0 then (ret, ''invalid attach arguments'', w)
                    else (case volume_attach spec w of
                            (r, w') \<Rightarrow>
                              (r, if r = - EOPNOTSUPP then ''volume metadata is incomplete''
                                  else if r = - EEXIST then ''volume already attached''
                                  else if r \<noteq> 0 then ''failed to attach volume''
                                  else ''ok'', w'))))"

definition kfastblock_control_detach ::
    "allocs \<Rightarrow> (attach_spec \<Rightarrow> 'w \<Rightarrow> int \<times> 'w) \<Rightarrow> string \<Rightarrow> nat \<Rightarrow> string \<Rightarrow> 'w
      \<Rightarrow> int \<times> string \<times> 'w" where
  "kfastblock_control_detach al volume_detach args count last_error w =
     (case kalloc al of
        (ok, al') \<Rightarrow>
          if \<not> ok then (- ENOMEM, last_error, w)
          else (case kfastblock_parse_attach_spec al' args count False of
                  (ret, spec) \<Rightarrow>
                    if ret \<noteq> 0 then (ret, ''invalid detach arguments'', w)
                    else (case volume_detach spec w of
                            (r, w') \<Rightarrow>
                              (r, if r = - EBUSY then ''volume is still open''
                                  else if r \<noteq> 0 then ''failed to detach volume''
                                  else ''ok'', w'))))"

section \<open>What a parsed specification looks like\<close>

definition endpoint_ok :: "monitor_endpoint \<Rightarrow> bool" where
  "endpoint_ok ep \<longleftrightarrow> me_port ep \<noteq> 0 \<and> me_host ep \<noteq> [] \<and> length (me_host ep) < KFASTBLOCK_MAX_ADDR_LEN"

definition monitors_ok :: "attach_spec \<Rightarrow> bool" where
  "monitors_ok spec \<longleftrightarrow>
     length (as_monitors spec) = 8 \<and> as_nr_monitors spec \<le> KFASTBLOCK_MAX_MONITORS \<and>
     (\<forall>i < unat (as_nr_monitors spec). endpoint_ok (as_monitors spec ! i))"

lemma unat_max_monitors [simp]: "unat KFASTBLOCK_MAX_MONITORS = 8"
  by (simp add: KFASTBLOCK_MAX_MONITORS_def)

lemma parse_endpoint_ok: "parse_endpoint token = Inr ep \<Longrightarrow> endpoint_ok ep"
proof -
  assume a: "parse_endpoint token = Inr ep"
  have "ucast (p :: u32) \<noteq> (0 :: u16)" if "p \<noteq> 0" "\<not> 0xFFFF < p" for p
  proof -
    have "unat (ucast p :: u16) = unat p"
      using that by (simp add: unsigned_ucast_eq take_bit_nat_eq_self_iff word_less_nat_alt)
    then show ?thesis using that by (metis unat_0 unat_eq_0)
  qed
  then show ?thesis
    using a by (auto simp: parse_endpoint_def endpoint_ok_def strscpy_def Let_def
        KFASTBLOCK_MAX_ADDR_LEN_def KFASTBLOCK_DEFAULT_MONITOR_PORT_def
        split: option.splits sum.splits if_splits)
qed

lemma monitors_ok_snoc:
  assumes "monitors_ok spec" "\<not> KFASTBLOCK_MAX_MONITORS \<le> as_nr_monitors spec" "endpoint_ok ep"
  shows "monitors_ok (spec \<lparr> as_monitors := (as_monitors spec)[unat (as_nr_monitors spec) := ep],
                            as_nr_monitors := as_nr_monitors spec + 1 \<rparr>)"
proof -
  have lt: "as_nr_monitors spec < KFASTBLOCK_MAX_MONITORS" using assms(2) by simp
  then have "unat (as_nr_monitors spec) < 8" by (simp add: word_less_nat_alt)
  then show ?thesis
    using assms unat_inc_less [OF lt] inc_le [OF lt]
    by (auto simp: monitors_ok_def nth_list_update less_Suc_eq)
qed

lemma parse_monitor_loop_ok:
  "monitors_ok spec \<Longrightarrow> parse_monitor_loop ts spec = (r, spec') \<Longrightarrow>
   monitors_ok spec' \<and> as_pool_name spec' = as_pool_name spec \<and> as_image_name spec' = as_image_name spec"
proof (induction ts spec rule: parse_monitor_loop.induct)
  case (2 token ts spec)
  show ?case
    using 2 monitors_ok_snoc [OF 2(3)] parse_endpoint_ok [of token]
    by (auto split: if_splits sum.splits)
qed simp

lemma parse_monitor_addr_ok:
  assumes "monitors_ok spec" "kfastblock_parse_monitor_addr al spec v = (r, spec', al')"
  shows "monitors_ok spec'"
proof -
  have "monitors_ok (spec \<lparr> as_nr_monitors := 0 \<rparr>)" using assms(1) by (simp add: monitors_ok_def)
  then show ?thesis
    using assms parse_monitor_loop_ok
    by (auto simp: kfastblock_parse_monitor_addr_def split: if_splits prod.splits)
qed

lemma monitors_ok_update [simp]:
  "monitors_ok (as_monitor_addr_update f spec) = monitors_ok spec"
  "monitors_ok (as_pool_name_update f spec) = monitors_ok spec"
  "monitors_ok (as_image_name_update f spec) = monitors_ok spec"
  "monitors_ok (as_read_only_update g spec) = monitors_ok spec"
  "monitors_ok (as_debug_size_bytes_update h spec) = monitors_ok spec"
  "monitors_ok (as_debug_object_size_update k spec) = monitors_ok spec"
  "monitors_ok (as_debug_pool_id_update k spec) = monitors_ok spec"
  "monitors_ok (as_debug_pg_count_update k spec) = monitors_ok spec"
  by (simp_all add: monitors_ok_def)

lemma parse_attach_field_ok:
  assumes "monitors_ok spec" "parse_attach_field al spec key v = (r, spec', al')"
  shows "monitors_ok spec'"
  using assms unfolding parse_attach_field_def set_number_def
  by (auto simp: Let_def split: if_splits prod.splits option.splits sum.splits
      dest: parse_monitor_addr_ok [rotated])

lemma parse_attach_loop_ok:
  "monitors_ok spec \<Longrightarrow> parse_attach_loop al ts spec = (r, spec') \<Longrightarrow> monitors_ok spec'"
proof (induction al ts spec rule: parse_attach_loop.induct)
  case (2 al token ts spec)
  obtain key v where k: "split_key token = (key, v)" by fastforce
  obtain ret spec1 al1 where f: "parse_attach_field al spec key (the v) = (ret, spec1, al1)"
    by (metis prod_cases3)
  show ?case
    using 2 k f parse_attach_field_ok [OF 2(3) f] by (auto split: if_splits)
qed simp

lemma zero_spec_ok: "monitors_ok zero_spec"
  by (simp add: monitors_ok_def zero_spec_def KFASTBLOCK_MAX_MONITORS_def)

text \<open>
  C24. Parsing an attach or detach string either fails and leaves the specification cleared, or
  succeeds with pool and image named, at most eight monitors, at least one when monitors are
  required, and every monitor with a non-zero port and a non-empty host that fits its buffer.
\<close>

theorem parse_attach_spec_wellformed:
  assumes "kfastblock_parse_attach_spec al args count require_monitor = (ret, spec)"
  shows "if ret \<noteq> 0 then spec = zero_spec
         else as_pool_name spec \<noteq> None \<and> as_image_name spec \<noteq> None \<and>
              (require_monitor \<longrightarrow> as_monitor_addr spec \<noteq> None \<and> as_nr_monitors spec \<noteq> 0) \<and>
              as_nr_monitors spec \<le> KFASTBLOCK_MAX_MONITORS \<and>
              (\<forall>i < unat (as_nr_monitors spec). endpoint_ok (as_monitors spec ! i))"
  using assms parse_attach_loop_ok [OF zero_spec_ok]
  by (auto simp: kfastblock_parse_attach_spec_def kfastblock_control_cleanup_attach_spec_def Let_def
      monitors_ok_def split: if_splits prod.splits)

section \<open>The documented attach line\<close>

definition host_clean :: "string \<Rightarrow> bool" where
  "host_clean h \<longleftrightarrow> h \<noteq> [] \<and> length h < KFASTBLOCK_MAX_ADDR_LEN \<and>
     (\<forall>c \<in> set h. \<not> isspace c \<and> c \<noteq> CHR '','' \<and> c \<noteq> CHR '':'' \<and> c \<noteq> CHR 0x00)"

definition name_clean :: "string \<Rightarrow> bool" where
  "name_clean s \<longleftrightarrow> s \<noteq> [] \<and> (\<forall>c \<in> set s. \<not> attach_delim c \<and> c \<noteq> CHR 0x00)"

definition show_endpoint :: "monitor_endpoint \<Rightarrow> string" where
  "show_endpoint ep = me_host ep @ '':'' @ print_num 10 (unat (me_port ep))"

definition show_monitors :: "monitor_endpoint list \<Rightarrow> string" where
  "show_monitors eps = join CHR '','' (map show_endpoint eps)"

definition attach_line :: "monitor_endpoint list \<Rightarrow> string \<Rightarrow> string \<Rightarrow> string" where
  "attach_line eps pool img =
     join CHR '' '' [''monitor_addr='' @ show_monitors eps, ''pool_name='' @ pool, ''image_name='' @ img]"

lemma digits_clean:
  assumes "c \<in> set (print_num 10 n)"
  shows "c \<noteq> CHR '':'' \<and> c \<noteq> CHR '','' \<and> \<not> attach_delim c \<and> c \<noteq> CHR 0x00"
  using print_num_digit_val [of 10 c n] assms
  by (auto simp: digit_val_def Let_def attach_delim_def)

lemma dropWhile_rev_clean: "\<forall>c \<in> set s. \<not> P c \<Longrightarrow> dropWhile P s = s"
  by (cases s) auto

lemma split_last_colon_append:
  assumes "\<forall>c \<in> set b. c \<noteq> CHR '':''"
  shows "split_last_colon (a @ CHR '':'' # b) = Some (a, b)"
  using assms by (auto simp: split_last_colon_def dropWhile_append takeWhile_append)

lemma strim_clean: "\<forall>c \<in> set h. \<not> isspace c \<Longrightarrow> strim_in_place h = h"
  by (simp add: strim_in_place_def dropWhile_rev_clean)

lemma kstrtou32_port: "kstrtou32 10 (print_num 10 (unat (p :: u16))) = Inr (ucast p)"
proof -
  have "unat p < 2 ^ 32" using unat_u16_bound [of p] by simp
  then have "kstrtou (2 ^ 32) 10 (print_num 10 (unat p)) = Inr (unat p)"
    by (intro kstrtou_dec) simp_all
  moreover have "(of_nat (unat p) :: u32) = ucast p"
    using unat_u16_bound [of p] by (simp add: word_unat_eq_iff unat_of_nat_small)
  ultimately show ?thesis by (simp add: kstrtou32_def)
qed

lemma parse_show_endpoint:
  assumes "host_clean (me_host ep)" "me_port ep \<noteq> 0"
  shows "parse_endpoint (show_endpoint ep) = Inr ep"
proof -
  have sp: "split_last_colon (show_endpoint ep) = Some (me_host ep, print_num 10 (unat (me_port ep)))"
    using split_last_colon_append digits_clean by (simp add: show_endpoint_def)
  have "unat (ucast (me_port ep) :: u32) \<noteq> 0" using assms(2) by (simp add: unat_eq_0)
  then have "(ucast (me_port ep) :: u32) \<noteq> 0" by (metis unat_0)
  moreover have "\<not> 0xFFFF < (ucast (me_port ep) :: u32)"
    using unat_u16_bound [of "me_port ep"] by (simp add: word_less_nat_alt)
  moreover have "ucast (ucast (me_port ep) :: u32) = me_port ep"
    using unat_u16_bound [of "me_port ep"]
    by (simp add: word_unat_eq_iff unsigned_ucast_eq take_bit_word_eq_self)
  ultimately show ?thesis
    using assms(1) sp kstrtou32_port [of "me_port ep"] strim_clean [of "me_host ep"]
    by (simp add: parse_endpoint_def host_clean_def strscpy_def KFASTBLOCK_MAX_ADDR_LEN_def)
qed

lemma parse_monitor_loop_show:
  assumes "\<forall>ep \<in> set eps. host_clean (me_host ep) \<and> me_port ep \<noteq> 0"
    and "unat (as_nr_monitors spec) + length eps \<le> 8" "length (as_monitors spec) = 8"
  shows "parse_monitor_loop (map show_endpoint eps) spec =
     (0, spec \<lparr> as_monitors := take (unat (as_nr_monitors spec)) (as_monitors spec) @ eps
                    @ drop (unat (as_nr_monitors spec) + length eps) (as_monitors spec),
                as_nr_monitors := as_nr_monitors spec + of_nat (length eps) \<rparr>)"
  using assms
proof (induction eps arbitrary: spec)
  case (Cons ep eps)
  let ?n = "as_nr_monitors spec"
  let ?s = "spec \<lparr> as_monitors := (as_monitors spec)[unat ?n := ep], as_nr_monitors := ?n + 1 \<rparr>"
  have lt: "?n < KFASTBLOCK_MAX_MONITORS"
    using Cons.prems by (simp add: word_less_nat_alt)
  have n: "unat (?n + 1) = unat ?n + 1" by (rule unat_inc_less [OF lt])
  have nle: "\<not> KFASTBLOCK_MAX_MONITORS \<le> ?n" using lt by simp
  have step: "parse_monitor_loop (map show_endpoint (ep # eps)) spec =
      parse_monitor_loop (map show_endpoint eps) ?s"
    using Cons.prems parse_show_endpoint [of ep] nle by (auto simp: show_endpoint_def [of ep])
  have IH: "parse_monitor_loop (map show_endpoint eps) ?s =
     (0, ?s \<lparr> as_monitors := take (unat ?n + 1) (as_monitors ?s) @ eps
                    @ drop (unat ?n + 1 + length eps) (as_monitors ?s),
                as_nr_monitors := ?n + 1 + of_nat (length eps) \<rparr>)"
    using Cons.IH [of ?s] Cons.prems n by simp
  have "take (unat ?n + 1) (as_monitors ?s) = take (unat ?n) (as_monitors spec) @ [ep]"
    using Cons.prems by (simp add: take_Suc_conv_app_nth)
  then show ?case using step IH by (simp add: add.assoc)
qed simp

lemma delim_isspace: "attach_delim c \<Longrightarrow> isspace c"
  by (auto simp: attach_delim_def isspace_def)

lemma show_endpoint_clean:
  assumes "host_clean (me_host ep)" "c \<in> set (show_endpoint ep)"
  shows "c \<noteq> CHR '','' \<and> \<not> attach_delim c \<and> c \<noteq> CHR 0x00"
proof -
  have "c \<in> set (me_host ep) \<or> c = CHR '':'' \<or> c \<in> set (print_num 10 (unat (me_port ep)))"
    using assms(2) by (auto simp: show_endpoint_def)
  moreover have "\<not> attach_delim CHR '':''" by (simp add: attach_delim_def)
  ultimately show ?thesis
    using assms(1) digits_clean [of c "unat (me_port ep)"] delim_isspace [of c]
    by (auto simp: host_clean_def)
qed

lemma set_join: "set (join d ts) \<subseteq> insert d (\<Union> (set ` set ts))"
  by (induction d ts rule: join.induct) auto

lemma show_monitors_clean:
  assumes "\<forall>ep \<in> set eps. host_clean (me_host ep)" "c \<in> set (show_monitors eps)"
  shows "\<not> attach_delim c \<and> c \<noteq> CHR 0x00"
proof -
  have "c = CHR '','' \<or> (\<exists>ep \<in> set eps. c \<in> set (show_endpoint ep))"
    using assms(2) set_join [of "CHR '',''" "map show_endpoint eps"] by (auto simp: show_monitors_def)
  then show ?thesis
    using assms(1) show_endpoint_clean by (auto simp: attach_delim_def)
qed

lemma split_key_append:
  "\<forall>c \<in> set k. c \<noteq> CHR ''='' \<Longrightarrow> split_key (k @ CHR ''='' # v) = (k, Some v)"
  by (auto simp: split_key_def dropWhile_append takeWhile_append)

lemma show_monitors_nonempty: "eps \<noteq> [] \<Longrightarrow> show_monitors eps \<noteq> []"
  by (cases eps; cases "tl eps") (auto simp: show_monitors_def show_endpoint_def)

lemma parse_monitor_addr_show:
  assumes "\<forall>ep \<in> set eps. host_clean (me_host ep) \<and> me_port ep \<noteq> 0" "eps \<noteq> []" "length eps \<le> 8"
    and "length (as_monitors spec) = 8"
  shows "kfastblock_parse_monitor_addr [] spec (show_monitors eps) =
     (0, spec \<lparr> as_monitors := eps @ drop (length eps) (as_monitors spec),
                as_nr_monitors := of_nat (length eps) \<rparr>, [])"
proof -
  have "strsep_tokens (\<lambda>c. c = CHR '','') (show_monitors eps) = map show_endpoint eps"
    unfolding show_monitors_def using assms show_endpoint_clean
    by (intro strsep_tokens_join) auto
  moreover have "parse_monitor_loop (map show_endpoint eps) (spec \<lparr> as_nr_monitors := 0 \<rparr>) =
      (0, spec \<lparr> as_monitors := eps @ drop (length eps) (as_monitors spec),
                 as_nr_monitors := of_nat (length eps) \<rparr>)"
    using assms by (subst parse_monitor_loop_show) simp_all
  moreover have "unat (of_nat (length eps) :: u32) = length eps"
    using assms by (intro unat_of_nat_small) simp
  then have "(of_nat (length eps) :: u32) \<noteq> 0" using assms(2) by (metis length_0_conv unat_0)
  ultimately show ?thesis
    using show_monitors_nonempty [OF assms(2)]
    by (simp add: kfastblock_parse_monitor_addr_def kalloc_def)
qed

text \<open>
  C25. The attach line the documentation gives, with up to eight monitors as host:port, a pool
  and an image, is accepted and yields exactly these monitors in order, this pool and this image,
  for all clean names and all ports (memory permitting).
\<close>

theorem parse_attach_line:
  assumes "\<forall>ep \<in> set eps. host_clean (me_host ep) \<and> me_port ep \<noteq> 0" "eps \<noteq> []" "length eps \<le> 8"
    and "name_clean pool" "name_clean img" "length (attach_line eps pool img) \<le> count"
  shows "kfastblock_parse_attach_spec [] (attach_line eps pool img) count req =
     (0, zero_spec \<lparr> as_monitor_addr := Some (show_monitors eps), as_pool_name := Some pool,
           as_image_name := Some img, as_nr_monitors := of_nat (length eps),
           as_monitors := eps @ replicate (8 - length eps) zero_endpoint \<rparr>)"
proof -
  define ts where
    "ts = [''monitor_addr='' @ show_monitors eps, ''pool_name='' @ pool, ''image_name='' @ img]"
  have line: "attach_line eps pool img = join CHR '' '' ts" by (simp add: attach_line_def ts_def)
  have delim: "\<forall>t \<in> set ts. \<forall>c \<in> set t. \<not> attach_delim c \<and> c \<noteq> CHR 0x00"
    using assms show_monitors_clean [of eps] by (auto simp: ts_def name_clean_def attach_delim_def)
  then have tok: "strsep_tokens attach_delim (attach_line eps pool img) = ts"
    unfolding line by (intro strsep_tokens_join) (auto simp: attach_delim_def ts_def)
  have "\<forall>c \<in> set (attach_line eps pool img). c \<noteq> CHR 0x00"
    using set_join [of "CHR '' ''" ts] delim unfolding line by fastforce
  then have nul: "takeWhile (\<lambda>c. c \<noteq> CHR 0x00) (attach_line eps pool img) = attach_line eps pool img"
    by simp
  have cnt: "count \<noteq> 0" using assms(6) by (auto simp: attach_line_def)
  have keys: "split_key (''monitor_addr='' @ show_monitors eps) = (''monitor_addr'', Some (show_monitors eps))"
    "split_key (''pool_name='' @ pool) = (''pool_name'', Some pool)"
    "split_key (''image_name='' @ img) = (''image_name'', Some img)"
    using split_key_append [of "''monitor_addr''"] split_key_append [of "''pool_name''"]
      split_key_append [of "''image_name''"] by simp_all
  have mon: "kfastblock_parse_monitor_addr [] (zero_spec \<lparr> as_monitor_addr := Some (show_monitors eps) \<rparr>)
        (show_monitors eps) =
      (0, zero_spec \<lparr> as_monitor_addr := Some (show_monitors eps), as_nr_monitors := of_nat (length eps),
           as_monitors := eps @ replicate (8 - length eps) zero_endpoint \<rparr>, [])"
    using assms by (subst parse_monitor_addr_show) (simp_all add: zero_spec_def)
  have "unat (of_nat (length eps) :: u32) = length eps"
    using assms by (intro unat_of_nat_small) simp
  then have nr: "(of_nat (length eps) :: u32) \<noteq> 0" using assms(2) by (metis length_0_conv unat_0)
  have loop: "parse_attach_loop [] ts zero_spec =
     (0, zero_spec \<lparr> as_monitor_addr := Some (show_monitors eps), as_pool_name := Some pool,
           as_image_name := Some img, as_nr_monitors := of_nat (length eps),
           as_monitors := eps @ replicate (8 - length eps) zero_endpoint \<rparr>)"
    using keys mon assms(4,5) show_monitors_nonempty [OF assms(2)]
    by (simp add: ts_def parse_attach_field_def kfastblock_dup_field_def kalloc_def name_clean_def Let_def)
  show ?thesis
    using cnt nr assms(6)
    by (simp add: kfastblock_parse_attach_spec_def kalloc_def Let_def nul tok loop)
qed

section \<open>Witnesses\<close>

definition demo_eps :: "monitor_endpoint list" where
  "demo_eps = [\<lparr> me_host = ''10.0.0.1'', me_port = 3334 \<rparr>, \<lparr> me_host = ''mon2'', me_port = 4000 \<rparr>]"

theorem parse_attach_spec_wellformed_witness:
  "kfastblock_parse_attach_spec [] ''pool_name=p image_name='' 23 False = (- EINVAL, zero_spec)"
proof -
  have "fst (kfastblock_parse_attach_spec [] ''pool_name=p image_name='' 23 False) = - EINVAL"
    by code_simp
  then obtain spec where
    s: "kfastblock_parse_attach_spec [] ''pool_name=p image_name='' 23 False = (- EINVAL, spec)"
    by (metis prod.collapse)
  from parse_attach_spec_wellformed [OF s] show ?thesis using s by simp
qed

theorem parse_attach_line_witness:
  "fst (kfastblock_parse_attach_spec [] (attach_line demo_eps ''rbd'' ''vol=1'') 200 True) = 0"
proof -
  have "\<forall>ep \<in> set demo_eps. host_clean (me_host ep) \<and> me_port ep \<noteq> 0" by code_simp
  moreover have "demo_eps \<noteq> []" "length demo_eps \<le> 8" by (simp_all add: demo_eps_def)
  moreover have "name_clean ''rbd''" "name_clean ''vol=1''" by code_simp+
  moreover have "length (attach_line demo_eps ''rbd'' ''vol=1'') \<le> 200"
    by (simp add: attach_line_def demo_eps_def show_monitors_def show_endpoint_def print_num.simps)
  ultimately show ?thesis
    using parse_attach_line [of demo_eps "''rbd''" "''vol=1''" 200 True] by simp
qed

end
