(* ===== verification/KFB_Meta.thy ===== *)
theory KFB_Meta
  imports KFB_Control "HOL-Library.Product_Lexorder"
begin

text \<open>
  The cluster view, \<^verbatim>\<open>kfastblock/src/meta.c\<close>: OSD endpoints and placement-group routes in arrays
  sorted by id, searched by bisection, and the leader cache inside the routes. An array is a list,
  a pointer into it an index. Fetching from the monitors (\<^verbatim>\<open>kfastblock_transport_fetch_*\<close>) is an
  argument of the bootstrap and refresh operations. The locale \<open>sorted_array_search\<close> is the
  contract of both bisections.
\<close>

datatype meta_sync_state = KFASTBLOCK_META_SYNC_NEW | KFASTBLOCK_META_SYNC_STALE | KFASTBLOCK_META_SYNC_READY

record image_info =
  ii_pool_name :: string
  ii_image_name :: string
  ii_size_bytes :: u64
  ii_block_size :: u32
  ii_object_size :: u32
  ii_pool_id :: u32
  ii_pg_count :: u32
  ii_read_only :: bool

record osd_shard =
  os_shard_id :: u32
  os_port :: u16
  os_core_id :: u16

record osd_endpoint =
  oe_osd_id :: u32
  oe_flags :: u32
  oe_shard_count :: u16
  oe_address :: string
  oe_shards :: "osd_shard list"

record leader_info =
  li_osd_id :: u32
  li_port :: u16
  li_address :: string

record pg_route =
  pr_pool_id :: u32
  pr_pg_id :: u32
  pr_version :: u64
  pr_state :: u32
  pr_primary_shard :: u32
  pr_replica_count :: u32
  pr_osd_ids :: "u32 list"
  pr_leader_valid :: bool
  pr_leader :: leader_info

record cluster_view =
  cv_image :: image_info
  cv_image_epoch :: u64
  cv_osdmap_epoch :: u64
  cv_pgmap_epoch :: u64
  cv_leader_epoch :: u64
  cv_osd_count :: u32
  cv_route_count :: u32
  cv_last_refresh_jiffies :: u64
  cv_last_image_refresh_jiffies :: u64
  cv_sync_state :: meta_sync_state
  cv_osds :: "osd_endpoint list"
  cv_routes :: "pg_route list"

definition zero_leader :: leader_info where
  "zero_leader = \<lparr> li_osd_id = 0, li_port = 0, li_address = [] \<rparr>"

definition zero_image :: image_info where
  "zero_image = \<lparr> ii_pool_name = [], ii_image_name = [], ii_size_bytes = 0, ii_block_size = 0,
     ii_object_size = 0, ii_pool_id = 0, ii_pg_count = 0, ii_read_only = False \<rparr>"

definition the_default_str :: "string option \<Rightarrow> string" where
  "the_default_str s = (case s of None \<Rightarrow> [] | Some v \<Rightarrow> v)"

section \<open>Searching\<close>

lemma mid_bounds:
  fixes low high :: u32
  assumes "low < high"
  shows "low \<le> low + drop_bit 1 (high - low)" "low + drop_bit 1 (high - low) < high"
    and "unat (low + drop_bit 1 (high - low) + 1) = unat (low + drop_bit 1 (high - low)) + 1"
    and "unat (low + drop_bit 1 (high - low)) = unat low + (unat high - unat low) div 2"
proof -
  have d: "unat (drop_bit 1 (high - low)) = (unat high - unat low) div 2"
    using assms by (simp add: drop_bit_eq_div unat_div unat_sub)
  have "unat low + (unat high - unat low) div 2 < unat high"
    using assms by (simp add: word_less_nat_alt)
  then have s: "unat (low + drop_bit 1 (high - low)) = unat low + (unat high - unat low) div 2"
    using unat_u32_bound [of high] by (subst unat_add_lem [THEN iffD1]) (simp_all add: d [unfolded One_nat_def])
  then show "unat (low + drop_bit 1 (high - low)) = unat low + (unat high - unat low) div 2" .
  show "low \<le> low + drop_bit 1 (high - low)" using s by (simp add: word_le_nat_alt)
  show lt: "low + drop_bit 1 (high - low) < high"
    using s assms by (simp add: word_less_nat_alt)
  show "unat (low + drop_bit 1 (high - low) + 1) = unat (low + drop_bit 1 (high - low)) + 1"
    by (rule unat_inc_less [OF lt])
qed

text \<open>The bisection loop, written twice in the source with different comparisons: \<open>before\<close> says
  that an element sorts before the key.\<close>

function lower_bound :: "('e \<Rightarrow> bool) \<Rightarrow> 'e list \<Rightarrow> u32 \<Rightarrow> u32 \<Rightarrow> u32" where
  "lower_bound before xs low high =
     (if low < high
      then (let mid = low + drop_bit 1 (high - low)
            in if before (xs ! unat mid) then lower_bound before xs (mid + 1) high
               else lower_bound before xs low mid)
      else low)"
  by auto

termination
proof (relation "measure (\<lambda>(_, _, low, high). unat high - unat low)", goal_cases)
  case (2 before xs low high mid)
  then have "unat low \<le> unat mid" "unat mid < unat high" "unat (mid + 1) = unat mid + 1"
    using mid_bounds [of low high] by (simp_all add: word_less_nat_alt word_le_nat_alt)
  then show ?case by simp
next
  case (3 before xs low high mid)
  then have "unat low \<le> unat mid" "unat mid < unat high"
    using mid_bounds [of low high] by (simp_all add: word_less_nat_alt word_le_nat_alt)
  then show ?case by simp
qed simp

declare lower_bound.simps [simp del]

definition kfastblock_meta_find_osd :: "cluster_view \<Rightarrow> u32 \<Rightarrow> nat option" where
  "kfastblock_meta_find_osd view osd_id =
     (if cv_osds view = [] \<or> cv_osd_count view = 0 then None
      else (let low = lower_bound (\<lambda>osd. oe_osd_id osd < osd_id) (cv_osds view) 0 (cv_osd_count view)
            in if low < cv_osd_count view \<and> oe_osd_id (cv_osds view ! unat low) = osd_id
               then Some (unat low) else None))"

definition kfastblock_meta_find_osd_shard :: "osd_endpoint \<Rightarrow> u32 \<Rightarrow> osd_shard option" where
  "kfastblock_meta_find_osd_shard osd shard_id =
     (if oe_shards osd = [] \<or> oe_shard_count osd = 0 then None
      else List.find (\<lambda>s. os_shard_id s = shard_id) (take (unat (oe_shard_count osd)) (oe_shards osd)))"

definition kfastblock_meta_find_pg_route :: "cluster_view \<Rightarrow> u32 \<Rightarrow> u32 \<Rightarrow> nat option" where
  "kfastblock_meta_find_pg_route view pool_id pg_id =
     (if cv_routes view = [] \<or> cv_route_count view = 0 then None
      else (let low = lower_bound
                  (\<lambda>route. pr_pool_id route < pool_id \<or>
                           (pr_pool_id route = pool_id \<and> pr_pg_id route < pg_id))
                  (cv_routes view) 0 (cv_route_count view)
            in if low < cv_route_count view \<and>
                  pr_pool_id (cv_routes view ! unat low) = pool_id \<and>
                  pr_pg_id (cv_routes view ! unat low) = pg_id
               then Some (unat low) else None))"

definition kfastblock_pg_route_has_osd :: "pg_route \<Rightarrow> u32 \<Rightarrow> bool" where
  "kfastblock_pg_route_has_osd route osd_id \<longleftrightarrow>
     osd_id \<in> set (take (unat (pr_replica_count route)) (pr_osd_ids route))"

text \<open>Result: return code and, on success, the indices of route and OSD and the shard.\<close>

definition kfastblock_meta_resolve_pg_target ::
    "cluster_view \<Rightarrow> u32 \<Rightarrow> u32 \<Rightarrow> u32 \<Rightarrow> int \<times> (nat \<times> nat \<times> osd_shard) option" where
  "kfastblock_meta_resolve_pg_target view pool_id pg_id osd_id =
     (case kfastblock_meta_find_pg_route view pool_id pg_id of
        None \<Rightarrow> (- ENOENT, None)
      | Some r \<Rightarrow>
          if \<not> kfastblock_pg_route_has_osd (cv_routes view ! r) osd_id then (- ENOENT, None)
          else (case kfastblock_meta_find_osd view osd_id of
                  None \<Rightarrow> (- ENOENT, None)
                | Some k \<Rightarrow>
                    (case kfastblock_meta_find_osd_shard (cv_osds view ! k)
                            (pr_primary_shard (cv_routes view ! r)) of
                       None \<Rightarrow> (- ENOENT, None)
                     | Some s \<Rightarrow> (0, Some (r, k, s)))))"

section \<open>The leader cache\<close>

definition kfastblock_meta_get_pg_leader ::
    "cluster_view \<Rightarrow> u32 \<Rightarrow> u32 \<Rightarrow> int \<times> leader_info" where
  "kfastblock_meta_get_pg_leader view pool_id pg_id =
     (case kfastblock_meta_find_pg_route view pool_id pg_id of
        None \<Rightarrow> (- ENOENT, zero_leader)
      | Some r \<Rightarrow> if pr_leader_valid (cv_routes view ! r) then (0, pr_leader (cv_routes view ! r))
                   else (- ENOENT, zero_leader))"

definition kfastblock_meta_set_pg_leader ::
    "cluster_view \<Rightarrow> u32 \<Rightarrow> u32 \<Rightarrow> leader_info \<Rightarrow> int \<times> cluster_view" where
  "kfastblock_meta_set_pg_leader view pool_id pg_id leader =
     (case kfastblock_meta_find_pg_route view pool_id pg_id of
        None \<Rightarrow> (- ENOENT, view)
      | Some r \<Rightarrow>
          (0, view \<lparr> cv_routes := (cv_routes view)
                 [r := (cv_routes view ! r) \<lparr> pr_leader := leader, pr_leader_valid := True \<rparr>] \<rparr>))"

definition kfastblock_meta_invalidate_pg_leader :: "cluster_view \<Rightarrow> u32 \<Rightarrow> u32 \<Rightarrow> cluster_view" where
  "kfastblock_meta_invalidate_pg_leader view pool_id pg_id =
     (case kfastblock_meta_find_pg_route view pool_id pg_id of
        None \<Rightarrow> view
      | Some r \<Rightarrow>
          view \<lparr> cv_routes := (cv_routes view)
             [r := (cv_routes view ! r) \<lparr> pr_leader_valid := False, pr_leader := zero_leader \<rparr>] \<rparr>)"

definition kfastblock_meta_invalidate_all_pg_leaders :: "cluster_view \<Rightarrow> cluster_view" where
  "kfastblock_meta_invalidate_all_pg_leaders view =
     (if cv_routes view = [] then view
      else (let n = unat (cv_route_count view);
                invalidated = (\<exists>r \<in> set (take n (cv_routes view)). pr_leader_valid r);
                clear = (\<lambda>r. if pr_leader_valid r
                             then r \<lparr> pr_leader_valid := False, pr_leader := zero_leader \<rparr> else r)
            in view \<lparr> cv_routes := map clear (take n (cv_routes view)) @ drop n (cv_routes view),
                      cv_leader_epoch := (if invalidated \<or> cv_leader_epoch view = 0
                                          then cv_leader_epoch view + 1 else cv_leader_epoch view) \<rparr>))"

text \<open>The merge loop of \<^verbatim>\<open>kfastblock_meta_copy_leader_cache\<close>: the lists are the parts of the two
  arrays from \<^verbatim>\<open>dst_idx\<close> and \<^verbatim>\<open>src_idx\<close> on.\<close>

fun kfastblock_meta_copy_leader_cache :: "pg_route list \<Rightarrow> pg_route list \<Rightarrow> pg_route list" where
  "kfastblock_meta_copy_leader_cache [] src = []"
| "kfastblock_meta_copy_leader_cache dst [] = dst"
| "kfastblock_meta_copy_leader_cache (d # dst) (s # src) =
     (if pr_pool_id s = pr_pool_id d \<and> pr_pg_id s = pr_pg_id d then
        d \<lparr> pr_leader_valid := pr_leader_valid s,
            pr_leader := (if pr_leader_valid s then pr_leader s else pr_leader d) \<rparr>
        # kfastblock_meta_copy_leader_cache dst src
      else if pr_pool_id s < pr_pool_id d \<or> (pr_pool_id s = pr_pool_id d \<and> pr_pg_id s < pr_pg_id d)
      then kfastblock_meta_copy_leader_cache (d # dst) src
      else d # kfastblock_meta_copy_leader_cache dst (s # src))"

section \<open>Life cycle of a view\<close>

definition kfastblock_meta_cleanup_view :: cluster_view where
  "kfastblock_meta_cleanup_view =
     \<lparr> cv_image = zero_image, cv_image_epoch = 0, cv_osdmap_epoch = 0, cv_pgmap_epoch = 0,
       cv_leader_epoch = 0, cv_osd_count = 0, cv_route_count = 0, cv_last_refresh_jiffies = 0,
       cv_last_image_refresh_jiffies = 0, cv_sync_state = KFASTBLOCK_META_SYNC_NEW,
       cv_osds = [], cv_routes = [] \<rparr>"

definition kfastblock_meta_replace_cluster_map ::
    "cluster_view \<Rightarrow> u64 \<Rightarrow> u64 \<Rightarrow> u32 \<Rightarrow> u32 \<Rightarrow> osd_endpoint list \<Rightarrow> u32 \<Rightarrow> pg_route list
      \<Rightarrow> cluster_view" where
  "kfastblock_meta_replace_cluster_map view osdmap_epoch pgmap_epoch pool_pg_count osd_count osds
       route_count routes =
     (let maps_changed = (cv_osdmap_epoch view \<noteq> osdmap_epoch \<or> cv_pgmap_epoch view \<noteq> pgmap_epoch)
      in view \<lparr> cv_osdmap_epoch := osdmap_epoch, cv_pgmap_epoch := pgmap_epoch,
                cv_osd_count := osd_count, cv_osds := osds, cv_route_count := route_count,
                cv_routes := (if maps_changed then routes
                              else kfastblock_meta_copy_leader_cache
                                     (take (unat route_count) routes)
                                     (take (unat (cv_route_count view)) (cv_routes view))
                                   @ drop (unat route_count) routes),
                cv_image := (cv_image view) \<lparr> ii_pg_count := pool_pg_count \<rparr>,
                cv_leader_epoch := (if maps_changed \<or> cv_leader_epoch view = 0
                                    then cv_leader_epoch view + 1 else cv_leader_epoch view) \<rparr>)"

definition kfastblock_meta_ready :: "cluster_view \<Rightarrow> bool" where
  "kfastblock_meta_ready view \<longleftrightarrow>
     ii_size_bytes (cv_image view) \<noteq> 0 \<and> ii_object_size (cv_image view) \<noteq> 0 \<and>
     ii_block_size (cv_image view) \<noteq> 0 \<and> ii_pg_count (cv_image view) \<noteq> 0"

definition kfastblock_meta_io_ready :: "cluster_view \<Rightarrow> bool" where
  "kfastblock_meta_io_ready view \<longleftrightarrow>
     kfastblock_meta_ready view \<and> cv_sync_state view = KFASTBLOCK_META_SYNC_READY"

definition kfastblock_meta_prepare_bootstrap_view :: "u64 \<Rightarrow> attach_spec \<Rightarrow> cluster_view" where
  "kfastblock_meta_prepare_bootstrap_view now spec =
     kfastblock_meta_cleanup_view
       \<lparr> cv_image := \<lparr> ii_pool_name = strscpy KFASTBLOCK_MAX_NAME_LEN (the_default_str (as_pool_name spec)),
             ii_image_name = strscpy KFASTBLOCK_MAX_NAME_LEN (the_default_str (as_image_name spec)),
             ii_size_bytes = as_debug_size_bytes spec, ii_block_size = 4096,
             ii_object_size = (if as_debug_object_size spec \<noteq> 0 then as_debug_object_size spec
                               else 4 * 1024 * 1024),
             ii_pool_id = as_debug_pool_id spec,
             ii_pg_count = (if as_debug_pg_count spec \<noteq> 0 then as_debug_pg_count spec else 1),
             ii_read_only = as_read_only spec \<rparr>,
         cv_last_refresh_jiffies := now, cv_last_image_refresh_jiffies := now,
         cv_sync_state := KFASTBLOCK_META_SYNC_NEW \<rparr>"

definition mark_view_ready :: "u64 \<Rightarrow> cluster_view \<Rightarrow> cluster_view" where
  "mark_view_ready now view =
     view \<lparr> cv_sync_state := KFASTBLOCK_META_SYNC_READY, cv_last_refresh_jiffies := now,
            cv_last_image_refresh_jiffies := now \<rparr>"

definition kfastblock_meta_bootstrap ::
    "(cluster_view \<Rightarrow> int \<times> cluster_view) \<Rightarrow> u64 \<Rightarrow> attach_spec \<Rightarrow> int \<times> cluster_view" where
  "kfastblock_meta_bootstrap fetch_cluster_view now spec =
     (case fetch_cluster_view (kfastblock_meta_prepare_bootstrap_view now spec) of
        (ret, view) \<Rightarrow>
          if ret = 0 then (0, mark_view_ready now view)
          else if ret = - EOPNOTSUPP \<and> ii_size_bytes (cv_image view) \<noteq> 0
          then (0, view \<lparr> cv_sync_state := KFASTBLOCK_META_SYNC_STALE \<rparr>)
          else (ret, view))"

definition kfastblock_meta_bootstrap_volume ::
    "(cluster_view \<Rightarrow> int \<times> cluster_view) \<Rightarrow> (cluster_view \<Rightarrow> int \<times> cluster_view) \<Rightarrow> u64
      \<Rightarrow> attach_spec \<Rightarrow> int \<times> cluster_view" where
  "kfastblock_meta_bootstrap_volume refresh_image refresh_cluster_map now spec =
     (case (case refresh_image (kfastblock_meta_prepare_bootstrap_view now spec) of
              (ret, view) \<Rightarrow> if ret = 0 then refresh_cluster_map view else (ret, view)) of
        (ret, view) \<Rightarrow>
          if ret = 0 then (0, mark_view_ready now view)
          else if ret = - EOPNOTSUPP \<and> ii_size_bytes (cv_image view) \<noteq> 0
          then (0, view \<lparr> cv_sync_state := KFASTBLOCK_META_SYNC_STALE \<rparr>)
          else (ret, view))"

definition kfastblock_meta_refresh ::
    "(cluster_view \<Rightarrow> int \<times> cluster_view) \<Rightarrow> u64 \<Rightarrow> cluster_view \<Rightarrow> int \<times> cluster_view" where
  "kfastblock_meta_refresh fetch_cluster_view now view =
     (case fetch_cluster_view view of
        (ret, view') \<Rightarrow> (ret, if ret = 0 then mark_view_ready now view' else view'))"

definition kfastblock_meta_refresh_cluster_map ::
    "(cluster_view \<Rightarrow> int \<times> cluster_view) \<Rightarrow> u64 \<Rightarrow> cluster_view \<Rightarrow> int \<times> cluster_view" where
  "kfastblock_meta_refresh_cluster_map fetch_cluster_map now view =
     (case fetch_cluster_map view of
        (ret, view') \<Rightarrow>
          (ret, if ret = 0 then view' \<lparr> cv_sync_state := KFASTBLOCK_META_SYNC_READY,
                                        cv_last_refresh_jiffies := now \<rparr> else view'))"

definition kfastblock_meta_refresh_image ::
    "(cluster_view \<Rightarrow> int \<times> cluster_view) \<Rightarrow> u64 \<Rightarrow> cluster_view \<Rightarrow> int \<times> cluster_view" where
  "kfastblock_meta_refresh_image fetch_image now view =
     (case fetch_image view of
        (ret, view') \<Rightarrow> (ret, if ret = 0 then view' \<lparr> cv_last_image_refresh_jiffies := now \<rparr> else view'))"

section \<open>Bisection finds exactly what is there\<close>

lemma lower_bound_spec:
  assumes "low \<le> high" "unat high \<le> length xs"
    and "\<forall>i < length xs. \<forall>j < i. before (xs ! i) \<longrightarrow> before (xs ! j)"
    and "\<forall>i < unat low. before (xs ! i)" "\<forall>i < length xs. unat high \<le> i \<longrightarrow> \<not> before (xs ! i)"
  shows "lower_bound before xs low high \<le> high \<and>
         (\<forall>i < unat (lower_bound before xs low high). before (xs ! i)) \<and>
         (\<forall>i < length xs. unat (lower_bound before xs low high) \<le> i \<longrightarrow> \<not> before (xs ! i))"
  using assms
proof (induction before xs low high rule: lower_bound.induct)
  case (1 before xs low high)
  show ?case
  proof (cases "low < high")
    case False
    then have "lower_bound before xs low high = low" by (simp add: lower_bound.simps [of before xs low high])
    then show ?thesis using False "1.prems" by simp
  next
    case True
    define mid where "mid = low + drop_bit 1 (high - low)"
    note b = mid_bounds [OF True, folded mid_def]
    show ?thesis
    proof (cases "before (xs ! unat mid)")
      case bef: True
      have le: "mid + 1 \<le> high" by (rule inc_le [OF b(2)])
      have "unat mid < length xs" using b(2) "1.prems"(2) by (simp add: word_less_nat_alt)
      then have pre: "\<forall>i < unat (mid + 1). before (xs ! i)"
        using b(3) bef "1.prems"(3) by (metis Suc_eq_plus1 less_Suc_eq)
      have "lower_bound before xs low high = lower_bound before xs (mid + 1) high"
        using True bef by (subst lower_bound.simps) (simp add: mid_def Let_def)
      then show ?thesis using "1.IH"(1) [OF True mid_def bef le] "1.prems" pre by simp
    next
      case aft: False
      have le: "low \<le> mid" by (rule b(1))
      have mh: "unat mid < unat high" using b(2) by (simp add: word_less_nat_alt)
      have post: "\<forall>i < length xs. unat mid \<le> i \<longrightarrow> \<not> before (xs ! i)"
        using "1.prems" mh aft by (metis le_neq_implies_less)
      have "lower_bound before xs low mid \<le> mid \<and>
         (\<forall>i < unat (lower_bound before xs low mid). before (xs ! i)) \<and>
         (\<forall>i < length xs. unat (lower_bound before xs low mid) \<le> i \<longrightarrow> \<not> before (xs ! i))"
        using "1.IH"(2) [OF True mid_def aft le] "1.prems" post mh by simp
      moreover have "lower_bound before xs low high = lower_bound before xs low mid"
        using True aft by (subst lower_bound.simps) (simp add: mid_def Let_def)
      ultimately show ?thesis using less_imp_le [OF b(2)] by (auto intro: order_trans)
    qed
  qed
qed

text \<open>Index of the first element not before the key, checked for equality: the whole search.\<close>

definition bisect :: "('e \<Rightarrow> 'k::linorder) \<Rightarrow> 'e list \<Rightarrow> u32 \<Rightarrow> 'k \<Rightarrow> nat option" where
  "bisect key xs n k =
     (let low = lower_bound (\<lambda>e. key e < k) xs 0 n
      in if low < n \<and> key (xs ! unat low) = k then Some (unat low) else None)"

lemma sorted_before:
  assumes "sorted_wrt (<) (map key xs)"
  shows "\<forall>i < length xs. \<forall>j < i. key (xs ! i) < k \<longrightarrow> key (xs ! j) < (k :: 'k::linorder)"
proof (intro allI impI)
  fix i j assume "i < length xs" "j < i" "key (xs ! i) < k"
  moreover then have "key (xs ! j) < key (xs ! i)"
    using assms by (simp add: sorted_wrt_iff_nth_less)
  ultimately show "key (xs ! j) < k" by simp
qed

lemma bisect_sound:
  assumes "unat n = length xs" "bisect key xs n k = Some i"
  shows "i < length xs \<and> key (xs ! i) = k"
  using assms by (auto simp: bisect_def Let_def word_less_nat_alt split: if_splits)

lemma bisect_complete:
  assumes "unat n = length xs" "sorted_wrt (<) (map key xs)" "i < length xs"
  shows "bisect key xs n (key (xs ! i)) = Some i"
proof -
  let ?b = "\<lambda>e. key e < key (xs ! i)"
  define l where "l = lower_bound ?b xs 0 n"
  have spec: "(\<forall>j < unat l. ?b (xs ! j)) \<and> (\<forall>j < length xs. unat l \<le> j \<longrightarrow> \<not> ?b (xs ! j))"
    unfolding l_def using lower_bound_spec [of 0 n xs ?b] assms sorted_before [OF assms(2)] by simp
  have "unat l = i"
  proof (rule antisym)
    show "unat l \<le> i" using spec by (meson leI less_irrefl)
    have lt: "\<And>j. j < i \<Longrightarrow> ?b (xs ! j)"
      using assms by (simp add: sorted_wrt_iff_nth_less)
    show "i \<le> unat l" using spec lt assms(3) by (meson leI less_trans order.refl)
  qed
  then show ?thesis
    using assms by (simp add: bisect_def Let_def l_def [symmetric] word_less_nat_alt)
qed

locale sorted_array_search =
  fixes key :: "'e \<Rightarrow> 'k::linorder"
    and find :: "'e list \<Rightarrow> 'k \<Rightarrow> nat option"
  assumes sound: "length xs < 2 ^ 32 \<Longrightarrow> find xs k = Some i \<Longrightarrow> i < length xs \<and> key (xs ! i) = k"
    and complete: "length xs < 2 ^ 32 \<Longrightarrow> sorted_wrt (<) (map key xs) \<Longrightarrow> i < length xs \<Longrightarrow>
                   find xs (key (xs ! i)) = Some i"
begin

lemma find_iff:
  assumes "length xs < 2 ^ 32" "sorted_wrt (<) (map key xs)"
  shows "find xs k = Some i \<longleftrightarrow> i < length xs \<and> key (xs ! i) = k"
  using assms sound complete by metis

lemma find_none:
  assumes "length xs < 2 ^ 32" "sorted_wrt (<) (map key xs)"
  shows "find xs k = None \<longleftrightarrow> k \<notin> key ` set xs"
proof (cases "find xs k")
  case None
  then have "\<forall>i < length xs. key (xs ! i) \<noteq> k" using find_iff [OF assms, of k] by fastforce
  then show ?thesis using None by (auto simp: in_set_conv_nth)
next
  case (Some i)
  then show ?thesis using find_iff [OF assms, of k i] by auto
qed

text \<open>Overwriting an element by one with the same key does not disturb any search.\<close>

lemma find_update:
  assumes "length xs < 2 ^ 32" "sorted_wrt (<) (map key xs)" "key e = key (xs ! j)"
  shows "find (xs[j := e]) k = find xs k"
proof -
  have "map key (xs[j := e]) = map key xs"
    using assms(3) by (cases "j < length xs") (simp_all add: map_update list_update_same_conv list_update_beyond)
  then have s: "sorted_wrt (<) (map key (xs[j := e]))" "length (xs[j := e]) < 2 ^ 32"
    "\<And>i. i < length xs \<Longrightarrow> key (xs[j := e] ! i) = key (xs ! i)"
    using assms by (simp_all, metis length_map nth_map length_list_update)
  have "find (xs[j := e]) k = Some i \<longleftrightarrow> find xs k = Some i" for i
    using find_iff [OF s(2,1)] find_iff [OF assms(1,2)] s(3) by auto
  then show ?thesis by (metis not_Some_eq)
qed

end

interpretation bs: sorted_array_search key "\<lambda>xs. bisect key xs (of_nat (length xs))" for key
  by unfold_locales (auto simp: bisect_sound bisect_complete unat_of_nat_small dest!: bisect_sound [rotated])

section \<open>Well-formed views\<close>

definition route_key :: "pg_route \<Rightarrow> u32 \<times> u32" where
  "route_key r = (pr_pool_id r, pr_pg_id r)"

text \<open>What the monitor promises of the arrays it sends and the decoder keeps: sorted, without
  duplicates, with the counts that were announced.\<close>

definition view_ok :: "cluster_view \<Rightarrow> bool" where
  "view_ok view \<longleftrightarrow>
     unat (cv_osd_count view) = length (cv_osds view) \<and>
     unat (cv_route_count view) = length (cv_routes view) \<and>
     sorted_wrt (<) (map oe_osd_id (cv_osds view)) \<and>
     sorted_wrt (<) (map route_key (cv_routes view))"

lemma count_of_nat: "unat (n :: u32) = k \<Longrightarrow> n = of_nat k \<and> k < 2 ^ 32"
  using unat_u32_bound [of n] by auto

lemma find_pg_route_bisect:
  assumes "view_ok view"
  shows "kfastblock_meta_find_pg_route view p g =
         bisect route_key (cv_routes view) (of_nat (length (cv_routes view))) (p, g)"
proof -
  have n: "cv_route_count view = of_nat (length (cv_routes view))"
    using assms count_of_nat unfolding view_ok_def by blast
  have b: "(\<lambda>e. route_key e < (p, g)) =
      (\<lambda>route. pr_pool_id route < p \<or> (pr_pool_id route = p \<and> pr_pg_id route < g))"
    by (auto simp: route_key_def fun_eq_iff less_prod_def)
  show ?thesis
  proof (cases "cv_routes view")
    case Nil
    then show ?thesis by (simp add: kfastblock_meta_find_pg_route_def bisect_def)
  next
    case (Cons r rs)
    then have "cv_route_count view \<noteq> 0" using assms by (auto simp: view_ok_def)
    then show ?thesis
      unfolding kfastblock_meta_find_pg_route_def bisect_def b
      using Cons n by (simp add: Let_def route_key_def)
  qed
qed

lemma find_osd_bisect:
  assumes "view_ok view"
  shows "kfastblock_meta_find_osd view k =
         bisect oe_osd_id (cv_osds view) (of_nat (length (cv_osds view))) k"
proof -
  have n: "cv_osd_count view = of_nat (length (cv_osds view))"
    using assms count_of_nat unfolding view_ok_def by blast
  show ?thesis
  proof (cases "cv_osds view")
    case Nil
    then show ?thesis by (simp add: kfastblock_meta_find_osd_def bisect_def)
  next
    case (Cons r rs)
    then have "cv_osd_count view \<noteq> 0" using assms by (auto simp: view_ok_def)
    then show ?thesis using Cons n by (simp add: kfastblock_meta_find_osd_def bisect_def Let_def)
  qed
qed

lemma view_sizes:
  assumes "view_ok view"
  shows "length (cv_routes view) < 2 ^ 32" "length (cv_osds view) < 2 ^ 32"
    and "sorted_wrt (<) (map route_key (cv_routes view))"
  using assms count_of_nat unfolding view_ok_def by blast+

lemma find_pg_route_iff:
  assumes "view_ok view"
  shows "kfastblock_meta_find_pg_route view p g = Some i \<longleftrightarrow>
         i < length (cv_routes view) \<and> pr_pool_id (cv_routes view ! i) = p \<and> pr_pg_id (cv_routes view ! i) = g"
  using bs.find_iff [OF view_sizes(1,3) [OF assms]]
  by (auto simp: find_pg_route_bisect [OF assms] route_key_def)

lemma find_osd_iff:
  assumes "view_ok view"
  shows "kfastblock_meta_find_osd view k = Some i \<longleftrightarrow>
         i < length (cv_osds view) \<and> oe_osd_id (cv_osds view ! i) = k"
  using bs.find_iff [of "cv_osds view" oe_osd_id] view_sizes(2) [OF assms] assms
  by (simp add: find_osd_bisect [OF assms] view_ok_def)

text \<open>Leader updates keep keys, hence the searches.\<close>

lemma map_key_update:
  "j < length xs \<Longrightarrow> key e = key (xs ! j) \<Longrightarrow> map key (xs[j := e]) = map key xs"
  by (simp add: map_update list_update_same_conv)

lemma update_route_ok:
  assumes "view_ok view" "j < length (cv_routes view)" "route_key e = route_key (cv_routes view ! j)"
  shows "view_ok (view \<lparr> cv_routes := (cv_routes view)[j := e] \<rparr>)"
  using assms by (simp add: view_ok_def map_key_update)

lemma update_route_find:
  assumes "view_ok view" "j < length (cv_routes view)" "route_key e = route_key (cv_routes view ! j)"
  shows "kfastblock_meta_find_pg_route (view \<lparr> cv_routes := (cv_routes view)[j := e] \<rparr>) p g =
         kfastblock_meta_find_pg_route view p g"
  using find_pg_route_bisect [OF update_route_ok [OF assms]] find_pg_route_bisect [OF assms(1)]
    bs.find_update [OF view_sizes(1,3) [OF assms(1)] assms(3)] by simp

lemma find_pg_route_inj:
  assumes "view_ok view" "kfastblock_meta_find_pg_route view p g = Some i"
    and "kfastblock_meta_find_pg_route view p' g' = Some i"
  shows "p' = p \<and> g' = g"
  using assms by (simp add: find_pg_route_iff)

definition leader_of :: "cluster_view \<Rightarrow> u32 \<times> u32 \<Rightarrow> leader_info option" where
  "leader_of view pg =
     (case kfastblock_meta_get_pg_leader view (fst pg) (snd pg) of
        (ret, l) \<Rightarrow> if ret = 0 then Some l else None)"

lemma leader_of_eq:
  "leader_of view (p, g) =
     (case kfastblock_meta_find_pg_route view p g of
        None \<Rightarrow> None
      | Some r \<Rightarrow> if pr_leader_valid (cv_routes view ! r) then Some (pr_leader (cv_routes view ! r)) else None)"
  by (simp add: leader_of_def kfastblock_meta_get_pg_leader_def split: option.split)

lemma leader_of_update:
  assumes "view_ok view" "kfastblock_meta_find_pg_route view p g = Some j"
    and "route_key e = route_key (cv_routes view ! j)"
  shows "leader_of (view \<lparr> cv_routes := (cv_routes view)[j := e] \<rparr>) =
         (leader_of view)((p, g) := (if pr_leader_valid e then Some (pr_leader e) else None))"
proof (rule ext)
  fix pg
  obtain p' g' :: u32 where pg: "pg = (p', g')" by (cases pg)
  have j: "j < length (cv_routes view)" using assms(1,2) by (simp add: find_pg_route_iff)
  have ne: "i \<noteq> j" if "kfastblock_meta_find_pg_route view p' g' = Some i" "(p', g') \<noteq> (p, g)" for i
    using that assms find_pg_route_inj by blast
  show "leader_of (view \<lparr> cv_routes := (cv_routes view)[j := e] \<rparr>) pg =
      ((leader_of view)((p, g) := (if pr_leader_valid e then Some (pr_leader e) else None))) pg"
  proof (cases "(p', g') = (p, g)")
    case True
    then show ?thesis using assms j unfolding pg by (simp add: leader_of_eq update_route_find)
  next
    case False
    then show ?thesis
      using assms j ne unfolding pg
      by (cases "kfastblock_meta_find_pg_route view p' g'") (auto simp: leader_of_eq update_route_find)
  qed
qed

lemma set_leader_of:
  assumes "view_ok view" "kfastblock_meta_set_pg_leader view p g l = (ret, view')"
  shows "view_ok view' \<and>
     (if (p, g) \<in> route_key ` set (cv_routes view)
      then ret = 0 \<and> leader_of view' = (leader_of view)((p, g) \<mapsto> l)
      else ret = - ENOENT \<and> view' = view)"
proof (cases "kfastblock_meta_find_pg_route view p g")
  case None
  then have "(p, g) \<notin> route_key ` set (cv_routes view)"
    using bs.find_none [OF view_sizes(1,3) [OF assms(1)]] by (simp add: find_pg_route_bisect [OF assms(1)])
  then show ?thesis using None assms by (auto simp: kfastblock_meta_set_pg_leader_def)
next
  case (Some j)
  then have j: "j < length (cv_routes view)" "route_key (cv_routes view ! j) = (p, g)"
    using find_pg_route_iff [OF assms(1)] by (auto simp: route_key_def)
  then have "(p, g) \<in> route_key ` set (cv_routes view)" by (metis imageI nth_mem)
  moreover let ?e = "(cv_routes view ! j) \<lparr> pr_leader := l, pr_leader_valid := True \<rparr>"
  have "route_key ?e = route_key (cv_routes view ! j)" by (simp add: route_key_def)
  ultimately show ?thesis
    using assms(2) Some leader_of_update [OF assms(1) Some, of ?e] update_route_ok [OF assms(1) j(1), of ?e]
    by (auto simp: kfastblock_meta_set_pg_leader_def)
qed

lemma invalidate_leader_of:
  assumes "view_ok view"
  shows "view_ok (kfastblock_meta_invalidate_pg_leader view p g) \<and>
         leader_of (kfastblock_meta_invalidate_pg_leader view p g) = (leader_of view)((p, g) := None)"
proof (cases "kfastblock_meta_find_pg_route view p g")
  case None
  then have "leader_of view (p, g) = None" by (simp add: leader_of_eq)
  then show ?thesis
    using None assms by (simp add: kfastblock_meta_invalidate_pg_leader_def fun_upd_idem)
next
  case (Some j)
  then have j: "j < length (cv_routes view)" using find_pg_route_iff [OF assms] by simp
  let ?e = "(cv_routes view ! j) \<lparr> pr_leader_valid := False, pr_leader := zero_leader \<rparr>"
  have "route_key ?e = route_key (cv_routes view ! j)" by (simp add: route_key_def)
  then show ?thesis
    using Some leader_of_update [OF assms Some, of ?e] update_route_ok [OF assms j, of ?e]
    by (simp add: kfastblock_meta_invalidate_pg_leader_def)
qed

subsection \<open>Copying the cache to a new map\<close>

definition inherit_leader :: "pg_route list \<Rightarrow> pg_route \<Rightarrow> pg_route" where
  "inherit_leader src d =
     (case map_of (map (\<lambda>s. (route_key s, s)) src) (route_key d) of
        None \<Rightarrow> d
      | Some s \<Rightarrow> d \<lparr> pr_leader_valid := pr_leader_valid s,
                       pr_leader := (if pr_leader_valid s then pr_leader s else pr_leader d) \<rparr>)"

lemma inherit_skip:
  assumes "\<forall>d \<in> set ds. route_key s < route_key d"
  shows "map (inherit_leader (s # src)) ds = map (inherit_leader src) ds"
  using assms by (auto simp: inherit_leader_def)

lemma inherit_none:
  assumes "\<forall>s \<in> set src. route_key d < route_key s"
  shows "inherit_leader src d = d"
proof -
  have "route_key d \<notin> route_key ` set src" using assms by auto
  then have "map_of (map (\<lambda>s. (route_key s, s)) src) (route_key d) = None"
    by (auto simp: map_of_eq_None_iff)
  then show ?thesis by (simp add: inherit_leader_def)
qed

lemma copy_leader_cache_map:
  assumes "sorted_wrt (<) (map route_key dst)" "sorted_wrt (<) (map route_key src)"
  shows "kfastblock_meta_copy_leader_cache dst src = map (inherit_leader src) dst"
  using assms
proof (induction dst src rule: kfastblock_meta_copy_leader_cache.induct)
  case (2 d dst)
  then show ?case by (simp add: inherit_leader_def map_idI)
next
  case (3 d dst s src)
  have less: "route_key s < route_key d \<longleftrightarrow> pr_pool_id s < pr_pool_id d \<or>
      (pr_pool_id s = pr_pool_id d \<and> pr_pg_id s < pr_pg_id d)"
    by (auto simp: route_key_def less_prod_def)
  consider (eq) "route_key s = route_key d" | (lt) "route_key s < route_key d"
    | (gt) "route_key d < route_key s" by fastforce
  then show ?case
  proof cases
    case eq
    then have "\<forall>x \<in> set dst. route_key s < route_key x" using 3(4) by auto
    then show ?thesis
      using 3 eq inherit_skip [of dst s src]
      by (simp add: inherit_leader_def [of "s # src" d] route_key_def)
  next
    case lt
    then have "\<forall>x \<in> set (d # dst). route_key s < route_key x" using 3(4) by (auto intro: less_trans)
    then have skip: "map (inherit_leader (s # src)) (d # dst) = map (inherit_leader src) (d # dst)"
      by (rule inherit_skip)
    have neq: "\<not> (pr_pool_id s = pr_pool_id d \<and> pr_pg_id s = pr_pg_id d)"
      using lt by (auto simp: route_key_def)
    have IH: "kfastblock_meta_copy_leader_cache (d # dst) src = map (inherit_leader src) (d # dst)"
      using "3.IH"(2) [OF neq lt [unfolded less]] "3.prems" by simp
    have "kfastblock_meta_copy_leader_cache (d # dst) (s # src) =
        kfastblock_meta_copy_leader_cache (d # dst) src"
      using neq lt [unfolded less] by auto
    then show ?thesis by (simp only: skip IH)
  next
    case gt
    then have d: "inherit_leader (s # src) d = d"
      using 3(5) by (intro inherit_none) (auto intro: less_trans)
    have neq: "\<not> (pr_pool_id s = pr_pool_id d \<and> pr_pg_id s = pr_pg_id d)"
      using gt by (auto simp: route_key_def)
    have nlt: "\<not> (pr_pool_id s < pr_pool_id d \<or> (pr_pool_id s = pr_pool_id d \<and> pr_pg_id s < pr_pg_id d))"
      using gt less by auto
    show ?thesis using "3.IH"(3) [OF neq nlt] "3.prems" neq nlt d by auto
  qed
qed simp

lemma inherit_key [simp]: "route_key (inherit_leader src d) = route_key d"
  by (simp add: inherit_leader_def route_key_def split: option.split)

lemma map_inherit_key [simp]: "map route_key (map (inherit_leader src) dst) = map route_key dst"
  by simp

abbreviation by_key :: "pg_route list \<Rightarrow> (u32 \<times> u32) \<Rightarrow> pg_route option" where
  "by_key rs \<equiv> map_of (map (\<lambda>s. (route_key s, s)) rs)"

lemma by_key_nth:
  assumes "sorted_wrt (<) (map route_key rs)" "i < length rs"
  shows "by_key rs (route_key (rs ! i)) = Some (rs ! i)"
proof -
  have "distinct (map fst (map (\<lambda>s. (route_key s, s)) rs))"
    using assms(1) strict_sorted_iff [of "map route_key rs"] by (simp add: o_def)
  then show ?thesis using assms(2) by (intro map_of_is_SomeI) auto
qed

lemma by_key_None: "by_key rs pg = None \<longleftrightarrow> pg \<notin> route_key ` set rs"
  by (simp add: map_of_eq_None_iff image_image)

lemma leader_of_by_key:
  assumes "view_ok view"
  shows "leader_of view pg =
     (case by_key (cv_routes view) pg of
        None \<Rightarrow> None
      | Some r \<Rightarrow> if pr_leader_valid r then Some (pr_leader r) else None)"
proof -
  obtain p g where pg: "pg = (p, g)" by (cases pg)
  show ?thesis
  proof (cases "kfastblock_meta_find_pg_route view p g")
    case None
    then have "pg \<notin> route_key ` set (cv_routes view)"
      using bs.find_none [OF view_sizes(1,3) [OF assms]] pg by (simp add: find_pg_route_bisect [OF assms])
    then have "by_key (cv_routes view) pg = None" by (simp only: by_key_None not_False_eq_True)
    then show ?thesis using None pg by (simp add: leader_of_eq)
  next
    case (Some i)
    then have i: "i < length (cv_routes view)" "route_key (cv_routes view ! i) = pg"
      using find_pg_route_iff [OF assms] pg by (auto simp: route_key_def)
    then have "by_key (cv_routes view) pg = Some (cv_routes view ! i)"
      using by_key_nth [OF view_sizes(3) [OF assms] i(1)] by simp
    then show ?thesis using Some pg by (simp add: leader_of_eq)
  qed
qed

lemma by_key_inherit:
  "by_key (map (inherit_leader src) rs) pg = map_option (inherit_leader src) (by_key rs pg)"
  by (induction rs) auto

lemma by_key_Some: "by_key rs pg = Some r \<Longrightarrow> r \<in> set rs \<and> route_key r = pg"
  by (auto dest: map_of_SomeD)

text \<open>A new map as the decoder builds it: sorted, counted, no leader known.\<close>

definition fresh_map :: "u32 \<Rightarrow> osd_endpoint list \<Rightarrow> u32 \<Rightarrow> pg_route list \<Rightarrow> bool" where
  "fresh_map osd_count osds route_count routes \<longleftrightarrow>
     unat osd_count = length osds \<and> unat route_count = length routes \<and>
     sorted_wrt (<) (map oe_osd_id osds) \<and> sorted_wrt (<) (map route_key routes) \<and>
     (\<forall>r \<in> set routes. \<not> pr_leader_valid r)"

lemma replace_cluster_map_leaders:
  assumes "view_ok view" "fresh_map oc osds rc routes"
    and "view' = kfastblock_meta_replace_cluster_map view oe pe n oc osds rc routes"
  shows "view_ok view'"
    and "leader_of view' pg =
      (if cv_osdmap_epoch view = oe \<and> cv_pgmap_epoch view = pe \<and> pg \<in> route_key ` set routes
       then leader_of view pg else None)"
proof -
  define same where "same \<longleftrightarrow> cv_osdmap_epoch view = oe \<and> cv_pgmap_epoch view = pe"
  have fm: "unat rc = length routes" "sorted_wrt (<) (map route_key routes)"
      "\<forall>r \<in> set routes. \<not> pr_leader_valid r" using assms(2) by (auto simp: fresh_map_def)
  have old: "sorted_wrt (<) (map route_key (cv_routes view))"
      "take (unat (cv_route_count view)) (cv_routes view) = cv_routes view"
    using assms(1) by (auto simp: view_ok_def)
  have routes': "cv_routes view' = (if same then map (inherit_leader (cv_routes view)) routes else routes)"
    using copy_leader_cache_map [OF fm(2) old(1)] fm(1) old(2)
    by (simp add: assms(3) kfastblock_meta_replace_cluster_map_def Let_def same_def)
  show ok: "view_ok view'"
    using assms(1,2) routes'
    by (simp add: view_ok_def assms(3) kfastblock_meta_replace_cluster_map_def Let_def fresh_map_def o_def)
  show "leader_of view' pg = (if cv_osdmap_epoch view = oe \<and> cv_pgmap_epoch view = pe \<and> pg \<in> route_key ` set routes
       then leader_of view pg else None)"
  proof (cases "by_key routes pg")
    case None
    then have "pg \<notin> route_key ` set routes" by (simp only: by_key_None not_False_eq_True)
    then show ?thesis
      using None by (simp add: leader_of_by_key [OF ok] routes' by_key_inherit del: map_map)
  next
    case (Some r)
    then have "pg \<in> route_key ` set routes" "\<not> pr_leader_valid r" "route_key r = pg"
      using by_key_Some fm(3) by blast+
    note r = this
    show ?thesis
    proof (cases same)
      case True
      then have "by_key (cv_routes view') pg = Some (inherit_leader (cv_routes view) r)"
        using Some by (simp add: routes' by_key_inherit del: map_map)
      then have "leader_of view' pg = leader_of view pg"
        using r by (simp add: leader_of_by_key [OF ok] leader_of_by_key [OF assms(1)]
            inherit_leader_def split: option.split)
      then show ?thesis using True r(1) by (simp add: same_def)
    next
      case False
      then show ?thesis using Some r by (auto simp: leader_of_by_key [OF ok] routes' same_def)
    qed
  qed
qed

lemma resolve_pg_target_iff:
  assumes "view_ok view"
  shows "kfastblock_meta_resolve_pg_target view p g k = (0, Some (r, o', s)) \<longleftrightarrow>
     r < length (cv_routes view) \<and> route_key (cv_routes view ! r) = (p, g) \<and>
     kfastblock_pg_route_has_osd (cv_routes view ! r) k \<and>
     o' < length (cv_osds view) \<and> oe_osd_id (cv_osds view ! o') = k \<and>
     kfastblock_meta_find_osd_shard (cv_osds view ! o') (pr_primary_shard (cv_routes view ! r)) = Some s"
  using find_pg_route_iff [OF assms, of p g r] find_osd_iff [OF assms, of k o']
  by (auto simp: kfastblock_meta_resolve_pg_target_def route_key_def split: option.splits if_splits)

section \<open>Properties\<close>


text \<open>
  C26. The leader cache behaves as a map over the placement groups of the view: setting a leader
  changes exactly that entry and fails exactly when the group is unknown, invalidating removes
  exactly that entry, and both keep the view searchable.
\<close>

theorem meta_leader_cache_map:
  assumes "view_ok view" "kfastblock_meta_set_pg_leader view p g l = (ret, view')"
  shows "(if (p, g) \<in> route_key ` set (cv_routes view)
          then ret = 0 \<and> leader_of view' = (leader_of view)((p, g) \<mapsto> l)
          else ret = - ENOENT \<and> view' = view) \<and>
         leader_of (kfastblock_meta_invalidate_pg_leader view p g) = (leader_of view)((p, g) := None) \<and>
         view_ok view' \<and> view_ok (kfastblock_meta_invalidate_pg_leader view p g)"
  using set_leader_of [OF assms] invalidate_leader_of [OF assms(1)] by blast


section \<open>Witnesses\<close>

definition demo_route :: "u32 \<Rightarrow> u32 \<Rightarrow> pg_route" where
  "demo_route p g = \<lparr> pr_pool_id = p, pr_pg_id = g, pr_version = 1, pr_state = 0, pr_primary_shard = 0,
     pr_replica_count = 1, pr_osd_ids = [5], pr_leader_valid = False, pr_leader = zero_leader \<rparr>"

definition demo_osd :: osd_endpoint where
  "demo_osd = \<lparr> oe_osd_id = 5, oe_flags = 3, oe_shard_count = 1, oe_address = ''10.0.0.5'',
     oe_shards = [\<lparr> os_shard_id = 0, os_port = 9000, os_core_id = 0 \<rparr>] \<rparr>"

definition demo_view :: cluster_view where
  "demo_view = kfastblock_meta_cleanup_view \<lparr> cv_osd_count := 1, cv_osds := [demo_osd],
     cv_route_count := 3, cv_routes := [demo_route 1 7, demo_route 1 9, demo_route 2 0],
     cv_osdmap_epoch := 4, cv_pgmap_epoch := 6, cv_leader_epoch := 1 \<rparr>"

definition demo_leader :: leader_info where
  "demo_leader = \<lparr> li_osd_id = 5, li_port = 9000, li_address = ''10.0.0.5'' \<rparr>"

lemma demo_view_ok: "view_ok demo_view"
  by (simp add: view_ok_def demo_view_def demo_route_def route_key_def)

lemma demo_fresh: "fresh_map 1 [demo_osd] 1 [demo_route 1 9]"
  by (simp add: fresh_map_def demo_route_def)


theorem meta_leader_cache_map_witness:
  "\<exists>view'. kfastblock_meta_set_pg_leader demo_view 1 9 demo_leader = (0, view') \<and>
     leader_of view' (1, 9) = Some demo_leader"
proof -
  obtain ret view' where s: "kfastblock_meta_set_pg_leader demo_view 1 9 demo_leader = (ret, view')"
    by fastforce
  have "(1, 9) \<in> route_key ` set (cv_routes demo_view)"
    by (simp add: demo_view_def demo_route_def route_key_def)
  then show ?thesis using meta_leader_cache_map [OF demo_view_ok s] s by auto
qed


end
