(* ===== verification/KFB_Connpool.thy ===== *)
theory KFB_Connpool
  imports KFB_Meta
begin

text \<open>
  Cached sockets to OSDs and monitors, \<^verbatim>\<open>kfastblock/src/connpool.c\<close>: per-slot state machine with
  failure streak, exponential back-off and a health score, and the pool operations over an array
  of slots. A socket is an opaque handle; \<open>now\<close> is \<^verbatim>\<open>jiffies\<close>, \<open>m2j\<close> is \<^verbatim>\<open>msecs_to_jiffies\<close>, and
  \<open>busy i\<close> says that \<^verbatim>\<open>mutex_trylock\<close> on slot \<open>i\<close> fails. OSD and monitor slots are separate structs
  with the same life cycle; the locale \<open>conn_slot\<close> states it once and is interpreted on both.
\<close>

datatype conn_state =
    KFASTBLOCK_CONN_STATE_EMPTY
  | KFASTBLOCK_CONN_STATE_CONNECTING
  | KFASTBLOCK_CONN_STATE_READY
  | KFASTBLOCK_CONN_STATE_BACKOFF

record conn_pool_snapshot =
  cn_total_slots :: u32
  cn_empty_slots :: u32
  cn_connecting_slots :: u32
  cn_ready_slots :: u32
  cn_backoff_slots :: u32
  cn_active_sockets :: u32
  cn_min_health_score :: u32
  cn_max_health_score :: u32
  cn_avg_health_score :: u32
  cn_connect_attempts :: u64
  cn_reuse_hits :: u64
  cn_success_count :: u64
  cn_failure_count :: u64
  cn_oldest_last_use_jiffies :: u64
  cn_newest_last_use_jiffies :: u64

text \<open>A request waiting for its response on a shared socket; \<open>mw_id\<close> stands for its address.\<close>

record mux_waiter =
  mw_id :: nat
  mw_seq :: u64
  mw_service :: u8
  mw_opcode :: u8

record cached_socket =
  cs_osd_id :: u32
  cs_port :: u16
  cs_address :: string
  cs_sock :: "nat option"
  cs_mux_waiters :: "mux_waiter list"
  cs_connecting :: bool
  cs_mux_initialized :: bool
  cs_mux_dead :: bool
  cs_next_seq :: u64
  cs_mux_inflight :: u32
  cs_fail_streak :: u32
  cs_last_error :: int
  cs_last_failure_jiffies :: u64
  cs_backoff_until_jiffies :: u64
  cs_last_connect_jiffies :: u64
  cs_last_use_jiffies :: u64
  cs_connect_attempts :: u32
  cs_reuse_hits :: u32
  cs_success_count :: u32
  cs_failure_count :: u32
  cs_health_score :: u32
  cs_state :: conn_state

record cached_monitor_socket =
  cm_port :: u16
  cm_address :: string
  cm_sock :: "nat option"
  cm_next_seq :: u64
  cm_fail_streak :: u32
  cm_last_error :: int
  cm_last_failure_jiffies :: u64
  cm_backoff_until_jiffies :: u64
  cm_last_connect_jiffies :: u64
  cm_last_use_jiffies :: u64
  cm_connect_attempts :: u32
  cm_reuse_hits :: u32
  cm_success_count :: u32
  cm_failure_count :: u32
  cm_health_score :: u32
  cm_state :: conn_state

section \<open>Slots\<close>

definition kfastblock_conn_state_after_reset :: "bool \<Rightarrow> bool \<Rightarrow> conn_state" where
  "kfastblock_conn_state_after_reset has_sock connecting =
     (if connecting then KFASTBLOCK_CONN_STATE_CONNECTING
      else if has_sock then KFASTBLOCK_CONN_STATE_READY
      else KFASTBLOCK_CONN_STATE_EMPTY)"

definition kfastblock_conn_health_increase :: "u32 \<Rightarrow> u32 \<Rightarrow> u32" where
  "kfastblock_conn_health_increase health_score delta =
     (if 100 \<le> health_score then 100 else min (health_score + delta) 100)"

definition kfastblock_conn_health_decrease :: "u32 \<Rightarrow> u32" where
  "kfastblock_conn_health_decrease health_score =
     (if health_score = 0 then 0 else if health_score \<le> 10 then 0 else health_score - 10)"

definition kfastblock_conn_state_name :: "conn_state \<Rightarrow> string" where
  "kfastblock_conn_state_name s =
     (case s of
        KFASTBLOCK_CONN_STATE_EMPTY \<Rightarrow> ''empty''
      | KFASTBLOCK_CONN_STATE_CONNECTING \<Rightarrow> ''connecting''
      | KFASTBLOCK_CONN_STATE_READY \<Rightarrow> ''ready''
      | KFASTBLOCK_CONN_STATE_BACKOFF \<Rightarrow> ''backoff'')"

definition backoff_delay_ms :: "u32 \<Rightarrow> u64" where
  "backoff_delay_ms fail_streak =
     (let shifts = (if 1 < fail_streak then min (fail_streak - 1) 5 else 0);
          delay_ms = push_bit (unat shifts) 100
      in if 3000 < delay_ms then 3000 else delay_ms)"

definition kfastblock_conn_backoff_interval :: "(u32 \<Rightarrow> u64) \<Rightarrow> u32 \<Rightarrow> u64" where
  "kfastblock_conn_backoff_interval m2j fail_streak = m2j (ucast (backoff_delay_ms fail_streak))"

definition kfastblock_osd_conn_slot_init :: cached_socket where
  "kfastblock_osd_conn_slot_init =
     \<lparr> cs_osd_id = 0, cs_port = 0, cs_address = [], cs_sock = None, cs_mux_waiters = [],
       cs_connecting = False, cs_mux_initialized = False, cs_mux_dead = False, cs_next_seq = 0,
       cs_mux_inflight = 0, cs_fail_streak = 0, cs_last_error = 0, cs_last_failure_jiffies = 0,
       cs_backoff_until_jiffies = 0, cs_last_connect_jiffies = 0, cs_last_use_jiffies = 0,
       cs_connect_attempts = 0, cs_reuse_hits = 0, cs_success_count = 0, cs_failure_count = 0,
       cs_health_score = 50, cs_state = KFASTBLOCK_CONN_STATE_EMPTY \<rparr>"

definition kfastblock_monitor_conn_slot_init :: cached_monitor_socket where
  "kfastblock_monitor_conn_slot_init =
     \<lparr> cm_port = 0, cm_address = [], cm_sock = None, cm_next_seq = 0, cm_fail_streak = 0,
       cm_last_error = 0, cm_last_failure_jiffies = 0, cm_backoff_until_jiffies = 0,
       cm_last_connect_jiffies = 0, cm_last_use_jiffies = 0, cm_connect_attempts = 0,
       cm_reuse_hits = 0, cm_success_count = 0, cm_failure_count = 0, cm_health_score = 50,
       cm_state = KFASTBLOCK_CONN_STATE_EMPTY \<rparr>"

definition kfastblock_osd_conn_slot_clear_identity_locked :: "cached_socket \<Rightarrow> cached_socket" where
  "kfastblock_osd_conn_slot_clear_identity_locked c =
     c \<lparr> cs_address := [], cs_osd_id := 0, cs_port := 0 \<rparr>"

definition kfastblock_monitor_conn_slot_clear_identity_locked ::
    "cached_monitor_socket \<Rightarrow> cached_monitor_socket" where
  "kfastblock_monitor_conn_slot_clear_identity_locked c = c \<lparr> cm_address := [], cm_port := 0 \<rparr>"

definition kfastblock_osd_conn_slot_close_locked :: "u64 \<Rightarrow> cached_socket \<Rightarrow> cached_socket" where
  "kfastblock_osd_conn_slot_close_locked now c =
     c \<lparr> cs_sock := None, cs_connecting := False, cs_mux_dead := False, cs_next_seq := 0,
         cs_mux_inflight := 0, cs_mux_waiters := [],
         cs_state := (if cs_backoff_until_jiffies c \<noteq> 0 \<and> time_before now (cs_backoff_until_jiffies c)
                      then KFASTBLOCK_CONN_STATE_BACKOFF else KFASTBLOCK_CONN_STATE_EMPTY) \<rparr>"

definition kfastblock_monitor_conn_slot_close_locked ::
    "u64 \<Rightarrow> cached_monitor_socket \<Rightarrow> cached_monitor_socket" where
  "kfastblock_monitor_conn_slot_close_locked now c =
     c \<lparr> cm_sock := None, cm_next_seq := 0,
         cm_state := (if cm_backoff_until_jiffies c \<noteq> 0 \<and> time_before now (cm_backoff_until_jiffies c)
                      then KFASTBLOCK_CONN_STATE_BACKOFF else KFASTBLOCK_CONN_STATE_EMPTY) \<rparr>"

definition kfastblock_osd_conn_slot_reset_backoff_locked :: "cached_socket \<Rightarrow> cached_socket" where
  "kfastblock_osd_conn_slot_reset_backoff_locked c =
     c \<lparr> cs_fail_streak := 0, cs_last_error := 0, cs_last_failure_jiffies := 0,
         cs_backoff_until_jiffies := 0,
         cs_state := kfastblock_conn_state_after_reset (cs_sock c \<noteq> None) (cs_connecting c) \<rparr>"

definition kfastblock_monitor_conn_slot_reset_backoff_locked ::
    "cached_monitor_socket \<Rightarrow> cached_monitor_socket" where
  "kfastblock_monitor_conn_slot_reset_backoff_locked c =
     c \<lparr> cm_fail_streak := 0, cm_last_error := 0, cm_last_failure_jiffies := 0,
         cm_backoff_until_jiffies := 0,
         cm_state := kfastblock_conn_state_after_reset (cm_sock c \<noteq> None) False \<rparr>"

definition kfastblock_osd_conn_slot_matches_locked :: "cached_socket \<Rightarrow> leader_info \<Rightarrow> bool" where
  "kfastblock_osd_conn_slot_matches_locked c leader \<longleftrightarrow>
     cs_sock c \<noteq> None \<and> \<not> cs_connecting c \<and> cs_osd_id c = li_osd_id leader \<and>
     cs_port c = li_port leader \<and> cs_address c = li_address leader"

definition kfastblock_monitor_conn_slot_matches_locked ::
    "cached_monitor_socket \<Rightarrow> monitor_endpoint \<Rightarrow> bool" where
  "kfastblock_monitor_conn_slot_matches_locked c ep \<longleftrightarrow>
     cm_sock c \<noteq> None \<and> cm_port c = me_port ep \<and> cm_address c = me_host ep"

definition kfastblock_osd_conn_slot_begin_connect_locked :: "u64 \<Rightarrow> cached_socket \<Rightarrow> cached_socket" where
  "kfastblock_osd_conn_slot_begin_connect_locked now c =
     c \<lparr> cs_connecting := True, cs_connect_attempts := cs_connect_attempts c + 1,
         cs_last_use_jiffies := now, cs_state := KFASTBLOCK_CONN_STATE_CONNECTING \<rparr>"

definition kfastblock_monitor_conn_slot_begin_connect_locked ::
    "u64 \<Rightarrow> cached_monitor_socket \<Rightarrow> cached_monitor_socket" where
  "kfastblock_monitor_conn_slot_begin_connect_locked now c =
     c \<lparr> cm_connect_attempts := cm_connect_attempts c + 1, cm_last_use_jiffies := now,
         cm_state := KFASTBLOCK_CONN_STATE_CONNECTING \<rparr>"

definition kfastblock_osd_conn_slot_next_seq_locked :: "u64 \<Rightarrow> cached_socket \<Rightarrow> u64 \<times> cached_socket" where
  "kfastblock_osd_conn_slot_next_seq_locked now c =
     (let s = (if cs_next_seq c = 0 then 1 else cs_next_seq c)
      in (s, c \<lparr> cs_last_use_jiffies := now, cs_next_seq := s + 1 \<rparr>))"

definition kfastblock_monitor_conn_slot_next_seq_locked ::
    "u64 \<Rightarrow> cached_monitor_socket \<Rightarrow> u64 \<times> cached_monitor_socket" where
  "kfastblock_monitor_conn_slot_next_seq_locked now c =
     (let s = (if cm_next_seq c = 0 then 1 else cm_next_seq c)
      in (s, c \<lparr> cm_last_use_jiffies := now, cm_next_seq := s + 1 \<rparr>))"

text \<open>Result: 0 or \<^verbatim>\<open>-EAGAIN\<close> and the value written to \<^verbatim>\<open>*remaining_jiffies\<close>, if any.\<close>

definition kfastblock_osd_conn_slot_backoff_active_locked ::
    "u64 \<Rightarrow> cached_socket \<Rightarrow> leader_info \<Rightarrow> int \<times> u64 option" where
  "kfastblock_osd_conn_slot_backoff_active_locked now c leader =
     (if cs_sock c \<noteq> None \<or> cs_backoff_until_jiffies c = 0 then (0, None)
      else if cs_osd_id c \<noteq> li_osd_id leader \<or> cs_port c \<noteq> li_port leader then (0, None)
      else if cs_address c \<noteq> li_address leader then (0, None)
      else if time_before now (cs_backoff_until_jiffies c)
      then (- EAGAIN, Some (cs_backoff_until_jiffies c - now))
      else (0, None))"

definition kfastblock_monitor_conn_slot_backoff_active_locked ::
    "u64 \<Rightarrow> cached_monitor_socket \<Rightarrow> monitor_endpoint \<Rightarrow> int \<times> u64 option" where
  "kfastblock_monitor_conn_slot_backoff_active_locked now c ep =
     (if cm_sock c \<noteq> None \<or> cm_backoff_until_jiffies c = 0 then (0, None)
      else if cm_port c \<noteq> me_port ep then (0, None)
      else if cm_address c \<noteq> me_host ep then (0, None)
      else if time_before now (cm_backoff_until_jiffies c)
      then (- EAGAIN, Some (cm_backoff_until_jiffies c - now))
      else (0, None))"

definition kfastblock_osd_conn_slot_mark_failure_locked ::
    "(u32 \<Rightarrow> u64) \<Rightarrow> u64 \<Rightarrow> cached_socket \<Rightarrow> leader_info \<Rightarrow> int \<Rightarrow> u64 \<times> cached_socket" where
  "kfastblock_osd_conn_slot_mark_failure_locked m2j now c leader ret =
     (let streak = min (cs_fail_streak c + 1) 8;
          backoff = kfastblock_conn_backoff_interval m2j streak
      in (backoff,
          c \<lparr> cs_osd_id := li_osd_id leader, cs_port := li_port leader,
              cs_address := strscpy KFASTBLOCK_MAX_ADDR_LEN (li_address leader),
              cs_fail_streak := streak, cs_last_error := ret, cs_last_failure_jiffies := now,
              cs_backoff_until_jiffies := now + backoff,
              cs_failure_count := cs_failure_count c + 1,
              cs_health_score := kfastblock_conn_health_decrease (cs_health_score c),
              cs_connecting := False, cs_state := KFASTBLOCK_CONN_STATE_BACKOFF \<rparr>))"

definition kfastblock_monitor_conn_slot_mark_failure_locked ::
    "(u32 \<Rightarrow> u64) \<Rightarrow> u64 \<Rightarrow> cached_monitor_socket \<Rightarrow> monitor_endpoint \<Rightarrow> int
      \<Rightarrow> u64 \<times> cached_monitor_socket" where
  "kfastblock_monitor_conn_slot_mark_failure_locked m2j now c ep ret =
     (let streak = min (cm_fail_streak c + 1) 8;
          backoff = kfastblock_conn_backoff_interval m2j streak
      in (backoff,
          c \<lparr> cm_port := me_port ep, cm_address := strscpy KFASTBLOCK_MAX_ADDR_LEN (me_host ep),
              cm_fail_streak := streak, cm_last_error := ret, cm_last_failure_jiffies := now,
              cm_backoff_until_jiffies := now + backoff,
              cm_failure_count := cm_failure_count c + 1,
              cm_health_score := kfastblock_conn_health_decrease (cm_health_score c),
              cm_state := KFASTBLOCK_CONN_STATE_BACKOFF \<rparr>))"

definition kfastblock_osd_conn_slot_mark_success_locked ::
    "u64 \<Rightarrow> cached_socket \<Rightarrow> leader_info \<Rightarrow> cached_socket" where
  "kfastblock_osd_conn_slot_mark_success_locked now c leader =
     (let c1 = kfastblock_osd_conn_slot_reset_backoff_locked
                 (c \<lparr> cs_osd_id := li_osd_id leader, cs_port := li_port leader,
                      cs_address := strscpy KFASTBLOCK_MAX_ADDR_LEN (li_address leader) \<rparr>)
      in c1 \<lparr> cs_success_count := cs_success_count c1 + 1,
              cs_health_score := kfastblock_conn_health_increase (cs_health_score c1) 8,
              cs_last_connect_jiffies := now, cs_last_use_jiffies := now,
              cs_connecting := False, cs_state := KFASTBLOCK_CONN_STATE_READY \<rparr>)"

definition kfastblock_monitor_conn_slot_mark_success_locked ::
    "u64 \<Rightarrow> cached_monitor_socket \<Rightarrow> monitor_endpoint \<Rightarrow> cached_monitor_socket" where
  "kfastblock_monitor_conn_slot_mark_success_locked now c ep =
     (let c1 = kfastblock_monitor_conn_slot_reset_backoff_locked
                 (c \<lparr> cm_port := me_port ep,
                      cm_address := strscpy KFASTBLOCK_MAX_ADDR_LEN (me_host ep) \<rparr>)
      in c1 \<lparr> cm_success_count := cm_success_count c1 + 1,
              cm_health_score := kfastblock_conn_health_increase (cm_health_score c1) 8,
              cm_last_connect_jiffies := now, cm_last_use_jiffies := now,
              cm_state := KFASTBLOCK_CONN_STATE_READY \<rparr>)"

definition kfastblock_osd_conn_slot_note_reuse_locked :: "u64 \<Rightarrow> cached_socket \<Rightarrow> cached_socket" where
  "kfastblock_osd_conn_slot_note_reuse_locked now c =
     c \<lparr> cs_reuse_hits := cs_reuse_hits c + 1, cs_last_use_jiffies := now,
         cs_health_score := kfastblock_conn_health_increase (cs_health_score c) 1,
         cs_state := KFASTBLOCK_CONN_STATE_READY \<rparr>"

definition kfastblock_monitor_conn_slot_note_reuse_locked ::
    "u64 \<Rightarrow> cached_monitor_socket \<Rightarrow> cached_monitor_socket" where
  "kfastblock_monitor_conn_slot_note_reuse_locked now c =
     c \<lparr> cm_reuse_hits := cm_reuse_hits c + 1, cm_last_use_jiffies := now,
         cm_health_score := kfastblock_conn_health_increase (cm_health_score c) 1,
         cm_state := KFASTBLOCK_CONN_STATE_READY \<rparr>"

section \<open>Pools\<close>

definition zero_conn_snapshot :: conn_pool_snapshot where
  "zero_conn_snapshot =
     \<lparr> cn_total_slots = 0, cn_empty_slots = 0, cn_connecting_slots = 0, cn_ready_slots = 0,
       cn_backoff_slots = 0, cn_active_sockets = 0, cn_min_health_score = 0, cn_max_health_score = 0,
       cn_avg_health_score = 0, cn_connect_attempts = 0, cn_reuse_hits = 0, cn_success_count = 0,
       cn_failure_count = 0, cn_oldest_last_use_jiffies = 0, cn_newest_last_use_jiffies = 0 \<rparr>"

definition kfastblock_conn_pool_snapshot_init :: "u32 \<Rightarrow> conn_pool_snapshot" where
  "kfastblock_conn_pool_snapshot_init total_slots =
     zero_conn_snapshot \<lparr> cn_total_slots := total_slots, cn_min_health_score := U32_MAX \<rparr>"

definition account_state :: "conn_state \<Rightarrow> conn_pool_snapshot \<Rightarrow> conn_pool_snapshot" where
  "account_state st n =
     (case st of
        KFASTBLOCK_CONN_STATE_EMPTY \<Rightarrow> n \<lparr> cn_empty_slots := cn_empty_slots n + 1 \<rparr>
      | KFASTBLOCK_CONN_STATE_CONNECTING \<Rightarrow> n \<lparr> cn_connecting_slots := cn_connecting_slots n + 1 \<rparr>
      | KFASTBLOCK_CONN_STATE_READY \<Rightarrow> n \<lparr> cn_ready_slots := cn_ready_slots n + 1 \<rparr>
      | KFASTBLOCK_CONN_STATE_BACKOFF \<Rightarrow> n \<lparr> cn_backoff_slots := cn_backoff_slots n + 1 \<rparr>)"

text \<open>\<^verbatim>\<open>time_after(a, b)\<close> is \<^verbatim>\<open>time_before(b, a)\<close>.\<close>

definition kfastblock_conn_pool_account_locked ::
    "conn_pool_snapshot \<Rightarrow> conn_state \<Rightarrow> nat option \<Rightarrow> u32 \<Rightarrow> u32 \<Rightarrow> u32 \<Rightarrow> u32 \<Rightarrow> u32 \<Rightarrow> u64
      \<Rightarrow> conn_pool_snapshot" where
  "kfastblock_conn_pool_account_locked n0 st sock health_score connect_attempts reuse_hits
       success_count failure_count last_use_jiffies =
     (let n = account_state st n0
      in n \<lparr> cn_active_sockets := (if sock \<noteq> None then cn_active_sockets n + 1 else cn_active_sockets n),
             cn_connect_attempts := cn_connect_attempts n + ucast connect_attempts,
             cn_reuse_hits := cn_reuse_hits n + ucast reuse_hits,
             cn_success_count := cn_success_count n + ucast success_count,
             cn_failure_count := cn_failure_count n + ucast failure_count,
             cn_min_health_score := (if health_score < cn_min_health_score n then health_score
                                     else cn_min_health_score n),
             cn_max_health_score := (if cn_max_health_score n < health_score then health_score
                                     else cn_max_health_score n),
             cn_avg_health_score := cn_avg_health_score n + health_score,
             cn_oldest_last_use_jiffies :=
               (if cn_oldest_last_use_jiffies n = 0 \<or>
                   time_before last_use_jiffies (cn_oldest_last_use_jiffies n)
                then last_use_jiffies else cn_oldest_last_use_jiffies n),
             cn_newest_last_use_jiffies :=
               (if time_before (cn_newest_last_use_jiffies n) last_use_jiffies
                then last_use_jiffies else cn_newest_last_use_jiffies n) \<rparr>)"

definition kfastblock_conn_pool_finalize_average :: "conn_pool_snapshot \<Rightarrow> conn_pool_snapshot" where
  "kfastblock_conn_pool_finalize_average n =
     n \<lparr> cn_min_health_score := (if cn_min_health_score n = U32_MAX then 0 else cn_min_health_score n),
         cn_avg_health_score := (if cn_total_slots n \<noteq> 0 then cn_avg_health_score n div cn_total_slots n
                                 else cn_avg_health_score n) \<rparr>"

text \<open>The pool operations run over \<^verbatim>\<open>slots[0 .. nr_slots)\<close>; the list holds exactly these slots.\<close>

definition kfastblock_osd_conn_pool_init :: "u32 \<Rightarrow> cached_socket list" where
  "kfastblock_osd_conn_pool_init nr_slots = replicate (unat nr_slots) kfastblock_osd_conn_slot_init"

definition kfastblock_monitor_conn_pool_init :: "u32 \<Rightarrow> cached_monitor_socket list" where
  "kfastblock_monitor_conn_pool_init nr_slots =
     replicate (unat nr_slots) kfastblock_monitor_conn_slot_init"

definition kfastblock_osd_conn_pool_close :: "u64 \<Rightarrow> cached_socket list \<Rightarrow> cached_socket list" where
  "kfastblock_osd_conn_pool_close now slots =
     map (\<lambda>c. (kfastblock_osd_conn_slot_reset_backoff_locked
                (kfastblock_osd_conn_slot_clear_identity_locked
                  (kfastblock_osd_conn_slot_close_locked now c)))
              \<lparr> cs_state := KFASTBLOCK_CONN_STATE_EMPTY \<rparr>) slots"

definition kfastblock_monitor_conn_pool_close ::
    "u64 \<Rightarrow> cached_monitor_socket list \<Rightarrow> cached_monitor_socket list" where
  "kfastblock_monitor_conn_pool_close now slots =
     map (\<lambda>c. (kfastblock_monitor_conn_slot_reset_backoff_locked
                (kfastblock_monitor_conn_slot_clear_identity_locked
                  (kfastblock_monitor_conn_slot_close_locked now c)))
              \<lparr> cm_state := KFASTBLOCK_CONN_STATE_EMPTY \<rparr>) slots"

definition kfastblock_osd_conn_pool_reset_backoff :: "cached_socket list \<Rightarrow> cached_socket list" where
  "kfastblock_osd_conn_pool_reset_backoff slots =
     map kfastblock_osd_conn_slot_reset_backoff_locked slots"

definition kfastblock_monitor_conn_pool_reset_backoff ::
    "cached_monitor_socket list \<Rightarrow> cached_monitor_socket list" where
  "kfastblock_monitor_conn_pool_reset_backoff slots =
     map kfastblock_monitor_conn_slot_reset_backoff_locked slots"

definition kfastblock_osd_conn_pool_snapshot :: "cached_socket list \<Rightarrow> u32 \<Rightarrow> conn_pool_snapshot" where
  "kfastblock_osd_conn_pool_snapshot slots nr_slots =
     kfastblock_conn_pool_finalize_average
       (fold (\<lambda>c n. kfastblock_conn_pool_account_locked n (cs_state c) (cs_sock c) (cs_health_score c)
                      (cs_connect_attempts c) (cs_reuse_hits c) (cs_success_count c)
                      (cs_failure_count c) (cs_last_use_jiffies c))
          (take (unat nr_slots) slots) (kfastblock_conn_pool_snapshot_init nr_slots))"

definition kfastblock_monitor_conn_pool_snapshot ::
    "cached_monitor_socket list \<Rightarrow> u32 \<Rightarrow> conn_pool_snapshot" where
  "kfastblock_monitor_conn_pool_snapshot slots nr_slots =
     kfastblock_conn_pool_finalize_average
       (fold (\<lambda>c n. kfastblock_conn_pool_account_locked n (cm_state c) (cm_sock c) (cm_health_score c)
                      (cm_connect_attempts c) (cm_reuse_hits c) (cm_success_count c)
                      (cm_failure_count c) (cm_last_use_jiffies c))
          (take (unat nr_slots) slots) (kfastblock_conn_pool_snapshot_init nr_slots))"

text \<open>Index of the first slot in \<open>[i, nr_slots)\<close> that satisfies a test.\<close>

fun first_slot :: "(nat \<Rightarrow> 'c \<Rightarrow> bool) \<Rightarrow> nat \<Rightarrow> 'c list \<Rightarrow> nat option" where
  "first_slot p i [] = None"
| "first_slot p i (c # cs) = (if p i c then Some i else first_slot p (Suc i) cs)"

text \<open>A matching slot is returned locked; the result is its index and its socket.\<close>

definition kfastblock_osd_conn_pool_acquire_match_common ::
    "u64 \<Rightarrow> (nat \<Rightarrow> bool) \<Rightarrow> cached_socket list \<Rightarrow> leader_info \<Rightarrow> bool
      \<Rightarrow> (nat \<times> nat option) option \<times> cached_socket list" where
  "kfastblock_osd_conn_pool_acquire_match_common now busy slots leader nonblocking =
     (case first_slot (\<lambda>i c. \<not> (nonblocking \<and> busy i) \<and> kfastblock_osd_conn_slot_matches_locked c leader)
             0 slots of
        None \<Rightarrow> (None, slots)
      | Some i \<Rightarrow>
          (Some (i, cs_sock (slots ! i)),
           slots[i := kfastblock_osd_conn_slot_note_reuse_locked now (slots ! i)]))"

definition kfastblock_osd_conn_pool_acquire_match ::
    "u64 \<Rightarrow> (nat \<Rightarrow> bool) \<Rightarrow> cached_socket list \<Rightarrow> leader_info
      \<Rightarrow> (nat \<times> nat option) option \<times> cached_socket list" where
  "kfastblock_osd_conn_pool_acquire_match now busy slots leader =
     kfastblock_osd_conn_pool_acquire_match_common now busy slots leader False"

definition kfastblock_osd_conn_pool_try_acquire_match ::
    "u64 \<Rightarrow> (nat \<Rightarrow> bool) \<Rightarrow> cached_socket list \<Rightarrow> leader_info
      \<Rightarrow> (nat \<times> nat option) option \<times> cached_socket list" where
  "kfastblock_osd_conn_pool_try_acquire_match now busy slots leader =
     kfastblock_osd_conn_pool_acquire_match_common now busy slots leader True"

definition kfastblock_monitor_conn_pool_acquire_match ::
    "u64 \<Rightarrow> cached_monitor_socket list \<Rightarrow> monitor_endpoint
      \<Rightarrow> (nat \<times> nat option) option \<times> cached_monitor_socket list" where
  "kfastblock_monitor_conn_pool_acquire_match now slots ep =
     (case first_slot (\<lambda>i c. kfastblock_monitor_conn_slot_matches_locked c ep) 0 slots of
        None \<Rightarrow> (None, slots)
      | Some i \<Rightarrow>
          (Some (i, cm_sock (slots ! i)),
           slots[i := kfastblock_monitor_conn_slot_note_reuse_locked now (slots ! i)]))"

text \<open>The back-off scans stop at the first slot that reports one; \<^verbatim>\<open>*remaining_jiffies\<close> starts at 0.\<close>

fun kfastblock_osd_conn_pool_check_backoff ::
    "u64 \<Rightarrow> cached_socket list \<Rightarrow> leader_info \<Rightarrow> int \<times> u64" where
  "kfastblock_osd_conn_pool_check_backoff now [] leader = (0, 0)"
| "kfastblock_osd_conn_pool_check_backoff now (c # cs) leader =
     (case kfastblock_osd_conn_slot_backoff_active_locked now c leader of
        (ret, rem) \<Rightarrow>
          if ret \<noteq> 0 then (ret, case rem of None \<Rightarrow> 0 | Some r \<Rightarrow> r)
          else kfastblock_osd_conn_pool_check_backoff now cs leader)"

fun kfastblock_monitor_conn_pool_check_backoff ::
    "u64 \<Rightarrow> cached_monitor_socket list \<Rightarrow> monitor_endpoint \<Rightarrow> int \<times> u64" where
  "kfastblock_monitor_conn_pool_check_backoff now [] ep = (0, 0)"
| "kfastblock_monitor_conn_pool_check_backoff now (c # cs) ep =
     (case kfastblock_monitor_conn_slot_backoff_active_locked now c ep of
        (ret, rem) \<Rightarrow>
          if ret \<noteq> 0 then (ret, case rem of None \<Rightarrow> 0 | Some r \<Rightarrow> r)
          else kfastblock_monitor_conn_pool_check_backoff now cs ep)"

definition kfastblock_osd_conn_pool_endpoint_active_count ::
    "cached_socket list \<Rightarrow> leader_info \<Rightarrow> u32" where
  "kfastblock_osd_conn_pool_endpoint_active_count slots leader =
     fold (\<lambda>c n. if cs_osd_id c = li_osd_id leader \<and> cs_port c = li_port leader \<and>
                     cs_address c = li_address leader \<and> (cs_sock c \<noteq> None \<or> cs_connecting c)
                  then n + 1 else n) slots 0"

definition kfastblock_osd_conn_slot_reserve_rank_locked :: "cached_socket \<Rightarrow> u32" where
  "kfastblock_osd_conn_slot_reserve_rank_locked c =
     (if cs_sock c \<noteq> None \<or> cs_connecting c then U32_MAX
      else if cs_state c = KFASTBLOCK_CONN_STATE_EMPTY \<and> cs_osd_id c = 0 \<and> cs_address c = [] \<and> cs_port c = 0
      then 0
      else if cs_state c = KFASTBLOCK_CONN_STATE_EMPTY then 1
      else if cs_state c = KFASTBLOCK_CONN_STATE_BACKOFF then 2
      else 3)"

definition kfastblock_osd_conn_slot_better_candidate_locked ::
    "cached_socket \<Rightarrow> cached_socket \<Rightarrow> u32 \<Rightarrow> u32 \<Rightarrow> bool" where
  "kfastblock_osd_conn_slot_better_candidate_locked cand best cand_rank best_rank =
     (if cand_rank \<noteq> best_rank then cand_rank < best_rank
      else if cs_health_score cand \<noteq> cs_health_score best
      then cs_health_score cand < cs_health_score best
      else if cs_last_use_jiffies cand \<noteq> cs_last_use_jiffies best
      then time_before (cs_last_use_jiffies cand) (cs_last_use_jiffies best)
      else cs_failure_count best < cs_failure_count cand)"

text \<open>The scan of \<^verbatim>\<open>reserve\<close>: \<open>best\<close> is the index and the slot kept locked so far.\<close>

fun reserve_loop ::
    "(nat \<Rightarrow> bool) \<Rightarrow> nat \<Rightarrow> cached_socket list \<Rightarrow> (nat \<times> cached_socket) option
      \<Rightarrow> (nat \<times> cached_socket) option" where
  "reserve_loop busy i [] best = best"
| "reserve_loop busy i (c # cs) best =
     (if busy i \<or> kfastblock_osd_conn_slot_reserve_rank_locked c = U32_MAX
      then reserve_loop busy (Suc i) cs best
      else if (case best of
                 None \<Rightarrow> True
               | Some (_, b) \<Rightarrow>
                   kfastblock_osd_conn_slot_better_candidate_locked c b
                     (kfastblock_osd_conn_slot_reserve_rank_locked c)
                     (kfastblock_osd_conn_slot_reserve_rank_locked b))
      then reserve_loop busy (Suc i) cs (Some (i, c))
      else reserve_loop busy (Suc i) cs best)"

definition kfastblock_osd_conn_pool_reserve ::
    "u64 \<Rightarrow> (nat \<Rightarrow> bool) \<Rightarrow> cached_socket list \<Rightarrow> nat option \<times> cached_socket list" where
  "kfastblock_osd_conn_pool_reserve now busy slots =
     (case reserve_loop busy 0 slots None of
        None \<Rightarrow> (None, slots)
      | Some (i, c) \<Rightarrow> (Some i, slots[i := kfastblock_osd_conn_slot_begin_connect_locked now c]))"

end
