(* ===== verification/KFB_Connpool_Laws.thy ===== *)
theory KFB_Connpool_Laws
  imports KFB_Connpool
begin

text \<open>
  Properties of the connection pools: the life cycle shared by OSD and monitor slots (locale
  \<open>conn_slot\<close>), the back-off window, sequence numbers, the choice of a slot for a new connection
  and the pool statistics.
\<close>

section \<open>The life cycle of a slot\<close>

lemma health_decrease_unat: "unat (kfastblock_conn_health_decrease h) = unat h - 10"
  by (auto simp: kfastblock_conn_health_decrease_def word_le_nat_alt unat_sub_if_size)

lemma health_increase_unat:
  "d \<le> 100 \<Longrightarrow> unat (kfastblock_conn_health_increase h d) = min 100 (unat h + unat d)"
proof -
  assume d: "d \<le> 100"
  show ?thesis
  proof (cases "100 \<le> h")
    case True
    then show ?thesis by (auto simp: kfastblock_conn_health_increase_def word_le_nat_alt)
  next
    case False
    then have "unat (h + d) = unat h + unat d"
      using d by (subst unat_add_lem [symmetric]) (simp add: word_le_nat_alt)
    then show ?thesis
      using False by (auto simp: kfastblock_conn_health_increase_def min_def word_le_nat_alt)
  qed
qed

lemma streak_step: "s \<le> 8 \<Longrightarrow> unat (min (s + 1) (8 :: u32)) = min 8 (unat s + 1)"
proof -
  assume "s \<le> (8 :: u32)"
  then have "unat s \<le> 8" by (simp add: word_le_nat_alt)
  then have "unat (s + 1) = unat s + 1" by (intro unat_inc) simp
  then show ?thesis by (auto simp: min_def word_le_nat_alt)
qed

locale conn_slot =
  fixes health :: "'s \<Rightarrow> u32"
    and streak :: "'s \<Rightarrow> u32"
    and until :: "'s \<Rightarrow> u64"
    and fail :: "u64 \<Rightarrow> 'e \<Rightarrow> int \<Rightarrow> 's \<Rightarrow> 's"
    and succeed :: "u64 \<Rightarrow> 'e \<Rightarrow> 's \<Rightarrow> 's"
    and reuse :: "u64 \<Rightarrow> 's \<Rightarrow> 's"
    and interval :: "u32 \<Rightarrow> u64"
  assumes fail_health: "health (fail now e ret s) = kfastblock_conn_health_decrease (health s)"
    and fail_streak: "streak (fail now e ret s) = min (streak s + 1) 8"
    and fail_until: "until (fail now e ret s) = now + interval (streak (fail now e ret s))"
    and succeed_health: "health (succeed now e s) = kfastblock_conn_health_increase (health s) 8"
    and succeed_streak: "streak (succeed now e s) = 0"
    and succeed_until: "until (succeed now e s) = 0"
    and reuse_health: "health (reuse now s) = kfastblock_conn_health_increase (health s) 1"
    and reuse_streak: "streak (reuse now s) = streak s"
begin

definition slot_ok :: "'s \<Rightarrow> bool" where
  "slot_ok s \<longleftrightarrow> health s \<le> 100 \<and> streak s \<le> 8"

lemma slot_ok_preserved:
  assumes "slot_ok s"
  shows "slot_ok (fail now e ret s)" "slot_ok (succeed now e s)" "slot_ok (reuse now s)"
proof -
  have "kfastblock_conn_health_increase h d \<le> 100" if "d \<le> 100" for h d
    using health_increase_unat [OF that, of h] by (simp add: word_le_nat_alt)
  moreover have "kfastblock_conn_health_decrease (health s) \<le> 100"
  proof -
    have "unat (health s) \<le> 100" using assms by (simp add: slot_ok_def word_le_nat_alt)
    then show ?thesis by (simp add: word_le_nat_alt health_decrease_unat)
  qed
  ultimately show "slot_ok (fail now e ret s)" "slot_ok (succeed now e s)" "slot_ok (reuse now s)"
    using assms
    by (simp_all add: slot_ok_def fail_health fail_streak succeed_health succeed_streak reuse_health
        reuse_streak)
qed

text \<open>A run of failures: time, endpoint and error of each.\<close>

definition fails :: "(u64 \<times> 'e \<times> int) list \<Rightarrow> 's \<Rightarrow> 's" where
  "fails fs s = fold (\<lambda>(now, e, ret). fail now e ret) fs s"

lemma fails_ok: "slot_ok s \<Longrightarrow> slot_ok (fails fs s)"
  unfolding fails_def by (induction fs arbitrary: s) (auto simp: slot_ok_preserved)

lemma fails_effect:
  assumes "slot_ok s"
  shows "unat (health (fails fs s)) = unat (health s) - 10 * length fs \<and>
         unat (streak (fails fs s)) = min 8 (unat (streak s) + length fs)"
  using assms
proof (induction fs arbitrary: s)
  case Nil
  then show ?case by (simp add: fails_def slot_ok_def word_le_nat_alt)
next
  case (Cons f fs)
  obtain now e ret where f: "f = (now, e, ret)" by (cases f)
  have "fails (f # fs) s = fails fs (fail now e ret s)" by (simp add: fails_def f)
  moreover have "unat (streak (fail now e ret s)) = min 8 (unat (streak s) + 1)"
    using Cons.prems streak_step by (simp add: fail_streak slot_ok_def)
  moreover have "unat (health (fail now e ret s)) = unat (health s) - 10"
    by (simp add: fail_health health_decrease_unat)
  ultimately show ?case
    using Cons.IH [OF slot_ok_preserved(1) [OF Cons.prems]] by auto
qed

lemma fails_until:
  assumes "slot_ok s"
  shows "until (fail now e ret (fails fs s)) = now + interval (of_nat (min 8 (unat (streak s) + length fs + 1)))"
proof -
  have "unat (streak (fail now e ret (fails fs s))) = min 8 (unat (streak s) + length fs + 1)"
    using fails_effect [OF assms, of "fs @ [(now, e, ret)]"] by (simp add: fails_def)
  then have "streak (fail now e ret (fails fs s)) = of_nat (min 8 (unat (streak s) + length fs + 1))"
    by (metis of_nat_unat ucast_id)
  then show ?thesis by (simp add: fail_until)
qed

end

interpretation osd_slot: conn_slot cs_health_score cs_fail_streak cs_backoff_until_jiffies
    "\<lambda>now e ret c. snd (kfastblock_osd_conn_slot_mark_failure_locked m2j now c e ret)"
    "\<lambda>now e c. kfastblock_osd_conn_slot_mark_success_locked now c e"
    kfastblock_osd_conn_slot_note_reuse_locked
    "kfastblock_conn_backoff_interval m2j"
  for m2j
  by unfold_locales
    (simp_all add: kfastblock_osd_conn_slot_mark_failure_locked_def
      kfastblock_osd_conn_slot_mark_success_locked_def kfastblock_osd_conn_slot_note_reuse_locked_def
      kfastblock_osd_conn_slot_reset_backoff_locked_def Let_def)

interpretation mon_slot: conn_slot cm_health_score cm_fail_streak cm_backoff_until_jiffies
    "\<lambda>now e ret c. snd (kfastblock_monitor_conn_slot_mark_failure_locked m2j now c e ret)"
    "\<lambda>now e c. kfastblock_monitor_conn_slot_mark_success_locked now c e"
    kfastblock_monitor_conn_slot_note_reuse_locked
    "kfastblock_conn_backoff_interval m2j"
  for m2j
  by unfold_locales
    (simp_all add: kfastblock_monitor_conn_slot_mark_failure_locked_def
      kfastblock_monitor_conn_slot_mark_success_locked_def kfastblock_monitor_conn_slot_note_reuse_locked_def
      kfastblock_monitor_conn_slot_reset_backoff_locked_def Let_def)

section \<open>Back-off\<close>

lemma backoff_delay_value:
  "unat (backoff_delay_ms k) = min 3000 (100 * 2 ^ min (unat k - 1) 5)"
proof (cases "1 < k")
  case False
  then have "unat k - 1 = 0" by (simp add: word_less_nat_alt)
  then show ?thesis using False by (simp add: backoff_delay_ms_def)
next
  case True
  define m where "m = min (k - 1) 5"
  have "unat m = min (unat k - 1) 5"
    using True by (simp add: m_def min_def word_le_nat_alt unat_sub word_less_nat_alt)
  moreover have "m \<in> {0, 1, 2, 3, 4, 5}"
  proof -
    have "unat m \<le> 5" using \<open>unat m = _\<close> by simp
    then have "unat m \<in> {0, 1, 2, 3, 4, 5}" by auto
    then show ?thesis by (auto simp: word_unat_eq_iff)
  qed
  moreover have "unat (backoff_delay_ms k) = unat (if 3000 < push_bit (unat m) (100 :: u64) then 3000
      else push_bit (unat m) (100 :: u64))"
    using True by (simp add: backoff_delay_ms_def m_def Let_def)
  ultimately show ?thesis by (auto simp: push_bit_eq_mult)
qed

lemma osd_backoff_window_slot:
  assumes "cs_sock c = None" "length (li_address leader) < KFASTBLOCK_MAX_ADDR_LEN"
    and "kfastblock_osd_conn_slot_mark_failure_locked m2j t c leader ret = (b, c')"
    and "unat b < 2 ^ 63" "unat d < 2 ^ 63" "t + b \<noteq> 0"
  shows "kfastblock_osd_conn_slot_backoff_active_locked (t + d) c' leader =
           (if unat d < unat b then (- EAGAIN, Some (b - d)) else (0, None))"
proof -
  have "cs_sock c' = None" "cs_backoff_until_jiffies c' = t + b" "cs_osd_id c' = li_osd_id leader"
    "cs_port c' = li_port leader" "cs_address c' = li_address leader"
    using assms(1-3)
    by (auto simp: kfastblock_osd_conn_slot_mark_failure_locked_def Let_def strscpy_def)
  moreover have "time_before (t + d) (t + b) \<longleftrightarrow> unat d < unat b"
    using assms by (intro time_before_offset)
  ultimately show ?thesis
    using assms(6) by (simp add: kfastblock_osd_conn_slot_backoff_active_locked_def)
qed

section \<open>Sequence numbers\<close>

fun seq_run :: "u64 list \<Rightarrow> cached_socket \<Rightarrow> u64 list \<times> cached_socket" where
  "seq_run [] c = ([], c)"
| "seq_run (now # ts) c =
     (let (s, c1) = kfastblock_osd_conn_slot_next_seq_locked now c;
          (ss, c2) = seq_run ts c1
      in (s # ss, c2))"

lemma seq_run_from:
  assumes "cs_next_seq c = of_nat k" "0 < k" "k + length ts < 2 ^ 64"
  shows "fst (seq_run ts c) = map of_nat [k..<k + length ts]"
  using assms
proof (induction ts arbitrary: c k)
  case (Cons t ts)
  have "unat (of_nat k :: u64) = k" using Cons.prems by (intro unat_of_nat_small) simp
  then have nz: "(of_nat k :: u64) \<noteq> 0" using Cons.prems(2) by auto
  obtain s c1 where step: "kfastblock_osd_conn_slot_next_seq_locked t c = (s, c1)" by fastforce
  then have "s = of_nat k" "cs_next_seq c1 = of_nat (Suc k)"
    using Cons.prems nz by (auto simp: kfastblock_osd_conn_slot_next_seq_locked_def Let_def add.commute)
  moreover have "fst (seq_run ts c1) = map of_nat [Suc k..<Suc k + length ts]"
    using calculation Cons.prems by (intro Cons.IH) auto
  ultimately show ?case
    using step by (simp add: case_prod_beta upt_conv_Cons del: upt_Suc)
qed simp

lemma distinct_of_nat:
  assumes "\<forall>x \<in> set xs. x < 2 ^ LENGTH('a::len)" "distinct xs"
  shows "distinct (map (of_nat :: nat \<Rightarrow> 'a word) xs)"
  using assms by (auto simp: distinct_map inj_on_def) (metis unat_of_nat_small)

lemma seq_run_fresh:
  assumes "cs_next_seq c = 0 \<or> cs_next_seq c = 1" "length ts < 2 ^ 64 - 1"
  shows "fst (seq_run ts c) = map of_nat [1..<1 + length ts]"
proof (cases ts)
  case (Cons t ts')
  obtain s c1 where step: "kfastblock_osd_conn_slot_next_seq_locked t c = (s, c1)" by fastforce
  then have "s = 1" "cs_next_seq c1 = of_nat 2"
    using assms(1) by (auto simp: kfastblock_osd_conn_slot_next_seq_locked_def Let_def)
  moreover have "fst (seq_run ts' c1) = map of_nat [2..<2 + length ts']"
    using calculation assms(2) Cons by (intro seq_run_from) auto
  ultimately show ?thesis
    using step Cons by (simp add: case_prod_beta upt_conv_Cons numeral_2_eq_2 del: upt_Suc)
qed simp

section \<open>Reserving a slot\<close>

definition reservable :: "(nat \<Rightarrow> bool) \<Rightarrow> nat \<Rightarrow> cached_socket \<Rightarrow> bool" where
  "reservable busy i c \<longleftrightarrow> \<not> busy i \<and> kfastblock_osd_conn_slot_reserve_rank_locked c \<noteq> U32_MAX"

definition preferred :: "cached_socket \<Rightarrow> cached_socket \<Rightarrow> bool" where
  "preferred a b \<longleftrightarrow>
     kfastblock_osd_conn_slot_reserve_rank_locked a < kfastblock_osd_conn_slot_reserve_rank_locked b \<or>
     (kfastblock_osd_conn_slot_reserve_rank_locked a = kfastblock_osd_conn_slot_reserve_rank_locked b \<and>
      cs_health_score a \<le> cs_health_score b)"

lemma preferred_refl [simp]: "preferred a a"
  by (simp add: preferred_def)

lemma preferred_trans: "preferred a b \<Longrightarrow> preferred b c \<Longrightarrow> preferred a c"
  by (auto simp: preferred_def)

lemma better_preferred:
  "kfastblock_osd_conn_slot_better_candidate_locked a b
     (kfastblock_osd_conn_slot_reserve_rank_locked a) (kfastblock_osd_conn_slot_reserve_rank_locked b)
   \<Longrightarrow> preferred a b"
  "\<not> kfastblock_osd_conn_slot_better_candidate_locked a b
     (kfastblock_osd_conn_slot_reserve_rank_locked a) (kfastblock_osd_conn_slot_reserve_rank_locked b)
   \<Longrightarrow> preferred b a"
  by (auto simp: kfastblock_osd_conn_slot_better_candidate_locked_def preferred_def split: if_splits)


lemma reserve_loop_spec:
  assumes "\<forall>j b. best = Some (j, b) \<longrightarrow> kfastblock_osd_conn_slot_reserve_rank_locked b \<noteq> U32_MAX"
  shows "case reserve_loop busy i cs best of
      None \<Rightarrow> best = None \<and> (\<forall>(k, d) \<in> set (enumerate i cs). \<not> reservable busy k d)
    | Some (j, c) \<Rightarrow>
        (best = Some (j, c) \<or> (j, c) \<in> set (enumerate i cs) \<and> reservable busy j c) \<and>
        (\<forall>k b. best = Some (k, b) \<longrightarrow> preferred c b) \<and>
        (\<forall>(k, d) \<in> set (enumerate i cs). reservable busy k d \<longrightarrow> preferred c d)"
  using assms
proof (induction cs arbitrary: i best)
  case Nil
  then show ?case by (auto split: option.split)
next
  case (Cons c cs)
  consider "\<not> reservable busy i c" | "reservable busy i c" "best = None"
    | j b where "reservable busy i c" "best = Some (j, b)" by (cases best) auto
  then show ?case
  proof cases
    case 1
    then show ?thesis
      using Cons.IH [OF Cons.prems, of "Suc i"]
      by (auto simp: reservable_def split: option.splits)
  next
    case 2
    then show ?thesis
      using Cons.IH [of "Some (i, c)" "Suc i"]
      by (auto simp: reservable_def split: option.splits)
  next
    case 3
    then show ?thesis
      using Cons.IH [of "Some (i, c)" "Suc i"] Cons.IH [OF Cons.prems, of "Suc i"] Cons.prems
        better_preferred [of c b]
      by (auto simp: reservable_def split: option.splits intro: preferred_trans)
  qed
qed

lemma reserve_result:
  "case reserve_loop busy 0 slots None of
      None \<Rightarrow> \<forall>j < length slots. \<not> reservable busy j (slots ! j)
    | Some (i, c) \<Rightarrow> i < length slots \<and> c = slots ! i \<and> reservable busy i c \<and>
        (\<forall>j < length slots. reservable busy j (slots ! j) \<longrightarrow> preferred c (slots ! j))"
  using reserve_loop_spec [where best = None and busy = busy and i = 0 and cs = slots]
  by (fastforce simp: in_set_enumerate_eq split: option.splits)

section \<open>Pool statistics\<close>

abbreviation account_slot :: "cached_socket \<Rightarrow> conn_pool_snapshot \<Rightarrow> conn_pool_snapshot" where
  "account_slot \<equiv> (\<lambda>c n. kfastblock_conn_pool_account_locked n (cs_state c) (cs_sock c)
      (cs_health_score c) (cs_connect_attempts c) (cs_reuse_hits c) (cs_success_count c)
      (cs_failure_count c) (cs_last_use_jiffies c))"

lemmas account_defs = kfastblock_conn_pool_account_locked_def account_state_def Let_def

definition in_state :: "conn_state \<Rightarrow> cached_socket list \<Rightarrow> nat" where
  "in_state st cs = length (filter (\<lambda>c. cs_state c = st) cs)"

lemma account_slot_fields:
  "cn_empty_slots (account_slot c n) =
     cn_empty_slots n + of_nat (in_state KFASTBLOCK_CONN_STATE_EMPTY [c])"
  "cn_connecting_slots (account_slot c n) =
     cn_connecting_slots n + of_nat (in_state KFASTBLOCK_CONN_STATE_CONNECTING [c])"
  "cn_ready_slots (account_slot c n) =
     cn_ready_slots n + of_nat (in_state KFASTBLOCK_CONN_STATE_READY [c])"
  "cn_backoff_slots (account_slot c n) =
     cn_backoff_slots n + of_nat (in_state KFASTBLOCK_CONN_STATE_BACKOFF [c])"
  "cn_avg_health_score (account_slot c n) = cn_avg_health_score n + cs_health_score c"
  "cn_min_health_score (account_slot c n) = min (cs_health_score c) (cn_min_health_score n)"
  "cn_max_health_score (account_slot c n) = max (cs_health_score c) (cn_max_health_score n)"
  "cn_total_slots (account_slot c n) = cn_total_slots n"
  by (auto simp: account_defs in_state_def min_def max_def split: conn_state.split)

lemma account_states:
  "cn_empty_slots (fold account_slot cs n) =
     cn_empty_slots n + of_nat (in_state KFASTBLOCK_CONN_STATE_EMPTY cs)"
  "cn_connecting_slots (fold account_slot cs n) =
     cn_connecting_slots n + of_nat (in_state KFASTBLOCK_CONN_STATE_CONNECTING cs)"
  "cn_ready_slots (fold account_slot cs n) =
     cn_ready_slots n + of_nat (in_state KFASTBLOCK_CONN_STATE_READY cs)"
  "cn_backoff_slots (fold account_slot cs n) =
     cn_backoff_slots n + of_nat (in_state KFASTBLOCK_CONN_STATE_BACKOFF cs)"
  by (induction cs arbitrary: n; simp add: account_slot_fields in_state_def)+

lemma in_state_total:
  "in_state KFASTBLOCK_CONN_STATE_EMPTY cs + in_state KFASTBLOCK_CONN_STATE_CONNECTING cs +
   in_state KFASTBLOCK_CONN_STATE_READY cs + in_state KFASTBLOCK_CONN_STATE_BACKOFF cs = length cs"
proof (induction cs)
  case (Cons c cs)
  then show ?case by (cases "cs_state c") (simp_all add: in_state_def)
qed (simp add: in_state_def)

lemma account_health:
  "cn_avg_health_score (fold account_slot cs n) = cn_avg_health_score n + sum_list (map cs_health_score cs)"
  "cn_min_health_score (fold account_slot cs n) = fold min (map cs_health_score cs) (cn_min_health_score n)"
  "cn_max_health_score (fold account_slot cs n) = fold max (map cs_health_score cs) (cn_max_health_score n)"
  "cn_total_slots (fold account_slot cs n) = cn_total_slots n"
  by (induction cs arbitrary: n; simp add: account_slot_fields add.assoc)+

lemma sum_unat_bound:
  fixes xs :: "u32 list"
  assumes "\<forall>x \<in> set xs. x \<le> m" "unat m * length xs < 2 ^ 32"
  shows "unat (sum_list xs) = sum_list (map unat xs) \<and> sum_list (map unat xs) \<le> unat m * length xs"
  using assms
proof (induction xs)
  case (Cons x xs)
  then have ih: "unat (sum_list xs) = sum_list (map unat xs)" "sum_list (map unat xs) \<le> unat m * length xs"
    by simp_all
  have x: "unat x \<le> unat m" using Cons.prems(1) by (simp add: word_le_nat_alt)
  then have "unat x + unat (sum_list xs) < 2 ^ 32"
    using ih Cons.prems(2) by simp
  then have "unat (x + sum_list xs) = unat x + unat (sum_list xs)"
    by (intro unat_add_lem [THEN iffD1]) simp
  then show ?case using ih x by simp
qed simp

lemma fold_min_le: "fold min xs a \<le> (a :: 'a::linorder)"
  by (induction xs arbitrary: a) (simp, metis fold_simps(2) min.cobounded2 order_trans)

lemma fold_max_ge: "(a :: 'a::linorder) \<le> fold max xs a"
  by (induction xs arbitrary: a) (simp, metis fold_simps(2) max.cobounded2 order_trans)

lemma fold_min_elem: "x \<in> set xs \<Longrightarrow> fold min xs a \<le> (x :: 'a::linorder)"
  by (induction xs arbitrary: a) (auto intro: order_trans [OF fold_min_le])

lemma fold_max_elem: "x \<in> set xs \<Longrightarrow> (x :: 'a::linorder) \<le> fold max xs a"
  by (induction xs arbitrary: a) (auto intro: order_trans [OF _ fold_max_ge])

lemma fold_max_le: "a \<le> m \<Longrightarrow> \<forall>x \<in> set xs. x \<le> m \<Longrightarrow> fold max xs a \<le> (m :: 'a::linorder)"
  by (induction xs arbitrary: a) auto


lemma average_ge:
  assumes "\<forall>x \<in> set xs. a \<le> f x" "xs \<noteq> []"
  shows "a \<le> sum_list (map f xs) div length xs"
proof -
  have "a * length xs \<le> sum_list (map f xs)" using assms(1) by (induction xs) auto
  then show ?thesis using assms(2) by (simp add: less_eq_div_iff_mult_less_eq)
qed

lemma average_le:
  assumes "\<forall>x \<in> set xs. f x \<le> a" "xs \<noteq> []"
  shows "sum_list (map f xs) div length xs \<le> (a :: nat)"
proof -
  have "sum_list (map f xs) \<le> a * length xs" using assms(1) by (induction xs) auto
  then show ?thesis using assms(2) by (metis div_le_mono length_0_conv nonzero_mult_div_cancel_right)
qed

text \<open>The statistics of a pool whose scores are at most 100 and that has \<open>0 < n\<close> slots.\<close>

lemma osd_snapshot_health:
  assumes "slots \<noteq> []" "length slots = unat nr_slots" "nr_slots \<le> 1000"
    and "\<forall>c \<in> set slots. cs_health_score c \<le> 100"
  shows "let n = kfastblock_osd_conn_pool_snapshot slots nr_slots;
             total = sum_list (map (\<lambda>c. unat (cs_health_score c)) slots)
         in unat (cn_avg_health_score n) = total div length slots \<and>
            cn_min_health_score n \<le> cn_avg_health_score n \<and>
            cn_avg_health_score n \<le> cn_max_health_score n \<and>
            (\<forall>c \<in> set slots. cn_min_health_score n \<le> cs_health_score c \<and>
                              cs_health_score c \<le> cn_max_health_score n)"
proof -
  define m where "m = fold account_slot slots (kfastblock_conn_pool_snapshot_init nr_slots)"
  define hs where "hs = map cs_health_score slots"
  have n: "kfastblock_osd_conn_pool_snapshot slots nr_slots = kfastblock_conn_pool_finalize_average m"
    using assms(2) by (simp add: kfastblock_osd_conn_pool_snapshot_def m_def)
  have m: "cn_avg_health_score m = sum_list hs" "cn_min_health_score m = fold min hs U32_MAX"
    "cn_max_health_score m = fold max hs 0" "cn_total_slots m = nr_slots"
    by (simp_all add: m_def hs_def account_health kfastblock_conn_pool_snapshot_init_def
        zero_conn_snapshot_def)
  have len: "length hs = unat nr_slots" "unat nr_slots \<le> 1000" "0 < unat nr_slots"
    using assms(1-3) by (simp_all add: hs_def word_le_nat_alt flip: assms(2))
  have le: "\<forall>h \<in> set hs. h \<le> 100" using assms(4) by (simp add: hs_def)
  have sum: "unat (sum_list hs) = sum_list (map unat hs)"
    using sum_unat_bound [OF le] len by simp
  have mn: "fold min hs U32_MAX \<le> h" "h \<le> fold max hs 0" if "h \<in> set hs" for h
    using that by (simp_all add: fold_min_elem fold_max_elem)
  obtain h where h: "h \<in> set hs" using len by (cases hs) auto
  then have "fold min hs U32_MAX \<le> 100" using mn(1) le by (meson order_trans)
  then have ne: "fold min hs U32_MAX \<noteq> U32_MAX" by auto
  have "unat (sum_list hs div nr_slots) = sum_list (map unat hs) div length hs"
    by (simp add: unat_div sum len(1))
  moreover have "unat (fold min hs U32_MAX) \<le> sum_list (map unat hs) div length hs"
    using mn(1) len by (intro average_ge) (auto simp: word_le_nat_alt)
  moreover have "sum_list (map unat hs) div length hs \<le> unat (fold max hs 0)"
    using mn(2) len by (intro average_le) (auto simp: word_le_nat_alt)
  moreover have "nr_slots \<noteq> 0" using len by auto
  ultimately show ?thesis
    using mn ne
    by (simp add: n m kfastblock_conn_pool_finalize_average_def word_le_nat_alt Let_def)
      (simp add: hs_def o_def)
qed


section \<open>Properties\<close>

lemma backoff_interval_value:
  assumes "k < 2 ^ 32"
  shows "kfastblock_conn_backoff_interval m2j (of_nat k) = m2j (of_nat (min 3000 (100 * 2 ^ min (k - 1) 5)))"
proof -
  define v :: nat where "v = min 3000 (100 * 2 ^ min (k - 1) 5)"
  have "unat (of_nat k :: u32) = k" using assms by (intro unat_of_nat_small) simp
  then have "unat (backoff_delay_ms (of_nat k)) = v"
    using backoff_delay_value [of "of_nat k"] by (simp add: v_def)
  then have "ucast (backoff_delay_ms (of_nat k)) = (of_nat v :: u32)"
    by (metis of_nat_unat)
  then show ?thesis by (simp add: kfastblock_conn_backoff_interval_def v_def)
qed

lemma streak_interval:
  "kfastblock_conn_backoff_interval m2j (of_nat (min 8 (n + 1))) =
     m2j (of_nat (min 3000 (100 * 2 ^ min n 5)))"
proof -
  have "min (min 8 (n + 1) - 1) 5 = min n 5" by auto
  then show ?thesis using backoff_interval_value [of "min 8 (n + 1)" m2j] by simp
qed

text \<open>
  C28. From a freshly initialised slot, any sequence of connection failures (whatever their times,
  endpoints and errors) lowers the health score by ten points each down to zero, saturates the
  failure streak at eight, and puts the slot into back-off until
  \<open>100 ms * 2^(streak - 1)\<close>, capped at 3 seconds, after the last failure; OSD and monitor slots
  behave alike.
\<close>

theorem conn_failures_backoff:
  "let c = fold (\<lambda>(now, leader, ret) c.
                   snd (kfastblock_osd_conn_slot_mark_failure_locked m2j now c leader ret))
             (fs @ [(now, leader, ret)]) kfastblock_osd_conn_slot_init;
       d = fold (\<lambda>(now, ep, ret) c.
                   snd (kfastblock_monitor_conn_slot_mark_failure_locked m2j now c ep ret))
             (gs @ [(now, ep, ret)]) kfastblock_monitor_conn_slot_init
   in unat (cs_health_score c) = 50 - 10 * (length fs + 1) \<and>
      unat (cs_fail_streak c) = min 8 (length fs + 1) \<and>
      cs_state c = KFASTBLOCK_CONN_STATE_BACKOFF \<and>
      cs_backoff_until_jiffies c = now + m2j (of_nat (min 3000 (100 * 2 ^ min (length fs) 5))) \<and>
      unat (cm_health_score d) = 50 - 10 * (length gs + 1) \<and>
      unat (cm_fail_streak d) = min 8 (length gs + 1) \<and>
      cm_state d = KFASTBLOCK_CONN_STATE_BACKOFF \<and>
      cm_backoff_until_jiffies d = now + m2j (of_nat (min 3000 (100 * 2 ^ min (length gs) 5)))"
proof -
  have ok: "osd_slot.slot_ok kfastblock_osd_conn_slot_init" "mon_slot.slot_ok kfastblock_monitor_conn_slot_init"
    by (simp_all add: osd_slot.slot_ok_def mon_slot.slot_ok_def kfastblock_osd_conn_slot_init_def
        kfastblock_monitor_conn_slot_init_def)
  have st: "cs_state (snd (kfastblock_osd_conn_slot_mark_failure_locked m2j now c leader ret)) =
      KFASTBLOCK_CONN_STATE_BACKOFF"
    "cm_state (snd (kfastblock_monitor_conn_slot_mark_failure_locked m2j now d ep ret)) =
      KFASTBLOCK_CONN_STATE_BACKOFF" for c d
    by (simp_all add: kfastblock_osd_conn_slot_mark_failure_locked_def
        kfastblock_monitor_conn_slot_mark_failure_locked_def Let_def)
  have init: "cs_health_score kfastblock_osd_conn_slot_init = 50" "cs_fail_streak kfastblock_osd_conn_slot_init = 0"
    "cm_health_score kfastblock_monitor_conn_slot_init = 50" "cm_fail_streak kfastblock_monitor_conn_slot_init = 0"
    by (simp_all add: kfastblock_osd_conn_slot_init_def kfastblock_monitor_conn_slot_init_def)
  note osd = osd_slot.fails_effect [OF ok(1), of m2j "fs @ [(now, leader, ret)]", unfolded osd_slot.fails_def init]
    osd_slot.fails_until [OF ok(1), where m2j = m2j and now = now and e = leader and ret = ret and fs = fs, unfolded osd_slot.fails_def init]
  note mon = mon_slot.fails_effect [OF ok(2), of m2j "gs @ [(now, ep, ret)]", unfolded mon_slot.fails_def init]
    mon_slot.fails_until [OF ok(2), where m2j = m2j and now = now and e = ep and ret = ret and fs = gs, unfolded mon_slot.fails_def init]
  show ?thesis
    using osd mon by (simp add: Let_def st streak_interval [simplified])
qed


definition sample_leader :: leader_info where
  "sample_leader = \<lparr> li_osd_id = 3, li_port = 6789, li_address = ''10.0.0.3'' \<rparr>"


text \<open>
  C30. On one connection the sequence numbers are \<open>1, 2, 3, ...\<close> and pairwise different, for fewer than
  \<open>2^64 - 1\<close> exchanges; closing a slot starts them over.
\<close>

theorem osd_connection_seqs:
  assumes "length ts < 2 ^ 64 - 1"
  shows "fst (seq_run ts (kfastblock_osd_conn_slot_close_locked now c)) = map of_nat [1..<1 + length ts] \<and>
         distinct (fst (seq_run ts (kfastblock_osd_conn_slot_close_locked now c)))"
proof -
  have run: "fst (seq_run ts (kfastblock_osd_conn_slot_close_locked now c)) = map of_nat [1..<1 + length ts]"
    using assms by (intro seq_run_fresh) (simp_all add: kfastblock_osd_conn_slot_close_locked_def)
  moreover have "distinct (map (of_nat :: nat \<Rightarrow> u64) [1..<1 + length ts])"
    using assms by (intro distinct_of_nat) auto
  ultimately show ?thesis by simp
qed

theorem osd_connection_seqs_witness:
  "fst (seq_run [7, 8, 9] (kfastblock_osd_conn_slot_close_locked 0
          (kfastblock_osd_conn_slot_init \<lparr> cs_next_seq := 77 \<rparr>))) = [1, 2, 3]"
  using osd_connection_seqs [of "[7, 8, 9]" 0 "kfastblock_osd_conn_slot_init \<lparr> cs_next_seq := 77 \<rparr>"]
  by (simp add: upt_rec)

text \<open>
  C31. Reserving a slot for a new connection picks an unlocked slot without socket or pending
  connect that no other such slot beats on (kind, health score), marks only that slot as
  connecting, so it cannot be reserved again, and fails only if no slot is available.
\<close>

theorem osd_pool_reserve_best:
  "case kfastblock_osd_conn_pool_reserve now busy slots of
     (None, slots') \<Rightarrow> slots' = slots \<and> (\<forall>j < length slots. \<not> reservable busy j (slots ! j))
   | (Some i, slots') \<Rightarrow>
       i < length slots \<and> reservable busy i (slots ! i) \<and>
       (\<forall>j < length slots. reservable busy j (slots ! j) \<longrightarrow> preferred (slots ! i) (slots ! j)) \<and>
       slots' = slots[i := kfastblock_osd_conn_slot_begin_connect_locked now (slots ! i)] \<and>
       \<not> reservable (\<lambda>_. False) i (slots' ! i)"
proof -
  have busy: "\<not> reservable (\<lambda>_. False) i (kfastblock_osd_conn_slot_begin_connect_locked now c)" for i c
    by (simp add: reservable_def kfastblock_osd_conn_slot_reserve_rank_locked_def
        kfastblock_osd_conn_slot_begin_connect_locked_def)
  show ?thesis
  proof (cases "reserve_loop busy 0 slots None")
    case None
    then show ?thesis
      using reserve_result [of slots busy] by (simp add: kfastblock_osd_conn_pool_reserve_def)
  next
    case (Some ic)
    then show ?thesis
      using reserve_result [of slots busy] busy
      by (cases ic) (simp add: kfastblock_osd_conn_pool_reserve_def)
  qed
qed

definition sample_pool :: "cached_socket list" where
  "sample_pool =
     [kfastblock_osd_conn_slot_init \<lparr> cs_sock := Some 1, cs_state := KFASTBLOCK_CONN_STATE_READY \<rparr>,
      kfastblock_osd_conn_slot_init \<lparr> cs_osd_id := 4, cs_health_score := 30 \<rparr>,
      kfastblock_osd_conn_slot_init \<lparr> cs_osd_id := 5, cs_health_score := 20 \<rparr>]"

theorem osd_pool_reserve_best_witness:
  "fst (kfastblock_osd_conn_pool_reserve 9 (\<lambda>_. False) sample_pool) = Some 2 \<and>
   preferred (sample_pool ! 2) (sample_pool ! 1)"
proof -
  have r: "kfastblock_osd_conn_pool_reserve 9 (\<lambda>_. False) sample_pool =
      (Some 2, sample_pool[2 := kfastblock_osd_conn_slot_begin_connect_locked 9 (sample_pool ! 2)])"
    by (simp add: kfastblock_osd_conn_pool_reserve_def sample_pool_def kfastblock_osd_conn_slot_init_def
        kfastblock_osd_conn_slot_reserve_rank_locked_def kfastblock_osd_conn_slot_better_candidate_locked_def)
  have "reservable (\<lambda>_. False) 1 (sample_pool ! 1)"
    by (simp add: reservable_def sample_pool_def kfastblock_osd_conn_slot_init_def
        kfastblock_osd_conn_slot_reserve_rank_locked_def)
  moreover have "\<forall>j < length sample_pool. reservable (\<lambda>_. False) j (sample_pool ! j) \<longrightarrow>
      preferred (sample_pool ! 2) (sample_pool ! j)"
    using osd_pool_reserve_best [where now = 9 and busy = "\<lambda>_. False" and slots = sample_pool]
    unfolding r by simp
  moreover have "1 < length sample_pool" by (simp add: sample_pool_def)
  ultimately show ?thesis using r by simp
qed

text \<open>
  A pool snapshot counts every slot exactly once by state, and reports an average health score
  that is the integer mean of the scores, lies between the reported extremes, and no slot is
  outside these extremes.
\<close>

theorem osd_pool_snapshot_counts:
  assumes "slots \<noteq> []" "length slots = unat nr_slots" "nr_slots \<le> 1000"
    and "\<forall>c \<in> set slots. cs_health_score c \<le> 100"
  shows "let n = kfastblock_osd_conn_pool_snapshot slots nr_slots
         in cn_empty_slots n + cn_connecting_slots n + cn_ready_slots n + cn_backoff_slots n = nr_slots \<and>
            cn_ready_slots n = of_nat (in_state KFASTBLOCK_CONN_STATE_READY slots) \<and>
            cn_backoff_slots n = of_nat (in_state KFASTBLOCK_CONN_STATE_BACKOFF slots) \<and>
            unat (cn_avg_health_score n) =
              sum_list (map (\<lambda>c. unat (cs_health_score c)) slots) div length slots \<and>
            cn_min_health_score n \<le> cn_avg_health_score n \<and>
            cn_avg_health_score n \<le> cn_max_health_score n \<and>
            (\<forall>c \<in> set slots. cn_min_health_score n \<le> cs_health_score c \<and>
                              cs_health_score c \<le> cn_max_health_score n)"
proof -
  let ?n = "kfastblock_osd_conn_pool_snapshot slots nr_slots"
  have st: "cn_empty_slots ?n = of_nat (in_state KFASTBLOCK_CONN_STATE_EMPTY slots)"
    "cn_connecting_slots ?n = of_nat (in_state KFASTBLOCK_CONN_STATE_CONNECTING slots)"
    "cn_ready_slots ?n = of_nat (in_state KFASTBLOCK_CONN_STATE_READY slots)"
    "cn_backoff_slots ?n = of_nat (in_state KFASTBLOCK_CONN_STATE_BACKOFF slots)"
    using assms(2)
    by (simp_all add: kfastblock_osd_conn_pool_snapshot_def kfastblock_conn_pool_finalize_average_def
        account_states kfastblock_conn_pool_snapshot_init_def zero_conn_snapshot_def)
  then have "cn_empty_slots ?n + cn_connecting_slots ?n + cn_ready_slots ?n + cn_backoff_slots ?n = nr_slots"
    using in_state_total [of slots] assms(2) by (metis of_nat_add of_nat_unat ucast_id)
  then show ?thesis using osd_snapshot_health [OF assms] st by (simp add: Let_def)
qed

theorem osd_pool_snapshot_counts_witness:
  "let n = kfastblock_osd_conn_pool_snapshot sample_pool 3
   in cn_ready_slots n = 1 \<and> unat (cn_avg_health_score n) = 33 \<and> cn_min_health_score n \<le> 20"
  using osd_pool_snapshot_counts [of sample_pool 3]
  by (simp add: sample_pool_def kfastblock_osd_conn_slot_init_def in_state_def Let_def)

end
