(* ===== verification/KFB_Volume.thy ===== *)
theory KFB_Volume
  imports KFB_Buffer KFB_Pipeline KFB_Scheduler KFB_Fault KFB_Connpool
begin

text \<open>
  The volume (\<^verbatim>\<open>kfastblock/src/volume.c\<close>, \<^verbatim>\<open>volume.h\<close>): its state and the accounting that every
  other component reports to. Atomic counters are 64-bit words, \<^verbatim>\<open>atomic_t\<close> values are integers,
  \<open>now\<close> is \<^verbatim>\<open>jiffies\<close> (and \<^verbatim>\<open>get_jiffies_64()\<close>), \<open>j2m\<close> is \<^verbatim>\<open>jiffies_to_msecs\<close>. The last 128 events are kept
  in a ring; the locale \<open>bounded_history\<close> is the contract of such a ring. The self-check and
  diagnostic baseline fields of the struct are not modelled.
\<close>

section \<open>State\<close>

abbreviation (input) KFASTBLOCK_VOLUME_EVENT_ATTACH_READY :: u32 where
  "KFASTBLOCK_VOLUME_EVENT_ATTACH_READY \<equiv> 1"
abbreviation (input) KFASTBLOCK_VOLUME_EVENT_QUEUE_PAUSE :: u32 where
  "KFASTBLOCK_VOLUME_EVENT_QUEUE_PAUSE \<equiv> 2"
abbreviation (input) KFASTBLOCK_VOLUME_EVENT_QUEUE_RESUME :: u32 where
  "KFASTBLOCK_VOLUME_EVENT_QUEUE_RESUME \<equiv> 3"
abbreviation (input) KFASTBLOCK_VOLUME_EVENT_METADATA_STALE :: u32 where
  "KFASTBLOCK_VOLUME_EVENT_METADATA_STALE \<equiv> 4"
abbreviation (input) KFASTBLOCK_VOLUME_EVENT_CLUSTER_REFRESH_FAIL :: u32 where
  "KFASTBLOCK_VOLUME_EVENT_CLUSTER_REFRESH_FAIL \<equiv> 5"
abbreviation (input) KFASTBLOCK_VOLUME_EVENT_IMAGE_REFRESH_FAIL :: u32 where
  "KFASTBLOCK_VOLUME_EVENT_IMAGE_REFRESH_FAIL \<equiv> 6"
abbreviation (input) KFASTBLOCK_VOLUME_EVENT_LEADER_QUERY_FAIL :: u32 where
  "KFASTBLOCK_VOLUME_EVENT_LEADER_QUERY_FAIL \<equiv> 7"
abbreviation (input) KFASTBLOCK_VOLUME_EVENT_OBJECT_DONE :: u32 where
  "KFASTBLOCK_VOLUME_EVENT_OBJECT_DONE \<equiv> 8"
abbreviation (input) KFASTBLOCK_VOLUME_EVENT_OBJECT_RETRY :: u32 where
  "KFASTBLOCK_VOLUME_EVENT_OBJECT_RETRY \<equiv> 9"
abbreviation (input) KFASTBLOCK_VOLUME_EVENT_OBJECT_ERROR :: u32 where
  "KFASTBLOCK_VOLUME_EVENT_OBJECT_ERROR \<equiv> 10"
abbreviation (input) KFASTBLOCK_VOLUME_EVENT_REFRESH_KICK :: u32 where
  "KFASTBLOCK_VOLUME_EVENT_REFRESH_KICK \<equiv> 11"
abbreviation (input) KFASTBLOCK_VOLUME_EVENT_LEADER_INVALIDATE :: u32 where
  "KFASTBLOCK_VOLUME_EVENT_LEADER_INVALIDATE \<equiv> 12"
abbreviation (input) KFASTBLOCK_VOLUME_EVENT_OSD_SOCKET_DROP :: u32 where
  "KFASTBLOCK_VOLUME_EVENT_OSD_SOCKET_DROP \<equiv> 13"
abbreviation (input) KFASTBLOCK_VOLUME_EVENT_MONITOR_SOCKET_DROP :: u32 where
  "KFASTBLOCK_VOLUME_EVENT_MONITOR_SOCKET_DROP \<equiv> 14"
abbreviation (input) KFASTBLOCK_VOLUME_EVENT_HEALTH_CHANGE :: u32 where
  "KFASTBLOCK_VOLUME_EVENT_HEALTH_CHANGE \<equiv> 15"
abbreviation (input) KFASTBLOCK_VOLUME_EVENT_SOCKET_BACKOFF :: u32 where
  "KFASTBLOCK_VOLUME_EVENT_SOCKET_BACKOFF \<equiv> 16"
abbreviation (input) KFASTBLOCK_VOLUME_EVENT_MANUAL_REFRESH :: u32 where
  "KFASTBLOCK_VOLUME_EVENT_MANUAL_REFRESH \<equiv> 17"
abbreviation (input) KFASTBLOCK_VOLUME_EVENT_MANUAL_RESET_BACKOFF :: u32 where
  "KFASTBLOCK_VOLUME_EVENT_MANUAL_RESET_BACKOFF \<equiv> 18"
abbreviation (input) KFASTBLOCK_VOLUME_EVENT_MANUAL_DROP_TRANSPORT :: u32 where
  "KFASTBLOCK_VOLUME_EVENT_MANUAL_DROP_TRANSPORT \<equiv> 19"
abbreviation (input) KFASTBLOCK_VOLUME_EVENT_MANUAL_RESET_LEADERS :: u32 where
  "KFASTBLOCK_VOLUME_EVENT_MANUAL_RESET_LEADERS \<equiv> 20"
abbreviation (input) KFASTBLOCK_VOLUME_EVENT_MANUAL_QUEUE_PAUSE :: u32 where
  "KFASTBLOCK_VOLUME_EVENT_MANUAL_QUEUE_PAUSE \<equiv> 21"
abbreviation (input) KFASTBLOCK_VOLUME_EVENT_MANUAL_QUEUE_RESUME :: u32 where
  "KFASTBLOCK_VOLUME_EVENT_MANUAL_QUEUE_RESUME \<equiv> 22"
abbreviation (input) KFASTBLOCK_VOLUME_EVENT_SOCKET_BACKOFF_WAIT :: u32 where
  "KFASTBLOCK_VOLUME_EVENT_SOCKET_BACKOFF_WAIT \<equiv> 23"
abbreviation (input) KFASTBLOCK_VOLUME_EVENT_MANUAL_FAULT_INJECTION_ARM :: u32 where
  "KFASTBLOCK_VOLUME_EVENT_MANUAL_FAULT_INJECTION_ARM \<equiv> 24"
abbreviation (input) KFASTBLOCK_VOLUME_EVENT_MANUAL_FAULT_INJECTION_RESET :: u32 where
  "KFASTBLOCK_VOLUME_EVENT_MANUAL_FAULT_INJECTION_RESET \<equiv> 25"
abbreviation (input) KFASTBLOCK_VOLUME_EVENT_FAULT_INJECTION_TRIGGER :: u32 where
  "KFASTBLOCK_VOLUME_EVENT_FAULT_INJECTION_TRIGGER \<equiv> 26"

abbreviation (input) KFASTBLOCK_VOLUME_HEALTH_UNKNOWN :: u32 where "KFASTBLOCK_VOLUME_HEALTH_UNKNOWN \<equiv> 0"
abbreviation (input) KFASTBLOCK_VOLUME_HEALTH_READY :: u32 where "KFASTBLOCK_VOLUME_HEALTH_READY \<equiv> 1"
abbreviation (input) KFASTBLOCK_VOLUME_HEALTH_DEGRADED :: u32 where "KFASTBLOCK_VOLUME_HEALTH_DEGRADED \<equiv> 2"
abbreviation (input) KFASTBLOCK_VOLUME_HEALTH_STALE :: u32 where "KFASTBLOCK_VOLUME_HEALTH_STALE \<equiv> 3"

abbreviation (input) KFASTBLOCK_VOLUME_SOURCE_NONE :: u32 where "KFASTBLOCK_VOLUME_SOURCE_NONE \<equiv> 0"
abbreviation (input) KFASTBLOCK_VOLUME_SOURCE_ATTACH :: u32 where "KFASTBLOCK_VOLUME_SOURCE_ATTACH \<equiv> 1"
abbreviation (input) KFASTBLOCK_VOLUME_SOURCE_QUEUE_GATE :: u32 where "KFASTBLOCK_VOLUME_SOURCE_QUEUE_GATE \<equiv> 2"
abbreviation (input) KFASTBLOCK_VOLUME_SOURCE_CLUSTER_REFRESH :: u32 where "KFASTBLOCK_VOLUME_SOURCE_CLUSTER_REFRESH \<equiv> 3"
abbreviation (input) KFASTBLOCK_VOLUME_SOURCE_IMAGE_REFRESH :: u32 where "KFASTBLOCK_VOLUME_SOURCE_IMAGE_REFRESH \<equiv> 4"
abbreviation (input) KFASTBLOCK_VOLUME_SOURCE_LEADER_QUERY :: u32 where "KFASTBLOCK_VOLUME_SOURCE_LEADER_QUERY \<equiv> 5"
abbreviation (input) KFASTBLOCK_VOLUME_SOURCE_OBJECT_IO :: u32 where "KFASTBLOCK_VOLUME_SOURCE_OBJECT_IO \<equiv> 6"
abbreviation (input) KFASTBLOCK_VOLUME_SOURCE_MONITOR_SOCKET :: u32 where "KFASTBLOCK_VOLUME_SOURCE_MONITOR_SOCKET \<equiv> 7"
abbreviation (input) KFASTBLOCK_VOLUME_SOURCE_OSD_SOCKET :: u32 where "KFASTBLOCK_VOLUME_SOURCE_OSD_SOCKET \<equiv> 8"

text \<open>\<^verbatim>\<open>enum req_op\<close> of \<^verbatim>\<open>linux/blk_types.h\<close>.\<close>

abbreviation (input) REQ_OP_READ :: u8 where "REQ_OP_READ \<equiv> 0"
abbreviation (input) REQ_OP_WRITE :: u8 where "REQ_OP_WRITE \<equiv> 1"
abbreviation (input) REQ_OP_FLUSH :: u8 where "REQ_OP_FLUSH \<equiv> 2"
abbreviation (input) REQ_OP_DISCARD :: u8 where "REQ_OP_DISCARD \<equiv> 3"
abbreviation (input) REQ_OP_WRITE_ZEROES :: u8 where "REQ_OP_WRITE_ZEROES \<equiv> 9"

record volume_stats =
  vs_io_submitted :: u64
  vs_io_completed :: u64
  vs_io_failed :: u64
  vs_read_requests :: u64
  vs_write_requests :: u64
  vs_discard_requests :: u64
  vs_flush_requests :: u64
  vs_write_zeroes_requests :: u64
  vs_read_bytes :: u64
  vs_write_bytes :: u64
  vs_discard_bytes :: u64
  vs_queue_pause_events :: u64
  vs_queue_resume_events :: u64
  vs_metadata_stale_events :: u64
  vs_cluster_refresh_ok :: u64
  vs_cluster_refresh_fail :: u64
  vs_image_refresh_ok :: u64
  vs_image_refresh_fail :: u64
  vs_leader_query_ok :: u64
  vs_leader_query_fail :: u64
  vs_object_io_completed :: u64
  vs_object_io_retries :: u64
  vs_object_io_errors :: u64
  vs_refresh_kicks :: u64
  vs_leader_invalidations :: u64
  vs_osd_socket_drops :: u64
  vs_monitor_socket_drops :: u64
  vs_osd_backoff_hits :: u64
  vs_monitor_backoff_hits :: u64
  vs_osd_backoff_waits :: u64
  vs_monitor_backoff_waits :: u64
  vs_manual_refreshes :: u64
  vs_manual_reset_backoffs :: u64
  vs_manual_transport_drops :: u64
  vs_manual_leader_resets :: u64
  vs_manual_queue_pauses :: u64
  vs_manual_queue_resumes :: u64

record volume_pipeline_stats =
  vp_request_prepares :: u64
  vp_request_cleanups :: u64
  vp_dispatch_batches :: u64
  vp_queued_objects :: u64
  vp_retry_objects :: u64
  vp_completed_objects :: u64
  vp_failed_objects :: u64
  vp_cancelled_objects :: u64
  vp_seq_records :: u64
  vp_last_response_status :: int
  vp_last_response_body_len :: u32
  vp_last_transport_flags :: u32

record volume_health =
  vh_state :: u32
  vh_last_failure_source :: u32
  vh_last_errno :: int
  vh_state_since_jiffies :: u64
  vh_last_failure_jiffies :: u64
  vh_last_success_jiffies :: u64

record volume_event =
  ve_jiffies :: u64
  ve_ret :: int
  ve_type :: u32
  ve_pg_id :: u32
  ve_osd_id :: u32
  ve_arg0 :: u32
  ve_arg1 :: u32
  ve_op :: u8

record volume_event_log =
  el_next_index :: u32
  el_count :: u32
  el_entries :: "volume_event list"

text \<open>
  What the driver sets on the disk and its queue. \<open>dk_quiesce_depth\<close> is the nesting depth that
  \<^verbatim>\<open>blk_mq_quiesce_queue\<close> and \<^verbatim>\<open>blk_mq_unquiesce_queue\<close> keep: the queue dispatches only at depth 0.
\<close>

record queue_limits =
  ql_logical_block_size :: u32
  ql_max_hw_sectors :: u32
  ql_max_segment_size :: u32
  ql_max_segments :: u16
  ql_write_cache :: bool
  ql_io_opt :: u32
  ql_chunk_sectors :: u32
  ql_max_discard_sectors :: u32
  ql_max_write_zeroes_sectors :: u32
  ql_max_discard_segments :: u32
  ql_discard_granularity :: u32
  ql_discard_alignment :: u32

record disk =
  dk_quiesce_depth :: nat
  dk_capacity :: u64
  dk_read_only :: bool
  dk_limits :: queue_limits

text \<open>
  \<open>v_dev_refs\<close> is the reference count the driver keeps on \<^verbatim>\<open>vol->dev\<close>, \<open>v_refresh_work\<close> the delay in jiffies
  of the pending \<^verbatim>\<open>refresh_work\<close>, if it is pending. Locks, the wait queue, the tag set, the debugfs
  directory and the self-check and diagnostics blocks are not part of the record.
\<close>

record volume =
  v_dev_id :: int
  v_open_count :: int
  v_ready :: bool
  v_inflight_ios :: int
  v_disk :: "disk option"
  v_spec :: attach_spec
  v_view :: cluster_view
  v_stats :: volume_stats
  v_pipeline_stats :: volume_pipeline_stats
  v_health :: volume_health
  v_event_log :: volume_event_log
  v_fault_injection :: fault_injection_state
  v_pipeline_snapshot :: pipeline_snapshot
  v_object_buffer_pool :: object_buffer_pool
  v_scheduler :: scheduler_controller
  v_flush_in_progress :: bool
  v_queue_paused :: bool
  v_manual_queue_pause :: bool
  v_dispatch_window :: u32
  v_refresh_interval_ms :: u32
  v_image_refresh_interval_ms :: u32
  v_socket_cache :: "cached_socket list"
  v_monitor_cache :: "cached_monitor_socket list"
  v_dev_refs :: int
  v_refresh_work :: "u64 option"

abbreviation (input) KFASTBLOCK_MAX_VOLUME_EVENTS :: u32 where "KFASTBLOCK_MAX_VOLUME_EVENTS \<equiv> 128"

section \<open>Names\<close>

definition kfastblock_volume_event_type_name :: "u32 \<Rightarrow> string" where
  "kfastblock_volume_event_type_name t =
     (case map_of
        [(KFASTBLOCK_VOLUME_EVENT_ATTACH_READY, ''attach_ready''),
         (KFASTBLOCK_VOLUME_EVENT_QUEUE_PAUSE, ''queue_pause''),
         (KFASTBLOCK_VOLUME_EVENT_QUEUE_RESUME, ''queue_resume''),
         (KFASTBLOCK_VOLUME_EVENT_METADATA_STALE, ''metadata_stale''),
         (KFASTBLOCK_VOLUME_EVENT_CLUSTER_REFRESH_FAIL, ''cluster_refresh_fail''),
         (KFASTBLOCK_VOLUME_EVENT_IMAGE_REFRESH_FAIL, ''image_refresh_fail''),
         (KFASTBLOCK_VOLUME_EVENT_LEADER_QUERY_FAIL, ''leader_query_fail''),
         (KFASTBLOCK_VOLUME_EVENT_OBJECT_DONE, ''object_done''),
         (KFASTBLOCK_VOLUME_EVENT_OBJECT_RETRY, ''object_retry''),
         (KFASTBLOCK_VOLUME_EVENT_OBJECT_ERROR, ''object_error''),
         (KFASTBLOCK_VOLUME_EVENT_REFRESH_KICK, ''refresh_kick''),
         (KFASTBLOCK_VOLUME_EVENT_LEADER_INVALIDATE, ''leader_invalidate''),
         (KFASTBLOCK_VOLUME_EVENT_OSD_SOCKET_DROP, ''osd_socket_drop''),
         (KFASTBLOCK_VOLUME_EVENT_MONITOR_SOCKET_DROP, ''monitor_socket_drop''),
         (KFASTBLOCK_VOLUME_EVENT_HEALTH_CHANGE, ''health_change''),
         (KFASTBLOCK_VOLUME_EVENT_SOCKET_BACKOFF, ''socket_backoff''),
         (KFASTBLOCK_VOLUME_EVENT_MANUAL_REFRESH, ''manual_refresh''),
         (KFASTBLOCK_VOLUME_EVENT_MANUAL_RESET_BACKOFF, ''manual_reset_backoff''),
         (KFASTBLOCK_VOLUME_EVENT_MANUAL_DROP_TRANSPORT, ''manual_drop_transport''),
         (KFASTBLOCK_VOLUME_EVENT_MANUAL_RESET_LEADERS, ''manual_reset_leaders''),
         (KFASTBLOCK_VOLUME_EVENT_MANUAL_QUEUE_PAUSE, ''manual_queue_pause''),
         (KFASTBLOCK_VOLUME_EVENT_MANUAL_QUEUE_RESUME, ''manual_queue_resume''),
         (KFASTBLOCK_VOLUME_EVENT_SOCKET_BACKOFF_WAIT, ''socket_backoff_wait''),
         (KFASTBLOCK_VOLUME_EVENT_MANUAL_FAULT_INJECTION_ARM, ''manual_fault_injection_arm''),
         (KFASTBLOCK_VOLUME_EVENT_MANUAL_FAULT_INJECTION_RESET, ''manual_fault_injection_reset''),
         (KFASTBLOCK_VOLUME_EVENT_FAULT_INJECTION_TRIGGER, ''fault_injection_trigger'')] t of
        Some n \<Rightarrow> n | None \<Rightarrow> ''unknown'')"

definition kfastblock_volume_req_op_name :: "u8 \<Rightarrow> string" where
  "kfastblock_volume_req_op_name op =
     (if op = REQ_OP_READ then ''read''
      else if op = REQ_OP_WRITE then ''write''
      else if op = REQ_OP_FLUSH then ''flush''
      else if op = REQ_OP_DISCARD then ''discard''
      else if op = REQ_OP_WRITE_ZEROES then ''write_zeroes''
      else ''other'')"

definition kfastblock_volume_health_state_name :: "u32 \<Rightarrow> string" where
  "kfastblock_volume_health_state_name st =
     (if st = KFASTBLOCK_VOLUME_HEALTH_READY then ''ready''
      else if st = KFASTBLOCK_VOLUME_HEALTH_DEGRADED then ''degraded''
      else if st = KFASTBLOCK_VOLUME_HEALTH_STALE then ''stale''
      else ''unknown'')"

definition kfastblock_volume_failure_source_name :: "u32 \<Rightarrow> string" where
  "kfastblock_volume_failure_source_name src =
     (if src = KFASTBLOCK_VOLUME_SOURCE_ATTACH then ''attach''
      else if src = KFASTBLOCK_VOLUME_SOURCE_QUEUE_GATE then ''queue_gate''
      else if src = KFASTBLOCK_VOLUME_SOURCE_CLUSTER_REFRESH then ''cluster_refresh''
      else if src = KFASTBLOCK_VOLUME_SOURCE_IMAGE_REFRESH then ''image_refresh''
      else if src = KFASTBLOCK_VOLUME_SOURCE_LEADER_QUERY then ''leader_query''
      else if src = KFASTBLOCK_VOLUME_SOURCE_OBJECT_IO then ''object_io''
      else if src = KFASTBLOCK_VOLUME_SOURCE_MONITOR_SOCKET then ''monitor_socket''
      else if src = KFASTBLOCK_VOLUME_SOURCE_OSD_SOCKET then ''osd_socket''
      else ''none'')"

section \<open>The event log\<close>

definition zero_event :: volume_event where
  "zero_event = \<lparr> ve_jiffies = 0, ve_ret = 0, ve_type = 0, ve_pg_id = 0, ve_osd_id = 0, ve_arg0 = 0,
     ve_arg1 = 0, ve_op = 0 \<rparr>"

definition log_event :: "volume_event \<Rightarrow> volume_event_log \<Rightarrow> volume_event_log" where
  "log_event ev l =
     l \<lparr> el_entries := (el_entries l)[unat (el_next_index l) := ev],
         el_next_index := (el_next_index l + 1) mod KFASTBLOCK_MAX_VOLUME_EVENTS,
         el_count := (if el_count l < KFASTBLOCK_MAX_VOLUME_EVENTS then el_count l + 1 else el_count l) \<rparr>"

definition kfastblock_volume_record_event ::
    "u64 \<Rightarrow> u32 \<Rightarrow> int \<Rightarrow> u8 \<Rightarrow> u32 \<Rightarrow> u32 \<Rightarrow> u32 \<Rightarrow> u32 \<Rightarrow> volume \<Rightarrow> volume" where
  "kfastblock_volume_record_event now type ret op pg_id osd_id arg0 arg1 vol =
     vol \<lparr> v_event_log := log_event
             \<lparr> ve_jiffies = now, ve_ret = ret, ve_type = type, ve_pg_id = pg_id, ve_osd_id = osd_id,
               ve_arg0 = arg0, ve_arg1 = arg1, ve_op = op \<rparr> (v_event_log vol) \<rparr>"

definition kfastblock_volume_events_count :: "volume \<Rightarrow> u32" where
  "kfastblock_volume_events_count vol = el_count (v_event_log vol)"

text \<open>The copy \<^verbatim>\<open>kfastblock_volume_events_show\<close> prints: \<open>count\<close> was read before the lock was taken.\<close>

definition events_snapshot :: "u32 \<Rightarrow> volume_event_log \<Rightarrow> volume_event list" where
  "events_snapshot count0 l =
     (let count = (if el_count l < count0 then el_count l else count0);
          start = (el_next_index l + KFASTBLOCK_MAX_VOLUME_EVENTS - count) mod KFASTBLOCK_MAX_VOLUME_EVENTS
      in map (\<lambda>i. el_entries l ! unat ((start + of_nat i) mod KFASTBLOCK_MAX_VOLUME_EVENTS)) [0..<unat count])"

definition kfastblock_volume_events :: "volume \<Rightarrow> volume_event list" where
  "kfastblock_volume_events vol = events_snapshot (kfastblock_volume_events_count vol) (v_event_log vol)"

section \<open>Health\<close>

definition kfastblock_volume_update_health :: "u64 \<Rightarrow> u32 \<Rightarrow> u32 \<Rightarrow> int \<Rightarrow> volume \<Rightarrow> volume" where
  "kfastblock_volume_update_health now new_state src ret vol =
     (let old_state = vh_state (v_health vol);
          vol1 = (if ret \<noteq> 0
                  then vol \<lparr> v_health := (v_health vol) \<lparr> vh_last_errno := ret, vh_last_failure_source := src,
                                                            vh_last_failure_jiffies := now \<rparr> \<rparr>
                  else vol)
      in if new_state = old_state then vol1
         else kfastblock_volume_record_event now KFASTBLOCK_VOLUME_EVENT_HEALTH_CHANGE ret REQ_OP_FLUSH
                0 0 old_state new_state
                (vol1 \<lparr> v_health := (v_health vol1) \<lparr> vh_state := new_state,
                                                        vh_state_since_jiffies := now \<rparr> \<rparr>))"

definition kfastblock_volume_mark_success :: "u64 \<Rightarrow> u32 \<Rightarrow> volume \<Rightarrow> volume" where
  "kfastblock_volume_mark_success now src vol0 =
     (let vol = vol0 \<lparr> v_health := (v_health vol0) \<lparr> vh_last_success_jiffies := now \<rparr> \<rparr>
      in if \<not> v_ready vol then vol
         else if \<not> kfastblock_meta_io_ready (v_view vol) \<or> v_queue_paused vol
         then kfastblock_volume_update_health now KFASTBLOCK_VOLUME_HEALTH_STALE
                (if src \<noteq> 0 then src else KFASTBLOCK_VOLUME_SOURCE_QUEUE_GATE) (- ESTALE) vol
         else kfastblock_volume_update_health now KFASTBLOCK_VOLUME_HEALTH_READY src 0 vol)"

section \<open>Counters\<close>

definition zero_stats :: volume_stats where
  "zero_stats =
     \<lparr> vs_io_submitted = 0, vs_io_completed = 0, vs_io_failed = 0, vs_read_requests = 0,
       vs_write_requests = 0, vs_discard_requests = 0, vs_flush_requests = 0, vs_write_zeroes_requests = 0,
       vs_read_bytes = 0, vs_write_bytes = 0, vs_discard_bytes = 0, vs_queue_pause_events = 0,
       vs_queue_resume_events = 0, vs_metadata_stale_events = 0, vs_cluster_refresh_ok = 0, vs_cluster_refresh_fail = 0,
       vs_image_refresh_ok = 0, vs_image_refresh_fail = 0, vs_leader_query_ok = 0, vs_leader_query_fail = 0,
       vs_object_io_completed = 0, vs_object_io_retries = 0, vs_object_io_errors = 0, vs_refresh_kicks = 0,
       vs_leader_invalidations = 0, vs_osd_socket_drops = 0, vs_monitor_socket_drops = 0, vs_osd_backoff_hits = 0,
       vs_monitor_backoff_hits = 0, vs_osd_backoff_waits = 0, vs_monitor_backoff_waits = 0, vs_manual_refreshes = 0,
       vs_manual_reset_backoffs = 0, vs_manual_transport_drops = 0, vs_manual_leader_resets = 0, vs_manual_queue_pauses = 0,
       vs_manual_queue_resumes = 0 \<rparr>"

definition zero_pipeline_stats :: volume_pipeline_stats where
  "zero_pipeline_stats =
     \<lparr> vp_request_prepares = 0, vp_request_cleanups = 0, vp_dispatch_batches = 0,
       vp_queued_objects = 0, vp_retry_objects = 0, vp_completed_objects = 0,
       vp_failed_objects = 0, vp_cancelled_objects = 0, vp_seq_records = 0,
       vp_last_response_status = 0, vp_last_response_body_len = 0, vp_last_transport_flags = 0 \<rparr>"

definition zero_pipeline_snapshot :: pipeline_snapshot where
  "zero_pipeline_snapshot =
     \<lparr> pn_capacity = 0, pn_inflight = 0, pn_peak_inflight = 0, pn_free_entries = 0,
       pn_oldest_inflight_seq = 0, pn_newest_inflight_seq = 0, pn_oldest_queued_jiffies = 0,
       pn_newest_queued_jiffies = 0 \<rparr>"

definition kfastblock_volume_stats_init :: "u64 \<Rightarrow> volume \<Rightarrow> volume" where
  "kfastblock_volume_stats_init now vol =
     vol \<lparr> v_stats := zero_stats, v_pipeline_stats := zero_pipeline_stats,
           v_pipeline_snapshot := zero_pipeline_snapshot,
           v_event_log := \<lparr> el_next_index = 0, el_count = 0, el_entries = replicate 128 zero_event \<rparr>,
           v_health := \<lparr> vh_state = KFASTBLOCK_VOLUME_HEALTH_UNKNOWN,
                         vh_last_failure_source = KFASTBLOCK_VOLUME_SOURCE_NONE, vh_last_errno = 0,
                         vh_state_since_jiffies = now, vh_last_failure_jiffies = 0,
                         vh_last_success_jiffies = 0 \<rparr> \<rparr>"

text \<open>The volume \<^verbatim>\<open>kfastblock_volume_attach\<close> sets up before it contacts the cluster; \<^verbatim>\<open>kzalloc\<close> zeroes
  what the code does not set.\<close>

definition init_volume :: "u64 \<Rightarrow> volume" where
  "init_volume now =
     kfastblock_volume_stats_init now
       \<lparr> v_dev_id = -1, v_open_count = 0, v_ready = False, v_inflight_ios = 0, v_disk = None, v_spec = zero_spec,
         v_view = kfastblock_meta_cleanup_view, v_stats = zero_stats,
         v_pipeline_stats = zero_pipeline_stats,
         v_health = \<lparr> vh_state = 0, vh_last_failure_source = 0, vh_last_errno = 0,
                      vh_state_since_jiffies = 0, vh_last_failure_jiffies = 0,
                      vh_last_success_jiffies = 0 \<rparr>,
         v_event_log = \<lparr> el_next_index = 0, el_count = 0, el_entries = replicate 128 zero_event \<rparr>,
         v_fault_injection = kfastblock_fault_injection_init,
         v_pipeline_snapshot = zero_pipeline_snapshot,
         v_object_buffer_pool = kfastblock_buffer_pool_init (4 * 1024 * 1024) 8,
         v_scheduler = kfastblock_scheduler_init 8 1 128,
         v_flush_in_progress = False, v_queue_paused = False, v_manual_queue_pause = False,
         v_dispatch_window = 8, v_refresh_interval_ms = 3000, v_image_refresh_interval_ms = 30000,
         v_socket_cache = kfastblock_osd_conn_pool_init 16,
         v_monitor_cache = kfastblock_monitor_conn_pool_init 8,
         v_dev_refs = 0, v_refresh_work = None \<rparr>"

definition kfastblock_volume_account_pipeline_prepare :: "volume \<Rightarrow> volume" where
  "kfastblock_volume_account_pipeline_prepare vol =
     vol \<lparr> v_pipeline_stats := (v_pipeline_stats vol)
             \<lparr> vp_request_prepares := vp_request_prepares (v_pipeline_stats vol) + 1 \<rparr> \<rparr>"

definition kfastblock_volume_account_pipeline_cleanup :: "volume \<Rightarrow> volume" where
  "kfastblock_volume_account_pipeline_cleanup vol =
     vol \<lparr> v_pipeline_stats := (v_pipeline_stats vol)
             \<lparr> vp_request_cleanups := vp_request_cleanups (v_pipeline_stats vol) + 1 \<rparr> \<rparr>"

definition kfastblock_volume_account_pipeline_dispatch_batch :: "u32 \<Rightarrow> volume \<Rightarrow> volume" where
  "kfastblock_volume_account_pipeline_dispatch_batch nr_objects vol =
     (if nr_objects = 0 then vol
      else vol \<lparr> v_pipeline_stats := (v_pipeline_stats vol)
             \<lparr> vp_dispatch_batches := vp_dispatch_batches (v_pipeline_stats vol) + 1,
               vp_queued_objects := vp_queued_objects (v_pipeline_stats vol) + ucast nr_objects \<rparr> \<rparr>)"

definition kfastblock_volume_account_pipeline_retry :: "volume \<Rightarrow> volume" where
  "kfastblock_volume_account_pipeline_retry vol =
     vol \<lparr> v_pipeline_stats := (v_pipeline_stats vol)
             \<lparr> vp_retry_objects := vp_retry_objects (v_pipeline_stats vol) + 1 \<rparr> \<rparr>"

definition kfastblock_volume_account_pipeline_complete :: "bool \<Rightarrow> volume \<Rightarrow> volume" where
  "kfastblock_volume_account_pipeline_complete failed vol =
     (let p = v_pipeline_stats vol;
          p1 = p \<lparr> vp_completed_objects := vp_completed_objects p + 1 \<rparr>
      in vol \<lparr> v_pipeline_stats :=
                 (if failed then p1 \<lparr> vp_failed_objects := vp_failed_objects p1 + 1 \<rparr> else p1) \<rparr>)"

definition kfastblock_volume_account_pipeline_cancel :: "u32 \<Rightarrow> volume \<Rightarrow> volume" where
  "kfastblock_volume_account_pipeline_cancel nr_objects vol =
     (if nr_objects = 0 then vol
      else vol \<lparr> v_pipeline_stats := (v_pipeline_stats vol)
             \<lparr> vp_cancelled_objects := vp_cancelled_objects (v_pipeline_stats vol) + ucast nr_objects \<rparr> \<rparr>)"

definition kfastblock_volume_account_pipeline_seq :: "volume \<Rightarrow> volume" where
  "kfastblock_volume_account_pipeline_seq vol =
     vol \<lparr> v_pipeline_stats := (v_pipeline_stats vol)
             \<lparr> vp_seq_records := vp_seq_records (v_pipeline_stats vol) + 1 \<rparr> \<rparr>"

text \<open>The two unsigned values are stored in signed atomics and read back through the inverse cast.\<close>

definition kfastblock_volume_account_pipeline_response :: "int \<Rightarrow> u32 \<Rightarrow> u32 \<Rightarrow> volume \<Rightarrow> volume" where
  "kfastblock_volume_account_pipeline_response response_status response_body_len transport_flags vol =
     vol \<lparr> v_pipeline_stats := (v_pipeline_stats vol)
             \<lparr> vp_last_response_status := response_status,
               vp_last_response_body_len := response_body_len,
               vp_last_transport_flags := transport_flags \<rparr> \<rparr>"

definition kfastblock_volume_pipeline_utilization_pct :: "volume \<Rightarrow> u32" where
  "kfastblock_volume_pipeline_utilization_pct vol =
     (let n = v_pipeline_snapshot vol
      in if pn_capacity n = 0 then 0 else min 100 ((pn_inflight n * 100) div pn_capacity n))"

definition kfastblock_volume_update_pipeline_snapshot :: "pipeline_state \<Rightarrow> volume \<Rightarrow> volume" where
  "kfastblock_volume_update_pipeline_snapshot p vol =
     vol \<lparr> v_pipeline_snapshot := kfastblock_pipeline_snapshot p \<rparr>"

definition kfastblock_volume_reset_pipeline_snapshot :: "volume \<Rightarrow> volume" where
  "kfastblock_volume_reset_pipeline_snapshot vol = vol \<lparr> v_pipeline_snapshot := zero_pipeline_snapshot \<rparr>"

definition kfastblock_volume_account_io_submit :: "u8 \<Rightarrow> u32 \<Rightarrow> volume \<Rightarrow> volume" where
  "kfastblock_volume_account_io_submit op bytes vol =
     (let s0 = v_stats vol;
          s = s0 \<lparr> vs_io_submitted := vs_io_submitted s0 + 1 \<rparr>
      in vol \<lparr> v_stats :=
        (if op = REQ_OP_READ then
           s \<lparr> vs_read_requests := vs_read_requests s + 1, vs_read_bytes := vs_read_bytes s + ucast bytes \<rparr>
         else if op = REQ_OP_WRITE then
           s \<lparr> vs_write_requests := vs_write_requests s + 1, vs_write_bytes := vs_write_bytes s + ucast bytes \<rparr>
         else if op = REQ_OP_DISCARD then
           s \<lparr> vs_discard_requests := vs_discard_requests s + 1,
               vs_discard_bytes := vs_discard_bytes s + ucast bytes \<rparr>
         else if op = REQ_OP_WRITE_ZEROES then
           s \<lparr> vs_write_zeroes_requests := vs_write_zeroes_requests s + 1,
               vs_discard_bytes := vs_discard_bytes s + ucast bytes \<rparr>
         else if op = REQ_OP_FLUSH then s \<lparr> vs_flush_requests := vs_flush_requests s + 1 \<rparr>
         else s) \<rparr>)"

definition kfastblock_volume_account_io_complete :: "int \<Rightarrow> volume \<Rightarrow> volume" where
  "kfastblock_volume_account_io_complete ret vol =
     vol \<lparr> v_stats := (if ret \<noteq> 0 then (v_stats vol) \<lparr> vs_io_failed := vs_io_failed (v_stats vol) + 1 \<rparr>
                       else (v_stats vol) \<lparr> vs_io_completed := vs_io_completed (v_stats vol) + 1 \<rparr>) \<rparr>"

abbreviation inc_stat :: "((u64 \<Rightarrow> u64) \<Rightarrow> volume_stats \<Rightarrow> volume_stats) \<Rightarrow> volume \<Rightarrow> volume" where
  "inc_stat upd vol \<equiv> vol \<lparr> v_stats := upd (\<lambda>n. n + 1) (v_stats vol) \<rparr>"

definition kfastblock_volume_account_object_success ::
    "u64 \<Rightarrow> u8 \<Rightarrow> u32 \<Rightarrow> u32 \<Rightarrow> u32 \<Rightarrow> volume \<Rightarrow> volume" where
  "kfastblock_volume_account_object_success now op pg_id osd_id len vol =
     kfastblock_volume_record_event now KFASTBLOCK_VOLUME_EVENT_OBJECT_DONE 0 op pg_id osd_id len 0
       (inc_stat vs_object_io_completed_update vol)"

definition kfastblock_volume_account_object_retry ::
    "u64 \<Rightarrow> u8 \<Rightarrow> u32 \<Rightarrow> u32 \<Rightarrow> u32 \<Rightarrow> int \<Rightarrow> volume \<Rightarrow> volume" where
  "kfastblock_volume_account_object_retry now op pg_id osd_id len ret vol =
     kfastblock_volume_update_health now KFASTBLOCK_VOLUME_HEALTH_DEGRADED
       KFASTBLOCK_VOLUME_SOURCE_OBJECT_IO ret
       (kfastblock_volume_record_event now KFASTBLOCK_VOLUME_EVENT_OBJECT_RETRY ret op pg_id osd_id len 0
         (inc_stat vs_object_io_retries_update vol))"

definition kfastblock_volume_account_object_error ::
    "u64 \<Rightarrow> u8 \<Rightarrow> u32 \<Rightarrow> u32 \<Rightarrow> u32 \<Rightarrow> int \<Rightarrow> volume \<Rightarrow> volume" where
  "kfastblock_volume_account_object_error now op pg_id osd_id len ret vol =
     kfastblock_volume_update_health now KFASTBLOCK_VOLUME_HEALTH_DEGRADED
       KFASTBLOCK_VOLUME_SOURCE_OBJECT_IO ret
       (kfastblock_volume_record_event now KFASTBLOCK_VOLUME_EVENT_OBJECT_ERROR ret op pg_id osd_id len 0
         (inc_stat vs_object_io_errors_update vol))"

text \<open>\<open>(u32)\<close> casts of 64-bit epochs keep the low half.\<close>

definition kfastblock_volume_account_leader_query ::
    "u64 \<Rightarrow> u32 \<Rightarrow> u32 \<Rightarrow> int \<Rightarrow> volume \<Rightarrow> volume" where
  "kfastblock_volume_account_leader_query now pg_id osd_id ret vol =
     (if ret \<noteq> 0 then
        kfastblock_volume_update_health now KFASTBLOCK_VOLUME_HEALTH_DEGRADED
          KFASTBLOCK_VOLUME_SOURCE_LEADER_QUERY ret
          (kfastblock_volume_record_event now KFASTBLOCK_VOLUME_EVENT_LEADER_QUERY_FAIL ret REQ_OP_FLUSH
             pg_id osd_id (ucast (cv_leader_epoch (v_view vol))) 0
             (inc_stat vs_leader_query_fail_update vol))
      else kfastblock_volume_mark_success now KFASTBLOCK_VOLUME_SOURCE_LEADER_QUERY
             (inc_stat vs_leader_query_ok_update vol))"

definition kfastblock_volume_account_cluster_refresh :: "u64 \<Rightarrow> int \<Rightarrow> volume \<Rightarrow> volume" where
  "kfastblock_volume_account_cluster_refresh now ret vol =
     (if ret \<noteq> 0 then
        kfastblock_volume_update_health now KFASTBLOCK_VOLUME_HEALTH_DEGRADED
          KFASTBLOCK_VOLUME_SOURCE_CLUSTER_REFRESH ret
          (kfastblock_volume_record_event now KFASTBLOCK_VOLUME_EVENT_CLUSTER_REFRESH_FAIL ret REQ_OP_FLUSH
             0 0 (ucast (cv_osdmap_epoch (v_view vol))) (ucast (cv_pgmap_epoch (v_view vol)))
             (inc_stat vs_cluster_refresh_fail_update vol))
      else kfastblock_volume_mark_success now KFASTBLOCK_VOLUME_SOURCE_CLUSTER_REFRESH
             (inc_stat vs_cluster_refresh_ok_update vol))"

definition kfastblock_volume_account_image_refresh :: "u64 \<Rightarrow> int \<Rightarrow> volume \<Rightarrow> volume" where
  "kfastblock_volume_account_image_refresh now ret vol =
     (if ret \<noteq> 0 then
        kfastblock_volume_update_health now KFASTBLOCK_VOLUME_HEALTH_DEGRADED
          KFASTBLOCK_VOLUME_SOURCE_IMAGE_REFRESH ret
          (kfastblock_volume_record_event now KFASTBLOCK_VOLUME_EVENT_IMAGE_REFRESH_FAIL ret REQ_OP_FLUSH
             0 0 (ucast (cv_image_epoch (v_view vol))) (ii_object_size (cv_image (v_view vol)))
             (inc_stat vs_image_refresh_fail_update vol))
      else kfastblock_volume_mark_success now KFASTBLOCK_VOLUME_SOURCE_IMAGE_REFRESH
             (inc_stat vs_image_refresh_ok_update vol))"

definition sync_state_code :: "meta_sync_state \<Rightarrow> u32" where
  "sync_state_code s =
     (case s of KFASTBLOCK_META_SYNC_NEW \<Rightarrow> 0 | KFASTBLOCK_META_SYNC_STALE \<Rightarrow> 1
      | KFASTBLOCK_META_SYNC_READY \<Rightarrow> 2)"

definition kfastblock_volume_account_metadata_stale :: "u64 \<Rightarrow> volume \<Rightarrow> volume" where
  "kfastblock_volume_account_metadata_stale now vol =
     kfastblock_volume_update_health now KFASTBLOCK_VOLUME_HEALTH_STALE
       KFASTBLOCK_VOLUME_SOURCE_CLUSTER_REFRESH (- ESTALE)
       (kfastblock_volume_record_event now KFASTBLOCK_VOLUME_EVENT_METADATA_STALE (- ESTALE) REQ_OP_FLUSH
          0 0 (sync_state_code (cv_sync_state (v_view vol))) (ucast (cv_pgmap_epoch (v_view vol)))
          (inc_stat vs_metadata_stale_events_update vol))"

definition kfastblock_volume_account_refresh_kick :: "u64 \<Rightarrow> u32 \<Rightarrow> int \<Rightarrow> volume \<Rightarrow> volume" where
  "kfastblock_volume_account_refresh_kick now pg_id ret vol =
     kfastblock_volume_update_health now KFASTBLOCK_VOLUME_HEALTH_DEGRADED
       KFASTBLOCK_VOLUME_SOURCE_QUEUE_GATE ret
       (kfastblock_volume_record_event now KFASTBLOCK_VOLUME_EVENT_REFRESH_KICK ret REQ_OP_FLUSH
          pg_id 0 (sync_state_code (cv_sync_state (v_view vol))) (ucast (cv_pgmap_epoch (v_view vol)))
          (inc_stat vs_refresh_kicks_update vol))"

definition kfastblock_volume_account_leader_invalidate :: "u64 \<Rightarrow> u32 \<Rightarrow> int \<Rightarrow> volume \<Rightarrow> volume" where
  "kfastblock_volume_account_leader_invalidate now pg_id ret vol =
     kfastblock_volume_update_health now KFASTBLOCK_VOLUME_HEALTH_DEGRADED
       KFASTBLOCK_VOLUME_SOURCE_LEADER_QUERY ret
       (kfastblock_volume_record_event now KFASTBLOCK_VOLUME_EVENT_LEADER_INVALIDATE ret REQ_OP_FLUSH
          pg_id 0 (ucast (cv_leader_epoch (v_view vol))) (ucast (cv_osdmap_epoch (v_view vol)))
          (inc_stat vs_leader_invalidations_update vol))"

definition kfastblock_volume_account_socket_drop ::
    "u64 \<Rightarrow> bool \<Rightarrow> u32 \<Rightarrow> u16 \<Rightarrow> int \<Rightarrow> volume \<Rightarrow> volume" where
  "kfastblock_volume_account_socket_drop now monitor_socket osd_id port ret vol =
     (if monitor_socket then
        kfastblock_volume_update_health now KFASTBLOCK_VOLUME_HEALTH_DEGRADED
          KFASTBLOCK_VOLUME_SOURCE_MONITOR_SOCKET ret
          (kfastblock_volume_record_event now KFASTBLOCK_VOLUME_EVENT_MONITOR_SOCKET_DROP ret REQ_OP_FLUSH
             0 0 (ucast port) 0 (inc_stat vs_monitor_socket_drops_update vol))
      else
        kfastblock_volume_update_health now KFASTBLOCK_VOLUME_HEALTH_DEGRADED
          KFASTBLOCK_VOLUME_SOURCE_OSD_SOCKET ret
          (kfastblock_volume_record_event now KFASTBLOCK_VOLUME_EVENT_OSD_SOCKET_DROP ret REQ_OP_FLUSH
             0 osd_id (ucast port) 0 (inc_stat vs_osd_socket_drops_update vol)))"

definition kfastblock_volume_account_socket_backoff ::
    "(u64 \<Rightarrow> u32) \<Rightarrow> u64 \<Rightarrow> bool \<Rightarrow> u32 \<Rightarrow> u16 \<Rightarrow> u32 \<Rightarrow> u64 \<Rightarrow> int \<Rightarrow> volume \<Rightarrow> volume" where
  "kfastblock_volume_account_socket_backoff j2m now monitor_socket osd_id port fail_streak backoff_jiffies ret vol =
     kfastblock_volume_update_health now KFASTBLOCK_VOLUME_HEALTH_DEGRADED
       (if monitor_socket then KFASTBLOCK_VOLUME_SOURCE_MONITOR_SOCKET
        else KFASTBLOCK_VOLUME_SOURCE_OSD_SOCKET) ret
       (kfastblock_volume_record_event now KFASTBLOCK_VOLUME_EVENT_SOCKET_BACKOFF ret REQ_OP_FLUSH
          fail_streak osd_id (ucast port) (j2m backoff_jiffies)
          (if monitor_socket then inc_stat vs_monitor_backoff_hits_update vol
           else inc_stat vs_osd_backoff_hits_update vol))"

definition kfastblock_volume_account_socket_backoff_wait ::
    "(u64 \<Rightarrow> u32) \<Rightarrow> u64 \<Rightarrow> bool \<Rightarrow> u32 \<Rightarrow> u16 \<Rightarrow> u64 \<Rightarrow> int \<Rightarrow> volume \<Rightarrow> volume" where
  "kfastblock_volume_account_socket_backoff_wait j2m now monitor_socket osd_id port remaining_jiffies ret vol =
     kfastblock_volume_update_health now KFASTBLOCK_VOLUME_HEALTH_DEGRADED
       (if monitor_socket then KFASTBLOCK_VOLUME_SOURCE_MONITOR_SOCKET
        else KFASTBLOCK_VOLUME_SOURCE_OSD_SOCKET) ret
       (kfastblock_volume_record_event now KFASTBLOCK_VOLUME_EVENT_SOCKET_BACKOFF_WAIT ret REQ_OP_FLUSH
          0 osd_id (ucast port) (j2m remaining_jiffies)
          (if monitor_socket then inc_stat vs_monitor_backoff_waits_update vol
           else inc_stat vs_osd_backoff_waits_update vol))"

definition kfastblock_volume_account_fault_injection :: "u64 \<Rightarrow> u32 \<Rightarrow> int \<Rightarrow> volume \<Rightarrow> volume" where
  "kfastblock_volume_account_fault_injection now site ret vol =
     kfastblock_volume_update_health now KFASTBLOCK_VOLUME_HEALTH_DEGRADED
       (if site = KFASTBLOCK_FAULT_MONITOR_CONNECT \<or> site = KFASTBLOCK_FAULT_MONITOR_FETCH_IMAGE \<or>
           site = KFASTBLOCK_FAULT_MONITOR_FETCH_CLUSTER
        then KFASTBLOCK_VOLUME_SOURCE_MONITOR_SOCKET
        else if site = KFASTBLOCK_FAULT_OSD_CONNECT \<or> site = KFASTBLOCK_FAULT_OBJECT_IO
        then KFASTBLOCK_VOLUME_SOURCE_OSD_SOCKET
        else if site = KFASTBLOCK_FAULT_LEADER_QUERY then KFASTBLOCK_VOLUME_SOURCE_LEADER_QUERY
        else KFASTBLOCK_VOLUME_SOURCE_QUEUE_GATE) ret
       (kfastblock_volume_record_event now KFASTBLOCK_VOLUME_EVENT_FAULT_INJECTION_TRIGGER ret REQ_OP_FLUSH
          0 0 site 0 vol)"

end
