(* ===== verification/KFB_Volume_Laws.thy ===== *)
theory KFB_Volume_Laws
  imports KFB_Volume
begin

text \<open>
  The event ring keeps the last 128 events in order (locale \<open>bounded_history\<close>), and the health
  changes it records form a chain that ends in the current health state.
\<close>

section \<open>Bounded histories\<close>

definition keep_last :: "nat \<Rightarrow> 'e list \<Rightarrow> 'e list" where
  "keep_last n xs = drop (length xs - n) xs"

lemma keep_last_idem: "keep_last n (keep_last n xs @ ys) = keep_last n (xs @ ys)"
  by (cases "n \<le> length xs") (simp_all add: keep_last_def add.commute)

lemma keep_last_short [simp]: "length xs \<le> n \<Longrightarrow> keep_last n xs = xs"
  by (simp add: keep_last_def)

lemma length_keep_last [simp]: "length (keep_last n xs) = min n (length xs)"
  by (simp add: keep_last_def)

locale bounded_history =
  fixes ok :: "'l \<Rightarrow> bool"
    and push :: "'e \<Rightarrow> 'l \<Rightarrow> 'l"
    and contents :: "'l \<Rightarrow> 'e list"
    and cap :: nat
  assumes push_ok: "ok l \<Longrightarrow> ok (push e l)"
    and push_contents: "ok l \<Longrightarrow> contents (push e l) = keep_last cap (contents l @ [e])"
begin

lemma pushes_ok: "ok l \<Longrightarrow> ok (fold push es l)"
  by (induction es arbitrary: l) (simp_all add: push_ok)

lemma pushes_contents:
  "ok l \<Longrightarrow> length (contents l) \<le> cap \<Longrightarrow> contents (fold push es l) = keep_last cap (contents l @ es)"
proof (induction es arbitrary: l)
  case (Cons e es)
  then have "contents (fold push (e # es) l) = keep_last cap (keep_last cap (contents l @ [e]) @ es)"
    by (simp add: push_ok push_contents)
  then show ?case by (simp add: keep_last_idem)
qed simp

end

definition log_ok :: "volume_event_log \<Rightarrow> bool" where
  "log_ok l \<longleftrightarrow> length (el_entries l) = 128 \<and> unat (el_next_index l) < 128 \<and> unat (el_count l) \<le> 128 \<and>
     (unat (el_count l) < 128 \<longrightarrow> el_next_index l = el_count l)"

lemma log_contents:
  assumes "log_ok l"
  shows "events_snapshot (el_count l) l =
    map (\<lambda>i. el_entries l ! ((unat (el_next_index l) + 128 - unat (el_count l) + i) mod 128))
      [0..<unat (el_count l)]"
proof -
  let ?n = "el_next_index l" and ?c = "el_count l"
  have n: "unat ?n < 128" "unat ?c \<le> 128" using assms by (simp_all add: log_ok_def)
  have "unat (?n + 128 - ?c) = unat ?n + 128 - unat ?c"
  proof -
    have "unat (?n + 128) = unat ?n + 128" using n by (subst unat_add_lem [THEN iffD1]) simp_all
    then show ?thesis using n by (subst unat_sub) (simp_all add: word_le_nat_alt)
  qed
  then have s: "unat ((?n + 128 - ?c) mod 128) = (unat ?n + 128 - unat ?c) mod 128"
    by (simp add: unat_mod)
  have "unat (((?n + 128 - ?c) mod 128 + of_nat i) mod 128) =
      (unat ?n + 128 - unat ?c + i) mod 128" if "i < 128" for i
  proof -
    have "unat (of_nat i :: u32) = i" using that by (intro unat_of_nat_small) simp
    moreover have "unat ((?n + 128 - ?c) mod 128) < 128" unfolding s by simp
    ultimately have "unat ((?n + 128 - ?c) mod 128 + of_nat i) =
        (unat ?n + 128 - unat ?c) mod 128 + i"
      using that s by (subst unat_add_lem [THEN iffD1]) simp_all
    then show ?thesis by (simp add: unat_mod mod_add_left_eq)
  qed
  then show ?thesis using n by (simp add: events_snapshot_def Let_def)
qed

lemma log_event_ok: "log_ok l \<Longrightarrow> log_ok (log_event ev l)"
proof -
  assume l: "log_ok l"
  then have n: "unat (el_next_index l) < 128" "unat (el_count l) \<le> 128" by (simp_all add: log_ok_def)
  have u: "unat (x + 1) = unat x + 1" if "unat x < 129" for x :: u32
    using that by (intro unat_inc) simp
  have "(el_next_index l + 1) mod 128 = el_next_index l + 1" if "unat (el_next_index l) < 127"
    using that u [of "el_next_index l"] by (simp add: word_unat_eq_iff unat_mod)
  then show ?thesis
    using l n u
    by (auto simp: log_ok_def log_event_def word_less_nat_alt unat_mod word_unat_eq_iff)
qed

lemma log_event_contents:
  assumes l: "log_ok l"
  shows "events_snapshot (el_count (log_event ev l)) (log_event ev l) =
         keep_last 128 (events_snapshot (el_count l) l @ [ev])"
proof -
  let ?n = "unat (el_next_index l)" and ?c = "unat (el_count l)"
  have n: "?n < 128" "?c \<le> 128" "?c < 128 \<Longrightarrow> ?n = ?c" "length (el_entries l) = 128"
    using l by (simp_all add: log_ok_def)
  have n': "unat (el_next_index (log_event ev l)) = (?n + 1) mod 128"
    using n by (simp add: log_event_def unat_mod unat_inc)
  have c': "unat (el_count (log_event ev l)) = min 128 (?c + 1)"
    using n unat_inc [of "el_count l"] by (auto simp: log_event_def word_less_nat_alt)
  have e': "el_entries (log_event ev l) = (el_entries l)[?n := ev]" by (simp add: log_event_def)
  note old = log_contents [OF l]
  note new = log_contents [OF log_event_ok [OF l], of ev, unfolded n' c' e']
  show ?thesis
  proof (cases "?c < 128")
    case True
    then have old': "events_snapshot (el_count l) l = map (\<lambda>i. el_entries l ! i) [0..<?c]"
      unfolding old using n by (intro map_cong refl) simp
    have "events_snapshot (el_count (log_event ev l)) (log_event ev l) =
        map (\<lambda>i. (el_entries l)[?n := ev] ! i) [0..<?c + 1]"
    proof -
      have idx: "((?n + 1) mod 128 + 128 - (?c + 1) + i) mod 128 = i" if "i < ?c + 1" for i
        using True n(3) that by (cases "?c = 127") auto
      have m: "min 128 (?c + 1) = ?c + 1" using True by simp
      show ?thesis
        unfolding new m
      proof (rule map_cong [OF refl])
        fix i
        assume "i \<in> set [0..<?c + 1]"
        then have lt: "i < ?c + 1" by (simp only: set_upt atLeastLessThan_iff)
        show "(el_entries l)[?n := ev] !
            (((?n + 1) mod 128 + 128 - (?c + 1) + i) mod 128) = (el_entries l)[?n := ev] ! i"
          by (simp only: idx [OF lt])
      qed
    qed
    also have "\<dots> = map (\<lambda>i. el_entries l ! i) [0..<?c] @ [ev]"
      using True n by (auto intro!: map_cong)
    finally show ?thesis unfolding old' using True by simp
  next
    case False
    then have c: "?c = 128" using n by simp
    have "events_snapshot (el_count (log_event ev l)) (log_event ev l) ! i =
        (drop 1 (events_snapshot (el_count l) l @ [ev])) ! i" if "i < 128" for i
    proof (cases "i = 127")
      case True
      have "((?n + 1) mod 128 + 127) mod 128 = ?n" using n(1) by (simp add: mod_add_left_eq)
      then show ?thesis unfolding old new using c n True by (simp add: nth_append)
    next
      case i: False
      have "((?n + 1) mod 128 + i) mod 128 = (?n + Suc i) mod 128" by (simp add: mod_add_left_eq)
      moreover have "(?n + Suc i) mod 128 \<noteq> ?n" 
      proof (cases "?n + Suc i < 128")
        case False
        then have "(?n + Suc i) mod 128 = ?n + Suc i - 128" using that n(1) by (simp add: mod_if)
        then show ?thesis using i that False by arith
      qed simp
      ultimately show ?thesis unfolding old new using c n i that by (simp add: nth_append)
    qed
    moreover have "length (events_snapshot (el_count (log_event ev l)) (log_event ev l)) = 128"
      unfolding new using c by simp
    moreover have "length (events_snapshot (el_count l) l) = 128" unfolding old using c by simp
    ultimately show ?thesis by (intro nth_equalityI) (simp_all add: keep_last_def)
  qed
qed

interpretation evlog: bounded_history log_ok log_event "\<lambda>l. events_snapshot (el_count l) l" 128
  by unfold_locales (simp_all only: log_event_ok log_event_contents)


section \<open>Health history\<close>

lemma snapshot_contents: "kfastblock_volume_events vol = events_snapshot (el_count (v_event_log vol)) (v_event_log vol)"
  by (simp add: kfastblock_volume_events_def kfastblock_volume_events_count_def)

definition health_changes :: "volume \<Rightarrow> volume_event list" where
  "health_changes vol =
     filter (\<lambda>e. ve_type e = KFASTBLOCK_VOLUME_EVENT_HEALTH_CHANGE) (kfastblock_volume_events vol)"

text \<open>Each change starts in the state the previous one ended in; the last one ends in the current state.\<close>

definition health_chain :: "volume_event list \<Rightarrow> u32 \<Rightarrow> bool" where
  "health_chain hs st \<longleftrightarrow>
     successively (\<lambda>a b. ve_arg1 a = ve_arg0 b) hs \<and> (hs \<noteq> [] \<longrightarrow> ve_arg1 (last hs) = st)"

definition history_ok :: "volume \<Rightarrow> bool" where
  "history_ok vol \<longleftrightarrow> log_ok (v_event_log vol) \<and>
     health_chain (health_changes vol) (vh_state (v_health vol)) \<and>
     (\<forall>e \<in> set (health_changes vol). ve_arg0 e \<noteq> ve_arg1 e)"

lemma history_cong:
  assumes "history_ok vol" "v_event_log vol' = v_event_log vol"
    "vh_state (v_health vol') = vh_state (v_health vol)"
  shows "history_ok vol'"
  using assms by (simp add: history_ok_def health_changes_def snapshot_contents)

lemma chain_drop: "health_chain hs st \<Longrightarrow> health_chain (drop n hs) st"
  by (auto simp: health_chain_def successively_conv_nth)

lemma filter_drop: "\<exists>m. filter p (drop n xs) = drop m (filter p xs)"
proof (induction xs arbitrary: n)
  case (Cons x xs)
  show ?case
  proof (cases n)
    case 0
    then show ?thesis by (intro exI [of _ 0]) simp
  next
    case (Suc k)
    obtain m where m: "filter p (drop k xs) = drop m (filter p xs)" using Cons.IH by blast
    then show ?thesis
      using Suc by (cases "p x") (auto intro: exI [of _ "Suc m"] exI [of _ m])
  qed
qed simp

definition event_of :: "u64 \<Rightarrow> u32 \<Rightarrow> int \<Rightarrow> u8 \<Rightarrow> u32 \<Rightarrow> u32 \<Rightarrow> u32 \<Rightarrow> u32 \<Rightarrow> volume_event" where
  "event_of now ty ret op pg osd a0 a1 =
     \<lparr> ve_jiffies = now, ve_ret = ret, ve_type = ty, ve_pg_id = pg, ve_osd_id = osd,
       ve_arg0 = a0, ve_arg1 = a1, ve_op = op \<rparr>"

lemma event_of_fields [simp]:
  "ve_type (event_of now ty ret op pg osd a0 a1) = ty"
  "ve_arg0 (event_of now ty ret op pg osd a0 a1) = a0"
  "ve_arg1 (event_of now ty ret op pg osd a0 a1) = a1"
  by (simp_all add: event_of_def)

lemma record_events:
  assumes "log_ok (v_event_log vol)"
  shows "kfastblock_volume_events (kfastblock_volume_record_event now ty ret op pg osd a0 a1 vol) =
         keep_last 128 (kfastblock_volume_events vol @ [event_of now ty ret op pg osd a0 a1])"
  using log_event_contents [OF assms]
  by (simp add: snapshot_contents kfastblock_volume_record_event_def event_of_def)

lemma record_health_changes:
  assumes "log_ok (v_event_log vol)"
  obtains m where "health_changes (kfastblock_volume_record_event now ty ret op pg osd a0 a1 vol) =
      drop m (health_changes vol @
        (if ty = KFASTBLOCK_VOLUME_EVENT_HEALTH_CHANGE then [event_of now ty ret op pg osd a0 a1] else []))"
proof -
  let ?p = "\<lambda>e. ve_type e = KFASTBLOCK_VOLUME_EVENT_HEALTH_CHANGE"
  let ?xs = "kfastblock_volume_events vol @ [event_of now ty ret op pg osd a0 a1]"
  obtain m where "filter ?p (drop (length ?xs - 128) ?xs) = drop m (filter ?p ?xs)"
    using filter_drop by blast
  then have "filter ?p (keep_last 128 ?xs) = drop m (filter ?p ?xs)"
    unfolding keep_last_def .
  moreover have "filter ?p ?xs = health_changes vol @
      (if ty = KFASTBLOCK_VOLUME_EVENT_HEALTH_CHANGE then [event_of now ty ret op pg osd a0 a1] else [])"
    by (simp add: health_changes_def)
  ultimately show thesis
    using that by (simp only: health_changes_def record_events [OF assms])
qed

lemma record_log_ok:
  "log_ok (v_event_log vol) \<Longrightarrow>
   log_ok (v_event_log (kfastblock_volume_record_event now ty ret op pg osd a0 a1 vol))"
  by (simp add: kfastblock_volume_record_event_def log_event_ok)

lemma record_keeps_health [simp]:
  "v_health (kfastblock_volume_record_event now ty ret op pg osd a0 a1 vol) = v_health vol"
  by (simp add: kfastblock_volume_record_event_def)

lemma history_record:
  assumes "history_ok vol" "ty \<noteq> KFASTBLOCK_VOLUME_EVENT_HEALTH_CHANGE"
  shows "history_ok (kfastblock_volume_record_event now ty ret op pg osd a0 a1 vol)"
proof -
  have l: "log_ok (v_event_log vol)" using assms(1) by (simp add: history_ok_def)
  obtain m where "health_changes (kfastblock_volume_record_event now ty ret op pg osd a0 a1 vol) =
      drop m (health_changes vol)"
    by (rule record_health_changes [OF l, of now ty ret op pg osd a0 a1]) (use assms(2) in simp)
  then show ?thesis
    using assms(1) chain_drop record_log_ok [OF l]
    by (auto simp: history_ok_def dest: in_set_dropD)
qed

lemma chain_snoc:
  "health_chain hs st \<Longrightarrow> ve_arg0 e = st \<Longrightarrow> ve_arg1 e = st' \<Longrightarrow> health_chain (hs @ [e]) st'"
  by (auto simp: health_chain_def successively_append_iff)

lemma history_health:
  assumes "history_ok vol"
  shows "history_ok (kfastblock_volume_update_health now st src ret vol)"
proof (cases "st = vh_state (v_health vol)")
  case True
  then show ?thesis
    using assms by (auto intro!: history_cong [of vol] simp: kfastblock_volume_update_health_def Let_def)
next
  case False
  define vol1 where "vol1 = (if ret \<noteq> 0
      then vol \<lparr> v_health := (v_health vol) \<lparr> vh_last_errno := ret, vh_last_failure_source := src,
                                                vh_last_failure_jiffies := now \<rparr> \<rparr> else vol)"
  define vol2 where "vol2 = vol1 \<lparr> v_health := (v_health vol1) \<lparr> vh_state := st, vh_state_since_jiffies := now \<rparr> \<rparr>"
  have same: "v_event_log vol2 = v_event_log vol" by (simp add: vol1_def vol2_def)
  have upd: "kfastblock_volume_update_health now st src ret vol =
      kfastblock_volume_record_event now KFASTBLOCK_VOLUME_EVENT_HEALTH_CHANGE ret REQ_OP_FLUSH 0 0
        (vh_state (v_health vol)) st vol2"
    using False by (simp add: kfastblock_volume_update_health_def Let_def vol1_def vol2_def)
  have l: "log_ok (v_event_log vol2)" using assms same by (simp add: history_ok_def)
  have hc: "health_changes vol2 = health_changes vol"
    by (simp add: health_changes_def snapshot_contents same)
  let ?e = "event_of now KFASTBLOCK_VOLUME_EVENT_HEALTH_CHANGE ret REQ_OP_FLUSH 0 0 (vh_state (v_health vol)) st"
  obtain m where m: "health_changes (kfastblock_volume_update_health now st src ret vol) =
      drop m (health_changes vol @ [?e])"
    unfolding upd
    by (rule record_health_changes [OF l, of now KFASTBLOCK_VOLUME_EVENT_HEALTH_CHANGE ret REQ_OP_FLUSH 0 0
          "vh_state (v_health vol)" st]) (simp add: hc)
  have chain: "health_chain (health_changes vol @ [?e]) st"
    using assms by (intro chain_snoc [of _ "vh_state (v_health vol)"]) (simp_all add: history_ok_def)
  have diff: "\<forall>e \<in> set (health_changes vol @ [?e]). ve_arg0 e \<noteq> ve_arg1 e"
    using assms False by (auto simp: history_ok_def)
  have st: "vh_state (v_health (kfastblock_volume_update_health now st src ret vol)) = st"
    by (simp add: upd vol2_def)
  have "log_ok (v_event_log (kfastblock_volume_update_health now st src ret vol))"
    unfolding upd by (rule record_log_ok [OF l])
  moreover have "\<forall>e \<in> set (drop m (health_changes vol @ [?e])). ve_arg0 e \<noteq> ve_arg1 e"
    using diff by (meson in_set_dropD)
  ultimately show ?thesis
    unfolding history_ok_def m st using chain_drop [OF chain, of m] by blast
qed

lemma history_mark_success: "history_ok vol \<Longrightarrow> history_ok (kfastblock_volume_mark_success now src vol)"
  unfolding kfastblock_volume_mark_success_def Let_def
  by (auto intro!: history_health intro: history_cong [of vol])

section \<open>Accounting histories\<close>

text \<open>The volumes that any sequence of accounting calls produces after \<^verbatim>\<open>kfastblock_volume_stats_init\<close>.\<close>

inductive accounted :: "volume \<Rightarrow> bool" where
  init: "accounted (kfastblock_volume_stats_init now vol)"
| io_submit: "accounted vol \<Longrightarrow> accounted (kfastblock_volume_account_io_submit op bytes vol)"
| io_complete: "accounted vol \<Longrightarrow> accounted (kfastblock_volume_account_io_complete ret vol)"
| object_success: "accounted vol \<Longrightarrow> accounted (kfastblock_volume_account_object_success now op pg osd len vol)"
| object_retry: "accounted vol \<Longrightarrow> accounted (kfastblock_volume_account_object_retry now op pg osd len ret vol)"
| object_error: "accounted vol \<Longrightarrow> accounted (kfastblock_volume_account_object_error now op pg osd len ret vol)"
| leader_query: "accounted vol \<Longrightarrow> accounted (kfastblock_volume_account_leader_query now pg osd ret vol)"
| cluster_refresh: "accounted vol \<Longrightarrow> accounted (kfastblock_volume_account_cluster_refresh now ret vol)"
| image_refresh: "accounted vol \<Longrightarrow> accounted (kfastblock_volume_account_image_refresh now ret vol)"
| metadata_stale: "accounted vol \<Longrightarrow> accounted (kfastblock_volume_account_metadata_stale now vol)"
| refresh_kick: "accounted vol \<Longrightarrow> accounted (kfastblock_volume_account_refresh_kick now pg ret vol)"
| leader_invalidate: "accounted vol \<Longrightarrow> accounted (kfastblock_volume_account_leader_invalidate now pg ret vol)"
| socket_drop: "accounted vol \<Longrightarrow> accounted (kfastblock_volume_account_socket_drop now mon osd port ret vol)"
| socket_backoff: "accounted vol \<Longrightarrow>
    accounted (kfastblock_volume_account_socket_backoff j2m now mon osd port streak delay ret vol)"
| socket_backoff_wait: "accounted vol \<Longrightarrow>
    accounted (kfastblock_volume_account_socket_backoff_wait j2m now mon osd port remaining ret vol)"
| fault: "accounted vol \<Longrightarrow> accounted (kfastblock_volume_account_fault_injection now site ret vol)"
| success: "accounted vol \<Longrightarrow> accounted (kfastblock_volume_mark_success now src vol)"
| ready: "accounted vol \<Longrightarrow>
    accounted (vol \<lparr> v_ready := r, v_view := view, v_queue_paused := paused \<rparr>)"

lemma history_inc_stat: "history_ok vol \<Longrightarrow> history_ok (inc_stat upd vol)"
  by (erule history_cong) simp_all

lemmas history_steps = history_health history_mark_success history_record history_inc_stat

lemma accounted_history: "accounted vol \<Longrightarrow> history_ok vol"
proof (induction rule: accounted.induct)
  case (init now vol)
  then show ?case
    by (simp add: history_ok_def kfastblock_volume_stats_init_def log_ok_def health_changes_def
        snapshot_contents events_snapshot_def health_chain_def)
next
  case (io_submit vol op bytes)
  then show ?case
    by (auto elim!: history_cong simp: kfastblock_volume_account_io_submit_def Let_def)
next
  case (io_complete vol ret)
  then show ?case by (auto elim!: history_cong simp: kfastblock_volume_account_io_complete_def)
next
  case (ready vol r view paused)
  then show ?case by (auto elim!: history_cong)
qed (auto simp: kfastblock_volume_account_object_success_def kfastblock_volume_account_object_retry_def
  kfastblock_volume_account_object_error_def kfastblock_volume_account_leader_query_def
  kfastblock_volume_account_cluster_refresh_def kfastblock_volume_account_image_refresh_def
  kfastblock_volume_account_metadata_stale_def kfastblock_volume_account_refresh_kick_def
  kfastblock_volume_account_leader_invalidate_def kfastblock_volume_account_socket_drop_def
  kfastblock_volume_account_socket_backoff_def kfastblock_volume_account_socket_backoff_wait_def
  kfastblock_volume_account_fault_injection_def intro!: history_steps)


section \<open>Properties\<close>



definition sample_history :: volume where
  "sample_history =
     kfastblock_volume_account_leader_query 30 4 1 0
       ((kfastblock_volume_account_object_retry 20 REQ_OP_WRITE 4 1 4096 (- ETIMEDOUT) (init_volume 10))
          \<lparr> v_ready := True,
            v_view := kfastblock_meta_cleanup_view \<lparr> cv_sync_state := KFASTBLOCK_META_SYNC_READY \<rparr>,
            v_queue_paused := True \<rparr>)"


end
