(* ===== verification/KFB_Request.thy ===== *)
theory KFB_Request
  imports KFB_Volume
begin

text \<open>
  One block-layer request, \<^verbatim>\<open>kfastblock/src/request.c\<close>: its split into object extents, placement of
  the objects, the per-object state machine and the counters over it. Operations that report to
  the volume take and return the volume. An array that is \<^verbatim>\<open>NULL\<close> in the source is \<open>[]\<close> here
  (allocated arrays are never empty). \<open>allocs\<close> lists the outcomes of the allocations in order.
  The \<^verbatim>\<open>object_works\<close> array only pairs each index with its request and is not represented.
\<close>

section \<open>State\<close>

abbreviation (input) KFASTBLOCK_MAX_OBJECT_EXTENTS :: "'a::len word" where
  "KFASTBLOCK_MAX_OBJECT_EXTENTS \<equiv> 128"
abbreviation (input) KFASTBLOCK_MAX_OBJECT_NAME_LEN :: nat where
  "KFASTBLOCK_MAX_OBJECT_NAME_LEN \<equiv> 192"

datatype request_object_state =
    KFASTBLOCK_OBJECT_INIT
  | KFASTBLOCK_OBJECT_READY
  | KFASTBLOCK_OBJECT_QUEUED
  | KFASTBLOCK_OBJECT_IN_FLIGHT
  | KFASTBLOCK_OBJECT_REQUEUE
  | KFASTBLOCK_OBJECT_DONE
  | KFASTBLOCK_OBJECT_FAILED
  | KFASTBLOCK_OBJECT_CANCELLED

record request_pg_target =
  pt_osd_id :: u32
  pt_flags :: u32
  pt_port :: u16
  pt_address :: string

record object_extent =
  ox_object_seq :: u64
  ox_request_offset :: u32
  ox_object_offset :: u32
  ox_length :: u32
  ox_pg_id :: u32
  ox_object_name :: string

record request_pg_hint =
  ph_pg_id :: u32
  ph_nr_targets :: u32
  ph_leader_valid :: bool
  ph_leader :: leader_info
  ph_targets :: "request_pg_target list"

record object_runtime =
  rt_state :: request_object_state
  rt_last_error :: int
  rt_attempt_count :: u16
  rt_dispatch_count :: u16
  rt_retry_count :: u16
  rt_wire_seq :: u64
  rt_response_status :: int
  rt_response_body_len :: u32
  rt_transport_flags :: u32
  rt_queued_jiffies :: u64
  rt_last_retry_jiffies :: u64
  rt_completed_jiffies :: u64

record dispatch_batch =
  db_nr_indexes :: u32
  db_indexes :: "u32 list"

record object_snapshot = object_runtime +
  os_object_index :: u32

text \<open>What the driver reads of the block layer's \<^verbatim>\<open>struct request\<close>.\<close>

record blk_request =
  br_pos :: u64
  br_bytes :: u32
  br_op :: u8
  br_passthrough :: bool

record request =
  kr_rq :: "blk_request option"
  kr_has_vol :: bool
  kr_byte_offset :: u64
  kr_osdmap_epoch :: u64
  kr_pgmap_epoch :: u64
  kr_byte_length :: u32
  kr_pool_id :: u32
  kr_object_size :: u32
  kr_nr_objects :: u32
  kr_nr_unique_pgs :: u32
  kr_next_object_to_queue :: u32
  kr_dispatch_window :: u32
  kr_max_object_extents :: u32
  kr_status :: int
  kr_pending_objects :: int
  kr_dispatch_cursor :: u32
  kr_queued_objects :: u32
  kr_inflight_objects :: u32
  kr_completed_objects :: u32
  kr_failed_objects :: u32
  kr_cancelled_objects :: u32
  kr_dispatch_generation :: u32
  kr_unique_pgs :: "u32 list"
  kr_pg_hints :: "request_pg_hint list"
  kr_objects :: "object_extent list"
  kr_object_runtime :: "object_runtime list"
  kr_pipeline :: pipeline_state

definition zero_hint :: request_pg_hint where
  "zero_hint = \<lparr> ph_pg_id = 0, ph_nr_targets = 0, ph_leader_valid = False, ph_leader = zero_leader,
     ph_targets = [] \<rparr>"

definition zero_extent :: object_extent where
  "zero_extent = \<lparr> ox_object_seq = 0, ox_request_offset = 0, ox_object_offset = 0, ox_length = 0,
     ox_pg_id = 0, ox_object_name = [] \<rparr>"

definition zero_runtime :: object_runtime where
  "zero_runtime = \<lparr> rt_state = KFASTBLOCK_OBJECT_INIT, rt_last_error = 0, rt_attempt_count = 0,
     rt_dispatch_count = 0, rt_retry_count = 0, rt_wire_seq = 0, rt_response_status = 0,
     rt_response_body_len = 0, rt_transport_flags = 0, rt_queued_jiffies = 0,
     rt_last_retry_jiffies = 0, rt_completed_jiffies = 0 \<rparr>"

definition zero_request :: request where
  "zero_request = \<lparr> kr_rq = None, kr_has_vol = False, kr_byte_offset = 0, kr_osdmap_epoch = 0,
     kr_pgmap_epoch = 0, kr_byte_length = 0, kr_pool_id = 0, kr_object_size = 0, kr_nr_objects = 0,
     kr_nr_unique_pgs = 0, kr_next_object_to_queue = 0, kr_dispatch_window = 0,
     kr_max_object_extents = 0, kr_status = 0, kr_pending_objects = 0, kr_dispatch_cursor = 0,
     kr_queued_objects = 0, kr_inflight_objects = 0, kr_completed_objects = 0, kr_failed_objects = 0,
     kr_cancelled_objects = 0, kr_dispatch_generation = 0, kr_unique_pgs = [], kr_pg_hints = [],
     kr_objects = [], kr_object_runtime = [], kr_pipeline = empty_pipeline \<rparr>"

section \<open>Placement\<close>

definition jhash_mix :: "u32 \<times> u32 \<times> u32 \<Rightarrow> u32 \<times> u32 \<times> u32" where
  "jhash_mix abc =
     (case abc of (a0, b0, c0) \<Rightarrow>
       let a1 = (a0 - b0 - c0) XOR drop_bit 13 c0;
           b1 = (b0 - c0 - a1) XOR push_bit 8 a1;
           c1 = (c0 - a1 - b1) XOR drop_bit 13 b1;
           a2 = (a1 - b1 - c1) XOR drop_bit 12 c1;
           b2 = (b1 - c1 - a2) XOR push_bit 16 a2;
           c2 = (c1 - a2 - b2) XOR drop_bit 5 b2;
           a3 = (a2 - b2 - c2) XOR drop_bit 3 c2;
           b3 = (b2 - c2 - a3) XOR push_bit 10 a3;
           c3 = (c2 - a3 - b3) XOR drop_bit 15 b3
       in (a3, b3, c3))"

text \<open>Byte \<open>j\<close> of the rest of the string, shifted, or nothing when the string ends before it.\<close>

definition key_byte :: "string \<Rightarrow> nat \<Rightarrow> nat \<Rightarrow> u32" where
  "key_byte k j sh = (if j < length k then push_bit sh (of_char (k ! j)) else 0)"

definition key_word :: "string \<Rightarrow> nat \<Rightarrow> u32" where
  "key_word k j = key_byte k j 0 OR key_byte k (j + 1) 8 OR key_byte k (j + 2) 16 OR key_byte k (j + 3) 24"

function jhash_loop :: "string \<Rightarrow> u32 \<times> u32 \<times> u32 \<Rightarrow> string \<times> u32 \<times> u32 \<times> u32" where
  "jhash_loop k abc =
     (if 12 \<le> length k
      then (case abc of (a, b, c) \<Rightarrow>
              jhash_loop (drop 12 k) (jhash_mix (a + key_word k 0, b + key_word k 4, c + key_word k 8)))
      else (k, abc))"
  by auto

termination
  by (relation "measure (\<lambda>(k, _). length k)") auto

declare jhash_loop.simps [simp del]

definition kfastblock_jenkins_hash :: "string \<Rightarrow> u32" where
  "kfastblock_jenkins_hash str =
     (case jhash_loop str (0x9e3779b9, 0x9e3779b9, 0) of
        (k, a, b, c) \<Rightarrow>
          (case jhash_mix
                  (a + key_byte k 3 24 + key_byte k 2 16 + key_byte k 1 8 + key_byte k 0 0,
                   b + key_byte k 7 24 + key_byte k 6 16 + key_byte k 5 8 + key_byte k 4 0,
                   c + of_nat (length str) + key_byte k 10 24 + key_byte k 9 16 + key_byte k 8 8) of
             (_, _, h) \<Rightarrow> h))"

definition kfastblock_request_calc_pg :: "string \<Rightarrow> u32 \<Rightarrow> u32" where
  "kfastblock_request_calc_pg object_name pg_count =
     (if pg_count = 0 then 0 else kfastblock_jenkins_hash object_name mod pg_count)"

text \<open>\<^verbatim>\<open>scnprintf\<close> keeps the terminating zero, which the list does not show.\<close>

definition kfastblock_request_build_object_name :: "nat \<Rightarrow> u32 \<Rightarrow> string \<Rightarrow> u64 \<Rightarrow> string" where
  "kfastblock_request_build_object_name buf_len pool_id image_name object_seq =
     scnprintf_at buf_len []
       (print_num 10 (unat pool_id) @ ''__blk_data___'' @ image_name @ print_num 10 (unat object_seq))"

section \<open>Setting up a request\<close>

definition kfastblock_request_track_unique_pg :: "u32 \<Rightarrow> request \<Rightarrow> request" where
  "kfastblock_request_track_unique_pg pg_id r =
     (let n = unat (kr_nr_unique_pgs r)
      in if pg_id \<in> set (take n (kr_unique_pgs r)) then r
         else if kr_max_object_extents r \<le> kr_nr_unique_pgs r then r
         else r \<lparr> kr_unique_pgs := (kr_unique_pgs r)[n := pg_id],
                  kr_nr_unique_pgs := kr_nr_unique_pgs r + 1,
                  kr_pg_hints := (kr_pg_hints r)
                    [n := (kr_pg_hints r ! n) \<lparr> ph_pg_id := pg_id, ph_nr_targets := 0,
                                                ph_leader_valid := False, ph_targets := [] \<rparr>] \<rparr>)"

definition kfastblock_request_estimate_extent_count :: "request \<Rightarrow> u32" where
  "kfastblock_request_estimate_extent_count r =
     (if kr_byte_length r = 0 \<or> kr_object_size r = 0 then 0
      else (let first_object = kr_byte_offset r div ucast (kr_object_size r);
                last_object = (kr_byte_offset r + ucast (kr_byte_length r) - 1) div ucast (kr_object_size r)
            in if last_object < first_object then 0
               else if KFASTBLOCK_MAX_OBJECT_EXTENTS < last_object - first_object + 1
               then KFASTBLOCK_MAX_OBJECT_EXTENTS + 1
               else ucast (last_object - first_object + 1)))"

text \<open>Five allocations in order; when one fails the earlier ones are freed and the arrays stay \<^verbatim>\<open>NULL\<close>.\<close>

definition kfastblock_request_alloc_state :: "allocs \<Rightarrow> request \<Rightarrow> int \<times> request \<times> allocs" where
  "kfastblock_request_alloc_state al r =
     (let count = kfastblock_request_estimate_extent_count r;
          (ok1, al1) = kalloc al; (ok2, al2) = kalloc al1; (ok3, al3) = kalloc al2;
          (ok4, al4) = kalloc al3; (ok5, al5) = kalloc al4
      in if count = 0 then (0, r, al)
         else if KFASTBLOCK_MAX_OBJECT_EXTENTS < count then (- E2BIG, r, al)
         else if \<not> ok1 then (- ENOMEM, r, al1)
         else if \<not> ok2 then (- ENOMEM, r, al2)
         else if \<not> ok3 then (- ENOMEM, r, al3)
         else if \<not> ok4 then (- ENOMEM, r, al4)
         else if \<not> ok5 then (- ENOMEM, r, al5)
         else (0, r \<lparr> kr_unique_pgs := replicate (unat count) 0,
                      kr_pg_hints := replicate (unat count) zero_hint,
                      kr_objects := replicate (unat count) zero_extent,
                      kr_object_runtime := replicate (unat count) zero_runtime,
                      kr_max_object_extents := count \<rparr>, al5))"

definition kfastblock_request_cleanup :: "volume \<times> request \<Rightarrow> volume \<times> request" where
  "kfastblock_request_cleanup vr =
     (case vr of (vol, r) \<Rightarrow>
       (if kr_has_vol r
        then kfastblock_volume_reset_pipeline_snapshot (kfastblock_volume_account_pipeline_cleanup vol)
        else vol,
        r \<lparr> kr_unique_pgs := [], kr_pg_hints := [], kr_objects := [], kr_object_runtime := [],
            kr_max_object_extents := 0, kr_pipeline := kfastblock_pipeline_cleanup (kr_pipeline r) \<rparr>))"

definition clamp_u32 :: "u32 \<Rightarrow> u32 \<Rightarrow> u32 \<Rightarrow> u32" where
  "clamp_u32 x lo hi = min (max x lo) hi"

definition kfastblock_request_init ::
    "u64 \<Rightarrow> allocs \<Rightarrow> blk_request \<Rightarrow> volume \<times> request \<Rightarrow> int \<times> volume \<times> request" where
  "kfastblock_request_init now al rq vr0 =
     (case kfastblock_request_cleanup vr0 of (vol, _) \<Rightarrow>
      case kfastblock_request_alloc_state al
             (zero_request \<lparr> kr_rq := Some rq, kr_has_vol := True,
                kr_byte_offset := push_bit 9 (br_pos rq), kr_byte_length := br_bytes rq,
                kr_pool_id := ii_pool_id (cv_image (v_view vol)),
                kr_object_size := ii_object_size (cv_image (v_view vol)),
                kr_osdmap_epoch := cv_osdmap_epoch (v_view vol),
                kr_pgmap_epoch := cv_pgmap_epoch (v_view vol) \<rparr>) of
        (ret, r, al') \<Rightarrow>
          if ret \<noteq> 0 then (ret, vol, r)
          else (case kfastblock_pipeline_init (fst (kalloc al')) (kr_max_object_extents r) of
            (ret, p) \<Rightarrow>
              if ret \<noteq> 0 then (ret, kfastblock_request_cleanup (vol, r \<lparr> kr_pipeline := p \<rparr>))
              else (let vol1 = kfastblock_volume_account_pipeline_prepare vol;
                        (window, _, ctl) = kfastblock_scheduler_sample_window now (v_scheduler vol1)
                                             (of_int (v_inflight_ios vol1)) (kr_max_object_extents r)
                    in (0, vol1 \<lparr> v_scheduler := ctl \<rparr>,
                        r \<lparr> kr_pipeline := p,
                            kr_dispatch_window := clamp_u32 window 1
                              (if kr_max_object_extents r \<noteq> 0 then kr_max_object_extents r else 1),
                            kr_next_object_to_queue := 0, kr_pending_objects := 0,
                            kr_pg_hints := map (\<lambda>h. h \<lparr> ph_pg_id := 0, ph_nr_targets := 0,
                                                ph_leader_valid := False, ph_targets := [] \<rparr>)
                                             (kr_pg_hints r) \<rparr>))))"

text \<open>The replica loop of \<^verbatim>\<open>kfastblock_request_capture_pg_hints\<close>: the targets filled so far are kept on
  failure.\<close>

fun capture_targets ::
    "cluster_view \<Rightarrow> u32 \<Rightarrow> u32 \<Rightarrow> u32 list \<Rightarrow> int \<times> request_pg_target list" where
  "capture_targets view pool_id pg_id [] = (0, [])"
| "capture_targets view pool_id pg_id (osd_id # ids) =
     (case kfastblock_meta_resolve_pg_target view pool_id pg_id osd_id of
        (ret, Some (_, k, shard)) \<Rightarrow>
          (case capture_targets view pool_id pg_id ids of
             (ret, ts) \<Rightarrow>
               (ret, \<lparr> pt_osd_id = oe_osd_id (cv_osds view ! k), pt_flags = oe_flags (cv_osds view ! k),
                       pt_port = os_port shard,
                       pt_address = strscpy KFASTBLOCK_MAX_ADDR_LEN (oe_address (cv_osds view ! k)) \<rparr> # ts))
      | (ret, None) \<Rightarrow> (ret, []))"

definition capture_hint ::
    "cluster_view \<Rightarrow> u32 \<Rightarrow> allocs \<Rightarrow> request_pg_hint \<Rightarrow> int \<times> request_pg_hint \<times> allocs" where
  "capture_hint view pool_id al hint =
     (case kfastblock_meta_find_pg_route view pool_id (ph_pg_id hint) of
        None \<Rightarrow> (- ENOENT, hint, al)
      | Some i \<Rightarrow>
          (let route = cv_routes view ! i
           in if pr_replica_count route = 0 then (- ENOENT, hint, al)
              else (let h1 = hint \<lparr> ph_nr_targets := pr_replica_count route,
                                    ph_leader_valid := pr_leader_valid route,
                                    ph_leader := (if pr_leader_valid route then pr_leader route else zero_leader) \<rparr>;
                        (ok, al') = kalloc al
                    in if \<not> ok then (- ENOMEM, h1, al')
                       else (case capture_targets view pool_id (ph_pg_id hint)
                                    (take (unat (pr_replica_count route)) (pr_osd_ids route)) of
                               (ret, ts) \<Rightarrow> (ret, h1 \<lparr> ph_targets := ts \<rparr>, al')))))"

fun capture_loop ::
    "cluster_view \<Rightarrow> u32 \<Rightarrow> allocs \<Rightarrow> request_pg_hint list \<Rightarrow> int \<times> request_pg_hint list" where
  "capture_loop view pool_id al [] = (0, [])"
| "capture_loop view pool_id al (h # hs) =
     (case capture_hint view pool_id al h of
        (ret, h', al') \<Rightarrow>
          if ret \<noteq> 0 then (ret, h' # hs)
          else (case capture_loop view pool_id al' hs of (ret, hs') \<Rightarrow> (ret, h' # hs')))"

definition kfastblock_request_capture_pg_hints ::
    "cluster_view \<Rightarrow> allocs \<Rightarrow> request \<Rightarrow> int \<times> request" where
  "kfastblock_request_capture_pg_hints view al r =
     (let n = unat (kr_nr_unique_pgs r)
      in case capture_loop view (kr_pool_id r) al (take n (kr_pg_hints r)) of
           (ret, hs) \<Rightarrow> (ret, r \<lparr> kr_pg_hints := hs @ drop n (kr_pg_hints r) \<rparr>))"

definition split_extent :: "cluster_view \<Rightarrow> request \<Rightarrow> u64 \<Rightarrow> u32 \<Rightarrow> object_extent" where
  "split_extent view r current_offset remaining =
     (let object_seq = current_offset div ucast (kr_object_size r);
          object_offset = ucast (current_offset mod ucast (kr_object_size r));
          object_name = kfastblock_request_build_object_name KFASTBLOCK_MAX_OBJECT_NAME_LEN (kr_pool_id r)
                          (ii_image_name (cv_image view)) object_seq
      in \<lparr> ox_object_seq = object_seq, ox_request_offset = kr_byte_length r - remaining,
           ox_object_offset = object_offset,
           ox_length = min remaining (kr_object_size r - object_offset),
           ox_pg_id = kfastblock_request_calc_pg object_name (ii_pg_count (cv_image view)),
           ox_object_name = object_name \<rparr>)"

lemma track_unique_pg_fields [simp]:
  "kr_max_object_extents (kfastblock_request_track_unique_pg p r) = kr_max_object_extents r"
  "kr_nr_objects (kfastblock_request_track_unique_pg p r) = kr_nr_objects r"
  "kr_objects (kfastblock_request_track_unique_pg p r) = kr_objects r"
  "kr_object_size (kfastblock_request_track_unique_pg p r) = kr_object_size r"
  "kr_byte_length (kfastblock_request_track_unique_pg p r) = kr_byte_length r"
  "kr_pool_id (kfastblock_request_track_unique_pg p r) = kr_pool_id r"
  "kr_byte_offset (kfastblock_request_track_unique_pg p r) = kr_byte_offset r"
  by (simp_all add: kfastblock_request_track_unique_pg_def Let_def)

function split_loop :: "cluster_view \<Rightarrow> request \<Rightarrow> u64 \<Rightarrow> u32 \<Rightarrow> int \<times> request" where
  "split_loop view r current_offset remaining =
     (if remaining = 0 then (0, r)
      else if kr_max_object_extents r \<le> kr_nr_objects r then (- E2BIG, r)
      else (let extent = split_extent view r current_offset remaining;
                r1 = kfastblock_request_track_unique_pg (ox_pg_id extent)
                       (r \<lparr> kr_objects := (kr_objects r)[unat (kr_nr_objects r) := extent] \<rparr>)
            in split_loop view (r1 \<lparr> kr_nr_objects := kr_nr_objects r1 + 1 \<rparr>)
                 (current_offset + ucast (ox_length extent)) (remaining - ox_length extent)))"
  by auto

termination
proof (relation "measure (\<lambda>(_, r, _, _). unat (kr_max_object_extents r) - unat (kr_nr_objects r))", goal_cases)
  case (2 view r current_offset remaining extent r1)
  then have "kr_nr_objects r < kr_max_object_extents r" by simp
  with 2 unat_inc_less [OF this] show ?case by (simp add: word_less_nat_alt)
qed simp

declare split_loop.simps [simp del]

definition kfastblock_request_split :: "cluster_view \<Rightarrow> allocs \<Rightarrow> request \<Rightarrow> int \<times> request" where
  "kfastblock_request_split view al r =
     (if kr_rq r = None \<or> \<not> kr_has_vol r then (- EINVAL, r)
      else if kr_object_size r = 0 \<or> ii_pg_count (cv_image view) = 0 then (- EINVAL, r)
      else (case split_loop view r (kr_byte_offset r) (kr_byte_length r) of
              (ret, r') \<Rightarrow> if ret \<noteq> 0 then (ret, r') else kfastblock_request_capture_pg_hints view al r'))"

section \<open>The object state machine\<close>

definition kfastblock_request_object_dispatchable :: "object_runtime \<Rightarrow> bool" where
  "kfastblock_request_object_dispatchable rt \<longleftrightarrow> rt_state rt = KFASTBLOCK_OBJECT_READY"

definition kfastblock_request_object_state_name :: "request_object_state \<Rightarrow> string" where
  "kfastblock_request_object_state_name s =
     (case s of
        KFASTBLOCK_OBJECT_INIT \<Rightarrow> ''init''
      | KFASTBLOCK_OBJECT_READY \<Rightarrow> ''ready''
      | KFASTBLOCK_OBJECT_QUEUED \<Rightarrow> ''queued''
      | KFASTBLOCK_OBJECT_IN_FLIGHT \<Rightarrow> ''in_flight''
      | KFASTBLOCK_OBJECT_REQUEUE \<Rightarrow> ''requeue''
      | KFASTBLOCK_OBJECT_DONE \<Rightarrow> ''done''
      | KFASTBLOCK_OBJECT_FAILED \<Rightarrow> ''failed''
      | KFASTBLOCK_OBJECT_CANCELLED \<Rightarrow> ''cancelled'')"

definition kfastblock_request_object_state_terminal :: "request_object_state \<Rightarrow> bool" where
  "kfastblock_request_object_state_terminal s =
     (case s of KFASTBLOCK_OBJECT_DONE \<Rightarrow> True | KFASTBLOCK_OBJECT_FAILED \<Rightarrow> True
      | KFASTBLOCK_OBJECT_CANCELLED \<Rightarrow> True | _ \<Rightarrow> False)"

text \<open>The guard of the per-object operations.\<close>

definition bad_object :: "request \<Rightarrow> u32 \<Rightarrow> bool" where
  "bad_object r i \<longleftrightarrow> kr_object_runtime r = [] \<or> kr_nr_objects r \<le> i"

definition update_runtime :: "u32 \<Rightarrow> (object_runtime \<Rightarrow> object_runtime) \<Rightarrow> request \<Rightarrow> request" where
  "update_runtime i f r =
     r \<lparr> kr_object_runtime := (kr_object_runtime r)[unat i := f (kr_object_runtime r ! unat i)] \<rparr>"

definition kfastblock_request_prepare_runtime :: "volume \<times> request \<Rightarrow> volume \<times> request" where
  "kfastblock_request_prepare_runtime vr =
     (case vr of (vol, r) \<Rightarrow>
       if kr_object_runtime r = [] then (vol, r)
       else (let n = unat (kr_nr_objects r);
                 r1 = r \<lparr> kr_dispatch_cursor := 0, kr_queued_objects := 0, kr_inflight_objects := 0,
                          kr_completed_objects := 0, kr_failed_objects := 0, kr_cancelled_objects := 0,
                          kr_dispatch_generation := kr_dispatch_generation r + 1,
                          kr_object_runtime :=
                            map (\<lambda>rt. zero_runtime \<lparr> rt_state := KFASTBLOCK_OBJECT_READY \<rparr>)
                              (take n (kr_object_runtime r)) @ drop n (kr_object_runtime r),
                          kr_pipeline := kfastblock_pipeline_reset (kr_pipeline r) \<rparr>
             in (kfastblock_volume_update_pipeline_snapshot (kr_pipeline r1) vol, r1)))"

definition kfastblock_request_dispatch_batch_reset :: dispatch_batch where
  "kfastblock_request_dispatch_batch_reset = \<lparr> db_nr_indexes = 0, db_indexes = replicate 128 0 \<rparr>"

text \<open>The scan loop: \<open>picked\<close> are the indexes stored in the batch so far.\<close>

function pick_loop ::
    "u64 \<Rightarrow> u32 \<Rightarrow> u32 \<Rightarrow> u32 \<Rightarrow> u32 \<Rightarrow> u32 list \<Rightarrow> object_runtime list \<Rightarrow> u32
      \<Rightarrow> u32 list \<times> object_runtime list \<times> u32" where
  "pick_loop now nr cursor max_dispatch scanned picked rts queued =
     (if scanned < nr \<and> of_nat (length picked) < max_dispatch
      then (let index = (cursor + scanned) mod nr; rt = rts ! unat index
            in if kfastblock_request_object_dispatchable rt
               then pick_loop now nr cursor max_dispatch (scanned + 1) (picked @ [index])
                      (rts[unat index := rt \<lparr> rt_state := KFASTBLOCK_OBJECT_QUEUED,
                                              rt_dispatch_count := rt_dispatch_count rt + 1,
                                              rt_queued_jiffies := now \<rparr>])
                      (queued + 1)
               else pick_loop now nr cursor max_dispatch (scanned + 1) picked rts queued)
      else (picked, rts, queued))"
  by auto

termination
proof (relation "measure (\<lambda>(_, nr, _, _, scanned, _). unat nr - unat scanned)", goal_cases)
  case (2 now nr cursor mx scanned picked rts queued index rt)
  then have "scanned < nr" by simp
  with unat_inc_less [OF this] show ?case by (simp add: word_less_nat_alt)
next
  case (3 now nr cursor mx scanned picked rts queued index rt)
  then have "scanned < nr" by simp
  with unat_inc_less [OF this] show ?case by (simp add: word_less_nat_alt)
qed simp

declare pick_loop.simps [simp del]

definition kfastblock_request_pick_dispatch_batch ::
    "u64 \<Rightarrow> u32 \<Rightarrow> volume \<times> request \<Rightarrow> int \<times> dispatch_batch \<times> volume \<times> request" where
  "kfastblock_request_pick_dispatch_batch now max_dispatch vr =
     (case vr of (vol, r) \<Rightarrow>
       if max_dispatch = 0 then (- EINVAL, kfastblock_request_dispatch_batch_reset, vol, r)
       else if kr_nr_objects r = 0 \<or> kr_object_runtime r = []
       then (0, kfastblock_request_dispatch_batch_reset, vol, r)
       else (case pick_loop now (kr_nr_objects r) (kr_dispatch_cursor r) max_dispatch 0 []
                    (kr_object_runtime r) (kr_queued_objects r) of
               (picked, rts, queued) \<Rightarrow>
                 (int (length picked),
                  \<lparr> db_nr_indexes = of_nat (length picked),
                    db_indexes = picked @ drop (length picked) (db_indexes kfastblock_request_dispatch_batch_reset) \<rparr>,
                  (if picked \<noteq> []
                   then kfastblock_volume_account_pipeline_dispatch_batch (of_nat (length picked)) vol else vol),
                  r \<lparr> kr_object_runtime := rts, kr_queued_objects := queued,
                      kr_dispatch_cursor := (if picked \<noteq> [] then (last picked + 1) mod kr_nr_objects r
                                             else kr_dispatch_cursor r) \<rparr>)))"

definition kfastblock_request_mark_object_queued :: "u32 \<Rightarrow> request \<Rightarrow> int \<times> request" where
  "kfastblock_request_mark_object_queued i r =
     (if bad_object r i then (- EINVAL, r)
      else if rt_state (kr_object_runtime r ! unat i) \<noteq> KFASTBLOCK_OBJECT_QUEUED then (- EALREADY, r)
      else (0, update_runtime i (\<lambda>rt. rt \<lparr> rt_attempt_count := rt_attempt_count rt + 1 \<rparr>) r))"

definition kfastblock_request_mark_object_inflight :: "u32 \<Rightarrow> request \<Rightarrow> request" where
  "kfastblock_request_mark_object_inflight i r =
     (if bad_object r i then r
      else if rt_state (kr_object_runtime r ! unat i) = KFASTBLOCK_OBJECT_QUEUED
      then (update_runtime i (\<lambda>rt. rt \<lparr> rt_state := KFASTBLOCK_OBJECT_IN_FLIGHT \<rparr>) r)
             \<lparr> kr_queued_objects := (if kr_queued_objects r \<noteq> 0 then kr_queued_objects r - 1
                                     else kr_queued_objects r),
               kr_inflight_objects := kr_inflight_objects r + 1 \<rparr>
      else r)"

definition kfastblock_request_mark_object_complete ::
    "u64 \<Rightarrow> u32 \<Rightarrow> int \<Rightarrow> volume \<times> request \<Rightarrow> volume \<times> request" where
  "kfastblock_request_mark_object_complete now i ret vr =
     (case vr of (vol, r) \<Rightarrow>
       if bad_object r i then (vol, r)
       else (let r1 = (if rt_state (kr_object_runtime r ! unat i) = KFASTBLOCK_OBJECT_IN_FLIGHT \<and>
                          kr_inflight_objects r \<noteq> 0
                       then r \<lparr> kr_inflight_objects := kr_inflight_objects r - 1 \<rparr> else r);
                 r2 = update_runtime i (\<lambda>rt. rt \<lparr> rt_last_error := ret, rt_completed_jiffies := now,
                        rt_state := (if ret \<noteq> 0 then KFASTBLOCK_OBJECT_FAILED else KFASTBLOCK_OBJECT_DONE) \<rparr>) r1
             in (kfastblock_volume_account_pipeline_complete (ret \<noteq> 0) vol,
                 if ret \<noteq> 0 then r2 \<lparr> kr_failed_objects := kr_failed_objects r2 + 1 \<rparr>
                 else r2 \<lparr> kr_completed_objects := kr_completed_objects r2 + 1 \<rparr>)))"

definition kfastblock_request_record_object_seq :: "u32 \<Rightarrow> u64 \<Rightarrow> volume \<times> request \<Rightarrow> volume \<times> request" where
  "kfastblock_request_record_object_seq i sq vr =
     (case vr of (vol, r) \<Rightarrow>
       if bad_object r i then (vol, r)
       else (kfastblock_volume_account_pipeline_seq vol, update_runtime i (\<lambda>rt. rt \<lparr> rt_wire_seq := sq \<rparr>) r))"

definition kfastblock_request_record_object_response ::
    "u32 \<Rightarrow> int \<Rightarrow> u32 \<Rightarrow> u32 \<Rightarrow> volume \<times> request \<Rightarrow> volume \<times> request" where
  "kfastblock_request_record_object_response i response_status response_body_len transport_flags vr =
     (case vr of (vol, r) \<Rightarrow>
       if bad_object r i then (vol, r)
       else (kfastblock_volume_account_pipeline_response response_status response_body_len transport_flags vol,
             update_runtime i (\<lambda>rt. rt \<lparr> rt_response_status := response_status,
                                         rt_response_body_len := response_body_len,
                                         rt_transport_flags := transport_flags \<rparr>) r))"

definition kfastblock_request_clear_object_response :: "u32 \<Rightarrow> volume \<times> request \<Rightarrow> volume \<times> request" where
  "kfastblock_request_clear_object_response i vr = kfastblock_request_record_object_response i 0 0 0 vr"

definition kfastblock_request_lookup_object_by_seq :: "request \<Rightarrow> u64 \<Rightarrow> int + u32" where
  "kfastblock_request_lookup_object_by_seq r sq =
     (if sq = 0 then Inl (- EINVAL)
      else (case kfastblock_pipeline_lookup (kr_pipeline r) sq of
              None \<Rightarrow> Inl (- ENOENT)
            | Some e \<Rightarrow> Inr (pe_object_index e)))"

definition kfastblock_request_record_object_response_by_seq ::
    "u64 \<Rightarrow> int \<Rightarrow> u32 \<Rightarrow> u32 \<Rightarrow> volume \<times> request \<Rightarrow> int \<times> volume \<times> request" where
  "kfastblock_request_record_object_response_by_seq sq response_status response_body_len transport_flags vr =
     (case kfastblock_request_lookup_object_by_seq (snd vr) sq of
        Inl ret \<Rightarrow> (ret, vr)
      | Inr i \<Rightarrow> (0, kfastblock_request_record_object_response i response_status response_body_len
                       transport_flags vr))"

definition kfastblock_request_clear_object_response_by_seq ::
    "u64 \<Rightarrow> volume \<times> request \<Rightarrow> int \<times> volume \<times> request" where
  "kfastblock_request_clear_object_response_by_seq sq vr =
     kfastblock_request_record_object_response_by_seq sq 0 0 0 vr"

definition kfastblock_request_object_has_response :: "request \<Rightarrow> u32 \<Rightarrow> bool" where
  "kfastblock_request_object_has_response r i \<longleftrightarrow>
     \<not> bad_object r i \<and>
     (rt_response_status (kr_object_runtime r ! unat i) \<noteq> 0 \<or>
      rt_response_body_len (kr_object_runtime r ! unat i) \<noteq> 0 \<or>
      rt_transport_flags (kr_object_runtime r ! unat i) \<noteq> 0)"

definition kfastblock_request_object_has_response_by_seq :: "request \<Rightarrow> u64 \<Rightarrow> bool" where
  "kfastblock_request_object_has_response_by_seq r sq =
     (case kfastblock_request_lookup_object_by_seq r sq of
        Inl _ \<Rightarrow> False | Inr i \<Rightarrow> kfastblock_request_object_has_response r i)"

definition kfastblock_request_has_response_recorded :: "request \<Rightarrow> bool" where
  "kfastblock_request_has_response_recorded r \<longleftrightarrow>
     kr_object_runtime r \<noteq> [] \<and>
     list_ex (\<lambda>i. kfastblock_request_object_has_response r (of_nat i)) [0..<unat (kr_nr_objects r)]"

definition kfastblock_request_object_is_dispatchable :: "request \<Rightarrow> u32 \<Rightarrow> bool" where
  "kfastblock_request_object_is_dispatchable r i \<longleftrightarrow>
     \<not> bad_object r i \<and> kfastblock_request_object_dispatchable (kr_object_runtime r ! unat i)"

definition kfastblock_request_object_is_terminal :: "request \<Rightarrow> u32 \<Rightarrow> bool" where
  "kfastblock_request_object_is_terminal r i \<longleftrightarrow>
     \<not> bad_object r i \<and> kfastblock_request_object_state_terminal (rt_state (kr_object_runtime r ! unat i))"

definition kfastblock_request_note_object_retry ::
    "u64 \<Rightarrow> u32 \<Rightarrow> int \<Rightarrow> volume \<times> request \<Rightarrow> volume \<times> request" where
  "kfastblock_request_note_object_retry now i ret vr =
     (case vr of (vol, r) \<Rightarrow>
       if bad_object r i then (vol, r)
       else (kfastblock_volume_account_pipeline_retry vol,
             update_runtime i (\<lambda>rt. rt \<lparr> rt_retry_count := rt_retry_count rt + 1, rt_last_error := ret,
                                         rt_last_retry_jiffies := now \<rparr>) r))"

definition kfastblock_request_note_object_retry_by_seq ::
    "u64 \<Rightarrow> u64 \<Rightarrow> int \<Rightarrow> volume \<times> request \<Rightarrow> int \<times> volume \<times> request" where
  "kfastblock_request_note_object_retry_by_seq now sq ret vr =
     (case kfastblock_request_lookup_object_by_seq (snd vr) sq of
        Inl e \<Rightarrow> (e, vr) | Inr i \<Rightarrow> (0, kfastblock_request_note_object_retry now i ret vr))"

definition kfastblock_request_snapshot_object :: "request \<Rightarrow> u32 \<Rightarrow> int + object_snapshot" where
  "kfastblock_request_snapshot_object r i =
     (if bad_object r i then Inl (- EINVAL)
      else Inr (object_runtime.extend (kr_object_runtime r ! unat i) (object_snapshot.fields i)))"

definition kfastblock_request_snapshot_object_by_seq :: "request \<Rightarrow> u64 \<Rightarrow> int + object_snapshot" where
  "kfastblock_request_snapshot_object_by_seq r sq =
     (case kfastblock_request_lookup_object_by_seq r sq of
        Inl e \<Rightarrow> Inl e | Inr i \<Rightarrow> kfastblock_request_snapshot_object r i)"

definition kfastblock_request_complete_object_by_seq ::
    "u64 \<Rightarrow> u64 \<Rightarrow> int \<Rightarrow> volume \<times> request \<Rightarrow> int \<times> volume \<times> request" where
  "kfastblock_request_complete_object_by_seq now sq ret vr =
     (case vr of (vol, r) \<Rightarrow>
       if sq = 0 then (- EINVAL, vol, r)
       else (case kfastblock_pipeline_complete now (kr_pipeline r) sq ret of
               (p, None) \<Rightarrow> (- ENOENT, vol, r \<lparr> kr_pipeline := p \<rparr>)
             | (p, Some i) \<Rightarrow>
                 (0, kfastblock_request_mark_object_complete now (pe_object_index (ps_entries p ! i)) ret
                       (vol, r \<lparr> kr_pipeline := p \<rparr>))))"

definition kfastblock_request_requeue_object ::
    "u64 \<Rightarrow> u32 \<Rightarrow> int \<Rightarrow> volume \<times> request \<Rightarrow> int \<times> volume \<times> request" where
  "kfastblock_request_requeue_object now i ret vr =
     (case vr of (vol, r) \<Rightarrow>
       if bad_object r i then (- EINVAL, vol, r)
       else (let st = rt_state (kr_object_runtime r ! unat i);
                 r1 = r \<lparr> kr_queued_objects :=
                            (if st = KFASTBLOCK_OBJECT_QUEUED \<and> kr_queued_objects r \<noteq> 0
                             then kr_queued_objects r - 1 else kr_queued_objects r),
                          kr_inflight_objects :=
                            (if st = KFASTBLOCK_OBJECT_IN_FLIGHT \<and> kr_inflight_objects r \<noteq> 0
                             then kr_inflight_objects r - 1 else kr_inflight_objects r) \<rparr>;
                 r2 = update_runtime i (\<lambda>rt. rt \<lparr> rt_last_error := ret, rt_last_retry_jiffies := now,
                        rt_wire_seq := 0, rt_state := KFASTBLOCK_OBJECT_READY \<rparr>) r1
             in (0, kfastblock_request_note_object_retry now i ret
                      (kfastblock_request_clear_object_response i (vol, r2)))))"

definition kfastblock_request_requeue_object_by_seq ::
    "u64 \<Rightarrow> u64 \<Rightarrow> int \<Rightarrow> volume \<times> request \<Rightarrow> int \<times> volume \<times> request" where
  "kfastblock_request_requeue_object_by_seq now sq ret vr =
     (case kfastblock_request_lookup_object_by_seq (snd vr) sq of
        Inl e \<Rightarrow> (e, vr) | Inr i \<Rightarrow> kfastblock_request_requeue_object now i ret vr)"

text \<open>The loop of \<^verbatim>\<open>cancel_unqueued\<close> over the first \<^verbatim>\<open>nr_objects\<close> runtimes.\<close>

fun cancel_loop ::
    "u64 \<Rightarrow> object_runtime list \<Rightarrow> u32 \<Rightarrow> u32 \<Rightarrow> object_runtime list \<times> u32 \<times> u32" where
  "cancel_loop now [] queued cancelled = ([], queued, cancelled)"
| "cancel_loop now (rt # rts) queued cancelled =
     (if rt_state rt \<noteq> KFASTBLOCK_OBJECT_READY \<and> rt_state rt \<noteq> KFASTBLOCK_OBJECT_QUEUED
      then (case cancel_loop now rts queued cancelled of (rts', q, c) \<Rightarrow> (rt # rts', q, c))
      else (case cancel_loop now rts
                   (if rt_state rt = KFASTBLOCK_OBJECT_QUEUED \<and> queued \<noteq> 0 then queued - 1 else queued)
                   (cancelled + 1) of
              (rts', q, c) \<Rightarrow>
                (rt \<lparr> rt_state := KFASTBLOCK_OBJECT_CANCELLED, rt_last_error := - ECANCELED,
                      rt_completed_jiffies := now \<rparr> # rts', q, c)))"

definition kfastblock_request_cancel_unqueued ::
    "u64 \<Rightarrow> volume \<times> request \<Rightarrow> int \<times> volume \<times> request" where
  "kfastblock_request_cancel_unqueued now vr =
     (case vr of (vol, r) \<Rightarrow>
       if kr_object_runtime r = [] then (0, vol, r)
       else (let n = unat (kr_nr_objects r)
             in case cancel_loop now (take n (kr_object_runtime r)) (kr_queued_objects r) 0 of
                  (rts, queued, cancelled) \<Rightarrow>
                    (sint cancelled,
                     (if cancelled \<noteq> 0 then kfastblock_volume_account_pipeline_cancel cancelled vol else vol),
                     r \<lparr> kr_object_runtime := rts @ drop n (kr_object_runtime r),
                         kr_queued_objects := queued,
                         kr_cancelled_objects := kr_cancelled_objects r + cancelled \<rparr>)))"

section \<open>Counting\<close>

definition count_runtime :: "(object_runtime \<Rightarrow> bool) \<Rightarrow> request \<Rightarrow> u32" where
  "count_runtime p r =
     fold (\<lambda>rt n. if p rt then n + 1 else n) (take (unat (kr_nr_objects r)) (kr_object_runtime r)) 0"

definition kfastblock_request_dispatch_credits :: "request \<Rightarrow> u32" where
  "kfastblock_request_dispatch_credits r =
     (let window = (if kr_dispatch_window r \<noteq> 0 then kr_dispatch_window r else 1);
          dispatched = kr_queued_objects r + kr_inflight_objects r
      in if window \<le> dispatched then 0 else window - dispatched)"

definition kfastblock_request_dispatchable_objects :: "request \<Rightarrow> u32" where
  "kfastblock_request_dispatchable_objects r = count_runtime kfastblock_request_object_dispatchable r"

definition kfastblock_request_has_dispatchable :: "request \<Rightarrow> bool" where
  "kfastblock_request_has_dispatchable r \<longleftrightarrow> kfastblock_request_dispatchable_objects r \<noteq> 0"

definition kfastblock_request_dispatch_window_saturated :: "request \<Rightarrow> bool" where
  "kfastblock_request_dispatch_window_saturated r \<longleftrightarrow>
     kfastblock_request_dispatch_credits r = 0 \<and> kfastblock_request_has_dispatchable r"

definition kfastblock_request_active_objects :: "request \<Rightarrow> u32" where
  "kfastblock_request_active_objects r = kr_queued_objects r + kr_inflight_objects r"

definition kfastblock_request_state_count :: "request \<Rightarrow> request_object_state \<Rightarrow> u32" where
  "kfastblock_request_state_count r s = count_runtime (\<lambda>rt. rt_state rt = s) r"

definition kfastblock_request_any_failed :: "request \<Rightarrow> bool" where
  "kfastblock_request_any_failed r \<longleftrightarrow> 0 < kfastblock_request_state_count r KFASTBLOCK_OBJECT_FAILED"

definition kfastblock_request_terminal_objects :: "request \<Rightarrow> u32" where
  "kfastblock_request_terminal_objects r =
     kr_failed_objects r + kr_cancelled_objects r + kr_completed_objects r"

definition kfastblock_request_all_terminal :: "request \<Rightarrow> bool" where
  "kfastblock_request_all_terminal r \<longleftrightarrow>
     kr_nr_objects r \<noteq> 0 \<and> kfastblock_request_terminal_objects r = kr_nr_objects r"

definition kfastblock_request_nonterminal_objects :: "request \<Rightarrow> u32" where
  "kfastblock_request_nonterminal_objects r =
     (if kr_nr_objects r \<le> kfastblock_request_terminal_objects r then 0
      else kr_nr_objects r - kfastblock_request_terminal_objects r)"

definition kfastblock_request_response_recorded_objects :: "request \<Rightarrow> u32" where
  "kfastblock_request_response_recorded_objects r =
     count_runtime (\<lambda>rt. rt_response_status rt \<noteq> 0 \<or> rt_response_body_len rt \<noteq> 0 \<or> rt_transport_flags rt \<noteq> 0) r"

definition kfastblock_request_response_gap_objects :: "request \<Rightarrow> u32" where
  "kfastblock_request_response_gap_objects r =
     (if kr_nr_objects r \<le> kfastblock_request_response_recorded_objects r then 0
      else kr_nr_objects r - kfastblock_request_response_recorded_objects r)"

definition kfastblock_request_retry_objects :: "request \<Rightarrow> u32" where
  "kfastblock_request_retry_objects r = count_runtime (\<lambda>rt. rt_retry_count rt \<noteq> 0) r"

definition kfastblock_request_terminal_progress_pct :: "request \<Rightarrow> u32" where
  "kfastblock_request_terminal_progress_pct r =
     (if kr_nr_objects r = 0 then 0
      else min 100 ((kfastblock_request_terminal_objects r * 100) div kr_nr_objects r))"

definition kfastblock_request_response_coverage_pct :: "request \<Rightarrow> u32" where
  "kfastblock_request_response_coverage_pct r =
     (if kr_nr_objects r = 0 then 0
      else min 100 ((kfastblock_request_response_recorded_objects r * 100) div kr_nr_objects r))"

text \<open>The last object that was put on the wire, in index order.\<close>

definition last_on_wire :: "(object_runtime \<Rightarrow> 'a) \<Rightarrow> 'a \<Rightarrow> request \<Rightarrow> 'a" where
  "last_on_wire f d r =
     fold (\<lambda>rt v. if rt_wire_seq rt = 0 then v else f rt)
       (take (unat (kr_nr_objects r)) (kr_object_runtime r)) d"

definition kfastblock_request_last_wire_seq :: "request \<Rightarrow> u64" where
  "kfastblock_request_last_wire_seq r = last_on_wire rt_wire_seq 0 r"

definition kfastblock_request_last_response_status :: "request \<Rightarrow> int" where
  "kfastblock_request_last_response_status r = last_on_wire rt_response_status 0 r"

definition kfastblock_request_last_response_body_len :: "request \<Rightarrow> u32" where
  "kfastblock_request_last_response_body_len r = last_on_wire rt_response_body_len 0 r"

definition kfastblock_request_last_transport_flags :: "request \<Rightarrow> u32" where
  "kfastblock_request_last_transport_flags r = last_on_wire rt_transport_flags 0 r"

definition kfastblock_request_oldest_pending_jiffies :: "request \<Rightarrow> u64" where
  "kfastblock_request_oldest_pending_jiffies r =
     fold (\<lambda>rt v. if kfastblock_request_object_state_terminal (rt_state rt) then v
                  else if rt_queued_jiffies rt = 0 then v
                  else if v = 0 \<or> rt_queued_jiffies rt < v then rt_queued_jiffies rt else v)
       (take (unat (kr_nr_objects r)) (kr_object_runtime r)) 0"

definition kfastblock_request_last_completed_jiffies :: "request \<Rightarrow> u64" where
  "kfastblock_request_last_completed_jiffies r =
     fold (\<lambda>rt v. if v < rt_completed_jiffies rt then rt_completed_jiffies rt else v)
       (take (unat (kr_nr_objects r)) (kr_object_runtime r)) 0"

section \<open>Leader hints\<close>

definition kfastblock_request_get_pg_hint_leader :: "request_pg_hint \<Rightarrow> int + leader_info" where
  "kfastblock_request_get_pg_hint_leader h =
     (if \<not> ph_leader_valid h then Inl (- ENOENT) else Inr (ph_leader h))"

definition kfastblock_request_set_pg_hint_leader :: "leader_info \<Rightarrow> request_pg_hint \<Rightarrow> request_pg_hint" where
  "kfastblock_request_set_pg_hint_leader leader h = h \<lparr> ph_leader := leader, ph_leader_valid := True \<rparr>"

definition kfastblock_request_invalidate_pg_hint_leader :: "request_pg_hint \<Rightarrow> request_pg_hint" where
  "kfastblock_request_invalidate_pg_hint_leader h = h \<lparr> ph_leader_valid := False, ph_leader := zero_leader \<rparr>"

end
