(* ===== verification/KFB_Split.thy ===== *)
theory KFB_Split
  imports KFB_Request
begin

text \<open>
  Splitting a request: the extents cover the request byte by byte, each byte goes to the object and
  the offset that the image layout assigns to it, and the arrays sized by the estimate are
  exactly large enough. The reference is the byte-by-byte layout; \<open>cut_range\<close> is the loop over the
  natural numbers.
\<close>

section \<open>The loop over the natural numbers\<close>

function cut_range :: "nat \<Rightarrow> nat \<Rightarrow> nat \<Rightarrow> nat \<Rightarrow> (nat \<times> nat \<times> nat \<times> nat) list" where
  "cut_range os off ro rem =
     (if rem = 0 \<or> os = 0 then []
      else (let l = min rem (os - off mod os)
            in (off div os, ro, off mod os, l) # cut_range os (off + l) (ro + l) (rem - l)))"
  by auto

termination
proof (relation "measure (\<lambda>(_, _, _, rem). rem)", goal_cases)
  case (2 os off ro rem l)
  then have "off mod os < os" by simp
  then show ?case using 2 by simp
qed simp

declare cut_range.simps [simp del]

text \<open>The bytes of an extent: position in the request, object, offset in the object.\<close>

definition extent_bytes :: "nat \<times> nat \<times> nat \<times> nat \<Rightarrow> (nat \<times> nat \<times> nat) list" where
  "extent_bytes e = (case e of (sq, ro, oo, l) \<Rightarrow> map (\<lambda>j. (ro + j, sq, oo + j)) [0..<l])"

lemma cut_step:
  assumes "0 < rem" "0 < os"
  obtains l where "cut_range os off ro rem = (off div os, ro, off mod os, l) # cut_range os (off + l) (ro + l) (rem - l)"
    "0 < l" "l \<le> rem" "off mod os + l \<le> os" "l < rem \<Longrightarrow> off mod os + l = os"
proof -
  define l where "l = min rem (os - off mod os)"
  have "off mod os < os" using assms by simp
  then have "0 < l" "l \<le> rem" "off mod os + l \<le> os" "l < rem \<Longrightarrow> off mod os + l = os"
    using assms unfolding l_def min_def by auto
  moreover have "cut_range os off ro rem =
      (off div os, ro, off mod os, l) # cut_range os (off + l) (ro + l) (rem - l)"
    using assms by (subst cut_range.simps) (simp add: l_def Let_def)
  ultimately show thesis using that by blast
qed

lemma div_mod_within:
  assumes "off mod os + j < os"
  shows "(off + j) div os = off div os" "(off + j) mod os = off mod os + (j :: nat)"
proof -
  have j: "j < os" using assms by simp
  have "(off + j) div os = off div os + j div os + (off mod os + j mod os) div os"
    by (rule div_add1_eq)
  then show "(off + j) div os = off div os" using assms j by simp
  have "(off + j) mod os = (off mod os + j) mod os" by (simp add: mod_add_left_eq)
  then show "(off + j) mod os = off mod os + j" using assms by simp
qed

lemma cut_bytes:
  assumes "0 < os"
  shows "concat (map extent_bytes (cut_range os off ro rem)) =
         map (\<lambda>p. (ro + p, (off + p) div os, (off + p) mod os)) [0..<rem]"
proof (induction rem arbitrary: off ro rule: less_induct)
  case (less rem)
  show ?case
  proof (cases "rem = 0")
    case False
    then obtain l where l: "cut_range os off ro rem = (off div os, ro, off mod os, l) # cut_range os (off + l) (ro + l) (rem - l)"
      "0 < l" "l \<le> rem" "off mod os + l \<le> os"
      using assms cut_step [of rem os off ro] by blast
    let ?f = "\<lambda>p. (ro + p, (off + p) div os, (off + p) mod os)"
    have "extent_bytes (off div os, ro, off mod os, l) = map ?f [0..<l]"
      using l(4) by (auto simp: extent_bytes_def div_mod_within)
    moreover have "concat (map extent_bytes (cut_range os (off + l) (ro + l) (rem - l))) =
        map (\<lambda>p. ?f (l + p)) [0..<rem - l]"
      using less.IH [of "rem - l" "off + l" "ro + l"] l(2) False by (simp add: add.assoc)
    moreover have "[0..<rem] = [0..<l] @ map (\<lambda>p. l + p) [0..<rem - l]"
      using l(3) map_add_upt [of l "rem - l"] upt_add_eq_append [of 0 l "rem - l"]
      by (simp add: add.commute)
    ultimately show ?thesis using l(1) by (simp add: o_def)
  qed (simp add: cut_range.simps)
qed

lemma length_cut:
  assumes "0 < rem" "0 < os"
  shows "length (cut_range os off ro rem) = (off + rem - 1) div os - off div os + 1"
  using assms(1)
proof (induction rem arbitrary: off ro rule: less_induct)
  case (less rem)
  obtain l where l: "cut_range os off ro rem = (off div os, ro, off mod os, l) # cut_range os (off + l) (ro + l) (rem - l)"
    "0 < l" "l \<le> rem" "off mod os + l \<le> os" "l < rem \<Longrightarrow> off mod os + l = os"
    using less.prems assms(2) cut_step [of rem os off ro] by blast
  show ?case
  proof (cases "l = rem")
    case True
    have "(off + (rem - 1)) div os = off div os"
      using l True less.prems by (intro div_mod_within) simp
    then show ?thesis using l(1) True less.prems by (simp add: cut_range.simps)
  next
    case False
    then have lt: "l < rem" using l(3) by simp
    have "os * (off div os) + off mod os = off" by (rule mult_div_mod_eq)
    then have "off + l = os * (off div os) + os" using l(5) [OF lt] by linarith
    then have d: "(off + l) div os = off div os + 1" using assms(2) by simp
    have "off + l \<le> off + rem - 1" using lt by simp
    then have "off div os + 1 \<le> (off + rem - 1) div os"
      using div_le_mono [of "off + l" "off + rem - 1" os] d by simp
    moreover have "length (cut_range os (off + l) (ro + l) (rem - l)) =
        (off + l + (rem - l) - 1) div os - (off + l) div os + 1"
      using lt l(2) by (intro less.IH) simp_all
    ultimately show ?thesis using l(1) lt d by simp
  qed
qed


lemma length_cut_le: "0 < os \<Longrightarrow> length (cut_range os off ro rem) \<le> rem"
proof (induction rem arbitrary: off ro rule: less_induct)
  case (less rem)
  show ?case
  proof (cases "rem = 0")
    case False
    then obtain l where l: "cut_range os off ro rem =
        (off div os, ro, off mod os, l) # cut_range os (off + l) (ro + l) (rem - l)" "0 < l" "l \<le> rem"
      using less.prems cut_step [of rem os off ro] by blast
    then have "length (cut_range os (off + l) (ro + l) (rem - l)) \<le> rem - l"
      using less False by simp
    then show ?thesis using l by simp
  qed (simp add: cut_range.simps)
qed

section \<open>The loop over machine words\<close>

definition extent_nat :: "object_extent \<Rightarrow> nat \<times> nat \<times> nat \<times> nat" where
  "extent_nat e = (unat (ox_object_seq e), unat (ox_request_offset e), unat (ox_object_offset e), unat (ox_length e))"

lemma unat_ucast_64_32_small: "unat (x :: u64) < 2 ^ 32 \<Longrightarrow> unat (ucast x :: u32) = unat x"
  by (simp add: unsigned_ucast_eq take_bit_nat_eq_self_iff)

lemma split_extent_nat:
  assumes "kr_object_size r \<noteq> 0" "remaining \<le> kr_byte_length r"
  shows "extent_nat (split_extent view r cur remaining) =
    (unat cur div unat (kr_object_size r), unat (kr_byte_length r) - unat remaining,
     unat cur mod unat (kr_object_size r),
     min (unat remaining) (unat (kr_object_size r) - unat cur mod unat (kr_object_size r)))"
proof -
  let ?os = "kr_object_size r"
  have pos: "0 < unat ?os" using assms(1) by (simp add: unat_gt_0)
  have m: "unat (cur mod ucast ?os) = unat cur mod unat ?os" by (simp add: unat_mod)
  have "unat cur mod unat ?os < unat ?os" using pos by simp
  moreover have "unat ?os < 2 ^ 32" using unat_u32_bound [of ?os] by simp
  ultimately have o: "unat (ucast (cur mod ucast ?os) :: u32) = unat cur mod unat ?os"
    by (subst unat_ucast_64_32_small) (simp_all add: m)
  have sub: "unat (?os - ucast (cur mod ucast ?os)) = unat ?os - unat cur mod unat ?os"
    using pos by (subst unat_sub) (simp_all add: word_le_nat_alt o less_imp_le)
  show ?thesis
    using assms(2)
    by (simp add: extent_nat_def split_extent_def Let_def unat_div o unat_sub word_le_nat_alt min_def sub)
qed

lemma split_loop_cut:
  assumes "kr_object_size r \<noteq> 0" "remaining \<le> kr_byte_length r"
    and "unat cur + unat remaining \<le> 2 ^ 64"
    and "length (kr_objects r) = unat (kr_max_object_extents r)"
    and "unat (kr_nr_objects r) + length (cut_range (unat (kr_object_size r)) (unat cur)
           (unat (kr_byte_length r) - unat remaining) (unat remaining)) \<le> unat (kr_max_object_extents r)"
  shows "\<exists>r'. split_loop view r cur remaining = (0, r') \<and>
     kr_nr_objects r' = kr_nr_objects r + of_nat (length (cut_range (unat (kr_object_size r)) (unat cur)
           (unat (kr_byte_length r) - unat remaining) (unat remaining))) \<and>
     map extent_nat (take (unat (kr_nr_objects r')) (kr_objects r')) =
       map extent_nat (take (unat (kr_nr_objects r)) (kr_objects r)) @
       cut_range (unat (kr_object_size r)) (unat cur)
           (unat (kr_byte_length r) - unat remaining) (unat remaining)"
  using assms
proof (induction view r cur remaining rule: split_loop.induct)
  case (1 view r cur remaining)
  let ?os = "unat (kr_object_size r)"
  show ?case
  proof (cases "remaining = 0")
    case True
    then show ?thesis by (subst split_loop.simps) (simp add: cut_range.simps)
  next
    case False
    define e where "e = split_extent view r cur remaining"
    define r1 where "r1 = kfastblock_request_track_unique_pg (ox_pg_id e)
                       (r \<lparr> kr_objects := (kr_objects r)[unat (kr_nr_objects r) := e] \<rparr>)"
    define r2 where "r2 = r1 \<lparr> kr_nr_objects := kr_nr_objects r1 + 1 \<rparr>"
    have pos: "0 < ?os" "0 < unat remaining"
      using 1(2) False by (simp_all add: unat_gt_0)
    have en: "extent_nat e = (unat cur div ?os, unat (kr_byte_length r) - unat remaining, unat cur mod ?os,
        min (unat remaining) (?os - unat cur mod ?os))"
      unfolding e_def by (rule split_extent_nat [OF 1(2,3)])
    define l where "l = unat (ox_length e)"
    have l: "l = min (unat remaining) (?os - unat cur mod ?os)" using en by (simp add: extent_nat_def l_def)
    let ?ro = "unat (kr_byte_length r) - unat remaining"
    let ?rest = "cut_range ?os (unat cur + l) (?ro + l) (unat remaining - l)"
    have lb: "0 < l" "l \<le> unat remaining" using pos by (simp_all add: l)
    have cut: "cut_range ?os (unat cur) ?ro (unat remaining) = extent_nat e # ?rest"
      using pos by (subst cut_range.simps) (simp add: Let_def en l)
    have room: "kr_nr_objects r < kr_max_object_extents r"
      using 1(6) cut by (simp add: word_less_nat_alt)
    have r2: "kr_nr_objects r2 = kr_nr_objects r + 1" "kr_objects r2 = (kr_objects r)[unat (kr_nr_objects r) := e]"
      "kr_object_size r2 = kr_object_size r" "kr_byte_length r2 = kr_byte_length r"
      "kr_max_object_extents r2 = kr_max_object_extents r"
      by (simp_all add: r2_def r1_def)
    have nr2: "unat (kr_nr_objects r2) = unat (kr_nr_objects r) + 1"
      using unat_inc_less [OF room] by (simp add: r2)
    have nle: "\<not> kr_max_object_extents r \<le> kr_nr_objects r" using room by (simp add: not_le)
    have step: "split_loop view r cur remaining =
        split_loop view r2 (cur + ucast (ox_length e)) (remaining - ox_length e)"
      using False nle by (subst split_loop.simps) (simp add: e_def r1_def r2_def Let_def)
    have rem: "unat (remaining - ox_length e) = unat remaining - l"
      using lb by (simp add: l_def unat_sub word_le_nat_alt)
    have "\<exists>r'. split_loop view r2 (cur + ucast (ox_length e)) (remaining - ox_length e) = (0, r') \<and>
        kr_nr_objects r' = kr_nr_objects r2 + of_nat (length ?rest) \<and>
        map extent_nat (take (unat (kr_nr_objects r')) (kr_objects r')) =
          map extent_nat (take (unat (kr_nr_objects r2)) (kr_objects r2)) @ ?rest"
    proof (cases "l = unat remaining")
      case True
      then have "remaining - ox_length e = 0" using rem by (simp add: unat_eq_zero)
      then show ?thesis using True by (subst split_loop.simps) (simp add: cut_range.simps)
    next
      case less: False
      then have cur: "unat (cur + ucast (ox_length e)) = unat cur + l"
        using 1(4) lb by (subst unat_add_lem [THEN iffD1]) (simp_all add: l_def)
      have ro: "unat (kr_byte_length r) - (unat remaining - l) = ?ro + l"
        using 1(3) lb by (simp add: word_le_nat_alt)
      note IH = 1(1) [OF False nle e_def r1_def, folded r2_def, unfolded r2(3-5) rem cur ro]
      have le: "remaining - ox_length e \<le> kr_byte_length r"
        using 1(3) rem by (simp add: word_le_nat_alt)
      have size: "unat cur + l + (unat remaining - l) \<le> 2 ^ 64" using 1(4) lb by simp
      have len: "length (kr_objects r2) = unat (kr_max_object_extents r)" using 1(5) by (simp add: r2(2))
      have fits: "unat (kr_nr_objects r2) + length ?rest \<le> unat (kr_max_object_extents r)"
        using 1(6) unfolding cut nr2 by simp
      show ?thesis by (rule IH [OF 1(2) le size len fits])
    qed
    moreover have "map extent_nat (take (unat (kr_nr_objects r2)) (kr_objects r2)) =
        map extent_nat (take (unat (kr_nr_objects r)) (kr_objects r)) @ [extent_nat e]"
      using room 1(5) by (simp add: nr2 r2(2) take_Suc_conv_app_nth word_less_nat_alt)
    ultimately show ?thesis
      unfolding step cut by (auto simp: r2(1) add.assoc)
  qed
qed


section \<open>The estimate\<close>

lemma estimate_cut:
  assumes "kr_byte_length r \<noteq> 0" "kr_object_size r \<noteq> 0"
    and "unat (kr_byte_offset r) + unat (kr_byte_length r) \<le> 2 ^ 64"
  shows "unat (kfastblock_request_estimate_extent_count r) =
         min 129 (length (cut_range (unat (kr_object_size r)) (unat (kr_byte_offset r)) 0 (unat (kr_byte_length r))))"
proof -
  let ?off = "unat (kr_byte_offset r)" and ?len = "unat (kr_byte_length r)" and ?os = "unat (kr_object_size r)"
  have pos: "0 < ?len" "0 < ?os" using assms(1,2) by (simp_all add: unat_gt_0)
  have "kr_byte_offset r + ucast (kr_byte_length r) - 1 = of_nat (?off + ?len - 1)"
    using pos by (simp add: of_nat_diff unat_ucast_32_64 [symmetric] del: unat_ucast_32_64)
  moreover have "unat (of_nat (?off + ?len - 1) :: u64) = ?off + ?len - 1"
    using assms(3) pos by (intro unat_of_nat_small) simp
  ultimately have lst: "unat ((kr_byte_offset r + ucast (kr_byte_length r) - 1) div ucast (kr_object_size r)) =
      (?off + ?len - 1) div ?os"
    by (simp add: unat_div)
  define a where "a = kr_byte_offset r div ucast (kr_object_size r)"
  define b where "b = (kr_byte_offset r + ucast (kr_byte_length r) - 1) div ucast (kr_object_size r)"
  have a: "unat a = ?off div ?os" by (simp add: a_def unat_div)
  have b: "unat b = (?off + ?len - 1) div ?os" using lst by (simp add: b_def)
  have ab: "a \<le> b" using pos by (simp add: word_le_nat_alt a b div_le_mono)
  then have d: "unat (b - a) = unat b - unat a" by (simp add: unat_sub word_le_nat_alt)
  have len: "length (cut_range ?os ?off 0 ?len) = unat b - unat a + 1"
    using length_cut [OF pos] by (simp add: a b)
  have "unat b - unat a < 2 ^ 32"
    using length_cut_le [OF pos(2), of ?off 0 ?len] len unat_u32_bound [of "kr_byte_length r"] by simp
  then have s: "unat (b - a + 1) = unat b - unat a + 1"
    using unat_inc [of "b - a"] by (simp add: d)
  show ?thesis
    using assms(1,2) ab s unfolding len
    by (auto simp: kfastblock_request_estimate_extent_count_def Let_def simp flip: a_def b_def)
      (auto simp: word_less_nat_alt unat_ucast_64_32_small min_def)
qed


lemma split_loop_keeps:
  "kr_max_object_extents (snd (split_loop view r cur remaining)) = kr_max_object_extents r"
proof (induction view r cur remaining rule: split_loop.induct)
  case (1 view r cur remaining)
  show ?case
    by (subst split_loop.simps) (use 1 in \<open>auto simp: Let_def\<close>)
qed

lemma split_loop_pool:
  "kr_pool_id (snd (split_loop view r cur remaining)) = kr_pool_id r"
proof (induction view r cur remaining rule: split_loop.induct)
  case (1 view r cur remaining)
  show ?case
    by (subst split_loop.simps) (use 1 in \<open>auto simp: Let_def\<close>)
qed

section \<open>Setting up\<close>

definition fresh_request :: "blk_request \<Rightarrow> cluster_view \<Rightarrow> request" where
  "fresh_request rq view =
     zero_request \<lparr> kr_rq := Some rq, kr_has_vol := True,
       kr_byte_offset := push_bit 9 (br_pos rq), kr_byte_length := br_bytes rq,
       kr_pool_id := ii_pool_id (cv_image view), kr_object_size := ii_object_size (cv_image view),
       kr_osdmap_epoch := cv_osdmap_epoch view, kr_pgmap_epoch := cv_pgmap_epoch view \<rparr>"

lemma cleanup_view [simp]: "v_view (fst (kfastblock_request_cleanup vr)) = v_view (fst vr)"
  by (simp add: kfastblock_request_cleanup_def kfastblock_volume_reset_pipeline_snapshot_def
      kfastblock_volume_account_pipeline_cleanup_def split: prod.split)

lemma alloc_state_ok:
  assumes "kfastblock_request_alloc_state al r0 = (0, r, al')" "kr_max_object_extents r0 = 0"
    "kr_objects r0 = []" "kr_unique_pgs r0 = []" "kr_pg_hints r0 = []" "kr_object_runtime r0 = []"
  shows "kr_max_object_extents r = kfastblock_request_estimate_extent_count r0 \<and>
    kr_max_object_extents r \<le> 128 \<and>
    r = r0 \<lparr> kr_unique_pgs := replicate (unat (kr_max_object_extents r)) 0,
             kr_pg_hints := replicate (unat (kr_max_object_extents r)) zero_hint,
             kr_objects := replicate (unat (kr_max_object_extents r)) zero_extent,
             kr_object_runtime := replicate (unat (kr_max_object_extents r)) zero_runtime,
             kr_max_object_extents := kr_max_object_extents r \<rparr>"
  using assms
  by (auto simp: kfastblock_request_alloc_state_def Let_def split: prod.splits if_splits)

lemma init_result:
  assumes "kfastblock_request_init now al rq vr = (0, vol, r)"
  defines "r0 \<equiv> fresh_request rq (v_view (fst vr))"
  shows "kr_rq r = Some rq" "kr_has_vol r" "kr_byte_offset r = push_bit 9 (br_pos rq)"
    "kr_byte_length r = br_bytes rq" "kr_object_size r = ii_object_size (cv_image (v_view (fst vr)))"
    "kr_pool_id r = ii_pool_id (cv_image (v_view (fst vr)))"
    "kr_nr_objects r = 0" "kr_nr_unique_pgs r = 0"
    "kr_max_object_extents r = kfastblock_request_estimate_extent_count r0"
    "kr_max_object_extents r \<le> 128"
    "length (kr_objects r) = unat (kr_max_object_extents r)"
    "length (kr_unique_pgs r) = unat (kr_max_object_extents r)"
    "length (kr_pg_hints r) = unat (kr_max_object_extents r)"
    "length (kr_object_runtime r) = unat (kr_max_object_extents r)"
proof -
  obtain vol0 x where c: "kfastblock_request_cleanup vr = (vol0, x)" by fastforce
  then have v: "v_view vol0 = v_view (fst vr)" using cleanup_view [of vr] by simp
  obtain ret r1 al1 where a: "kfastblock_request_alloc_state al r0 = (ret, r1, al1)" by (metis prod_cases3)
  have ret: "ret = 0"
    using assms(1) a by (auto simp: kfastblock_request_init_def c v r0_def fresh_request_def split: if_splits)
  have r: "r = r1 \<lparr> kr_pipeline := kr_pipeline r, kr_dispatch_window := kr_dispatch_window r,
      kr_next_object_to_queue := 0, kr_pending_objects := 0, kr_pg_hints := kr_pg_hints r \<rparr>"
    "length (kr_pg_hints r) = length (kr_pg_hints r1)"
    using assms(1) a ret
    by (auto simp: kfastblock_request_init_def c v r0_def fresh_request_def Let_def
        split: if_splits prod.splits)
  have selr: "f r = f (r1 \<lparr> kr_pipeline := kr_pipeline r, kr_dispatch_window := kr_dispatch_window r,
      kr_next_object_to_queue := 0, kr_pending_objects := 0, kr_pg_hints := kr_pg_hints r \<rparr>)"
    for f :: "request \<Rightarrow> 'x"
    using r(1) by (rule arg_cong)
  have e: "kr_max_object_extents r0 = 0" "kr_objects r0 = []" "kr_unique_pgs r0 = []"
    "kr_pg_hints r0 = []" "kr_object_runtime r0 = []"
    by (simp_all add: r0_def fresh_request_def zero_request_def)
  have r1: "kr_max_object_extents r1 = kfastblock_request_estimate_extent_count r0"
    "kr_max_object_extents r1 \<le> 128"
    "r1 = r0 \<lparr> kr_unique_pgs := replicate (unat (kr_max_object_extents r1)) 0,
             kr_pg_hints := replicate (unat (kr_max_object_extents r1)) zero_hint,
             kr_objects := replicate (unat (kr_max_object_extents r1)) zero_extent,
             kr_object_runtime := replicate (unat (kr_max_object_extents r1)) zero_runtime,
             kr_max_object_extents := kr_max_object_extents r1 \<rparr>"
    using alloc_state_ok [OF a [unfolded ret] e] by blast+
  have sel: "f r1 = f (r0 \<lparr> kr_unique_pgs := replicate (unat (kr_max_object_extents r1)) 0,
             kr_pg_hints := replicate (unat (kr_max_object_extents r1)) zero_hint,
             kr_objects := replicate (unat (kr_max_object_extents r1)) zero_extent,
             kr_object_runtime := replicate (unat (kr_max_object_extents r1)) zero_runtime,
             kr_max_object_extents := kr_max_object_extents r1 \<rparr>)" for f :: "request \<Rightarrow> 'x"
    using r1(3) by (rule arg_cong)
  show "kr_rq r = Some rq" "kr_has_vol r" "kr_byte_offset r = push_bit 9 (br_pos rq)"
    "kr_byte_length r = br_bytes rq" "kr_object_size r = ii_object_size (cv_image (v_view (fst vr)))"
    "kr_pool_id r = ii_pool_id (cv_image (v_view (fst vr)))"
    using sel [of kr_rq] sel [of kr_has_vol] sel [of kr_byte_offset] sel [of kr_byte_length]
      sel [of kr_object_size] sel [of kr_pool_id] selr [of kr_rq] selr [of kr_has_vol]
      selr [of kr_byte_offset] selr [of kr_byte_length] selr [of kr_object_size] selr [of kr_pool_id]
    by (simp_all add: r0_def fresh_request_def)
  show "kr_nr_objects r = 0" "kr_nr_unique_pgs r = 0"
    using sel [of kr_nr_objects] sel [of kr_nr_unique_pgs] selr [of kr_nr_objects] selr [of kr_nr_unique_pgs]
    by (simp_all add: r0_def fresh_request_def zero_request_def)
  have mx: "kr_max_object_extents r = kr_max_object_extents r1" using selr [of kr_max_object_extents] by simp
  then show "kr_max_object_extents r = kfastblock_request_estimate_extent_count r0"
    "kr_max_object_extents r \<le> 128" using r1(1,2) by simp_all
  show "length (kr_objects r) = unat (kr_max_object_extents r)"
    "length (kr_unique_pgs r) = unat (kr_max_object_extents r)"
    "length (kr_pg_hints r) = unat (kr_max_object_extents r)"
    "length (kr_object_runtime r) = unat (kr_max_object_extents r)"
    using sel [of kr_objects] sel [of kr_unique_pgs] sel [of kr_pg_hints] sel [of kr_object_runtime]
      selr [of kr_objects] selr [of kr_unique_pgs] selr [of kr_object_runtime] r(2)
    by (simp_all add: mx)
qed


lemma capture_keeps_objects:
  assumes "kfastblock_request_capture_pg_hints view al r = (ret, r')"
  shows "kr_objects r' = kr_objects r" "kr_nr_objects r' = kr_nr_objects r"
    "kr_unique_pgs r' = kr_unique_pgs r" "kr_nr_unique_pgs r' = kr_nr_unique_pgs r"
    "kr_max_object_extents r' = kr_max_object_extents r" "kr_object_runtime r' = kr_object_runtime r"
  using assms by (auto simp: kfastblock_request_capture_pg_hints_def Let_def split: prod.splits)

lemma estimate_fresh:
  assumes "kr_byte_offset r = push_bit 9 (br_pos rq)" "kr_byte_length r = br_bytes rq"
    "kr_object_size r = ii_object_size (cv_image view)"
  shows "kfastblock_request_estimate_extent_count (fresh_request rq view) =
         kfastblock_request_estimate_extent_count r"
  using assms by (simp add: kfastblock_request_estimate_extent_count_def fresh_request_def)

lemma unat_sector:
  assumes "unat (p :: u64) * 512 + n \<le> 2 ^ 64" "0 < n"
  shows "unat (push_bit 9 p) = unat p * 512"
proof -
  have "push_bit 9 p = p * 512" by (simp add: push_bit_eq_mult)
  moreover have "unat (p * 512) = unat p * unat (512 :: u64)"
    using assms by (intro unat_mult_lem [THEN iffD1]) simp
  ultimately show ?thesis by simp
qed

lemma split_loop_init:
  assumes init: "kfastblock_request_init now al rq vr = (0, vol, r)"
    and os: "kr_object_size r \<noteq> 0"
    and range: "unat (kr_byte_offset r) + unat (kr_byte_length r) \<le> 2 ^ 64"
  shows "\<exists>r'. split_loop view r (kr_byte_offset r) (kr_byte_length r) = (0, r') \<and>
     kr_nr_objects r' = kr_max_object_extents r \<and>
     map extent_nat (take (unat (kr_nr_objects r')) (kr_objects r')) =
       cut_range (unat (kr_object_size r)) (unat (kr_byte_offset r)) 0 (unat (kr_byte_length r))"
proof -
  note ir = init_result [OF init]
  let ?c = "cut_range (unat (kr_object_size r)) (unat (kr_byte_offset r)) 0 (unat (kr_byte_length r))"
  have est: "kr_max_object_extents r = kfastblock_request_estimate_extent_count r"
    using ir(9) estimate_fresh [OF ir(3-5)] by simp
  have c: "unat (kr_max_object_extents r) = length ?c"
  proof (cases "kr_byte_length r = 0")
    case True
    then show ?thesis by (simp add: est kfastblock_request_estimate_extent_count_def cut_range.simps)
  next
    case False
    have "unat (kr_max_object_extents r) \<le> 128" using ir(10) by (simp add: word_le_nat_alt)
    then show ?thesis using estimate_cut [OF False os range] est by simp
  qed
  then have "of_nat (length ?c) = kr_max_object_extents r" by (metis of_nat_unat ucast_id)
  then show ?thesis
    using split_loop_cut [OF os order_refl range ir(11), of view] ir(7) c by simp
qed

section \<open>Placement groups of a request\<close>

definition pgs_ok :: "request \<Rightarrow> bool" where
  "pgs_ok r \<longleftrightarrow>
     length (kr_objects r) = unat (kr_max_object_extents r) \<and>
     length (kr_unique_pgs r) = unat (kr_max_object_extents r) \<and>
     length (kr_pg_hints r) = unat (kr_max_object_extents r) \<and>
     kr_nr_unique_pgs r \<le> kr_nr_objects r \<and> kr_nr_objects r \<le> kr_max_object_extents r \<and>
     distinct (take (unat (kr_nr_unique_pgs r)) (kr_unique_pgs r)) \<and>
     map ph_pg_id (take (unat (kr_nr_unique_pgs r)) (kr_pg_hints r)) =
       take (unat (kr_nr_unique_pgs r)) (kr_unique_pgs r) \<and>
     set (take (unat (kr_nr_unique_pgs r)) (kr_unique_pgs r)) =
       ox_pg_id ` set (take (unat (kr_nr_objects r)) (kr_objects r))"

lemma track_pgs_ok:
  fixes e :: object_extent
  assumes ok: "pgs_ok r" and room: "kr_nr_objects r < kr_max_object_extents r"
  defines "r1 \<equiv> kfastblock_request_track_unique_pg (ox_pg_id e)
                   (r \<lparr> kr_objects := (kr_objects r)[unat (kr_nr_objects r) := e] \<rparr>)"
  shows "pgs_ok (r1 \<lparr> kr_nr_objects := kr_nr_objects r1 + 1 \<rparr>)"
proof -
  let ?n = "unat (kr_nr_unique_pgs r)" and ?k = "unat (kr_nr_objects r)"
  have k: "unat (kr_nr_objects r + 1) = ?k + 1" by (rule unat_inc_less [OF room])
  have nk: "?n \<le> ?k" "?k < length (kr_objects r)" "length (kr_unique_pgs r) = length (kr_objects r)"
    "length (kr_pg_hints r) = length (kr_objects r)"
    using ok room by (simp_all add: pgs_ok_def word_le_nat_alt word_less_nat_alt)
  have objs: "take (?k + 1) ((kr_objects r)[?k := e]) = take ?k (kr_objects r) @ [e]"
    using nk by (simp add: take_Suc_conv_app_nth)
  show ?thesis
  proof (cases "ox_pg_id e \<in> set (take ?n (kr_unique_pgs r))")
    case True
    then have "r1 = r \<lparr> kr_objects := (kr_objects r)[?k := e] \<rparr>"
      by (simp add: r1_def kfastblock_request_track_unique_pg_def)
    moreover have "kr_nr_unique_pgs r \<le> kr_nr_objects r + 1" using nk k by (simp add: word_le_nat_alt)
    ultimately show ?thesis
      using ok True objs k inc_le [OF room] by (simp add: pgs_ok_def insert_absorb)
  next
    case False
    have lt: "kr_nr_unique_pgs r < kr_max_object_extents r"
      using ok room by (auto simp: pgs_ok_def)
    have n: "unat (kr_nr_unique_pgs r + 1) = ?n + 1" by (rule unat_inc_less [OF lt])
    have r1: "r1 = r \<lparr> kr_objects := (kr_objects r)[?k := e],
        kr_unique_pgs := (kr_unique_pgs r)[?n := ox_pg_id e],
        kr_nr_unique_pgs := kr_nr_unique_pgs r + 1,
        kr_pg_hints := (kr_pg_hints r)[?n := (kr_pg_hints r ! ?n) \<lparr> ph_pg_id := ox_pg_id e,
          ph_nr_targets := 0, ph_leader_valid := False, ph_targets := [] \<rparr>] \<rparr>"
      using False lt by (simp add: r1_def kfastblock_request_track_unique_pg_def Let_def not_le)
    have "kr_nr_unique_pgs r + 1 \<le> kr_nr_objects r + 1" using nk k n by (simp add: word_le_nat_alt)
    moreover have "take (?n + 1) ((kr_unique_pgs r)[?n := ox_pg_id e]) =
        take ?n (kr_unique_pgs r) @ [ox_pg_id e]"
      using nk by (simp add: take_Suc_conv_app_nth)
    moreover have "map ph_pg_id (take (?n + 1) ((kr_pg_hints r)[?n := h])) =
        map ph_pg_id (take ?n (kr_pg_hints r)) @ [ph_pg_id h]" for h
      using nk by (simp add: take_Suc_conv_app_nth)
    ultimately show ?thesis
      using ok False objs k n inc_le [OF room] nk by (simp add: pgs_ok_def r1)
  qed
qed

lemma split_loop_pgs_ok: "pgs_ok r \<Longrightarrow> pgs_ok (snd (split_loop view r cur remaining))"
proof (induction view r cur remaining rule: split_loop.induct)
  case (1 view r cur remaining)
  show ?case
  proof (cases "remaining = 0 \<or> kr_max_object_extents r \<le> kr_nr_objects r")
    case True
    then show ?thesis using 1(2) by (subst split_loop.simps) auto
  next
    case False
    then have room: "kr_nr_objects r < kr_max_object_extents r" by (simp add: not_le)
    note IH = 1(1) [OF _ _ refl refl track_pgs_ok [OF 1(2) room, of "split_extent view r cur remaining"]]
    show ?thesis using False IH by (subst split_loop.simps) (auto simp: Let_def)
  qed
qed

lemma calc_pg_bound: "n \<noteq> 0 \<Longrightarrow> kfastblock_request_calc_pg name n < n"
  by (simp add: kfastblock_request_calc_pg_def word_mod_less_divisor word_gt_0)

definition extents_placed :: "cluster_view \<Rightarrow> request \<Rightarrow> bool" where
  "extents_placed view r \<longleftrightarrow>
     (\<forall>e \<in> set (take (unat (kr_nr_objects r)) (kr_objects r)).
        ox_object_name e = kfastblock_request_build_object_name 192 (kr_pool_id r)
          (ii_image_name (cv_image view)) (ox_object_seq e) \<and>
        ox_pg_id e = kfastblock_request_calc_pg (ox_object_name e) (ii_pg_count (cv_image view)))"

lemma track_placed:
  fixes view r cur remaining
  assumes ok: "extents_placed view r" and len: "length (kr_objects r) = unat (kr_max_object_extents r)"
    and room: "kr_nr_objects r < kr_max_object_extents r"
  defines "e \<equiv> split_extent view r cur remaining"
  defines "r1 \<equiv> kfastblock_request_track_unique_pg (ox_pg_id e)
                   (r \<lparr> kr_objects := (kr_objects r)[unat (kr_nr_objects r) := e] \<rparr>)"
  shows "extents_placed view (r1 \<lparr> kr_nr_objects := kr_nr_objects r1 + 1 \<rparr>)"
proof -
  have k: "unat (kr_nr_objects r + 1) = unat (kr_nr_objects r) + 1"
    "unat (kr_nr_objects r) < length (kr_objects r)"
    using unat_inc_less [OF room] room len by (simp_all add: word_less_nat_alt)
  have "take (unat (kr_nr_objects r) + 1) ((kr_objects r)[unat (kr_nr_objects r) := e]) =
      take (unat (kr_nr_objects r)) (kr_objects r) @ [e]"
    using k by (simp add: take_Suc_conv_app_nth)
  moreover have "ox_object_name e = kfastblock_request_build_object_name 192 (kr_pool_id r)
        (ii_image_name (cv_image view)) (ox_object_seq e)"
    "ox_pg_id e = kfastblock_request_calc_pg (ox_object_name e) (ii_pg_count (cv_image view))"
    by (simp_all add: e_def split_extent_def Let_def)
  ultimately show ?thesis using ok by (simp add: extents_placed_def r1_def k)
qed

lemma split_loop_placed:
  "extents_placed view r \<Longrightarrow> length (kr_objects r) = unat (kr_max_object_extents r)
   \<Longrightarrow> extents_placed view (snd (split_loop view r cur remaining))"
proof (induction view r cur remaining rule: split_loop.induct)
  case (1 view r cur remaining)
  show ?case
  proof (cases "remaining = 0 \<or> kr_max_object_extents r \<le> kr_nr_objects r")
    case True
    then show ?thesis using 1(2) by (subst split_loop.simps) auto
  next
    case False
    then have room: "kr_nr_objects r < kr_max_object_extents r" by (simp add: not_le)
    note IH = 1(1) [OF _ _ refl refl track_placed [OF 1(2,3) room]]
    show ?thesis using False IH 1(3) by (subst split_loop.simps) (auto simp: Let_def)
  qed
qed

section \<open>Object names\<close>

lemma object_name_full:
  assumes "length image_name < 128"
  shows "kfastblock_request_build_object_name 192 pool_id image_name object_seq =
    print_num 10 (unat pool_id) @ ''__blk_data___'' @ image_name @ print_num 10 (unat object_seq)"
proof -
  have "length (print_num 10 (unat pool_id)) \<le> 10"
    using unat_u32_bound [of pool_id] by (intro print_num_length) simp_all
  moreover have "length (print_num 10 (unat object_seq)) \<le> 20"
    using unat_u64_bound [of object_seq] by (intro print_num_length) simp_all
  ultimately show ?thesis
    using assms by (simp add: kfastblock_request_build_object_name_def)
qed

lemma digits_prefix:
  assumes "\<forall>c \<in> set xs. P c" "\<forall>c \<in> set ys. P c" "\<not> P s" "xs @ s # us = ys @ s # vs"
  shows "xs = ys \<and> us = vs"
proof -
  have "takeWhile P (xs @ s # us) = xs" "takeWhile P (ys @ s # vs) = ys"
    using assms(1-3) by (simp_all add: takeWhile_tail)
  then show ?thesis using assms(4) by auto
qed

section \<open>Properties\<close>

text \<open>
  C2. Splitting is exact: read in order, the bytes of the extents are the bytes \<open>0, 1, ...\<close> of the
  request, each assigned to object \<open>(offset + p) div object_size\<close> at \<open>(offset + p) mod object_size\<close>;
  nothing is lost, duplicated or reordered, and the arrays sized by the estimate are filled exactly.
\<close>

theorem request_split_exact:
  assumes "kfastblock_request_init now al rq vr = (0, vol, r)"
    and "kfastblock_request_split view al' r = (ret, r')"
    and "ii_object_size (cv_image (v_view (fst vr))) \<noteq> 0" "ii_pg_count (cv_image view) \<noteq> 0"
    and "0 < br_bytes rq" "unat (br_pos rq) * 512 + unat (br_bytes rq) \<le> 2 ^ 64"
  shows "let off = unat (br_pos rq) * 512; os = unat (ii_object_size (cv_image (v_view (fst vr))));
             extents = take (unat (kr_nr_objects r')) (kr_objects r')
         in concat (map (\<lambda>e. extent_bytes (extent_nat e)) extents) =
              map (\<lambda>p. (p, (off + p) div os, (off + p) mod os)) [0..<unat (br_bytes rq)] \<and>
            length extents = (off + unat (br_bytes rq) - 1) div os - off div os + 1 \<and>
            kr_nr_objects r' = kr_max_object_extents r'"
proof -
  note ir = init_result [OF assms(1)]
  let ?os = "unat (ii_object_size (cv_image (v_view (fst vr))))"
  have off: "unat (kr_byte_offset r) = unat (br_pos rq) * 512"
    using unat_sector [OF assms(6)] assms(5) by (simp add: ir(3) word_less_nat_alt)
  have os: "kr_object_size r \<noteq> 0" "0 < ?os" using assms(3) by (simp_all add: ir(5) unat_gt_0)
  have range: "unat (kr_byte_offset r) + unat (kr_byte_length r) \<le> 2 ^ 64"
    using assms(6) by (simp add: off ir(4))
  obtain r1 where r1: "split_loop view r (kr_byte_offset r) (kr_byte_length r) = (0, r1)"
    "kr_nr_objects r1 = kr_max_object_extents r"
    "map extent_nat (take (unat (kr_nr_objects r1)) (kr_objects r1)) =
       cut_range ?os (unat (br_pos rq) * 512) 0 (unat (br_bytes rq))"
    using split_loop_init [OF assms(1) os(1) range, of view] unfolding off ir(4,5) by blast
  have mx: "kr_max_object_extents r1 = kr_max_object_extents r"
    using split_loop_keeps [of view r "kr_byte_offset r" "kr_byte_length r"] r1(1) by simp
  have "kfastblock_request_capture_pg_hints view al' r1 = (ret, r')"
    using assms(2,4) os(1) r1(1) ir(1,2) by (simp add: kfastblock_request_split_def)
  note keep = capture_keeps_objects [OF this]
  let ?ex = "take (unat (kr_nr_objects r')) (kr_objects r')"
  have m: "map extent_nat ?ex = cut_range ?os (unat (br_pos rq) * 512) 0 (unat (br_bytes rq))"
    using r1(3) by (simp add: keep)
  have "concat (map (\<lambda>e. extent_bytes (extent_nat e)) ?ex) = concat (map extent_bytes (map extent_nat ?ex))"
    by (simp add: o_def)
  moreover have "length ?ex = length (map extent_nat ?ex)" by simp
  ultimately show ?thesis
    unfolding m Let_def using cut_bytes [OF os(2), of "unat (br_pos rq) * 512" 0 "unat (br_bytes rq)"]
      length_cut [OF _ os(2), of "unat (br_bytes rq)" "unat (br_pos rq) * 512" 0] assms(5) keep r1(2) mx
    by (simp add: word_less_nat_alt)
qed


lemma init_extent_code:
  assumes "ii_object_size (cv_image (v_view (fst vr))) \<noteq> 0"
    and "0 < br_bytes rq" "unat (br_pos rq) * 512 + unat (br_bytes rq) \<le> 2 ^ 64"
  shows "let off = unat (br_pos rq) * 512; os = unat (ii_object_size (cv_image (v_view (fst vr))))
         in fst (kfastblock_request_init now [] rq vr) =
              (if 128 < (off + unat (br_bytes rq) - 1) div os - off div os + 1 then - E2BIG else 0)"
proof -
  let ?r = "fresh_request rq (v_view (fst vr))"
  let ?os = "unat (ii_object_size (cv_image (v_view (fst vr))))" and ?off = "unat (br_pos rq) * 512"
  have pos: "0 < unat (br_bytes rq)" "0 < ?os" using assms(1,2) by (simp_all add: unat_gt_0 word_less_nat_alt)
  have fields: "kr_byte_offset ?r = push_bit 9 (br_pos rq)" "kr_byte_length ?r = br_bytes rq"
    "kr_object_size ?r = ii_object_size (cv_image (v_view (fst vr)))" "kr_max_object_extents ?r = 0"
    by (simp_all add: fresh_request_def zero_request_def)
  have off: "unat (kr_byte_offset ?r) = ?off"
    using unat_sector [OF assms(3) pos(1)] by (simp add: fields)
  have est: "unat (kfastblock_request_estimate_extent_count ?r) =
      min 129 ((?off + unat (br_bytes rq) - 1) div ?os - ?off div ?os + 1)"
    using estimate_cut [of ?r] length_cut [OF pos, of ?off 0] assms off pos by (simp add: fields)
  obtain vol0 x where c: "kfastblock_request_cleanup vr = (vol0, x)" by fastforce
  then have v: "v_view vol0 = v_view (fst vr)" using cleanup_view [of vr] by simp
  have init: "fst (kfastblock_request_init now [] rq vr) = fst (kfastblock_request_alloc_state [] ?r)"
    by (auto simp: kfastblock_request_init_def c v fresh_request_def kfastblock_pipeline_init_def
        kalloc_def kfastblock_request_alloc_state_def Let_def split: prod.split)
  have "128 < kfastblock_request_estimate_extent_count ?r \<longleftrightarrow>
      128 < (?off + unat (br_bytes rq) - 1) div ?os - ?off div ?os + 1"
    using est by (simp add: word_less_nat_alt)
  then show ?thesis
    by (auto simp: init kfastblock_request_alloc_state_def kalloc_def Let_def)
qed


text \<open>
  C15. After a split every extent carries the name and the placement group of its object, the group
  is below the pool's group count, and the request's list of groups has each of them exactly once,
  in step with the leader hints.
\<close>

theorem request_placement:
  assumes "kfastblock_request_init now al rq vr = (0, vol, r)"
    and "kfastblock_request_split view al' r = (0, r')"
  shows "let extents = take (unat (kr_nr_objects r')) (kr_objects r');
             pgs = take (unat (kr_nr_unique_pgs r')) (kr_unique_pgs r')
         in (\<forall>e \<in> set extents.
               ox_object_name e = kfastblock_request_build_object_name 192 (kr_pool_id r)
                 (ii_image_name (cv_image view)) (ox_object_seq e) \<and>
               ox_pg_id e = kfastblock_request_calc_pg (ox_object_name e) (ii_pg_count (cv_image view)) \<and>
               ox_pg_id e < ii_pg_count (cv_image view)) \<and>
            distinct pgs \<and> set pgs = ox_pg_id ` set extents"
proof -
  note ir = init_result [OF assms(1)]
  have pg: "ii_pg_count (cv_image view) \<noteq> 0"
    using assms(2) by (auto simp: kfastblock_request_split_def split: if_splits)
  obtain ret r1 where r1: "split_loop view r (kr_byte_offset r) (kr_byte_length r) = (ret, r1)" by fastforce
  have cap: "kfastblock_request_capture_pg_hints view al' r1 = (0, r')"
    using assms(2) r1 by (auto simp: kfastblock_request_split_def split: if_splits)
  note keep = capture_keeps_objects [OF cap]
  have "pgs_ok r" using ir by (simp add: pgs_ok_def)
  then have ok: "pgs_ok r1" using split_loop_pgs_ok [of r view "kr_byte_offset r" "kr_byte_length r"] r1 by simp
  have "extents_placed view r" using ir by (simp add: extents_placed_def)
  then have placed: "extents_placed view r1"
    using split_loop_placed [of view r "kr_byte_offset r" "kr_byte_length r"] r1 ir(11) by simp
  have pool: "kr_pool_id r1 = kr_pool_id r"
    using split_loop_pool [of view r "kr_byte_offset r" "kr_byte_length r"] r1 by simp
  show ?thesis
    using ok placed calc_pg_bound [OF pg]
    by (auto simp: keep Let_def pgs_ok_def extents_placed_def pool)
qed


text \<open>
  Names of different images are not separated: the decimal object number follows the image name
  directly, so a trailing digit of the image name and a leading digit of the number are
  indistinguishable.
\<close>

lemma object_name_collision:
  "kfastblock_request_build_object_name 192 p ''vol1'' 23 =
   kfastblock_request_build_object_name 192 p ''vol12'' 3"
proof -
  have "print_num 10 23 = ''23''" "print_num 10 3 = ''3''" by code_simp+
  then show ?thesis by (simp add: object_name_full)
qed


section \<open>Witnesses\<close>

definition split_view :: cluster_view where
  "split_view = demo_view
     \<lparr> cv_image := \<lparr> ii_pool_name = ''rbd'', ii_image_name = ''vol1'', ii_size_bytes = 1048576,
         ii_block_size = 4096, ii_object_size = 4096, ii_pool_id = 2, ii_pg_count = 1,
         ii_read_only = False \<rparr> \<rparr>"

definition split_rq :: blk_request where
  "split_rq = \<lparr> br_pos = 1, br_bytes = 8192, br_op = REQ_OP_WRITE, br_passthrough = False \<rparr>"

definition split_start :: "volume \<times> request" where
  "split_start = ((init_volume 0) \<lparr> v_view := split_view \<rparr>, zero_request)"

lemma split_start_init: "fst (kfastblock_request_init 5 [] split_rq split_start) = 0"
  by code_simp

lemma capture_demo:
  "\<forall>h \<in> set hs. ph_pg_id h = 0 \<Longrightarrow> fst (capture_loop split_view 2 [] hs) = 0"
proof (induction hs)
  case (Cons h hs)
  have r: "kfastblock_meta_find_pg_route split_view 2 0 = Some 2" by code_simp
  have v: "cv_routes split_view ! 2 = demo_route 2 0" by code_simp
  have t: "fst (capture_targets split_view 2 0 [5]) = 0" by code_simp
  have "\<exists>h'. capture_hint split_view 2 [] h = (0, h', [])"
    using Cons.prems t
    by (auto simp: capture_hint_def r v demo_route_def kalloc_def split: prod.splits)
  then show ?case using Cons by (auto split: prod.splits)
qed simp

lemma split_start_split:
  assumes "kfastblock_request_init 5 [] split_rq split_start = (0, vol, r)"
  shows "fst (kfastblock_request_split split_view [] r) = 0"
proof -
  note ir = init_result [OF assms]
  have f: "kr_object_size r = 4096" "kr_byte_length r = 8192" "kr_byte_offset r = 512" "kr_pool_id r = 2"
    using ir(3-6) by (simp_all add: split_start_def split_view_def split_rq_def)
  obtain r1 where r1: "split_loop split_view r (kr_byte_offset r) (kr_byte_length r) = (0, r1)"
    using split_loop_init [OF assms] f by auto
  have "pgs_ok r" "extents_placed split_view r" using ir by (simp_all add: pgs_ok_def extents_placed_def)
  then have ok: "pgs_ok r1" "extents_placed split_view r1"
    using split_loop_pgs_ok [of r split_view "kr_byte_offset r" "kr_byte_length r"]
      split_loop_placed [of split_view r "kr_byte_offset r" "kr_byte_length r"] r1 ir(11) by simp_all
  have "ox_pg_id e = 0" if "e \<in> set (take (unat (kr_nr_objects r1)) (kr_objects r1))" for e
    using ok(2) that by (simp add: extents_placed_def kfastblock_request_calc_pg_def split_view_def)
  then have "set (map ph_pg_id (take (unat (kr_nr_unique_pgs r1)) (kr_pg_hints r1))) \<subseteq> {0}"
    using ok(1) unfolding pgs_ok_def by auto
  then have "fst (capture_loop split_view 2 [] (take (unat (kr_nr_unique_pgs r1)) (kr_pg_hints r1))) = 0"
    by (intro capture_demo) auto
  moreover have "kr_pool_id r1 = 2"
    using split_loop_pool [of split_view r "kr_byte_offset r" "kr_byte_length r"] r1 f by simp
  ultimately have "fst (kfastblock_request_capture_pg_hints split_view [] r1) = 0"
    by (auto simp: kfastblock_request_capture_pg_hints_def Let_def split: prod.splits)
  moreover have "ii_pg_count (cv_image split_view) = 1" by (simp add: split_view_def)
  ultimately show ?thesis
    using r1 ir(1,2) f(1) by (simp add: kfastblock_request_split_def)
qed

lemma split_start_cases:
  obtains vol r r' where "kfastblock_request_init 5 [] split_rq split_start = (0, vol, r)"
    "kfastblock_request_split split_view [] r = (0, r')"
  using split_start_init split_start_split by (metis prod.collapse)

theorem request_split_exact_witness:
  "\<exists>vol r r'. kfastblock_request_init 5 [] split_rq split_start = (0, vol, r) \<and>
     kfastblock_request_split split_view [] r = (0, r') \<and>
     length (take (unat (kr_nr_objects r')) (kr_objects r')) = 3 \<and>
     concat (map (\<lambda>e. extent_bytes (extent_nat e)) (take (unat (kr_nr_objects r')) (kr_objects r'))) =
       map (\<lambda>p. (p, (512 + p) div 4096, (512 + p) mod 4096)) [0..<8192]"
proof -
  obtain vol r r' where i: "kfastblock_request_init 5 [] split_rq split_start = (0, vol, r)"
    and s: "kfastblock_request_split split_view [] r = (0, r')"
    by (rule split_start_cases)
  have "ii_object_size (cv_image (v_view (fst split_start))) = 4096" "br_bytes split_rq = 8192"
    "br_pos split_rq = 1" "ii_pg_count (cv_image split_view) = 1"
    by (simp_all add: split_start_def split_view_def split_rq_def)
  then show ?thesis
    using request_split_exact [OF i s] i s by (auto simp del: upt_Suc simp: Let_def)
qed


theorem request_placement_witness:
  "\<exists>vol r r'. kfastblock_request_init 5 [] split_rq split_start = (0, vol, r) \<and>
     kfastblock_request_split split_view [] r = (0, r') \<and>
     distinct (take (unat (kr_nr_unique_pgs r')) (kr_unique_pgs r'))"
proof -
  obtain vol r r' where i: "kfastblock_request_init 5 [] split_rq split_start = (0, vol, r)"
    and s: "kfastblock_request_split split_view [] r = (0, r')"
    by (rule split_start_cases)
  then show ?thesis using request_placement [OF i s] by (auto simp: Let_def)
qed


end
