(* ===== verification/KFB_Objects.thy ===== *)
theory KFB_Objects
  imports KFB_Request
begin

text \<open>
  Laws of the per-object state machine of \<^verbatim>\<open>kfastblock/src/request.c\<close>: the request's counters
  against the states of its objects, the dispatch window, the round-robin order in which objects
  are picked and the effect of cancellation.
\<close>

section \<open>Counting states\<close>

lemma count_list_update:
  assumes "i < length xs"
  shows "count_list (xs[i := y]) s + (if xs ! i = s then 1 else 0) =
         count_list xs s + (if y = s then 1 else 0)"
  using assms
proof (induction xs arbitrary: i)
  case (Cons x xs)
  show ?case
  proof (cases i)
    case (Suc j)
    then show ?thesis using Cons.IH [of j] Cons.prems by (auto split: if_splits)
  qed auto
qed simp

lemma count_list_pos:
  assumes "i < length xs"
  shows "0 < count_list xs (xs ! i)"
  using assms by (metis count_list_0_iff neq0_conv nth_mem)

text \<open>Moving one object from a state to another.\<close>

lemma count_list_move:
  assumes "i < length xs"
  shows "count_list (xs[i := t]) u =
    (if xs ! i = t then count_list xs u
     else if u = xs ! i then count_list xs u - 1
     else if u = t then count_list xs u + 1 else count_list xs u)"
  using count_list_update [OF assms, of t u] by (auto split: if_splits)

lemma count_list_le_length: "count_list xs s \<le> length xs"
  by (induction xs) auto

lemma count_list_pair:
  assumes "s \<noteq> t"
  shows "count_list xs s + count_list xs t \<le> length xs"
  using assms by (induction xs) auto

definition obj_states :: "request \<Rightarrow> request_object_state list" where
  "obj_states r = map rt_state (take (unat (kr_nr_objects r)) (kr_object_runtime r))"

text \<open>A request whose runtime array is allocated for its objects.\<close>

definition runtime_ready :: "request \<Rightarrow> bool" where
  "runtime_ready r \<longleftrightarrow> 0 < kr_nr_objects r \<and> kr_nr_objects r \<le> KFASTBLOCK_MAX_OBJECT_EXTENTS \<and>
     unat (kr_nr_objects r) \<le> length (kr_object_runtime r) \<and> kr_dispatch_cursor r < kr_nr_objects r"

text \<open>Each counter is the number of objects in its state.\<close>

definition counters_ok :: "request \<Rightarrow> bool" where
  "counters_ok r \<longleftrightarrow>
     unat (kr_queued_objects r) = count_list (obj_states r) KFASTBLOCK_OBJECT_QUEUED \<and>
     unat (kr_inflight_objects r) = count_list (obj_states r) KFASTBLOCK_OBJECT_IN_FLIGHT \<and>
     unat (kr_completed_objects r) = count_list (obj_states r) KFASTBLOCK_OBJECT_DONE \<and>
     unat (kr_failed_objects r) = count_list (obj_states r) KFASTBLOCK_OBJECT_FAILED \<and>
     unat (kr_cancelled_objects r) = count_list (obj_states r) KFASTBLOCK_OBJECT_CANCELLED"

definition window_ok :: "request \<Rightarrow> bool" where
  "window_ok r \<longleftrightarrow> unat (kr_queued_objects r) + unat (kr_inflight_objects r) \<le> max 1 (unat (kr_dispatch_window r))"

lemma length_obj_states:
  assumes "runtime_ready r"
  shows "length (obj_states r) = unat (kr_nr_objects r)"
  using assms by (simp add: obj_states_def runtime_ready_def)

lemma runtime_ready_not_bad:
  assumes "runtime_ready r"
  shows "bad_object r i \<longleftrightarrow> kr_nr_objects r \<le> i"
  using assms by (auto simp: bad_object_def runtime_ready_def word_less_nat_alt)

lemma nr_le_128:
  assumes "runtime_ready r"
  shows "unat (kr_nr_objects r) \<le> 128"
  using assms by (simp add: runtime_ready_def word_le_nat_alt)

lemma obj_states_nth:
  assumes "runtime_ready r" "i < kr_nr_objects r"
  shows "obj_states r ! unat i = rt_state (kr_object_runtime r ! unat i)" "unat i < length (obj_states r)"
  using assms by (simp_all add: obj_states_def runtime_ready_def word_less_nat_alt)

lemma obj_states_update_runtime:
  assumes "runtime_ready r" "i < kr_nr_objects r"
  shows "obj_states (update_runtime i f r) =
         (obj_states r)[unat i := rt_state (f (kr_object_runtime r ! unat i))]"
  using assms by (simp add: obj_states_def update_runtime_def take_update_swap map_update)

lemma update_runtime_simps [simp]:
  "kr_nr_objects (update_runtime i f r) = kr_nr_objects r"
  "kr_queued_objects (update_runtime i f r) = kr_queued_objects r"
  "kr_inflight_objects (update_runtime i f r) = kr_inflight_objects r"
  "kr_completed_objects (update_runtime i f r) = kr_completed_objects r"
  "kr_failed_objects (update_runtime i f r) = kr_failed_objects r"
  "kr_cancelled_objects (update_runtime i f r) = kr_cancelled_objects r"
  "kr_dispatch_window (update_runtime i f r) = kr_dispatch_window r"
  "kr_dispatch_cursor (update_runtime i f r) = kr_dispatch_cursor r"
  "length (kr_object_runtime (update_runtime i f r)) = length (kr_object_runtime r)"
  by (simp_all add: update_runtime_def)

lemma runtime_ready_update [simp]: "runtime_ready (update_runtime i f r) = runtime_ready r"
  by (simp add: runtime_ready_def)

text \<open>The fields an invariant of the state machine reads.\<close>

definition objects_ok :: "request \<Rightarrow> bool" where
  "objects_ok r \<longleftrightarrow> runtime_ready r \<and> counters_ok r \<and> window_ok r"

lemma obj_states_cong:
  assumes "kr_nr_objects r' = kr_nr_objects r" "kr_object_runtime r' = kr_object_runtime r"
  shows "obj_states r' = obj_states r"
  using assms by (simp add: obj_states_def)

lemma small_unat_inc:
  assumes "unat (x :: u32) \<le> 128"
  shows "unat (x + 1) = unat x + 1"
  using assms by (intro unat_inc) simp

lemma unat_pred_pos:
  assumes "0 < unat (x :: u32)"
  shows "unat (x - 1) = unat x - 1" "x \<noteq> 0"
  using assms unat_dec by auto

lemma counters_small:
  assumes "objects_ok r"
  shows "unat (kr_queued_objects r) \<le> 128" "unat (kr_inflight_objects r) \<le> 128"
    "unat (kr_completed_objects r) \<le> 128" "unat (kr_failed_objects r) \<le> 128"
    "unat (kr_cancelled_objects r) \<le> 128"
proof -
  have "count_list (obj_states r) u \<le> 128" for u
    using assms count_list_le_length [of "obj_states r" u] nr_le_128 [of r] length_obj_states [of r]
    by (simp add: objects_ok_def)
  with assms show "unat (kr_queued_objects r) \<le> 128" "unat (kr_inflight_objects r) \<le> 128"
    "unat (kr_completed_objects r) \<le> 128" "unat (kr_failed_objects r) \<le> 128"
    "unat (kr_cancelled_objects r) \<le> 128"
    by (simp_all add: objects_ok_def counters_ok_def)
qed

lemmas counters_inc = counters_small [THEN small_unat_inc]

lemma runtime_ready_cong:
  assumes "kr_nr_objects r' = kr_nr_objects r" "length (kr_object_runtime r') = length (kr_object_runtime r)"
    "kr_dispatch_cursor r' = kr_dispatch_cursor r"
  shows "runtime_ready r' = runtime_ready r"
  using assms by (simp add: runtime_ready_def)

section \<open>One operation at a time\<close>

text \<open>Operations that write other fields of one runtime leave states and counters alone.\<close>

lemma objects_ok_annotate:
  assumes ok: "objects_ok r" and i: "i < kr_nr_objects r"
    and f: "rt_state (f (kr_object_runtime r ! unat i)) = rt_state (kr_object_runtime r ! unat i)"
  shows "objects_ok (update_runtime i f r) \<and> obj_states (update_runtime i f r) = obj_states r"
proof -
  have rr: "runtime_ready r" using ok by (simp add: objects_ok_def)
  have "obj_states (update_runtime i f r) = obj_states r"
    using obj_states_update_runtime [OF rr i, of f] obj_states_nth [OF rr i] f by (metis list_update_id)
  then show ?thesis using ok by (simp add: objects_ok_def counters_ok_def window_ok_def)
qed

lemma mark_object_queued_ok [kfb_inv]:
  assumes "objects_ok r"
  shows "objects_ok (snd (kfastblock_request_mark_object_queued i r)) \<and>
    obj_states (snd (kfastblock_request_mark_object_queued i r)) = obj_states r"
proof (cases "bad_object r i")
  case False
  then have i: "i < kr_nr_objects r" by (simp add: bad_object_def not_le)
  show ?thesis
    using assms False objects_ok_annotate [OF assms i]
    by (simp add: kfastblock_request_mark_object_queued_def)
qed (use assms in \<open>simp add: kfastblock_request_mark_object_queued_def\<close>)

lemma record_object_seq_ok [kfb_inv]:
  assumes "objects_ok r"
  shows "objects_ok (snd (kfastblock_request_record_object_seq i sq (vol, r))) \<and>
    obj_states (snd (kfastblock_request_record_object_seq i sq (vol, r))) = obj_states r"
proof (cases "bad_object r i")
  case False
  then have i: "i < kr_nr_objects r" by (simp add: bad_object_def not_le)
  show ?thesis
    using assms False objects_ok_annotate [OF assms i]
    by (simp add: kfastblock_request_record_object_seq_def)
qed (use assms in \<open>simp add: kfastblock_request_record_object_seq_def\<close>)

lemma record_object_response_ok [kfb_inv]:
  assumes "objects_ok r"
  shows "objects_ok (snd (kfastblock_request_record_object_response i st len fl (vol, r))) \<and>
    obj_states (snd (kfastblock_request_record_object_response i st len fl (vol, r))) = obj_states r"
proof (cases "bad_object r i")
  case False
  then have i: "i < kr_nr_objects r" by (simp add: bad_object_def not_le)
  show ?thesis
    using assms False objects_ok_annotate [OF assms i]
    by (simp add: kfastblock_request_record_object_response_def)
qed (use assms in \<open>simp add: kfastblock_request_record_object_response_def\<close>)

lemma note_object_retry_ok [kfb_inv]:
  assumes "objects_ok r"
  shows "objects_ok (snd (kfastblock_request_note_object_retry now i ret (vol, r))) \<and>
    obj_states (snd (kfastblock_request_note_object_retry now i ret (vol, r))) = obj_states r"
proof (cases "bad_object r i")
  case False
  then have i: "i < kr_nr_objects r" by (simp add: bad_object_def not_le)
  show ?thesis
    using assms False objects_ok_annotate [OF assms i]
    by (simp add: kfastblock_request_note_object_retry_def)
qed (use assms in \<open>simp add: kfastblock_request_note_object_retry_def\<close>)

text \<open>
  The common part of the operations that move one object: the counters follow when the counter of
  the state left goes down by one and that of the state entered goes up by one.
\<close>

definition tally :: "request_object_state \<Rightarrow> request \<Rightarrow> u32" where
  "tally u r = (case u of KFASTBLOCK_OBJECT_QUEUED \<Rightarrow> kr_queued_objects r
     | KFASTBLOCK_OBJECT_IN_FLIGHT \<Rightarrow> kr_inflight_objects r | KFASTBLOCK_OBJECT_DONE \<Rightarrow> kr_completed_objects r
     | KFASTBLOCK_OBJECT_FAILED \<Rightarrow> kr_failed_objects r | KFASTBLOCK_OBJECT_CANCELLED \<Rightarrow> kr_cancelled_objects r
     | _ \<Rightarrow> 0)"

definition tallied :: "request_object_state \<Rightarrow> bool" where
  "tallied u \<longleftrightarrow> u \<noteq> KFASTBLOCK_OBJECT_INIT \<and> u \<noteq> KFASTBLOCK_OBJECT_READY \<and> u \<noteq> KFASTBLOCK_OBJECT_REQUEUE"

lemma counters_ok_tally:
  "counters_ok r \<longleftrightarrow> (\<forall>u. tallied u \<longrightarrow> unat (tally u r) = count_list (obj_states r) u)"
proof -
  have "(\<forall>u. tallied u \<longrightarrow> P u) \<longleftrightarrow> P KFASTBLOCK_OBJECT_QUEUED \<and> P KFASTBLOCK_OBJECT_IN_FLIGHT \<and>
    P KFASTBLOCK_OBJECT_DONE \<and> P KFASTBLOCK_OBJECT_FAILED \<and> P KFASTBLOCK_OBJECT_CANCELLED" for P
    unfolding tallied_def by (metis request_object_state.exhaust request_object_state.distinct)
  then show ?thesis by (simp add: counters_ok_def tally_def)
qed

lemma counters_ok_move:
  assumes ok: "objects_ok r" and i: "i < kr_nr_objects r"
    and st: "obj_states r' = (obj_states r)[unat i := t]" and ne: "obj_states r ! unat i \<noteq> t"
    and eq: "\<And>u. tallied u \<Longrightarrow>
      tally u r' = (if u = obj_states r ! unat i then tally u r - 1
                    else if u = t then tally u r + 1 else tally u r)"
  shows "counters_ok r'"
  unfolding counters_ok_tally
proof (intro allI impI)
  fix u assume u: "tallied u"
  have rr: "runtime_ready r" and c: "\<And>u. tallied u \<Longrightarrow> unat (tally u r) = count_list (obj_states r) u"
    using ok by (simp_all add: objects_ok_def counters_ok_tally)
  note len = obj_states_nth(2) [OF rr i]
  have le: "unat (tally u r) \<le> 128"
    using c [OF u] count_list_le_length [of "obj_states r" u] nr_le_128 [OF rr] length_obj_states [OF rr] by simp
  show "unat (tally u r') = count_list (obj_states r') u"
    using eq [OF u] c [OF u] ne count_list_pos [OF len] small_unat_inc [OF le] unat_pred_pos(1) [of "tally u r"]
    by (auto simp: st count_list_move [OF len])
qed

lemma tally_sum_le:
  assumes "runtime_ready r" "counters_ok r" "tallied u" "tallied v" "u \<noteq> v"
  shows "unat (tally u r) + unat (tally v r) \<le> 128"
  using assms count_list_pair [of u v "obj_states r"] nr_le_128 [of r] length_obj_states [of r]
  by (simp add: counters_ok_tally)

lemma tally_pos:
  assumes "objects_ok r" "i < kr_nr_objects r" "tallied (obj_states r ! unat i)"
  shows "0 < unat (tally (obj_states r ! unat i) r)"
  using assms count_list_pos [OF obj_states_nth(2), of r i] by (simp add: objects_ok_def counters_ok_tally)

lemma mark_object_inflight_ok [kfb_inv]:
  assumes ok: "objects_ok r" and i: "i < kr_nr_objects r"
    and q: "obj_states r ! unat i = KFASTBLOCK_OBJECT_QUEUED"
  shows "objects_ok (kfastblock_request_mark_object_inflight i r) \<and>
    obj_states (kfastblock_request_mark_object_inflight i r) =
      (obj_states r)[unat i := KFASTBLOCK_OBJECT_IN_FLIGHT]"
proof -
  have rr: "runtime_ready r" using ok by (simp add: objects_ok_def)
  let ?r = "kfastblock_request_mark_object_inflight i r"
  have pos: "0 < unat (kr_queued_objects r)"
    using tally_pos [OF ok i] by (simp add: q tallied_def tally_def)
  note z = unat_pred_pos [OF pos]
  have u: "?r = (update_runtime i (\<lambda>rt. rt \<lparr> rt_state := KFASTBLOCK_OBJECT_IN_FLIGHT \<rparr>) r)
      \<lparr> kr_queued_objects := kr_queued_objects r - 1, kr_inflight_objects := kr_inflight_objects r + 1 \<rparr>"
    using q i obj_states_nth(1) [OF rr i] z(2)
    by (simp add: kfastblock_request_mark_object_inflight_def runtime_ready_not_bad [OF rr])
  have st: "obj_states ?r = (obj_states r)[unat i := KFASTBLOCK_OBJECT_IN_FLIGHT]"
    using obj_states_update_runtime [OF rr i, of "\<lambda>rt. rt \<lparr> rt_state := KFASTBLOCK_OBJECT_IN_FLIGHT \<rparr>"]
    by (simp add: u obj_states_def)
  have "counters_ok ?r"
    by (rule counters_ok_move [OF ok i st]) (auto simp: q u tally_def tallied_def split: request_object_state.splits)
  moreover have "runtime_ready ?r" using rr by (simp add: u runtime_ready_def)
  moreover have "window_ok ?r"
    using ok z(1) pos counters_inc(2) [OF ok] by (simp add: u objects_ok_def window_ok_def)
  ultimately show ?thesis by (simp add: objects_ok_def st)
qed

lemma mark_object_inflight_idle [kfb_inv]:
  assumes "objects_ok r" "i < kr_nr_objects r" "obj_states r ! unat i \<noteq> KFASTBLOCK_OBJECT_QUEUED"
  shows "kfastblock_request_mark_object_inflight i r = r"
  using assms obj_states_nth(1) [of r i]
  by (simp add: kfastblock_request_mark_object_inflight_def objects_ok_def)

text \<open>Completion, from the states in which the transport legitimately completes an object.\<close>

lemma mark_object_complete_ok [kfb_inv]:
  fixes now vol ret
  assumes ok: "objects_ok r" and i: "i < kr_nr_objects r"
    and s: "obj_states r ! unat i \<in> {KFASTBLOCK_OBJECT_READY, KFASTBLOCK_OBJECT_IN_FLIGHT}"
  defines "t \<equiv> if ret \<noteq> 0 then KFASTBLOCK_OBJECT_FAILED else KFASTBLOCK_OBJECT_DONE"
  shows "objects_ok (snd (kfastblock_request_mark_object_complete now i ret (vol, r))) \<and>
    obj_states (snd (kfastblock_request_mark_object_complete now i ret (vol, r))) = (obj_states r)[unat i := t]"
proof -
  have rr: "runtime_ready r" using ok by (simp add: objects_ok_def)
  let ?r = "snd (kfastblock_request_mark_object_complete now i ret (vol, r))"
  let ?f = "\<lambda>rt. rt \<lparr> rt_last_error := ret, rt_completed_jiffies := now, rt_state := t \<rparr>"
  let ?fly = "obj_states r ! unat i = KFASTBLOCK_OBJECT_IN_FLIGHT"
  have pos: "?fly \<Longrightarrow> 0 < unat (kr_inflight_objects r)"
    using tally_pos [OF ok i] by (simp add: tallied_def tally_def)
  have u: "?r = (update_runtime i ?f r)
      \<lparr> kr_inflight_objects := (if ?fly then kr_inflight_objects r - 1 else kr_inflight_objects r),
        kr_failed_objects := (if ret \<noteq> 0 then kr_failed_objects r + 1 else kr_failed_objects r),
        kr_completed_objects := (if ret \<noteq> 0 then kr_completed_objects r else kr_completed_objects r + 1) \<rparr>"
    using i obj_states_nth(1) [OF rr i] unat_pred_pos(2) [OF pos]
    by (auto simp: kfastblock_request_mark_object_complete_def runtime_ready_not_bad [OF rr] Let_def
        update_runtime_def t_def)
  have st: "obj_states ?r = (obj_states r)[unat i := t]"
    using obj_states_update_runtime [OF rr i, of ?f] by (simp add: u obj_states_def)
  have "counters_ok ?r"
  proof (rule counters_ok_move [OF ok i st])
    show "obj_states r ! unat i \<noteq> t" using s by (auto simp: t_def)
  qed (use s in \<open>auto simp: u tally_def tallied_def t_def split: request_object_state.splits\<close>)
  moreover have "runtime_ready ?r" using rr by (simp add: u runtime_ready_def)
  moreover have "window_ok ?r"
    using ok pos unat_pred_pos(1) [OF pos] by (auto simp: u objects_ok_def window_ok_def)
  ultimately show ?thesis by (simp add: objects_ok_def st)
qed

lemma requeue_object_ok [kfb_inv]:
  fixes now ret vol
  assumes ok: "objects_ok r" and i: "i < kr_nr_objects r"
    and s: "\<not> kfastblock_request_object_state_terminal (obj_states r ! unat i)"
  shows "objects_ok (snd (snd (kfastblock_request_requeue_object now i ret (vol, r)))) \<and>
    obj_states (snd (snd (kfastblock_request_requeue_object now i ret (vol, r)))) =
      (obj_states r)[unat i := KFASTBLOCK_OBJECT_READY]"
proof -
  have rr: "runtime_ready r" using ok by (simp add: objects_ok_def)
  let ?s = "obj_states r ! unat i"
  let ?f = "\<lambda>rt. rt \<lparr> rt_last_error := ret, rt_last_retry_jiffies := now, rt_wire_seq := 0,
              rt_state := KFASTBLOCK_OBJECT_READY \<rparr>"
  define r1 where "r1 = r
    \<lparr> kr_queued_objects := (if ?s = KFASTBLOCK_OBJECT_QUEUED then kr_queued_objects r - 1 else kr_queued_objects r),
      kr_inflight_objects :=
        (if ?s = KFASTBLOCK_OBJECT_IN_FLIGHT then kr_inflight_objects r - 1 else kr_inflight_objects r) \<rparr>"
  define r2 where "r2 = update_runtime i ?f r1"
  have pos: "?s = KFASTBLOCK_OBJECT_QUEUED \<Longrightarrow> 0 < unat (kr_queued_objects r)"
      "?s = KFASTBLOCK_OBJECT_IN_FLIGHT \<Longrightarrow> 0 < unat (kr_inflight_objects r)"
    using tally_pos [OF ok i] by (simp_all add: tallied_def tally_def)
  have st: "obj_states r2 = (obj_states r)[unat i := KFASTBLOCK_OBJECT_READY]"
    using obj_states_update_runtime [OF rr i, of ?f]
    by (simp add: r2_def r1_def obj_states_def update_runtime_def)
  have c: "counters_ok r2"
  proof (cases "?s = KFASTBLOCK_OBJECT_READY")
    case True
    then have "obj_states r2 = obj_states r" by (metis st list_update_id)
    with True ok show ?thesis by (simp add: r2_def r1_def objects_ok_def counters_ok_def)
  next
    case False
    show ?thesis
      by (rule counters_ok_move [OF ok i st False])
         (use s in \<open>auto simp: r2_def r1_def tally_def tallied_def kfastblock_request_object_state_terminal_def
           split: request_object_state.splits\<close>)
  qed
  have "objects_ok r2"
    using c rr ok unat_pred_pos(1) [OF pos(1)] unat_pred_pos(1) [OF pos(2)]
    by (auto simp: r2_def r1_def objects_ok_def runtime_ready_def window_ok_def)
  moreover have "snd (kfastblock_request_requeue_object now i ret (vol, r)) =
      kfastblock_request_note_object_retry now i ret (kfastblock_request_record_object_response i 0 0 0 (vol, r2))"
    using i obj_states_nth(1) [OF rr i] unat_pred_pos(2) [OF pos(1)] unat_pred_pos(2) [OF pos(2)]
    by (auto simp: kfastblock_request_requeue_object_def runtime_ready_not_bad [OF rr] Let_def
        kfastblock_request_clear_object_response_def r2_def r1_def)
  ultimately show ?thesis
    using record_object_response_ok [of r2 i 0 0 0] note_object_retry_ok st
    by (metis prod.collapse)
qed

section \<open>Picking a batch\<close>

text \<open>The order in which a scan visits the objects: round robin from the cursor.\<close>

definition scan_order :: "u32 \<Rightarrow> u32 \<Rightarrow> nat \<Rightarrow> u32 list" where
  "scan_order nr cursor s = map (\<lambda>k. (cursor + of_nat k) mod nr) [s..<unat nr]"

definition queue_object :: "u64 \<Rightarrow> u32 \<Rightarrow> object_runtime list \<Rightarrow> object_runtime list" where
  "queue_object now i rts = rts[unat i := (rts ! unat i)
     \<lparr> rt_state := KFASTBLOCK_OBJECT_QUEUED, rt_dispatch_count := rt_dispatch_count (rts ! unat i) + 1,
       rt_queued_jiffies := now \<rparr>]"

definition ready_at :: "object_runtime list \<Rightarrow> u32 \<Rightarrow> bool" where
  "ready_at rts i \<longleftrightarrow> rt_state (rts ! unat i) = KFASTBLOCK_OBJECT_READY"

lemma unat_scan:
  fixes cursor nr :: u32
  assumes "cursor < nr" "nr \<le> 128" "k < unat nr"
  shows "unat ((cursor + of_nat k) mod nr) = (unat cursor + k) mod unat nr"
proof -
  have "unat cursor < 128" "unat nr \<le> 128"
    using assms(1,2) by (simp_all add: word_less_nat_alt word_le_nat_alt)
  then have "unat (cursor + of_nat k) = unat cursor + k"
    using assms(3) by (simp add: unat_word_ariths unat_of_nat_small)
  then show ?thesis by (simp add: unat_mod)
qed

lemma mod_shift_inj:
  assumes "(c + a) mod n = (c + b) mod n" "a < n" "b < (n::nat)"
  shows "a = b"
  using assms
proof (induction a b rule: linorder_wlog)
  case (le a b)
  have "n dvd (c + b) - (c + a)" using le mod_eq_dvd_iff_nat [of "c + a" "c + b" n] by simp
  then have "n dvd b - a" by simp
  then have "b - a = 0" using le(4) dvd_imp_le [of n "b - a"] by (cases "b - a = 0") auto
  with le(1) show ?case by simp
qed simp

lemma scan_order_Cons:
  assumes "s < unat nr"
  shows "scan_order nr cursor s = (cursor + of_nat s) mod nr # scan_order nr cursor (Suc s)"
  using assms by (simp add: scan_order_def upt_conv_Cons)

lemma scan_order_inj:
  fixes cursor nr :: u32
  assumes "cursor < nr" "nr \<le> 128"
  shows "inj_on (\<lambda>k. unat ((cursor + of_nat k) mod nr)) {0..<unat nr}"
proof (rule inj_onI)
  fix a b
  assume ab: "a \<in> {0..<unat nr}" "b \<in> {0..<unat nr}"
    and "unat ((cursor + of_nat a) mod nr) = unat ((cursor + of_nat b) mod nr)"
  then have "(unat cursor + a) mod unat nr = (unat cursor + b) mod unat nr"
    using unat_scan [OF assms, of a] unat_scan [OF assms, of b] by simp
  with ab show "a = b" using mod_shift_inj [of "unat cursor" a "unat nr" b] by simp
qed

lemma scan_order_distinct:
  assumes "cursor < nr" "nr \<le> 128"
  shows "distinct (map unat (scan_order nr cursor s))"
proof -
  have "inj_on (unat \<circ> (\<lambda>k. (cursor + of_nat k) mod nr)) (set [s..<unat nr])"
    using inj_on_subset [OF scan_order_inj [OF assms], of "{s..<unat nr}"] unfolding comp_def by simp
  then show ?thesis unfolding scan_order_def map_map by (simp add: distinct_map)
qed

lemma scan_order_less:
  assumes "0 < nr" "i \<in> set (scan_order nr cursor s)"
  shows "i < nr"
  using assms by (auto simp: scan_order_def word_less_nat_alt unat_mod)

lemma scan_order_all:
  assumes "cursor < nr" "nr \<le> 128"
  shows "set (scan_order nr cursor 0) = {i. i < nr}"
proof -
  have "set (scan_order nr cursor 0) \<subseteq> {i. i < nr}"
    using assms scan_order_less [of nr _ cursor 0] by (cases "nr = 0") (auto simp: word_neq_0_conv)
  moreover have "card (set (scan_order nr cursor 0)) = unat nr"
    using scan_order_distinct [OF assms, of 0] distinct_card [of "scan_order nr cursor 0"]
    by (simp add: distinct_map) (simp add: scan_order_def)
  moreover have "card {i. i < nr} = unat nr"
  proof -
    have sm: "xa < unat nr \<Longrightarrow> unat (of_nat xa :: u32) = xa" for xa
      using unat_u32_bound [of nr] by (intro unat_of_nat_small) simp
    have "{i. i < nr} = of_nat ` {..<unat nr}"
    proof (intro set_eqI iffI)
      fix x assume "x \<in> {i. i < nr}"
      then have "unat x \<in> {..<unat nr}" "x = of_nat (unat x)" by (simp_all add: word_less_nat_alt)
      then show "x \<in> of_nat ` {..<unat nr}" by blast
    qed (auto simp: word_less_nat_alt sm)
    moreover have "inj_on (of_nat :: nat \<Rightarrow> u32) {..<unat nr}"
      by (rule inj_onI) (metis lessThan_iff sm)
    ultimately show ?thesis by (simp add: card_image)
  qed
  moreover have "finite {i. i < nr}" by simp
  ultimately show ?thesis by (metis card_subset_eq)
qed

lemma ready_at_queue_object:
  assumes "unat i \<noteq> unat j"
  shows "ready_at (queue_object now i rts) j = ready_at rts j"
  using assms by (simp add: ready_at_def queue_object_def)

text \<open>The batch a scan selects: the first \<open>k\<close> dispatchable objects in scan order.\<close>

definition batch_of :: "nat \<Rightarrow> object_runtime list \<Rightarrow> u32 \<Rightarrow> u32 \<Rightarrow> nat \<Rightarrow> u32 list" where
  "batch_of k rts nr cursor s = take k (filter (ready_at rts) (scan_order nr cursor s))"

lemma batch_of_step:
  assumes "s < unat nr" "cursor < nr" "nr \<le> 128"
  defines "i \<equiv> (cursor + of_nat s) mod nr"
  shows "batch_of (Suc k) rts nr cursor s =
    (if ready_at rts i then i # batch_of k (queue_object now i rts) nr cursor (Suc s)
     else batch_of (Suc k) rts nr cursor (Suc s))"
proof -
  have ord: "scan_order nr cursor s = i # scan_order nr cursor (Suc s)"
    using scan_order_Cons [OF assms(1)] by (simp add: i_def)
  have "\<forall>j \<in> set (scan_order nr cursor (Suc s)). unat i \<noteq> unat j"
    using scan_order_distinct [OF assms(2,3), of s] by (auto simp: ord)
  then have "filter (ready_at (queue_object now i rts)) (scan_order nr cursor (Suc s)) =
      filter (ready_at rts) (scan_order nr cursor (Suc s))"
    by (intro filter_cong refl) (simp add: ready_at_queue_object)
  then show ?thesis by (simp add: batch_of_def ord)
qed

lemma pick_loop_spec:
  assumes "cursor < nr" "nr \<le> 128" "scanned \<le> nr" "length picked \<le> unat scanned" "length picked \<le> unat mx"
  shows "pick_loop now nr cursor mx scanned picked rts queued =
    (let sel = batch_of (unat mx - length picked) rts nr cursor (unat scanned)
     in (picked @ sel, fold (queue_object now) sel rts, queued + of_nat (length sel)))"
  using assms
proof (induction now nr cursor mx scanned picked rts queued rule: pick_loop.induct)
  case (1 now nr cursor mx scanned picked rts queued)
  have nr: "unat nr \<le> 128" using 1(4) by (simp add: word_le_nat_alt)
  have len: "of_nat (length picked) < mx \<longleftrightarrow> length picked < unat mx"
    using 1(5,6) nr by (simp add: word_less_nat_alt word_le_nat_alt unat_of_nat_small)
  show ?case
  proof (cases "scanned < nr \<and> length picked < unat mx")
    case False
    then have "batch_of (unat mx - length picked) rts nr cursor (unat scanned) = []"
      using 1(5,7) by (auto simp: batch_of_def scan_order_def word_less_nat_alt word_le_nat_alt)
    then show ?thesis using False len by (subst pick_loop.simps) auto
  next
    case True
    then have g: "scanned < nr \<and> of_nat (length picked) < mx" using len by simp
    let ?i = "(cursor + scanned) mod nr"
    have sc: "unat (scanned + 1) = Suc (unat scanned)" using unat_inc_less [of scanned nr] True by simp
    have le: "scanned + 1 \<le> nr" using True inc_le by blast
    obtain k where k: "unat mx - length picked = Suc k" "unat mx - length (picked @ [?i]) = k"
      using True by (metis Suc_diff_Suc length_append_singleton)
    have lt: "unat scanned < unat nr" using True by (simp add: word_less_nat_alt)
    have "of_nat (unat scanned) = scanned" by simp
    note step = batch_of_step [OF lt 1(3,4), of k rts now, unfolded this]
    have d: "kfastblock_request_object_dispatchable (rts ! unat ?i) = ready_at rts ?i"
      by (simp add: ready_at_def kfastblock_request_object_dispatchable_def)
    show ?thesis
    proof (cases "ready_at rts ?i")
      case t: True
      have "length (picked @ [?i]) \<le> unat (scanned + 1)" "length (picked @ [?i]) \<le> unat mx"
        using 1(6) True by (simp_all add: sc)
      note ih = 1(1) [OF g refl refl _ 1(3,4) le this, unfolded d, OF t, folded queue_object_def, unfolded k(2) sc]
      have "pick_loop now nr cursor mx scanned picked rts queued =
          pick_loop now nr cursor mx (scanned + 1) (picked @ [?i]) (queue_object now ?i rts) (queued + 1)"
        by (subst pick_loop.simps) (simp only: g d t Let_def queue_object_def if_True simp_thms)
      then show ?thesis unfolding ih k(1) step by (simp add: t Let_def)
    next
      case f: False
      have "length picked \<le> unat (scanned + 1)" using 1(6) by (simp add: sc)
      note ih = 1(2) [OF g refl refl _ 1(3,4) le this 1(7), unfolded d, OF f, unfolded k(1) sc]
      have "pick_loop now nr cursor mx scanned picked rts queued =
          pick_loop now nr cursor mx (scanned + 1) picked rts queued"
        by (subst pick_loop.simps) (simp only: g d f Let_def if_True if_False simp_thms)
      then show ?thesis unfolding ih k(1) step by (simp add: f)
    qed
  qed
qed

text \<open>Queueing a batch of distinct dispatchable objects.\<close>

lemma fold_queue_length [simp]: "length (fold (queue_object now) sel rts) = length rts"
  by (induction sel arbitrary: rts) (simp_all add: queue_object_def)

lemma fold_queue_nth:
  assumes "distinct (map unat sel)" "\<forall>i \<in> set sel. unat i < length rts"
  shows "fold (queue_object now) sel rts ! j =
    (if j \<in> unat ` set sel
     then (rts ! j) \<lparr> rt_state := KFASTBLOCK_OBJECT_QUEUED, rt_dispatch_count := rt_dispatch_count (rts ! j) + 1,
                     rt_queued_jiffies := now \<rparr>
     else rts ! j)"
  using assms
proof (induction sel arbitrary: rts)
  case (Cons i sel)
  then have "unat i \<notin> unat ` set sel" by auto
  with Cons show ?case by (auto simp: queue_object_def nth_list_update)
qed simp

definition queue_states :: "u32 list \<Rightarrow> request_object_state list \<Rightarrow> request_object_state list" where
  "queue_states sel = fold (\<lambda>i ss. ss[unat i := KFASTBLOCK_OBJECT_QUEUED]) sel"

lemma fold_queue_states:
  assumes "\<forall>i \<in> set sel. unat i < n" "n \<le> length rts"
  shows "map rt_state (take n (fold (queue_object now) sel rts)) = queue_states sel (map rt_state (take n rts))"
  using assms
proof (induction sel arbitrary: rts)
  case (Cons i sel)
  have "map rt_state (take n (queue_object now i rts)) =
      (map rt_state (take n rts))[unat i := KFASTBLOCK_OBJECT_QUEUED]"
    by (simp add: queue_object_def take_update_swap map_update)
  then show ?case using Cons by (simp add: queue_states_def queue_object_def)
qed (simp add: queue_states_def)

lemma queue_states_count:
  assumes "distinct (map unat sel)" "\<forall>i \<in> set sel. unat i < length ss \<and> ss ! unat i = KFASTBLOCK_OBJECT_READY"
  shows "count_list (queue_states sel ss) u =
    (if u = KFASTBLOCK_OBJECT_QUEUED then count_list ss u + length sel
     else if u = KFASTBLOCK_OBJECT_READY then count_list ss u - length sel else count_list ss u)"
  using assms
proof (induction sel arbitrary: ss)
  case (Cons i sel)
  have i: "unat i < length ss" "ss ! unat i = KFASTBLOCK_OBJECT_READY" using Cons.prems by simp_all
  have "\<forall>j \<in> set sel. unat j < length (ss[unat i := KFASTBLOCK_OBJECT_QUEUED]) \<and>
      ss[unat i := KFASTBLOCK_OBJECT_QUEUED] ! unat j = KFASTBLOCK_OBJECT_READY"
    using Cons.prems by (auto simp: nth_list_update image_iff)
  then have "count_list (queue_states sel (ss[unat i := KFASTBLOCK_OBJECT_QUEUED])) u =
    (if u = KFASTBLOCK_OBJECT_QUEUED then count_list (ss[unat i := KFASTBLOCK_OBJECT_QUEUED]) u + length sel
     else if u = KFASTBLOCK_OBJECT_READY then count_list (ss[unat i := KFASTBLOCK_OBJECT_QUEUED]) u - length sel
     else count_list (ss[unat i := KFASTBLOCK_OBJECT_QUEUED]) u)"
    using Cons.prems by (intro Cons.IH) simp_all
  then show ?case by (simp add: queue_states_def count_list_move [OF i(1)] i(2))
qed (simp add: queue_states_def)

text \<open>What one call of \<^verbatim>\<open>pick_dispatch_batch\<close> selects.\<close>

definition picked :: "u32 \<Rightarrow> request \<Rightarrow> u32 list" where
  "picked mx r = batch_of (unat mx) (kr_object_runtime r) (kr_nr_objects r) (kr_dispatch_cursor r) 0"

lemma picked_facts:
  assumes "runtime_ready r"
  shows "distinct (map unat (picked mx r))" "length (picked mx r) \<le> unat mx"
    "length (picked mx r) \<le> unat (kr_nr_objects r)"
    "i \<in> set (picked mx r) \<Longrightarrow> i < kr_nr_objects r \<and> obj_states r ! unat i = KFASTBLOCK_OBJECT_READY"
proof -
  let ?so = "scan_order (kr_nr_objects r) (kr_dispatch_cursor r) 0"
  have nr: "kr_dispatch_cursor r < kr_nr_objects r" "kr_nr_objects r \<le> 128" "0 < kr_nr_objects r"
    using assms by (simp_all add: runtime_ready_def)
  have "distinct (map unat (filter (ready_at (kr_object_runtime r)) ?so))"
    using scan_order_distinct [OF nr(1,2), of 0] by (rule distinct_map_filter)
  then show "distinct (map unat (picked mx r))"
    by (simp add: picked_def batch_of_def take_map [symmetric])
  show "length (picked mx r) \<le> unat mx" by (simp add: picked_def batch_of_def)
  have "length (filter (ready_at (kr_object_runtime r)) ?so) \<le> unat (kr_nr_objects r)"
    using length_filter_le [of "ready_at (kr_object_runtime r)" ?so] by (simp add: scan_order_def)
  then show "length (picked mx r) \<le> unat (kr_nr_objects r)"
    by (simp add: picked_def batch_of_def)
  assume "i \<in> set (picked mx r)"
  then have "i \<in> set ?so" "ready_at (kr_object_runtime r) i"
    using in_set_takeD [of i "unat mx"] by (force simp: picked_def batch_of_def)+
  moreover from this(1) have "i < kr_nr_objects r" using nr(3) by (rule scan_order_less [rotated])
  ultimately show "i < kr_nr_objects r \<and> obj_states r ! unat i = KFASTBLOCK_OBJECT_READY"
    using obj_states_nth(1) [OF assms] by (simp add: ready_at_def)
qed

lemma pick_dispatch_batch_eq:
  fixes now vol
  assumes "runtime_ready r" "mx \<noteq> 0"
  defines "sel \<equiv> picked mx r"
  shows "kfastblock_request_pick_dispatch_batch now mx (vol, r) =
    (int (length sel),
     \<lparr> db_nr_indexes = of_nat (length sel), db_indexes = sel @ replicate (128 - length sel) 0 \<rparr>,
     (if sel \<noteq> [] then kfastblock_volume_account_pipeline_dispatch_batch (of_nat (length sel)) vol else vol),
     r \<lparr> kr_object_runtime := fold (queue_object now) sel (kr_object_runtime r),
         kr_queued_objects := kr_queued_objects r + of_nat (length sel),
         kr_dispatch_cursor := (if sel \<noteq> [] then (last sel + 1) mod kr_nr_objects r else kr_dispatch_cursor r) \<rparr>)"
proof -
  have nr: "kr_dispatch_cursor r < kr_nr_objects r" "kr_nr_objects r \<le> 128" "kr_nr_objects r \<noteq> 0"
      "kr_object_runtime r \<noteq> []"
    using assms by (auto simp: runtime_ready_def word_less_nat_alt)
  have "pick_loop now (kr_nr_objects r) (kr_dispatch_cursor r) mx 0 [] (kr_object_runtime r) (kr_queued_objects r) =
    (sel, fold (queue_object now) sel (kr_object_runtime r), kr_queued_objects r + of_nat (length sel))"
    using pick_loop_spec [OF nr(1,2), of 0 "[]" mx now "kr_object_runtime r" "kr_queued_objects r"]
    by (simp add: sel_def picked_def Let_def)
  then show ?thesis
    using nr assms(2)
    by (simp add: kfastblock_request_pick_dispatch_batch_def kfastblock_request_dispatch_batch_reset_def)
qed

text \<open>A batch no larger than the credits keeps the window.\<close>

lemma dispatch_credits_unat:
  assumes "objects_ok r"
  shows "unat (kfastblock_request_dispatch_credits r) =
    max 1 (unat (kr_dispatch_window r)) - (unat (kr_queued_objects r) + unat (kr_inflight_objects r))"
proof -
  let ?w = "if kr_dispatch_window r \<noteq> 0 then kr_dispatch_window r else 1"
  let ?d = "kr_queued_objects r + kr_inflight_objects r"
  have w: "unat ?w = max 1 (unat (kr_dispatch_window r))"
    using unat_gt_0 [of "kr_dispatch_window r"] by (auto simp: max_def)
  have d: "unat ?d = unat (kr_queued_objects r) + unat (kr_inflight_objects r)"
    using counters_small(1,2) [OF assms] by (simp add: unat_word_ariths)
  show ?thesis
  proof (cases "?w \<le> ?d")
    case True
    then have "unat ?w \<le> unat ?d" by (simp only: word_le_nat_alt)
    then have "max 1 (unat (kr_dispatch_window r)) - (unat (kr_queued_objects r) + unat (kr_inflight_objects r)) = 0"
      using w d by simp
    with True show ?thesis by (simp only: kfastblock_request_dispatch_credits_def Let_def if_True unat_0)
  next
    case False
    then have "?d \<le> ?w" by simp
    then have "unat (?w - ?d) = unat ?w - unat ?d" by (rule unat_sub)
    with False w d show ?thesis by (simp only: kfastblock_request_dispatch_credits_def Let_def if_False)
  qed
qed

lemma pick_dispatch_batch_ok [kfb_inv]:
  fixes now vol
  assumes ok: "objects_ok r" and mx: "mx \<noteq> 0" "mx \<le> kfastblock_request_dispatch_credits r"
  defines "r' \<equiv> snd (snd (snd (kfastblock_request_pick_dispatch_batch now mx (vol, r))))"
  shows "objects_ok r' \<and> obj_states r' = queue_states (picked mx r) (obj_states r)"
proof -
  have rr: "runtime_ready r" and c: "counters_ok r" using ok by (simp_all add: objects_ok_def)
  let ?sel = "picked mx r" let ?n = "unat (kr_nr_objects r)"
  note pf = picked_facts [OF rr, where mx = mx]
  have r': "r' = r \<lparr> kr_object_runtime := fold (queue_object now) ?sel (kr_object_runtime r),
         kr_queued_objects := kr_queued_objects r + of_nat (length ?sel),
         kr_dispatch_cursor := (if ?sel \<noteq> [] then (last ?sel + 1) mod kr_nr_objects r else kr_dispatch_cursor r) \<rparr>"
    by (simp add: r'_def pick_dispatch_batch_eq [OF rr mx(1)])
  have len: "?n \<le> length (kr_object_runtime r)" "?n \<le> 128"
    using rr nr_le_128 [OF rr] by (simp_all add: runtime_ready_def)
  have st: "obj_states r' = queue_states ?sel (obj_states r)"
    using pf(4) fold_queue_states [of ?sel ?n "kr_object_runtime r" now] len(1)
    by (simp add: r' obj_states_def word_less_nat_alt)
  have "unat (kr_queued_objects r + of_nat (length ?sel)) = unat (kr_queued_objects r) + length ?sel"
    using counters_small(1) [OF ok] pf(3) len(2) by (simp add: unat_word_ariths unat_of_nat_small)
  note q = this
  have "count_list (obj_states r') u = (if u = KFASTBLOCK_OBJECT_QUEUED then count_list (obj_states r) u + length ?sel
     else if u = KFASTBLOCK_OBJECT_READY then count_list (obj_states r) u - length ?sel
     else count_list (obj_states r) u)" for u
    using pf(4) length_obj_states [OF rr] unfolding st
    by (intro queue_states_count [OF pf(1)]) (simp add: word_less_nat_alt)
  then have "counters_ok r'" using c q by (simp add: counters_ok_def) (simp add: r')
  moreover have "runtime_ready r'"
    using rr by (auto simp: r' runtime_ready_def word_less_nat_alt unat_mod)
  moreover have "window_ok r'"
    using ok pf(2) mx(2) dispatch_credits_unat [OF ok] q
    by (simp add: r' window_ok_def objects_ok_def word_le_nat_alt) arith
  ultimately show ?thesis by (simp add: objects_ok_def st)
qed

section \<open>Starting and cancelling\<close>

lemma prepare_runtime_ok [kfb_inv]:
  assumes "0 < kr_nr_objects r" "kr_nr_objects r \<le> 128" "unat (kr_nr_objects r) \<le> length (kr_object_runtime r)"
  shows "objects_ok (snd (kfastblock_request_prepare_runtime (vol, r))) \<and>
    obj_states (snd (kfastblock_request_prepare_runtime (vol, r))) =
      replicate (unat (kr_nr_objects r)) KFASTBLOCK_OBJECT_READY"
proof -
  have ne: "kr_object_runtime r \<noteq> []" using assms by (auto simp: word_less_nat_alt)
  have st: "obj_states (snd (kfastblock_request_prepare_runtime (vol, r))) =
      replicate (unat (kr_nr_objects r)) KFASTBLOCK_OBJECT_READY"
    using assms ne by (simp add: kfastblock_request_prepare_runtime_def Let_def obj_states_def map_replicate_const)
  have "count_list (replicate n KFASTBLOCK_OBJECT_READY) u = (if u = KFASTBLOCK_OBJECT_READY then n else 0)" for n u
    by (induction n) auto
  then show ?thesis
    using assms ne
    by (simp add: objects_ok_def counters_ok_def window_ok_def st)
       (simp add: kfastblock_request_prepare_runtime_def Let_def runtime_ready_def)
qed

definition cancel_state :: "request_object_state \<Rightarrow> request_object_state" where
  "cancel_state s = (if s = KFASTBLOCK_OBJECT_READY \<or> s = KFASTBLOCK_OBJECT_QUEUED
                     then KFASTBLOCK_OBJECT_CANCELLED else s)"

lemma cancel_loop_spec:
  assumes "unat queued = count_list (map rt_state rts) KFASTBLOCK_OBJECT_QUEUED"
    "unat cancelled + length rts \<le> 128"
  shows "case cancel_loop now rts queued cancelled of (rts', q, c) \<Rightarrow>
    map rt_state rts' = map (cancel_state \<circ> rt_state) rts \<and> q = 0 \<and>
    unat c = unat cancelled + count_list (map rt_state rts) KFASTBLOCK_OBJECT_READY +
               count_list (map rt_state rts) KFASTBLOCK_OBJECT_QUEUED"
  using assms
proof (induction rts arbitrary: queued cancelled)
  case (Cons rt rts)
  consider (other) "rt_state rt \<noteq> KFASTBLOCK_OBJECT_READY" "rt_state rt \<noteq> KFASTBLOCK_OBJECT_QUEUED"
    | (ready) "rt_state rt = KFASTBLOCK_OBJECT_READY" | (queued) "rt_state rt = KFASTBLOCK_OBJECT_QUEUED"
    by blast
  then show ?case
  proof cases
    case other
    then show ?thesis using Cons.IH [of queued cancelled] Cons.prems
      by (auto simp: cancel_state_def split: prod.splits)
  next
    case ready
    have "unat (cancelled + 1) = unat cancelled + 1" using Cons.prems by (intro small_unat_inc) simp
    then show ?thesis using Cons.IH [of queued "cancelled + 1"] Cons.prems ready
      by (auto simp: cancel_state_def split: prod.splits)
  next
    case queued
    have c: "unat (cancelled + 1) = unat cancelled + 1" using Cons.prems by (intro small_unat_inc) simp
    have pos: "0 < unat queued" using Cons.prems queued by simp
    then show ?thesis using Cons.IH [of "queued - 1" "cancelled + 1"] Cons.prems queued c unat_pred_pos [OF pos]
      by (auto simp: cancel_state_def split: prod.splits)
  qed
qed (simp add: unat_eq_zero)

lemma count_list_cancel:
  "count_list (map cancel_state ss) u =
    (if u = KFASTBLOCK_OBJECT_CANCELLED
     then count_list ss u + count_list ss KFASTBLOCK_OBJECT_READY + count_list ss KFASTBLOCK_OBJECT_QUEUED
     else if u = KFASTBLOCK_OBJECT_READY \<or> u = KFASTBLOCK_OBJECT_QUEUED then 0 else count_list ss u)"
  by (induction ss) (auto simp: cancel_state_def)

lemma count_list_three:
  assumes "s \<noteq> t" "s \<noteq> u" "t \<noteq> u"
  shows "count_list xs s + count_list xs t + count_list xs u \<le> length xs"
  using assms by (induction xs) auto

lemma cancel_unqueued_ok [kfb_inv]:
  fixes now vol
  assumes ok: "objects_ok r"
  defines "res \<equiv> kfastblock_request_cancel_unqueued now (vol, r)"
  shows "objects_ok (snd (snd res)) \<and> obj_states (snd (snd res)) = map cancel_state (obj_states r) \<and>
    fst res = int (count_list (obj_states r) KFASTBLOCK_OBJECT_READY +
                   count_list (obj_states r) KFASTBLOCK_OBJECT_QUEUED)"
proof -
  have rr: "runtime_ready r" and c: "counters_ok r" using ok by (simp_all add: objects_ok_def)
  let ?n = "unat (kr_nr_objects r)" let ?ss = "obj_states r"
  have ne: "kr_object_runtime r \<noteq> []" and len: "?n \<le> length (kr_object_runtime r)" "?n \<le> 128"
    using rr nr_le_128 [OF rr] by (auto simp: runtime_ready_def word_less_nat_alt)
  obtain rts q k where l: "cancel_loop now (take ?n (kr_object_runtime r)) (kr_queued_objects r) 0 = (rts, q, k)"
    by (cases "cancel_loop now (take ?n (kr_object_runtime r)) (kr_queued_objects r) 0") auto
  have spec: "map rt_state rts = map cancel_state ?ss" "q = 0"
      "unat k = count_list ?ss KFASTBLOCK_OBJECT_READY + count_list ?ss KFASTBLOCK_OBJECT_QUEUED"
    using cancel_loop_spec [of "kr_queued_objects r" "take ?n (kr_object_runtime r)" 0 now] c len
    by (simp_all add: l counters_ok_def obj_states_def)
  have lr: "length rts = ?n" using arg_cong [OF spec(1), of length] length_obj_states [OF rr] by simp
  have res: "fst res = sint k" "snd (snd res) = r \<lparr> kr_object_runtime := rts @ drop ?n (kr_object_runtime r),
      kr_queued_objects := q, kr_cancelled_objects := kr_cancelled_objects r + k \<rparr>"
    using ne l by (simp_all add: res_def kfastblock_request_cancel_unqueued_def Let_def)
  have st: "obj_states (snd (snd res)) = map cancel_state ?ss"
    using spec(1) lr by (simp add: res obj_states_def)
  have "count_list ?ss KFASTBLOCK_OBJECT_CANCELLED + count_list ?ss KFASTBLOCK_OBJECT_READY +
      count_list ?ss KFASTBLOCK_OBJECT_QUEUED \<le> 128"
    using count_list_three [of KFASTBLOCK_OBJECT_CANCELLED KFASTBLOCK_OBJECT_READY KFASTBLOCK_OBJECT_QUEUED ?ss]
      length_obj_states [OF rr] len(2) by simp
  note small = this
  then have "unat (kr_cancelled_objects r + k) = unat (kr_cancelled_objects r) + unat k"
    using c spec(3) by (simp add: counters_ok_def unat_word_ariths)
  then have "counters_ok (snd (snd res))"
    using c spec(2,3) unfolding counters_ok_def st count_list_cancel by (simp add: res)
  moreover have "runtime_ready (snd (snd res))"
    using rr lr len(1) by (simp add: res runtime_ready_def)
  moreover have "window_ok (snd (snd res))"
    using ok by (simp add: res spec(2) window_ok_def objects_ok_def)
  moreover have "sint k = int (unat k)"
    using small spec(3) by (intro sint_u32_small) simp
  ultimately show ?thesis using spec(3) by (simp add: objects_ok_def st res(1))
qed

section \<open>Histories of a request\<close>

text \<open>
  The histories the transport may produce: batches within the credits, and completion of objects
  that are in flight or were put back for a retry. Every other operation may come at any time.
\<close>

inductive objects_run :: "volume \<times> request \<Rightarrow> bool" where
  prepared: "0 < kr_nr_objects r \<Longrightarrow> kr_nr_objects r \<le> 128 \<Longrightarrow>
     unat (kr_nr_objects r) \<le> length (kr_object_runtime r) \<Longrightarrow>
     objects_run (kfastblock_request_prepare_runtime (vol, r))"
| dispatched: "objects_run (vol, r) \<Longrightarrow> mx \<noteq> 0 \<Longrightarrow> mx \<le> kfastblock_request_dispatch_credits r \<Longrightarrow>
     objects_run (snd (snd (kfastblock_request_pick_dispatch_batch now mx (vol, r))))"
| queued: "objects_run (vol, r) \<Longrightarrow> objects_run (vol, snd (kfastblock_request_mark_object_queued i r))"
| started: "objects_run (vol, r) \<Longrightarrow> i < kr_nr_objects r \<Longrightarrow>
     objects_run (vol, kfastblock_request_mark_object_inflight i r)"
| completed: "objects_run (vol, r) \<Longrightarrow> i < kr_nr_objects r \<Longrightarrow>
     obj_states r ! unat i \<in> {KFASTBLOCK_OBJECT_READY, KFASTBLOCK_OBJECT_IN_FLIGHT} \<Longrightarrow>
     objects_run (kfastblock_request_mark_object_complete now i ret (vol, r))"
| requeued: "objects_run (vol, r) \<Longrightarrow> i < kr_nr_objects r \<Longrightarrow>
     \<not> kfastblock_request_object_state_terminal (obj_states r ! unat i) \<Longrightarrow>
     objects_run (snd (kfastblock_request_requeue_object now i ret (vol, r)))"
| sequenced: "objects_run (vol, r) \<Longrightarrow> objects_run (kfastblock_request_record_object_seq i sq (vol, r))"
| answered: "objects_run (vol, r) \<Longrightarrow>
     objects_run (kfastblock_request_record_object_response i st len fl (vol, r))"
| noted: "objects_run (vol, r) \<Longrightarrow> objects_run (kfastblock_request_note_object_retry now i ret (vol, r))"
| cancelled: "objects_run (vol, r) \<Longrightarrow> objects_run (snd (kfastblock_request_cancel_unqueued now (vol, r)))"

lemma objects_run_ok:
  assumes "objects_run vr"
  shows "objects_ok (snd vr)"
  using assms
proof (induction rule: objects_run.induct)
  case (started vol r i)
  then show ?case
    using mark_object_inflight_ok [of r i] mark_object_inflight_idle [of r i]
    by (cases "obj_states r ! unat i = KFASTBLOCK_OBJECT_QUEUED") auto
next
  case (prepared r vol)
  then show ?case using prepare_runtime_ok [of r vol] by simp
next
  case (dispatched vol r mx now)
  then show ?case using pick_dispatch_batch_ok [of r mx now vol] by simp
next
  case (completed vol r i now ret)
  then show ?case using mark_object_complete_ok [of r i now ret vol] by simp
next
  case (requeued vol r i now ret)
  then show ?case using requeue_object_ok [of r i now ret vol] by simp
next
  case (cancelled vol r now)
  then show ?case using cancel_unqueued_ok [of r now vol] by simp
qed (simp_all add: mark_object_queued_ok record_object_seq_ok record_object_response_ok note_object_retry_ok)

lemma count_terminal:
  "length (filter kfastblock_request_object_state_terminal ss) =
     count_list ss KFASTBLOCK_OBJECT_FAILED + count_list ss KFASTBLOCK_OBJECT_CANCELLED +
     count_list ss KFASTBLOCK_OBJECT_DONE"
proof (induction ss)
  case (Cons s ss)
  then show ?case by (cases s) (simp_all add: kfastblock_request_object_state_terminal_def)
qed simp

lemma terminal_objects_unat:
  assumes "objects_ok r"
  shows "unat (kfastblock_request_terminal_objects r) =
    length (filter kfastblock_request_object_state_terminal (obj_states r))"
proof -
  have rr: "runtime_ready r" and c: "counters_ok r" using assms by (simp_all add: objects_ok_def)
  have "length (filter kfastblock_request_object_state_terminal (obj_states r)) \<le> 128"
    using length_filter_le [of kfastblock_request_object_state_terminal "obj_states r"]
      length_obj_states [OF rr] nr_le_128 [OF rr] by simp
  then show ?thesis
    using c by (simp add: count_terminal kfastblock_request_terminal_objects_def counters_ok_def unat_word_ariths)
qed


definition sample_request :: request where
  "sample_request = zero_request \<lparr> kr_nr_objects := 2, kr_object_runtime := replicate 2 zero_runtime,
     kr_dispatch_window := 2 \<rparr>"

definition sample_dispatch :: "volume \<times> request" where
  "sample_dispatch =
     (let vr0 = kfastblock_request_prepare_runtime (init_volume 0, sample_request);
          vr1 = snd (snd (kfastblock_request_pick_dispatch_batch 5 2 vr0));
          vr2 = (fst vr1, kfastblock_request_mark_object_inflight 0 (snd vr1))
      in kfastblock_request_mark_object_complete 9 0 0 vr2)"


text \<open>
  C36. A dispatch batch is the first \<^verbatim>\<open>max_dispatch\<close> ready objects met when the objects are visited
  once, round robin from the cursor; exactly these become queued with their dispatch count raised,
  and the next scan starts behind the last of them.
\<close>

theorem pick_batch_round_robin:
  assumes "runtime_ready r" "mx \<noteq> 0"
  shows "case kfastblock_request_pick_dispatch_batch now mx (vol, r) of (ret, batch, vol', r') \<Rightarrow>
    (let nr = unat (kr_nr_objects r);
         visit = map (\<lambda>k. (kr_dispatch_cursor r + of_nat k) mod kr_nr_objects r) [0..<nr];
         sel = take (unat mx) (filter (\<lambda>i. obj_states r ! unat i = KFASTBLOCK_OBJECT_READY) visit)
     in set visit = {i. i < kr_nr_objects r} \<and> distinct visit \<and>
        ret = int (length sel) \<and> unat (db_nr_indexes batch) = length sel \<and>
        take (length sel) (db_indexes batch) = sel \<and> length (db_indexes batch) = 128 \<and>
        kr_object_runtime r' =
          map (\<lambda>(j, rt). if j \<in> unat ` set sel
                then rt \<lparr> rt_state := KFASTBLOCK_OBJECT_QUEUED, rt_dispatch_count := rt_dispatch_count rt + 1,
                          rt_queued_jiffies := now \<rparr> else rt) (enumerate 0 (kr_object_runtime r)) \<and>
        (sel \<noteq> [] \<longrightarrow> kr_dispatch_cursor r' = (last sel + 1) mod kr_nr_objects r))"
proof -
  let ?visit = "scan_order (kr_nr_objects r) (kr_dispatch_cursor r) 0"
  let ?P = "\<lambda>i. obj_states r ! unat i = KFASTBLOCK_OBJECT_READY"
  have nr: "kr_dispatch_cursor r < kr_nr_objects r" "kr_nr_objects r \<le> 128" "0 < kr_nr_objects r"
    using assms by (simp_all add: runtime_ready_def)
  have "filter (ready_at (kr_object_runtime r)) ?visit = filter ?P ?visit"
    using scan_order_less [OF nr(3)] obj_states_nth(1) [OF assms(1)]
    by (intro filter_cong refl) (simp add: ready_at_def)
  then have sel: "take (unat mx) (filter ?P ?visit) = picked mx r" by (simp add: picked_def batch_of_def)
  note pf = picked_facts [OF assms(1), where mx = mx]
  have small: "length (picked mx r) \<le> 128" using pf(3) nr_le_128 [OF assms(1)] by simp
  have lt: "\<forall>i \<in> set (picked mx r). unat i < length (kr_object_runtime r)"
    using pf(4) assms(1) by (force simp: runtime_ready_def word_less_nat_alt)
  have rts: "fold (queue_object now) (picked mx r) (kr_object_runtime r) =
      map (\<lambda>(j, rt). if j \<in> unat ` set (picked mx r)
            then rt \<lparr> rt_state := KFASTBLOCK_OBJECT_QUEUED, rt_dispatch_count := rt_dispatch_count rt + 1,
                      rt_queued_jiffies := now \<rparr> else rt) (enumerate 0 (kr_object_runtime r))"
    by (rule nth_equalityI) (simp_all add: fold_queue_nth [OF pf(1) lt] nth_enumerate_eq)
  have "distinct ?visit" using scan_order_distinct [OF nr(1,2), of 0] by (simp add: distinct_map)
  moreover have "map (\<lambda>k. (kr_dispatch_cursor r + of_nat k) mod kr_nr_objects r) [0..<unat (kr_nr_objects r)] = ?visit"
    by (simp add: scan_order_def)
  ultimately show ?thesis
    using scan_order_all [OF nr(1,2)] small
    by (simp only: pick_dispatch_batch_eq [OF assms] Let_def prod.case sel)
       (simp add: rts unat_of_nat_small)
qed

definition sample_ready :: request where
  "sample_ready = sample_request \<lparr> kr_dispatch_cursor := 1,
     kr_object_runtime := replicate 2 (zero_runtime \<lparr> rt_state := KFASTBLOCK_OBJECT_READY \<rparr>) \<rparr>"

theorem pick_batch_round_robin_witness:
  "runtime_ready sample_ready \<and>
   fst (kfastblock_request_pick_dispatch_batch 7 1 (init_volume 0, sample_ready)) = 1 \<and>
   take 1 (db_indexes (fst (snd (kfastblock_request_pick_dispatch_batch 7 1 (init_volume 0, sample_ready))))) = [1]"
proof -
  let ?r = sample_ready
  have r: "runtime_ready ?r" by code_simp
  have sel: "take (unat (1 :: u32)) (filter (\<lambda>i. obj_states ?r ! unat i = KFASTBLOCK_OBJECT_READY)
      (map (\<lambda>k. (kr_dispatch_cursor ?r + of_nat k) mod kr_nr_objects ?r) [0..<unat (kr_nr_objects ?r)])) = [1]"
    by code_simp
  have "(1 :: u32) \<noteq> 0" by simp
  from pick_batch_round_robin [OF r this, of 7 "init_volume 0", unfolded Let_def sel] r
  show ?thesis by (simp add: split_beta)
qed

text \<open>
  C37. Cancelling turns exactly the objects still waiting into cancelled ones, reports their number,
  leaves the others alone and empties the queue; cancelling again finds nothing.
\<close>

theorem cancel_unqueued_exact:
  assumes "objects_run (vol, r)"
  shows "case kfastblock_request_cancel_unqueued now (vol, r) of (ret, vol', r') \<Rightarrow>
    obj_states r' = map cancel_state (obj_states r) \<and> kr_queued_objects r' = 0 \<and>
    ret = int (length (filter (\<lambda>s. s = KFASTBLOCK_OBJECT_READY \<or> s = KFASTBLOCK_OBJECT_QUEUED) (obj_states r))) \<and>
    fst (kfastblock_request_cancel_unqueued now' (vol', r')) = 0"
proof -
  obtain ret vol' r' where res: "kfastblock_request_cancel_unqueued now (vol, r) = (ret, vol', r')"
    using prod_cases3 by blast
  have ok: "objects_ok r" using objects_run_ok [OF assms] by simp
  note c = cancel_unqueued_ok [OF ok, of now vol, unfolded res fst_conv snd_conv]
  have ok': "objects_ok r'" using c by simp
  have z: "count_list (obj_states r') KFASTBLOCK_OBJECT_READY = 0" "count_list (obj_states r') KFASTBLOCK_OBJECT_QUEUED = 0"
    using c by (simp_all add: count_list_cancel)
  have "kr_queued_objects r' = 0" using ok' z(2) by (simp add: objects_ok_def counters_ok_def unat_eq_zero)
  moreover have "fst (kfastblock_request_cancel_unqueued now' (vol', r')) = 0"
    using cancel_unqueued_ok [OF ok', of now' vol'] z by simp
  moreover have "length (filter (\<lambda>s. s = KFASTBLOCK_OBJECT_READY \<or> s = KFASTBLOCK_OBJECT_QUEUED) ss) =
      count_list ss KFASTBLOCK_OBJECT_READY + count_list ss KFASTBLOCK_OBJECT_QUEUED" for ss
    by (induction ss) auto
  ultimately show ?thesis using c by (simp add: res)
qed

theorem cancel_unqueued_exact_witness:
  "objects_run (kfastblock_request_prepare_runtime (init_volume 0, sample_request)) \<and>
   fst (kfastblock_request_cancel_unqueued 3 (kfastblock_request_prepare_runtime (init_volume 0, sample_request))) = 2"
proof -
  let ?vr = "kfastblock_request_prepare_runtime (init_volume 0, sample_request)"
  have run: "objects_run ?vr" by (rule prepared) (simp_all add: sample_request_def)
  have "length (filter (\<lambda>s. s = KFASTBLOCK_OBJECT_READY \<or> s = KFASTBLOCK_OBJECT_QUEUED) (obj_states (snd ?vr))) = 2"
    by code_simp
  with run cancel_unqueued_exact [of "fst ?vr" "snd ?vr" 3, unfolded prod.collapse, OF run]
  show ?thesis by (simp add: split_beta)
qed

text \<open>
  The guard on completion in \<^const>\<open>objects_run\<close> is needed: an object that is requeued for a retry
  by the worker serving it can be picked and queued again by the completion of another object. The
  two workers then both complete it, and the counters leave the states behind.
\<close>

definition double_dispatch :: "volume \<times> request" where
  "double_dispatch =
     (let vr0 = kfastblock_request_prepare_runtime (init_volume 0, sample_request);
          vr1 = snd (snd (kfastblock_request_pick_dispatch_batch 1 2 vr0));
          start = (\<lambda>i vr. (fst vr, kfastblock_request_mark_object_inflight i (snd vr)));
          vr2 = start 1 (start 0 vr1);
          vr3 = snd (kfastblock_request_requeue_object 2 0 (- EAGAIN) vr2);
          vr4 = kfastblock_request_mark_object_complete 3 1 0 vr3;
          vr5 = snd (snd (kfastblock_request_pick_dispatch_batch 3
                  (kfastblock_request_dispatch_credits (snd vr4)) vr4));
          vr6 = kfastblock_request_mark_object_complete 4 0 0 vr5;
          vr7 = start 0 vr6
      in kfastblock_request_mark_object_complete 5 0 0 vr7)"

lemma retried_object_completes_twice:
  "kr_nr_objects (snd double_dispatch) = 2 \<and> kr_completed_objects (snd double_dispatch) = 3 \<and>
   kr_queued_objects (snd double_dispatch) = 1 \<and>
   obj_states (snd double_dispatch) = [KFASTBLOCK_OBJECT_DONE, KFASTBLOCK_OBJECT_DONE] \<and>
   \<not> kfastblock_request_all_terminal (snd double_dispatch)"
  by code_simp

end
