(* ===== verification/KFB_Lifecycle.thy ===== *)
theory KFB_Lifecycle
  imports KFB_Request
begin

text \<open>
  The life of a volume, second half of \<^verbatim>\<open>kfastblock/src/volume.c\<close>: the gate that quiesces the request
  queue, the queue limits, the refresh worker, flush and drain, the entry of a request
  (\<^verbatim>\<open>kfastblock_queue_rq\<close>), stopping, attaching and detaching.

  What happens while a thread sleeps in \<^verbatim>\<open>wait_event_timeout\<close> is the argument \<open>wait\<close>: it maps the volume
  to the remaining jiffies and the volume found on waking. The two transport calls of a refresh are
  arguments too. \<^verbatim>\<open>blk_mq_end_request\<close> is recorded: a function that ends the request returns the
  statuses it ended it with.
\<close>

datatype blk_status = BLK_STS_OK | BLK_STS_RESOURCE | BLK_STS_TRANSPORT | BLK_STS_IOERR

type_synonym wait_fn = "volume \<Rightarrow> u64 \<times> volume"

section \<open>Intervals and cached sockets\<close>

definition kfastblock_volume_refresh_interval :: "(u32 \<Rightarrow> u64) \<Rightarrow> volume \<Rightarrow> u64" where
  "kfastblock_volume_refresh_interval m2j vol =
     m2j (if v_refresh_interval_ms vol \<noteq> 0 then v_refresh_interval_ms vol else 3000)"

definition kfastblock_volume_image_refresh_interval :: "(u32 \<Rightarrow> u64) \<Rightarrow> volume \<Rightarrow> u64" where
  "kfastblock_volume_image_refresh_interval m2j vol =
     m2j (if v_image_refresh_interval_ms vol \<noteq> 0 then v_image_refresh_interval_ms vol else 30000)"

definition kfastblock_volume_close_osd_cached_sockets :: "u64 \<Rightarrow> volume \<Rightarrow> volume" where
  "kfastblock_volume_close_osd_cached_sockets now vol =
     vol \<lparr> v_socket_cache := kfastblock_osd_conn_pool_close now (v_socket_cache vol) \<rparr>"

definition kfastblock_volume_close_monitor_cached_sockets :: "u64 \<Rightarrow> volume \<Rightarrow> volume" where
  "kfastblock_volume_close_monitor_cached_sockets now vol =
     vol \<lparr> v_monitor_cache := kfastblock_monitor_conn_pool_close now (v_monitor_cache vol) \<rparr>"

definition kfastblock_volume_close_cached_sockets :: "u64 \<Rightarrow> volume \<Rightarrow> volume" where
  "kfastblock_volume_close_cached_sockets now vol =
     kfastblock_volume_close_monitor_cached_sockets now (kfastblock_volume_close_osd_cached_sockets now vol)"

section \<open>The queue gate\<close>

definition kfastblock_volume_should_pause_queue :: "volume \<Rightarrow> bool" where
  "kfastblock_volume_should_pause_queue vol \<longleftrightarrow>
     \<not> v_ready vol \<or> v_manual_queue_pause vol \<or> \<not> kfastblock_meta_io_ready (v_view vol)"

definition kfastblock_volume_set_manual_queue_pause_locked :: "u64 \<Rightarrow> bool \<Rightarrow> volume \<Rightarrow> volume" where
  "kfastblock_volume_set_manual_queue_pause_locked now pause vol =
     (if v_manual_queue_pause vol = pause then vol
      else (let vol1 = vol \<lparr> v_manual_queue_pause := pause \<rparr>;
                sync = sync_state_code (cv_sync_state (v_view vol))
            in if pause
               then kfastblock_volume_record_event now KFASTBLOCK_VOLUME_EVENT_MANUAL_QUEUE_PAUSE 0
                      REQ_OP_FLUSH 0 0 sync 0 (inc_stat vs_manual_queue_pauses_update vol1)
               else kfastblock_volume_record_event now KFASTBLOCK_VOLUME_EVENT_MANUAL_QUEUE_RESUME 0
                      REQ_OP_FLUSH 0 0 sync 0 (inc_stat vs_manual_queue_resumes_update vol1)))"

definition blk_mq_quiesce_queue :: "disk \<Rightarrow> disk" where
  "blk_mq_quiesce_queue d = d \<lparr> dk_quiesce_depth := dk_quiesce_depth d + 1 \<rparr>"

text \<open>The block layer warns and changes nothing when the depth is already 0.\<close>

definition blk_mq_unquiesce_queue :: "disk \<Rightarrow> disk" where
  "blk_mq_unquiesce_queue d = d \<lparr> dk_quiesce_depth := dk_quiesce_depth d - 1 \<rparr>"

definition bool_code :: "bool \<Rightarrow> u32" where
  "bool_code b = (if b then 1 else 0)"

definition kfastblock_volume_update_queue_gate :: "u64 \<Rightarrow> volume \<Rightarrow> volume" where
  "kfastblock_volume_update_queue_gate now vol =
     (case v_disk vol of
        None \<Rightarrow> vol
      | Some d \<Rightarrow>
          (let should_pause = kfastblock_volume_should_pause_queue vol;
               sync = sync_state_code (cv_sync_state (v_view vol))
           in if should_pause = v_queue_paused vol then vol
              else if should_pause then
                kfastblock_volume_update_health now KFASTBLOCK_VOLUME_HEALTH_STALE
                  KFASTBLOCK_VOLUME_SOURCE_QUEUE_GATE (- ESTALE)
                  (kfastblock_volume_record_event now KFASTBLOCK_VOLUME_EVENT_QUEUE_PAUSE 0 REQ_OP_FLUSH
                     0 0 sync (bool_code (v_ready vol))
                     (inc_stat vs_queue_pause_events_update
                       (vol \<lparr> v_disk := Some (blk_mq_quiesce_queue d), v_queue_paused := True \<rparr>)))
              else
                kfastblock_volume_mark_success now KFASTBLOCK_VOLUME_SOURCE_QUEUE_GATE
                  (kfastblock_volume_record_event now KFASTBLOCK_VOLUME_EVENT_QUEUE_RESUME 0 REQ_OP_FLUSH
                     0 0 sync (bool_code (v_ready vol))
                     (inc_stat vs_queue_resume_events_update
                       (vol \<lparr> v_disk := Some (blk_mq_unquiesce_queue d), v_queue_paused := False \<rparr>)))))"

section \<open>Queue limits\<close>

text \<open>\<^verbatim>\<open>round_down(x, y)\<close> of \<^verbatim>\<open>linux/math.h\<close>: clears the bits of \<^verbatim>\<open>y - 1\<close>.\<close>

definition round_down :: "u64 \<Rightarrow> u64 \<Rightarrow> u64" where
  "round_down x y = x AND NOT (y - 1)"

definition kfastblock_volume_effective_max_io_bytes :: "volume \<Rightarrow> u32" where
  "kfastblock_volume_effective_max_io_bytes vol =
     (let img = cv_image (v_view vol)
      in if ii_object_size img = 0 then 4194304
         else (let limit0 = min 4194304 (ucast (ii_object_size img) * 128) :: u64;
                   limit1 = (if ii_block_size img \<noteq> 0 then round_down limit0 (ucast (ii_block_size img))
                             else limit0)
               in if limit1 = 0 then (if ii_block_size img \<noteq> 0 then ii_block_size img else 512)
                  else ucast limit1))"

definition kfastblock_volume_apply_queue_limits :: "volume \<Rightarrow> volume" where
  "kfastblock_volume_apply_queue_limits vol =
     (case v_disk vol of
        None \<Rightarrow> vol
      | Some d \<Rightarrow>
          (let img = cv_image (v_view vol);
               block_size = (if ii_block_size img \<noteq> 0 then ii_block_size img else 4096);
               object_size = ii_object_size img;
               max_io_bytes = kfastblock_volume_effective_max_io_bytes vol;
               l = (dk_limits d) \<lparr> ql_logical_block_size := block_size,
                     ql_max_hw_sectors := drop_bit 9 max_io_bytes, ql_max_segment_size := max_io_bytes,
                     ql_max_segments := 0xFFFF, ql_write_cache := True \<rparr>;
               l' = (if object_size \<noteq> 0
                     then l \<lparr> ql_io_opt := object_size, ql_chunk_sectors := drop_bit 9 object_size,
                              ql_max_discard_sectors := drop_bit 9 max_io_bytes,
                              ql_max_write_zeroes_sectors := drop_bit 9 max_io_bytes,
                              ql_max_discard_segments := 1, ql_discard_granularity := block_size,
                              ql_discard_alignment := 0 \<rparr>
                     else l \<lparr> ql_max_discard_sectors := 0, ql_max_write_zeroes_sectors := 0,
                              ql_max_discard_segments := 0, ql_discard_granularity := 0,
                              ql_discard_alignment := 0 \<rparr>)
           in vol \<lparr> v_disk := Some (d \<lparr> dk_limits := l' \<rparr>) \<rparr>))"

section \<open>Refresh\<close>

definition kfastblock_volume_schedule_refresh :: "(u32 \<Rightarrow> u64) \<Rightarrow> volume \<Rightarrow> volume" where
  "kfastblock_volume_schedule_refresh m2j vol =
     (if v_ready vol then vol \<lparr> v_refresh_work := Some (kfastblock_volume_refresh_interval m2j vol) \<rparr> else vol)"

definition kfastblock_volume_kick_refresh :: "volume \<Rightarrow> volume" where
  "kfastblock_volume_kick_refresh vol = (if v_ready vol then vol \<lparr> v_refresh_work := Some 0 \<rparr> else vol)"

definition map_disk :: "(disk \<Rightarrow> disk) \<Rightarrow> volume \<Rightarrow> volume" where
  "map_disk f vol = vol \<lparr> v_disk := map_option f (v_disk vol) \<rparr>"

text \<open>
  \<open>refresh_cluster_map\<close> and \<open>refresh_image_fn\<close> stand for the transport's two refresh calls. The updates of
  the disk after a successful cluster refresh are \<open>apply_new_image\<close>.
\<close>

definition apply_new_image :: "u64 \<Rightarrow> bool \<Rightarrow> cluster_view \<Rightarrow> volume \<Rightarrow> volume" where
  "apply_new_image now refresh_cluster old vol =
     (let new = v_view vol; img = cv_image new; old_img = cv_image old;
          v1 = (if refresh_cluster \<and> (cv_osdmap_epoch old \<noteq> cv_osdmap_epoch new \<or>
                                      cv_pgmap_epoch old \<noteq> cv_pgmap_epoch new)
                then kfastblock_volume_close_osd_cached_sockets now vol else vol);
          v2 = (if ii_size_bytes old_img \<noteq> ii_size_bytes img
                then map_disk (dk_capacity_update (\<lambda>_. drop_bit 9 (ii_size_bytes img))) v1 else v1);
          v3 = (if (ii_block_size old_img \<noteq> ii_block_size img \<and> ii_block_size img \<noteq> 0) \<or>
                   (ii_object_size old_img \<noteq> ii_object_size img \<and> ii_object_size img \<noteq> 0)
                then kfastblock_volume_apply_queue_limits v2 else v2)
      in if ii_read_only old_img \<noteq> ii_read_only img
         then map_disk (dk_read_only_update (\<lambda>_. ii_read_only img)) v3 else v3)"

definition kfastblock_volume_refresh_locked ::
    "(volume \<Rightarrow> int \<times> volume) \<Rightarrow> (volume \<Rightarrow> int \<times> volume) \<Rightarrow> u64 \<Rightarrow> bool \<Rightarrow> bool \<Rightarrow> volume \<Rightarrow> int \<times> volume" where
  "kfastblock_volume_refresh_locked refresh_cluster_map refresh_image_fn now refresh_cluster refresh_image vol =
     (let old = v_view vol;
          (ret, v1) = (if refresh_cluster then refresh_cluster_map vol else (0, vol));
          (image_ret, v2) = (if ret = 0 \<and> refresh_image then refresh_image_fn v1 else (0, v1));
          new = v_view v2;
          v3 = (if \<not> refresh_cluster then v2
                else if ret \<noteq> 0 then kfastblock_volume_account_cluster_refresh now ret v2
                else if cv_osdmap_epoch old \<noteq> cv_osdmap_epoch new \<or> cv_pgmap_epoch old \<noteq> cv_pgmap_epoch new
                then kfastblock_volume_account_cluster_refresh now 0 v2 else v2);
          v4 = (if \<not> (ret = 0 \<and> refresh_image) then v3
                else if image_ret \<noteq> 0 then kfastblock_volume_account_image_refresh now image_ret v3
                else if cv_image_epoch old \<noteq> cv_image_epoch new
                then kfastblock_volume_account_image_refresh now 0 v3 else v3);
          v5 = (if ret = 0 \<and> v_disk v4 \<noteq> None then apply_new_image now refresh_cluster old v4
                else if ret \<noteq> 0
                then kfastblock_volume_account_metadata_stale now
                       ((kfastblock_volume_close_cached_sockets now v4)
                          \<lparr> v_view := (v_view v4) \<lparr> cv_sync_state := KFASTBLOCK_META_SYNC_STALE \<rparr> \<rparr>)
                else v4);
          v6 = kfastblock_volume_update_queue_gate now v5
      in (if ret \<noteq> 0 then ret else image_ret, v6))"

text \<open>\<^verbatim>\<open>time_after_eq(a, b)\<close>.\<close>

definition time_after_eq :: "u64 \<Rightarrow> u64 \<Rightarrow> bool" where
  "time_after_eq a b \<longleftrightarrow> \<not> time_before a b"

definition kfastblock_volume_refresh_workfn ::
    "(volume \<Rightarrow> int \<times> volume) \<Rightarrow> (volume \<Rightarrow> int \<times> volume) \<Rightarrow> (u32 \<Rightarrow> u64) \<Rightarrow> u64 \<Rightarrow> volume \<Rightarrow> volume" where
  "kfastblock_volume_refresh_workfn refresh_cluster_map refresh_image_fn m2j now vol0 =
     (let vol = vol0 \<lparr> v_refresh_work := None \<rparr>
      in if \<not> v_ready vol then vol
         else (let refresh_image = time_after_eq now (cv_last_image_refresh_jiffies (v_view vol) +
                                     kfastblock_volume_image_refresh_interval m2j vol)
               in kfastblock_volume_schedule_refresh m2j
                    (snd (kfastblock_volume_refresh_locked refresh_cluster_map refresh_image_fn now True
                            refresh_image vol))))"

section \<open>In-flight I/O, flush and drain\<close>

definition kfastblock_volume_get_io :: "volume \<Rightarrow> volume" where
  "kfastblock_volume_get_io vol = vol \<lparr> v_inflight_ios := v_inflight_ios vol + 1 \<rparr>"

definition kfastblock_volume_put_io :: "volume \<Rightarrow> volume" where
  "kfastblock_volume_put_io vol = vol \<lparr> v_inflight_ios := v_inflight_ios vol - 1 \<rparr>"

definition kfastblock_volume_begin_flush :: "volume \<Rightarrow> int \<times> volume" where
  "kfastblock_volume_begin_flush vol =
     (if v_flush_in_progress vol then (- EBUSY, vol) else (0, vol \<lparr> v_flush_in_progress := True \<rparr>))"

definition kfastblock_volume_end_flush :: "volume \<Rightarrow> volume" where
  "kfastblock_volume_end_flush vol = vol \<lparr> v_flush_in_progress := False \<rparr>"

definition kfastblock_volume_drain_io :: "wait_fn \<Rightarrow> volume \<Rightarrow> int \<times> volume" where
  "kfastblock_volume_drain_io wait vol =
     (if v_inflight_ios vol = 0 then (0, vol)
      else (case wait vol of
              (remaining, vol') \<Rightarrow>
                (if remaining \<noteq> 0 \<or> v_inflight_ios vol' = 0 then 0 else - ETIMEDOUT, vol')))"

definition kfastblock_volume_handle_flush :: "wait_fn \<Rightarrow> u64 \<Rightarrow> volume \<Rightarrow> blk_status \<times> blk_status list \<times> volume" where
  "kfastblock_volume_handle_flush wait now vol =
     (case kfastblock_volume_begin_flush vol of
        (ret, v1) \<Rightarrow>
          if ret \<noteq> 0 then (BLK_STS_RESOURCE, [BLK_STS_RESOURCE], v1)
          else (case kfastblock_volume_drain_io wait (kfastblock_volume_account_io_submit REQ_OP_FLUSH 0 v1) of
                  (ret, v2) \<Rightarrow>
                    (let v3 = kfastblock_volume_account_io_complete ret (kfastblock_volume_end_flush v2);
                         v4 = (if ret = 0
                               then kfastblock_volume_mark_success now KFASTBLOCK_VOLUME_SOURCE_OBJECT_IO v3
                               else v3);
                         status = (if ret \<noteq> 0 then BLK_STS_RESOURCE else BLK_STS_OK)
                     in (status, [status], v4))))"

section \<open>Block device operations\<close>

definition kfastblock_blk_open :: "volume \<Rightarrow> int \<times> volume" where
  "kfastblock_blk_open vol =
     (if \<not> v_ready vol then (- ENOENT, vol)
      else (0, vol \<lparr> v_open_count := v_open_count vol + 1, v_dev_refs := v_dev_refs vol + 1 \<rparr>))"

definition kfastblock_blk_release :: "volume \<Rightarrow> volume" where
  "kfastblock_blk_release vol =
     vol \<lparr> v_open_count := v_open_count vol - 1, v_dev_refs := v_dev_refs vol - 1 \<rparr>"

text \<open>
  Entry of a request. \<open>submit\<close> stands for \<^verbatim>\<open>kfastblock_transport_submit\<close>; like this function it returns
  the statuses it ended the request with.
\<close>

definition kfastblock_queue_rq ::
    "(volume \<times> request \<Rightarrow> int \<times> blk_status list \<times> volume \<times> request) \<Rightarrow> wait_fn \<Rightarrow> u64 \<Rightarrow> allocs \<Rightarrow> allocs
      \<Rightarrow> blk_request \<Rightarrow> volume \<times> request \<Rightarrow> blk_status \<times> blk_status list \<times> volume \<times> request" where
  "kfastblock_queue_rq submit wait now al al' rq vr =
     (case vr of (vol, kf_req) \<Rightarrow>
       if \<not> v_ready vol \<or> v_queue_paused vol then (BLK_STS_RESOURCE, [BLK_STS_RESOURCE], vol, kf_req)
       else if br_passthrough rq then (BLK_STS_IOERR, [BLK_STS_IOERR], vol, kf_req)
       else if br_op rq = REQ_OP_FLUSH
       then (case kfastblock_volume_handle_flush wait now vol of (st, ended, v1) \<Rightarrow> (st, ended, v1, kf_req))
       else if ii_read_only (cv_image (v_view vol)) \<and>
               (br_op rq = REQ_OP_WRITE \<or> br_op rq = REQ_OP_WRITE_ZEROES \<or> br_op rq = REQ_OP_DISCARD)
       then (BLK_STS_IOERR, [BLK_STS_IOERR], vol, kf_req)
       else (let r0 = kf_req \<lparr> kr_status := 0 \<rparr>
             in if \<not> kfastblock_meta_io_ready (v_view vol)
                then (BLK_STS_RESOURCE, [BLK_STS_RESOURCE],
                      kfastblock_volume_kick_refresh
                        (kfastblock_volume_account_refresh_kick now 0 (- ESTALE) vol), r0)
                else if v_flush_in_progress vol then (BLK_STS_RESOURCE, [BLK_STS_RESOURCE], vol, r0)
                else (case kfastblock_request_init now al rq (kfastblock_volume_get_io vol, r0) of
                        (ret, v1, r1) \<Rightarrow>
                          if ret \<noteq> 0 then (BLK_STS_IOERR, [BLK_STS_IOERR], kfastblock_volume_put_io v1, r1)
                          else (case kfastblock_request_split (v_view v1) al' r1 of
                                  (ret, r2) \<Rightarrow>
                                    if ret \<noteq> 0
                                    then (case kfastblock_request_cleanup (v1, r2) of
                                            (v2, r3) \<Rightarrow>
                                              (BLK_STS_IOERR, [BLK_STS_IOERR], kfastblock_volume_put_io v2, r3))
                                    else (case submit (kfastblock_volume_account_io_submit (br_op rq)
                                                         (br_bytes rq) v1, r2) of
                                            (ret, ended, v3, r4) \<Rightarrow>
                                              if ret \<noteq> 0
                                              then (case kfastblock_request_cleanup (v3, r4) of
                                                      (v4, r5) \<Rightarrow>
                                                        (BLK_STS_IOERR, ended @ [BLK_STS_IOERR],
                                                         kfastblock_volume_put_io
                                                           (kfastblock_volume_account_io_complete ret v4), r5))
                                              else (BLK_STS_OK, ended, v3, r4))))))"

definition kfastblock_mq_init_request :: "request \<Rightarrow> int \<times> request" where
  "kfastblock_mq_init_request kf_req = (0, zero_request)"

definition kfastblock_mq_exit_request :: "volume \<times> request \<Rightarrow> volume \<times> request" where
  "kfastblock_mq_exit_request vr = kfastblock_request_cleanup vr"

section \<open>Stopping a volume\<close>

definition kfastblock_volume_begin_stop ::
    "wait_fn \<Rightarrow> (u32 \<Rightarrow> u64) \<Rightarrow> u64 \<Rightarrow> bool \<Rightarrow> volume \<Rightarrow> int \<times> volume" where
  "kfastblock_volume_begin_stop wait m2j now rollback_on_timeout vol =
     (let v1 = vol \<lparr> v_ready := False, v_refresh_work := None \<rparr>;
          v2 = (case v_disk v1 of
                  None \<Rightarrow> v1
                | Some d \<Rightarrow> v1 \<lparr> v_queue_paused := True, v_disk := Some (blk_mq_quiesce_queue d) \<rparr>)
      in case kfastblock_volume_drain_io wait v2 of
           (ret, v3) \<Rightarrow>
             if ret = 0 then (0, v3)
             else (ret, if rollback_on_timeout
                        then kfastblock_volume_schedule_refresh m2j
                               (kfastblock_volume_update_queue_gate now (v3 \<lparr> v_ready := True \<rparr>))
                        else v3))"

definition kfastblock_volume_unregister ::
    "wait_fn \<Rightarrow> (u32 \<Rightarrow> u64) \<Rightarrow> u64 \<Rightarrow> bool \<Rightarrow> volume \<Rightarrow> int \<times> volume" where
  "kfastblock_volume_unregister wait m2j now rollback_on_timeout vol =
     (if \<not> v_ready vol then (- ENOENT, vol)
      else if rollback_on_timeout \<and> 0 < v_open_count vol then (- EBUSY, vol)
      else (case kfastblock_volume_begin_stop wait m2j now rollback_on_timeout vol of
              (ret, v1) \<Rightarrow>
                if ret \<noteq> 0 then (ret, v1)
                else (0, v1 \<lparr> v_disk := None, v_dev_refs := v_dev_refs v1 - 1 \<rparr>)))"

section \<open>The table of volumes\<close>

text \<open>\<^verbatim>\<open>g_kfastblock_volumes\<close> is a list of volumes in registration order; a pointer into it is an index.\<close>

definition kfastblock_volume_find_locked :: "volume list \<Rightarrow> string option \<Rightarrow> string option \<Rightarrow> nat option" where
  "kfastblock_volume_find_locked vols pool_name image_name =
     (case (pool_name, image_name) of
        (Some p, Some i) \<Rightarrow>
          first_slot (\<lambda>_ vol. ii_pool_name (cv_image (v_view vol)) = p \<and> ii_image_name (cv_image (v_view vol)) = i)
            0 vols
      | _ \<Rightarrow> None)"

definition kfastblock_volume_find_get_locked ::
    "volume list \<Rightarrow> string option \<Rightarrow> string option \<Rightarrow> nat option \<times> volume list" where
  "kfastblock_volume_find_get_locked vols pool_name image_name =
     (case kfastblock_volume_find_locked vols pool_name image_name of
        None \<Rightarrow> (None, vols)
      | Some i \<Rightarrow> (Some i, vols[i := (vols ! i) \<lparr> v_dev_refs := v_dev_refs (vols ! i) + 1 \<rparr>]))"

text \<open>Three \<^verbatim>\<open>kstrdup\<close> calls, then the plain fields; a failure clears the copy.\<close>

definition dup_opt :: "allocs \<Rightarrow> string option \<Rightarrow> bool \<times> string option \<times> allocs" where
  "dup_opt al s =
     (case s of None \<Rightarrow> (True, None, al)
      | Some x \<Rightarrow> (case kalloc al of (ok, al') \<Rightarrow> (ok, if ok then Some x else None, al')))"

definition kfastblock_volume_copy_attach_spec :: "allocs \<Rightarrow> attach_spec \<Rightarrow> int \<times> attach_spec \<times> allocs" where
  "kfastblock_volume_copy_attach_spec al src =
     (case dup_opt al (as_monitor_addr src) of (ok1, a, al1) \<Rightarrow>
        if \<not> ok1 then (- ENOMEM, kfastblock_control_cleanup_attach_spec zero_spec, al1)
        else (case dup_opt al1 (as_pool_name src) of (ok2, p, al2) \<Rightarrow>
          if \<not> ok2 then (- ENOMEM, kfastblock_control_cleanup_attach_spec zero_spec, al2)
          else (case dup_opt al2 (as_image_name src) of (ok3, i, al3) \<Rightarrow>
            if \<not> ok3 then (- ENOMEM, kfastblock_control_cleanup_attach_spec zero_spec, al3)
            else (0, src \<lparr> as_monitor_addr := a, as_pool_name := p, as_image_name := i \<rparr>, al3))))"

text \<open>What the block layer and the driver core answer during \<^verbatim>\<open>add_disk\<close>.\<close>

record add_disk_env =
  ad_tag_set_ret :: int
  ad_dev_id :: int
  ad_disk_ok :: bool
  ad_device_ret :: int
  ad_device_disk_ret :: int

definition zero_limits :: queue_limits where
  "zero_limits = \<lparr> ql_logical_block_size = 0, ql_max_hw_sectors = 0, ql_max_segment_size = 0,
     ql_max_segments = 0, ql_write_cache = False, ql_io_opt = 0, ql_chunk_sectors = 0,
     ql_max_discard_sectors = 0, ql_max_write_zeroes_sectors = 0, ql_max_discard_segments = 0,
     ql_discard_granularity = 0, ql_discard_alignment = 0 \<rparr>"

definition kfastblock_volume_add_disk :: "add_disk_env \<Rightarrow> u64 \<Rightarrow> volume \<Rightarrow> int \<times> volume" where
  "kfastblock_volume_add_disk env now vol =
     (if ad_tag_set_ret env \<noteq> 0 then (ad_tag_set_ret env, vol)
      else (let v1 = vol \<lparr> v_dev_id := ad_dev_id env \<rparr>
            in if ad_dev_id env < 0 then (ad_dev_id env, v1)
               else if \<not> ad_disk_ok env then (- ENOMEM, v1)
               else (let img = cv_image (v_view v1);
                         d = \<lparr> dk_quiesce_depth = 0, dk_capacity = drop_bit 9 (ii_size_bytes img),
                               dk_read_only = ii_read_only img, dk_limits = zero_limits \<rparr>;
                         v2 = kfastblock_volume_update_queue_gate now
                                (kfastblock_volume_apply_queue_limits (v1 \<lparr> v_disk := Some d \<rparr>));
                         v3 = v2 \<lparr> v_dev_refs := 1 \<rparr>
                     in if ad_device_ret env \<noteq> 0 then (ad_device_ret env, v3)
                        else if ad_device_disk_ret env \<noteq> 0 then (ad_device_disk_ret env, v3)
                        else (0, v3))))"

text \<open>
  \<open>bootstrap\<close> stands for \<^verbatim>\<open>kfastblock_meta_bootstrap_volume\<close>. On every error the
  volume is freed and the table stays as it was.
\<close>

definition kfastblock_volume_attach ::
    "(volume \<Rightarrow> int \<times> volume) \<Rightarrow> add_disk_env \<Rightarrow> allocs \<Rightarrow> (u32 \<Rightarrow> u64) \<Rightarrow> u64 \<Rightarrow> attach_spec
      \<Rightarrow> volume list \<Rightarrow> int \<times> volume list" where
  "kfastblock_volume_attach bootstrap env al m2j now spec vols =
     (if kfastblock_volume_find_locked vols (as_pool_name spec) (as_image_name spec) \<noteq> None
      then (- EEXIST, vols)
      else (case kalloc al of (ok, al1) \<Rightarrow>
        if \<not> ok then (- ENOMEM, vols)
        else (case kfastblock_volume_copy_attach_spec al1 spec of (ret, spec', al2) \<Rightarrow>
          if ret \<noteq> 0 then (ret, vols)
          else (case bootstrap ((init_volume now) \<lparr> v_spec := spec' \<rparr>) of (ret, v0) \<Rightarrow>
            if ret \<noteq> 0 then (ret, vols)
            else if \<not> kfastblock_meta_ready (v_view v0) then (- EOPNOTSUPP, vols)
            else (case kfastblock_volume_add_disk env now v0 of
                    (ret, v1) \<Rightarrow>
                      if ret \<noteq> 0 then (ret, vols)
                      else if kfastblock_volume_find_locked vols (Some (ii_pool_name (cv_image (v_view v1))))
                                (Some (ii_image_name (cv_image (v_view v1)))) \<noteq> None
                      then (- EEXIST, vols)
                      else (0, vols @ [kfastblock_volume_schedule_refresh m2j
                                         (kfastblock_volume_update_queue_gate now
                                           (kfastblock_volume_mark_success now KFASTBLOCK_VOLUME_SOURCE_ATTACH
                                             (kfastblock_volume_record_event now
                                               KFASTBLOCK_VOLUME_EVENT_ATTACH_READY 0 REQ_OP_FLUSH 0 0
                                               (ii_pool_id (cv_image (v_view v1)))
                                               (ii_pg_count (cv_image (v_view v1)))
                                               (v1 \<lparr> v_ready := True \<rparr>))))]))))))"

text \<open>
  \<^verbatim>\<open>put_device\<close> on the volume at an index: the last reference runs the release method, which frees the
  volume and removes it from the table.
\<close>

definition put_device_at :: "nat \<Rightarrow> volume list \<Rightarrow> volume list" where
  "put_device_at i vols =
     (let vol = (vols ! i) \<lparr> v_dev_refs := v_dev_refs (vols ! i) - 1 \<rparr>
      in if v_dev_refs vol = 0 then take i vols @ drop (Suc i) vols else vols[i := vol])"

definition kfastblock_volume_detach ::
    "wait_fn \<Rightarrow> (u32 \<Rightarrow> u64) \<Rightarrow> u64 \<Rightarrow> attach_spec \<Rightarrow> volume list \<Rightarrow> int \<times> volume list" where
  "kfastblock_volume_detach wait m2j now spec vols =
     (case kfastblock_volume_find_get_locked vols (as_pool_name spec) (as_image_name spec) of
        (None, vols1) \<Rightarrow> (- ENOENT, vols1)
      | (Some i, vols1) \<Rightarrow>
          (case kfastblock_volume_unregister wait m2j now True (vols1 ! i) of
             (ret, vol) \<Rightarrow> (ret, put_device_at i (vols1[i := vol]))))"

text \<open>Module exit unregisters every volume after unlinking it; the result lists what became of them.\<close>

definition kfastblock_volume_exit ::
    "wait_fn \<Rightarrow> (u32 \<Rightarrow> u64) \<Rightarrow> u64 \<Rightarrow> volume list \<Rightarrow> (int \<times> volume) list \<times> volume list" where
  "kfastblock_volume_exit wait m2j now vols =
     (map (kfastblock_volume_unregister wait m2j now False) vols, [])"

end
