(* ===== verification/KFB_Gate.thy ===== *)
theory KFB_Gate
  imports KFB_Lifecycle KFB_Split
begin

text \<open>
  Laws of the volume's life cycle: the gate of the request queue against the state that should open
  it, the accounting of in-flight requests on every exit of \<^verbatim>\<open>kfastblock_queue_rq\<close>, the queue limits
  against the extent limit of a request, and the table of volumes.
\<close>

section \<open>Book-keeping changes nothing else\<close>

text \<open>A volume with its statistics, health and event log blanked.\<close>

definition core :: "volume \<Rightarrow> volume" where
  "core vol = vol \<lparr> v_stats := zero_stats, v_pipeline_stats := zero_pipeline_stats,
     v_health := \<lparr> vh_state = 0, vh_last_failure_source = 0, vh_last_errno = 0, vh_state_since_jiffies = 0,
                  vh_last_failure_jiffies = 0, vh_last_success_jiffies = 0 \<rparr>,
     v_event_log := \<lparr> el_next_index = 0, el_count = 0, el_entries = [] \<rparr>,
     v_pipeline_snapshot := zero_pipeline_snapshot \<rparr>"

lemma core_record_event [simp]: "core (kfastblock_volume_record_event now t ret op pg osd a b vol) = core vol"
  by (simp add: core_def kfastblock_volume_record_event_def)

lemma core_stats [simp]: "core (vol \<lparr> v_stats := s \<rparr>) = core vol"
  by (simp add: core_def)

lemma core_update_health [simp]: "core (kfastblock_volume_update_health now st src ret vol) = core vol"
  by (auto simp: kfastblock_volume_update_health_def Let_def) (simp_all add: core_def)

lemma core_mark_success [simp]: "core (kfastblock_volume_mark_success now src vol) = core vol"
  by (auto simp: kfastblock_volume_mark_success_def Let_def) (simp_all add: core_def)

lemma core_account [simp]:
  "core (kfastblock_volume_account_cluster_refresh now ret vol) = core vol"
  "core (kfastblock_volume_account_image_refresh now ret vol) = core vol"
  "core (kfastblock_volume_account_metadata_stale now vol) = core vol"
  "core (kfastblock_volume_account_refresh_kick now pg ret vol) = core vol"
  "core (kfastblock_volume_account_io_submit op bytes vol) = core vol"
  "core (kfastblock_volume_account_io_complete ret vol) = core vol"
  by (simp_all add: kfastblock_volume_account_cluster_refresh_def kfastblock_volume_account_image_refresh_def
      kfastblock_volume_account_metadata_stale_def kfastblock_volume_account_refresh_kick_def)
     (simp_all add: core_def kfastblock_volume_account_io_submit_def kfastblock_volume_account_io_complete_def
      Let_def)

lemma core_fields:
  assumes "core a = core b"
  shows "v_disk a = v_disk b" "v_ready a = v_ready b" "v_manual_queue_pause a = v_manual_queue_pause b"
    "v_queue_paused a = v_queue_paused b" "v_view a = v_view b" "v_inflight_ios a = v_inflight_ios b"
    "v_open_count a = v_open_count b" "v_dev_refs a = v_dev_refs b" "v_refresh_work a = v_refresh_work b"
proof -
  have "f (core a) = f (core b)" for f :: "volume \<Rightarrow> 'x" using assms by simp
  from this [of v_disk] this [of v_ready] this [of v_manual_queue_pause] this [of v_queue_paused]
    this [of v_view] this [of v_inflight_ios] this [of v_open_count] this [of v_dev_refs] this [of v_refresh_work]
  show "v_disk a = v_disk b" "v_ready a = v_ready b" "v_manual_queue_pause a = v_manual_queue_pause b"
    "v_queue_paused a = v_queue_paused b" "v_view a = v_view b" "v_inflight_ios a = v_inflight_ios b"
    "v_open_count a = v_open_count b" "v_dev_refs a = v_dev_refs b" "v_refresh_work a = v_refresh_work b"
    by (simp_all add: core_def)
qed

section \<open>The gate\<close>

text \<open>
  The gate is in step when the quiesce depth is 1 exactly while the volume counts the queue as
  paused, and it is settled when it is paused exactly when it should be.
\<close>

definition gate_step :: "volume \<Rightarrow> bool" where
  "gate_step vol \<longleftrightarrow> (\<exists>d. v_disk vol = Some d \<and> dk_quiesce_depth d = (if v_queue_paused vol then 1 else 0))"

definition gate_settled :: "volume \<Rightarrow> bool" where
  "gate_settled vol \<longleftrightarrow> gate_step vol \<and> (v_queue_paused vol \<longleftrightarrow> kfastblock_volume_should_pause_queue vol)"

lemma should_pause_cong:
  assumes "v_ready a = v_ready b" "v_manual_queue_pause a = v_manual_queue_pause b" "v_view a = v_view b"
  shows "kfastblock_volume_should_pause_queue a = kfastblock_volume_should_pause_queue b"
  using assms by (simp add: kfastblock_volume_should_pause_queue_def)

lemma gate_core:
  assumes "core a = core b"
  shows "gate_step a = gate_step b" "gate_settled a = gate_settled b"
    "kfastblock_volume_should_pause_queue a = kfastblock_volume_should_pause_queue b"
  using core_fields [OF assms] should_pause_cong [of a b] by (simp_all add: gate_settled_def gate_step_def)

text \<open>What the gate does to the core of a volume with a disk.\<close>

lemma update_queue_gate_core:
  assumes "v_disk vol = Some d"
  shows "core (kfastblock_volume_update_queue_gate now vol) =
    core (if kfastblock_volume_should_pause_queue vol = v_queue_paused vol then vol
          else vol \<lparr> v_disk := Some (if v_queue_paused vol then blk_mq_unquiesce_queue d else blk_mq_quiesce_queue d),
                     v_queue_paused := \<not> v_queue_paused vol \<rparr>)"
  using assms by (auto simp: kfastblock_volume_update_queue_gate_def Let_def)

lemma update_queue_gate_keeps [simp]:
  "v_ready (kfastblock_volume_update_queue_gate now vol) = v_ready vol \<and>
   v_manual_queue_pause (kfastblock_volume_update_queue_gate now vol) = v_manual_queue_pause vol \<and>
   v_view (kfastblock_volume_update_queue_gate now vol) = v_view vol \<and>
   v_inflight_ios (kfastblock_volume_update_queue_gate now vol) = v_inflight_ios vol \<and>
   v_dev_refs (kfastblock_volume_update_queue_gate now vol) = v_dev_refs vol"
proof (cases "v_disk vol")
  case (Some d)
  note f = core_fields [OF update_queue_gate_core [OF Some, of now]]
  show ?thesis by (simp add: f)
qed (simp add: kfastblock_volume_update_queue_gate_def)

lemma update_queue_gate_settles [kfb_inv]:
  assumes "gate_step vol"
  shows "gate_settled (kfastblock_volume_update_queue_gate now vol)"
proof -
  obtain d where d: "v_disk vol = Some d" "dk_quiesce_depth d = (if v_queue_paused vol then 1 else 0)"
    using assms by (auto simp: gate_step_def)
  let ?v = "if kfastblock_volume_should_pause_queue vol = v_queue_paused vol then vol
    else vol \<lparr> v_disk := Some (if v_queue_paused vol then blk_mq_unquiesce_queue d else blk_mq_quiesce_queue d),
               v_queue_paused := \<not> v_queue_paused vol \<rparr>"
  have "kfastblock_volume_should_pause_queue ?v = kfastblock_volume_should_pause_queue vol"
    by (auto simp: kfastblock_volume_should_pause_queue_def)
  then have "gate_settled ?v"
    using d by (auto simp: gate_settled_def gate_step_def blk_mq_quiesce_queue_def blk_mq_unquiesce_queue_def)
  then show ?thesis using gate_core(2) [OF update_queue_gate_core [OF d(1), of now]] by simp
qed

lemma set_manual_pause_core:
  "core (kfastblock_volume_set_manual_queue_pause_locked now p vol) = core (vol \<lparr> v_manual_queue_pause := p \<rparr>)"
  by (auto simp: kfastblock_volume_set_manual_queue_pause_locked_def Let_def)
     (simp_all add: core_def volume.equality)

lemma set_manual_pause_step [kfb_inv]:
  assumes "gate_step vol"
  shows "gate_step (kfastblock_volume_set_manual_queue_pause_locked now p vol)"
  using assms gate_core(1) [OF set_manual_pause_core, of now p vol] by (simp add: gate_step_def)

subsection \<open>Refreshing\<close>

text \<open>
  What the refresh relies on from the transport: a fetch replaces the view and touches sockets and
  books, but neither the disk nor the flags of the queue.
\<close>

definition fetch_keeps_queue :: "(volume \<Rightarrow> int \<times> volume) \<Rightarrow> bool" where
  "fetch_keeps_queue f \<longleftrightarrow> (\<forall>vol. v_disk (snd (f vol)) = v_disk vol \<and> v_ready (snd (f vol)) = v_ready vol \<and>
     v_manual_queue_pause (snd (f vol)) = v_manual_queue_pause vol \<and> v_queue_paused (snd (f vol)) = v_queue_paused vol)"

text \<open>The part of a volume the gate invariant reads, up to the disk's other settings.\<close>

definition gate_view :: "volume \<Rightarrow> nat option \<times> bool" where
  "gate_view vol = (map_option dk_quiesce_depth (v_disk vol), v_queue_paused vol)"

lemma gate_step_view: "gate_step vol \<longleftrightarrow> gate_view vol = (Some (if v_queue_paused vol then 1 else 0), v_queue_paused vol)"
  by (auto simp: gate_step_def gate_view_def)

lemma gate_step_cong: "gate_view a = gate_view b \<Longrightarrow> gate_step a = gate_step b"
  unfolding gate_step_view by (auto simp: gate_view_def)

lemma gate_view_core: "core a = core b \<Longrightarrow> gate_view a = gate_view b"
  using core_fields [of a b] by (simp add: gate_view_def)

lemma gate_view_apply_limits [simp]: "gate_view (kfastblock_volume_apply_queue_limits vol) = gate_view vol"
  by (auto simp: gate_view_def kfastblock_volume_apply_queue_limits_def Let_def split: option.splits)

lemma gate_view_close [simp]:
  "gate_view (kfastblock_volume_close_osd_cached_sockets now vol) = gate_view vol"
  "gate_view (kfastblock_volume_close_cached_sockets now vol) = gate_view vol"
  by (simp_all add: gate_view_def kfastblock_volume_close_osd_cached_sockets_def
      kfastblock_volume_close_monitor_cached_sockets_def kfastblock_volume_close_cached_sockets_def)

lemma gate_view_map_disk [simp]:
  "gate_view (map_disk (dk_capacity_update f) vol) = gate_view vol"
  "gate_view (map_disk (dk_read_only_update g) vol) = gate_view vol"
  by (simp_all add: gate_view_def map_disk_def option.map_comp comp_def)

lemma gate_view_apply_new_image [simp]: "gate_view (apply_new_image now c old vol) = gate_view vol"
  by (simp add: apply_new_image_def Let_def)

lemma gate_view_books [simp]:
  "gate_view (kfastblock_volume_account_cluster_refresh now ret vol) = gate_view vol"
  "gate_view (kfastblock_volume_account_image_refresh now ret vol) = gate_view vol"
  "gate_view (kfastblock_volume_account_metadata_stale now vol) = gate_view vol"
  by (rule gate_view_core, simp)+

lemma gate_view_set_view [simp]: "gate_view (vol \<lparr> v_view := w \<rparr>) = gate_view vol"
  by (simp add: gate_view_def)

lemma refresh_locked_settles [kfb_inv]:
  assumes "gate_step vol" "fetch_keeps_queue fc" "fetch_keeps_queue fi"
  shows "gate_settled (snd (kfastblock_volume_refresh_locked fc fi now c i vol))"
proof -
  have k: "gate_view (snd (f v)) = gate_view v" if "fetch_keeps_queue f" for f v
    using that by (simp add: fetch_keeps_queue_def gate_view_def)
  obtain ret v1 where v1: "(if c then fc vol else (0, vol)) = (ret, v1)" by fastforce
  obtain ir v2 where v2: "(if ret = 0 \<and> i then fi v1 else (0, v1)) = (ir, v2)" by fastforce
  have "gate_view v1 = gate_view vol" using v1 k [OF assms(2), of vol] by (auto split: if_splits)
  moreover have "gate_view v2 = gate_view v1" using v2 k [OF assms(3), of v1] by (auto split: if_splits)
  ultimately have g: "gate_view v2 = gate_view vol" by simp
  show ?thesis
    unfolding kfastblock_volume_refresh_locked_def Let_def v1 prod.case v2 snd_conv
    by (intro update_queue_gate_settles iffD1 [OF gate_step_cong [symmetric] assms(1)])
       (simp add: g)
qed

text \<open>
  The histories of an attached volume's gate: manual pause and resume, refreshes by hand or by the
  worker, and anything that leaves the gate's inputs alone.
\<close>

inductive gate_run :: "volume \<Rightarrow> bool" where
  attached: "kfastblock_volume_attach bootstrap env al m2j now spec vols = (0, vols @ [vol]) \<Longrightarrow>
     fetch_keeps_queue bootstrap \<Longrightarrow> gate_run vol"
| switched: "gate_run vol \<Longrightarrow>
     gate_run (kfastblock_volume_update_queue_gate now (kfastblock_volume_set_manual_queue_pause_locked now p vol))"
| refreshed: "gate_run vol \<Longrightarrow> fetch_keeps_queue fc \<Longrightarrow> fetch_keeps_queue fi \<Longrightarrow>
     gate_run (snd (kfastblock_volume_refresh_locked fc fi now c i vol))"
| worked: "gate_run vol \<Longrightarrow> fetch_keeps_queue fc \<Longrightarrow> fetch_keeps_queue fi \<Longrightarrow>
     gate_run (kfastblock_volume_refresh_workfn fc fi m2j now vol)"
| other: "gate_run vol \<Longrightarrow> v_disk vol' = v_disk vol \<Longrightarrow> v_ready vol' = v_ready vol \<Longrightarrow>
     v_manual_queue_pause vol' = v_manual_queue_pause vol \<Longrightarrow> v_queue_paused vol' = v_queue_paused vol \<Longrightarrow>
     v_view vol' = v_view vol \<Longrightarrow> gate_run vol'"

lemma gate_settled_cong:
  assumes "v_disk a = v_disk b" "v_ready a = v_ready b" "v_manual_queue_pause a = v_manual_queue_pause b"
    "v_queue_paused a = v_queue_paused b" "v_view a = v_view b"
  shows "gate_settled a = gate_settled b"
  using assms should_pause_cong [of a b] by (simp add: gate_settled_def gate_step_def)

lemma schedule_refresh_settled [simp]:
  "gate_settled (kfastblock_volume_schedule_refresh m2j vol) = gate_settled vol"
  by (rule gate_settled_cong) (simp_all add: kfastblock_volume_schedule_refresh_def)

lemma add_disk_step:
  assumes "kfastblock_volume_add_disk env now v0 = (0, v1)" "\<not> v_queue_paused v0"
  shows "gate_step v1"
proof -
  let ?d = "\<lparr> dk_quiesce_depth = 0, dk_capacity = drop_bit 9 (ii_size_bytes (cv_image (v_view v0))),
     dk_read_only = ii_read_only (cv_image (v_view v0)), dk_limits = zero_limits \<rparr>"
  let ?v = "kfastblock_volume_apply_queue_limits (v0 \<lparr> v_dev_id := ad_dev_id env, v_disk := Some ?d \<rparr>)"
  have "gate_view ?v = gate_view (v0 \<lparr> v_dev_id := ad_dev_id env, v_disk := Some ?d \<rparr>)" by simp
  then have "gate_step ?v = gate_step (v0 \<lparr> v_dev_id := ad_dev_id env, v_disk := Some ?d \<rparr>)"
    by (rule gate_step_cong)
  then have "gate_step ?v" using assms(2) by (simp add: gate_step_def)
  then have "gate_settled (kfastblock_volume_update_queue_gate now ?v)" by (rule update_queue_gate_settles)
  moreover have "v1 = (kfastblock_volume_update_queue_gate now ?v) \<lparr> v_dev_refs := 1 \<rparr>"
    using assms(1) by (auto simp: kfastblock_volume_add_disk_def Let_def split: if_splits)
  moreover have "gate_step (w \<lparr> v_dev_refs := 1 \<rparr>) = gate_step w" for w by (simp add: gate_step_def)
  ultimately show ?thesis unfolding gate_settled_def by (simp only:)
qed

lemma attach_settled:
  assumes at: "kfastblock_volume_attach bootstrap env al m2j now spec vols = (0, vols @ [vol])"
    and bk: "fetch_keeps_queue bootstrap"
  shows "gate_settled vol"
proof -
  obtain spec' v0 v1 where b: "bootstrap ((init_volume now) \<lparr> v_spec := spec' \<rparr>) = (0, v0)"
      "kfastblock_volume_add_disk env now v0 = (0, v1)"
    and vol: "vol = kfastblock_volume_schedule_refresh m2j (kfastblock_volume_update_queue_gate now
      (kfastblock_volume_mark_success now KFASTBLOCK_VOLUME_SOURCE_ATTACH
        (kfastblock_volume_record_event now KFASTBLOCK_VOLUME_EVENT_ATTACH_READY 0 REQ_OP_FLUSH 0 0
          (ii_pool_id (cv_image (v_view v1))) (ii_pg_count (cv_image (v_view v1))) (v1 \<lparr> v_ready := True \<rparr>))))"
    using at by (auto simp: kfastblock_volume_attach_def split: if_splits prod.splits)
  have "v_queue_paused v0 = v_queue_paused ((init_volume now) \<lparr> v_spec := spec' \<rparr>)"
    using bk b(1) unfolding fetch_keeps_queue_def by (metis snd_conv)
  then have "\<not> v_queue_paused v0" by (simp add: init_volume_def kfastblock_volume_stats_init_def)
  then have "gate_step (v1 \<lparr> v_ready := True \<rparr>)" using add_disk_step [OF b(2)] by (simp add: gate_step_def)
  then have "gate_step (kfastblock_volume_mark_success now KFASTBLOCK_VOLUME_SOURCE_ATTACH
      (kfastblock_volume_record_event now KFASTBLOCK_VOLUME_EVENT_ATTACH_READY 0 REQ_OP_FLUSH 0 0
        (ii_pool_id (cv_image (v_view v1))) (ii_pg_count (cv_image (v_view v1))) (v1 \<lparr> v_ready := True \<rparr>)))"
    by (subst gate_core(1)) simp_all
  then show ?thesis unfolding vol by (simp add: update_queue_gate_settles)
qed

lemma gate_run_settled: "gate_run vol \<Longrightarrow> gate_settled vol"
proof (induction rule: gate_run.induct)
  case (attached bootstrap env al m2j now spec vols vol)
  then show ?case by (rule attach_settled)
next
  case (switched vol now p)
  then have "gate_step vol" by (simp add: gate_settled_def)
  then show ?case by (intro update_queue_gate_settles set_manual_pause_step)
next
  case (refreshed vol fc fi now c i)
  then have "gate_step vol" by (simp add: gate_settled_def)
  with refreshed show ?case by (intro refresh_locked_settles)
next
  case (worked vol fc fi m2j now)
  let ?v = "vol \<lparr> v_refresh_work := None \<rparr>"
  have st: "gate_settled ?v" using worked.IH gate_settled_cong [of ?v vol] by simp
  then have "gate_settled (snd (kfastblock_volume_refresh_locked fc fi now c i ?v))" for c i
    using worked by (intro refresh_locked_settles) (simp_all add: gate_settled_def)
  with st show ?case by (simp add: kfastblock_volume_refresh_workfn_def Let_def)
next
  case (other vol vol')
  then show ?case using gate_settled_cong [of vol' vol] by simp
qed


definition sample_image :: cluster_view where
  "sample_image = kfastblock_meta_cleanup_view
     \<lparr> cv_image := \<lparr> ii_pool_name = ''p'', ii_image_name = ''i'', ii_size_bytes = 1048576, ii_block_size = 4096,
         ii_object_size = 4194304, ii_pool_id = 1, ii_pg_count = 2, ii_read_only = False \<rparr>,
       cv_sync_state := KFASTBLOCK_META_SYNC_READY \<rparr>"

definition sample_bootstrap :: "volume \<Rightarrow> int \<times> volume" where
  "sample_bootstrap vol = (0, vol \<lparr> v_view := sample_image \<rparr>)"

definition sample_env :: add_disk_env where
  "sample_env = \<lparr> ad_tag_set_ret = 0, ad_dev_id = 3, ad_disk_ok = True, ad_device_ret = 0, ad_device_disk_ret = 0 \<rparr>"

definition sample_spec :: attach_spec where
  "sample_spec = zero_spec \<lparr> as_pool_name := Some ''p'', as_image_name := Some ''i'' \<rparr>"

lemma attach_succeeds:
  assumes "kfastblock_volume_find_locked vols (as_pool_name spec) (as_image_name spec) = None"
    "bootstrap ((init_volume now) \<lparr> v_spec := spec \<rparr>) = (0, v0)" "kfastblock_meta_ready (v_view v0)"
    "kfastblock_volume_add_disk env now v0 = (0, v1)"
    "kfastblock_volume_find_locked vols (Some (ii_pool_name (cv_image (v_view v1))))
       (Some (ii_image_name (cv_image (v_view v1)))) = None"
  shows "kfastblock_volume_attach bootstrap env [] m2j now spec vols = (0, vols @
    [kfastblock_volume_schedule_refresh m2j (kfastblock_volume_update_queue_gate now
      (kfastblock_volume_mark_success now KFASTBLOCK_VOLUME_SOURCE_ATTACH
        (kfastblock_volume_record_event now KFASTBLOCK_VOLUME_EVENT_ATTACH_READY 0 REQ_OP_FLUSH 0 0
          (ii_pool_id (cv_image (v_view v1))) (ii_pg_count (cv_image (v_view v1))) (v1 \<lparr> v_ready := True \<rparr>))))])"
proof -
  have "kfastblock_volume_copy_attach_spec [] spec = (0, spec, [])"
    by (auto simp: kfastblock_volume_copy_attach_spec_def dup_opt_def kalloc_def split: option.splits)
  then show ?thesis using assms by (simp add: kfastblock_volume_attach_def kalloc_def)
qed

definition sample_volume :: volume where
  "sample_volume = last (snd (kfastblock_volume_attach sample_bootstrap sample_env [] ucast 7 sample_spec []))"

lemma sample_volume_attached:
  "kfastblock_volume_attach sample_bootstrap sample_env [] ucast 7 sample_spec [] = (0, [] @ [sample_volume])"
  "v_ready sample_volume" "v_view sample_volume = sample_image" "\<not> v_manual_queue_pause sample_volume"
proof -
  let ?v0 = "((init_volume 7) \<lparr> v_spec := sample_spec \<rparr>) \<lparr> v_view := sample_image \<rparr>"
  obtain v1 where v1: "kfastblock_volume_add_disk sample_env 7 ?v0 = (0, v1)"
    by (simp add: kfastblock_volume_add_disk_def sample_env_def Let_def)
  have lim: "v_view (kfastblock_volume_apply_queue_limits v) = v_view v"
      "v_manual_queue_pause (kfastblock_volume_apply_queue_limits v) = v_manual_queue_pause v" for v
    by (auto simp: kfastblock_volume_apply_queue_limits_def Let_def split: option.splits)
  have v1k: "v_view v1 = sample_image" "\<not> v_manual_queue_pause v1"
    using v1 by (auto simp: kfastblock_volume_add_disk_def sample_env_def Let_def lim init_volume_def
        kfastblock_volume_stats_init_def)
  define w where "w = kfastblock_volume_mark_success 7 KFASTBLOCK_VOLUME_SOURCE_ATTACH
        (kfastblock_volume_record_event 7 KFASTBLOCK_VOLUME_EVENT_ATTACH_READY 0 REQ_OP_FLUSH 0 0
          (ii_pool_id (cv_image (v_view v1))) (ii_pg_count (cv_image (v_view v1))) (v1 \<lparr> v_ready := True \<rparr>))"
  have at: "kfastblock_volume_attach sample_bootstrap sample_env [] ucast 7 sample_spec [] =
      (0, [] @ [kfastblock_volume_schedule_refresh ucast (kfastblock_volume_update_queue_gate 7 w)])"
    unfolding w_def using v1 by (intro attach_succeeds)
      (auto simp: kfastblock_volume_find_locked_def sample_bootstrap_def sample_image_def kfastblock_meta_ready_def
        split: option.splits)
  then have sv: "sample_volume = kfastblock_volume_schedule_refresh ucast (kfastblock_volume_update_queue_gate 7 w)"
    by (simp add: sample_volume_def)
  show "kfastblock_volume_attach sample_bootstrap sample_env [] ucast 7 sample_spec [] = (0, [] @ [sample_volume])"
    unfolding sv by (rule at)
  have "core w = core (v1 \<lparr> v_ready := True \<rparr>)" by (simp add: w_def)
  note w = core_fields [OF this]
  show "v_ready sample_volume" "v_view sample_volume = sample_image" "\<not> v_manual_queue_pause sample_volume"
    using v1k by (simp_all add: sv kfastblock_volume_schedule_refresh_def w)
qed


text \<open>
  A stop that times out and is rolled back leaves the gate one step too deep when the queue was
  paused before: a later resume clears the flag but the block layer stays quiesced.
\<close>

lemma stop_rollback_leaves_queue_quiesced:
  assumes d: "v_disk vol = Some d" "dk_quiesce_depth d = 1" "v_queue_paused vol" "v_manual_queue_pause vol"
    and io: "kfastblock_meta_io_ready (v_view vol)" "v_inflight_ios vol \<noteq> 0"
  shows "case kfastblock_volume_begin_stop (\<lambda>v. (0, v)) m2j now True vol of (ret, stopped) \<Rightarrow>
    (let resumed = kfastblock_volume_update_queue_gate now'
                     (kfastblock_volume_set_manual_queue_pause_locked now' False stopped)
     in ret = - ETIMEDOUT \<and> v_ready resumed \<and> \<not> v_queue_paused resumed \<and>
        map_option dk_quiesce_depth (v_disk resumed) = Some 1)"
proof -
  let ?s = "vol \<lparr> v_refresh_work := None, v_queue_paused := True,
                  v_disk := Some (blk_mq_quiesce_queue d), v_ready := True \<rparr>"
  have gate: "kfastblock_volume_update_queue_gate now ?s = ?s"
    using d by (simp add: kfastblock_volume_update_queue_gate_def kfastblock_volume_should_pause_queue_def)
  have stop: "kfastblock_volume_begin_stop (\<lambda>v. (0, v)) m2j now True vol =
      (- ETIMEDOUT, kfastblock_volume_schedule_refresh m2j ?s)"
    using d io gate by (simp add: kfastblock_volume_begin_stop_def kfastblock_volume_drain_io_def Let_def)
  let ?t = "kfastblock_volume_schedule_refresh m2j ?s"
  let ?m = "kfastblock_volume_set_manual_queue_pause_locked now' False ?t"
  have t: "v_disk ?t = Some (blk_mq_quiesce_queue d)" "v_queue_paused ?t" "v_ready ?t" "v_view ?t = v_view vol"
    by (simp_all add: kfastblock_volume_schedule_refresh_def)
  note m = core_fields [OF set_manual_pause_core [of now' False ?t]]
  have md: "v_disk ?m = Some (blk_mq_quiesce_queue d)" using m(1) t(1) by simp
  have "\<not> kfastblock_volume_should_pause_queue ?m"
    using m t io by (simp add: kfastblock_volume_should_pause_queue_def)
  then have "core (kfastblock_volume_update_queue_gate now' ?m) =
      core (?m \<lparr> v_disk := Some (blk_mq_unquiesce_queue (blk_mq_quiesce_queue d)), v_queue_paused := False \<rparr>)"
    using update_queue_gate_core [OF md, of now'] m t by simp
  note g = core_fields [OF this]
  show ?thesis
    using g m t d by (simp add: stop Let_def blk_mq_quiesce_queue_def blk_mq_unquiesce_queue_def)
qed

section \<open>Queue limits\<close>

lemma round_down_le: "round_down x y \<le> x"
  by (simp add: round_down_def word_and_le2)

text \<open>The advertised maximum never exceeds what 128 objects hold.\<close>

lemma effective_max_io_le:
  assumes "ii_object_size (cv_image (v_view vol)) \<noteq> 0"
    "unat (ii_block_size (cv_image (v_view vol))) \<le> 128 * unat (ii_object_size (cv_image (v_view vol)))"
  shows "unat (kfastblock_volume_effective_max_io_bytes vol) \<le> 128 * unat (ii_object_size (cv_image (v_view vol)))"
proof -
  let ?os = "ii_object_size (cv_image (v_view vol))" and ?bs = "ii_block_size (cv_image (v_view vol))"
  define l0 where "l0 = (min 4194304 (ucast ?os * 128) :: u64)"
  define l1 where "l1 = (if ?bs \<noteq> 0 then round_down l0 (ucast ?bs) else l0)"
  have prod: "unat (ucast ?os * 128 :: u64) = 128 * unat ?os"
    using unat_u32_bound [of ?os] by (simp add: unat_word_ariths)
  have l10: "l1 \<le> l0" using round_down_le [of l0] by (simp add: l1_def)
  have l0: "unat l0 \<le> 4194304" "unat l0 \<le> 128 * unat ?os"
    using prod by (auto simp: l0_def min_def word_le_nat_alt not_le word_less_nat_alt)
  then have l1: "unat l1 \<le> 4194304" "unat l1 \<le> 128 * unat ?os" using l10 by (simp_all add: word_le_nat_alt)
  have eff: "kfastblock_volume_effective_max_io_bytes vol =
      (if l1 = 0 then (if ?bs \<noteq> 0 then ?bs else 512) else ucast l1)"
    using assms(1) by (simp add: kfastblock_volume_effective_max_io_bytes_def Let_def l0_def l1_def)
  have "l1 \<noteq> 0" if "?bs = 0"
  proof -
    have "0 < unat ?os" using assms(1) by (simp add: unat_gt_0)
    then have "0 < unat l0" using prod by (auto simp: l0_def min_def)
    then show ?thesis using that by (auto simp: l1_def)
  qed
  moreover have "unat (ucast l1 :: u32) = unat l1" using l1(1) by (intro unat_ucast_64_32_small) simp
  ultimately show ?thesis using assms(2) l1(2) by (auto simp: eff)
qed

lemma touched_objects_le:
  fixes os len :: nat
  assumes "0 < os" "0 < len" "len \<le> 128 * os" "off mod os = 0 \<or> off mod os + len \<le> os"
  shows "(off + len - 1) div os - off div os + 1 \<le> 128"
proof -
  have off: "off = off div os * os + off mod os" by simp
  show ?thesis
  proof (cases "off mod os = 0")
    case True
    have "off + len - 1 = (len - 1) + off div os * os" using off True assms(2) by linarith
    then have "(off + len - 1) div os = (len - 1) div os + off div os" using assms(1) by simp
    moreover have "(len - 1) div os < 128" using assms by (intro less_mult_imp_div_less) simp
    ultimately show ?thesis by simp
  next
    case False
    then have "off mod os + len - 1 < os" using assms by simp
    moreover have "off + len - 1 = (off mod os + len - 1) + off div os * os" using off assms(2) by linarith
    ultimately have "(off + len - 1) div os = off div os" using assms(1) by simp
    then show ?thesis by simp
  qed
qed



section \<open>Entry of a request\<close>

lemma cleanup_inflight [simp]: "v_inflight_ios (fst (kfastblock_request_cleanup vr)) = v_inflight_ios (fst vr)"
  by (simp add: kfastblock_request_cleanup_def kfastblock_volume_reset_pipeline_snapshot_def
      kfastblock_volume_account_pipeline_cleanup_def split: prod.splits)

lemma init_inflight:
  assumes "kfastblock_request_init now al rq vr = (ret, vol, r)"
  shows "v_inflight_ios vol = v_inflight_ios (fst vr)"
proof -
  have c: "kfastblock_request_cleanup vr' = (v, x) \<Longrightarrow> v_inflight_ios v = v_inflight_ios (fst vr')" for vr' v x
    using cleanup_inflight [of vr'] by simp
  show ?thesis
    using assms
    by (auto simp: kfastblock_request_init_def kfastblock_volume_account_pipeline_prepare_def Let_def
        dest!: c split: prod.splits if_splits)
qed

text \<open>The contract of a transport: a submission it refuses leaves the request to the caller.\<close>

locale request_submitter =
  fixes submit :: "volume \<times> request \<Rightarrow> int \<times> blk_status list \<times> volume \<times> request"
  assumes refuse: "submit vr = (ret, ended, vol, r) \<Longrightarrow> ret \<noteq> 0 \<Longrightarrow>
    ended = [] \<and> v_inflight_ios vol = v_inflight_ios (fst vr)"
begin

text \<open>Every refusal of a data request ends it once, with the status returned, and takes back the
  in-flight count.\<close>

lemma refusal_ends_once:
  assumes q: "kfastblock_queue_rq submit wait now al al' rq (vol, r) = (st, ended, vol', r')"
    and op: "br_op rq \<noteq> REQ_OP_FLUSH" and st: "st \<noteq> BLK_STS_OK"
  shows "ended = [st] \<and> v_inflight_ios vol' = v_inflight_ios vol"
proof -
  let ?start = "(kfastblock_volume_get_io vol, r \<lparr> kr_status := 0 \<rparr>)"
  have kick: "v_inflight_ios (kfastblock_volume_kick_refresh (kfastblock_volume_account_refresh_kick now 0 e vol)) =
      v_inflight_ios vol" for e
    using core_fields(6) [of "kfastblock_volume_account_refresh_kick now 0 e vol" vol]
    by (simp add: kfastblock_volume_kick_refresh_def)
  have sub: "v_inflight_ios (kfastblock_volume_account_io_submit o' b v) = v_inflight_ios v" for o' b v
    using core_fields(6) [of "kfastblock_volume_account_io_submit o' b v" v] by simp
  have com: "v_inflight_ios (kfastblock_volume_account_io_complete e v) = v_inflight_ios v" for e v
    using core_fields(6) [of "kfastblock_volume_account_io_complete e v" v] by simp
  have cl: "kfastblock_request_cleanup vr = (v, x) \<Longrightarrow> v_inflight_ios v = v_inflight_ios (fst vr)" for vr v x
    using cleanup_inflight [of vr] by simp
  show ?thesis
    using q op st
    by (auto simp: kfastblock_queue_rq_def Let_def kick sub com kfastblock_volume_get_io_def
        kfastblock_volume_put_io_def dest!: init_inflight refuse cl split: if_splits prod.splits)
qed

end

end
