(* ===== verification/KFB_Table.thy ===== *)
theory KFB_Table
  imports KFB_Gate
begin

text \<open>
  The table of attached volumes as an abstract list of (pool, image) names: attaching appends a new
  name, detaching removes it, and the device references account for the opens.
\<close>

definition volume_key :: "volume \<Rightarrow> string \<times> string" where
  "volume_key vol = (ii_pool_name (cv_image (v_view vol)), ii_image_name (cv_image (v_view vol)))"

definition registered :: "volume \<Rightarrow> bool" where
  "registered vol \<longleftrightarrow> v_ready vol \<and> 0 \<le> v_open_count vol \<and> v_dev_refs vol = 1 + v_open_count vol"

definition table_ok :: "volume list \<Rightarrow> bool" where
  "table_ok vols \<longleftrightarrow> distinct (map volume_key vols) \<and> (\<forall>vol \<in> set vols. registered vol)"

text \<open>What the driver relies on while it waits for requests to drain: names, opens and references of
  the volume are the same afterwards.\<close>

definition drain_keeps :: "wait_fn \<Rightarrow> bool" where
  "drain_keeps wait \<longleftrightarrow> (\<forall>vol. v_view (snd (wait vol)) = v_view vol \<and>
     v_open_count (snd (wait vol)) = v_open_count vol \<and> v_dev_refs (snd (wait vol)) = v_dev_refs vol)"

section \<open>Looking up\<close>

lemma first_slot_Some:
  "first_slot (\<lambda>_. p) i xs = Some k \<longleftrightarrow>
     (\<exists>j < length xs. k = i + j \<and> p (xs ! j) \<and> (\<forall>l < j. \<not> p (xs ! l)))"
proof (induction xs arbitrary: i)
  case (Cons x xs)
  show ?case
  proof (cases "p x")
    case True
    then show ?thesis by (auto intro: exI [of _ 0] simp: gr0_conv_Suc) (metis neq0_conv nth_Cons_0)
  next
    case False
    then have "first_slot (\<lambda>_. p) i (x # xs) = Some k \<longleftrightarrow>
        (\<exists>j < length xs. k = Suc i + j \<and> p (xs ! j) \<and> (\<forall>l < j. \<not> p (xs ! l)))"
      using Cons.IH by simp
    also have "\<dots> \<longleftrightarrow> (\<exists>j < length (x # xs). k = i + j \<and> p ((x # xs) ! j) \<and> (\<forall>l < j. \<not> p ((x # xs) ! l)))"
      (is "?L \<longleftrightarrow> ?R")
    proof
      assume ?L
      then obtain j where "j < length xs" "k = Suc i + j" "p (xs ! j)" "\<forall>l < j. \<not> p (xs ! l)" by blast
      then show ?R using False by (intro exI [of _ "Suc j"]) (auto simp: less_Suc_eq_0_disj)
    next
      assume ?R
      then obtain j where j: "j < length (x # xs)" "k = i + j" "p ((x # xs) ! j)" "\<forall>l < j. \<not> p ((x # xs) ! l)" by blast
      with False obtain m where m: "j = Suc m" by (cases j) auto
      have "\<not> p (xs ! l)" if "l < m" for l using j(4) that m by fastforce
      with j m show ?L by (intro exI [of _ m]) simp
    qed
    finally show ?thesis .
  qed
qed simp

lemma first_slot_None: "first_slot (\<lambda>_. p) i xs = None \<longleftrightarrow> (\<forall>x \<in> set xs. \<not> p x)"
  by (induction xs arbitrary: i) auto

lemma volume_find_locked_None:
  "kfastblock_volume_find_locked vols (Some p) (Some i) = None \<longleftrightarrow> (p, i) \<notin> volume_key ` set vols"
  by (auto simp: kfastblock_volume_find_locked_def first_slot_None volume_key_def)

lemma volume_find_locked_Some:
  assumes "kfastblock_volume_find_locked vols pn im = Some k"
  shows "k < length vols \<and> pn = Some (fst (volume_key (vols ! k))) \<and> im = Some (snd (volume_key (vols ! k)))"
  using assms by (auto simp: kfastblock_volume_find_locked_def first_slot_Some volume_key_def split: option.splits)

section \<open>Attaching\<close>

lemma apply_limits_keeps [simp]:
  "v_view (kfastblock_volume_apply_queue_limits vol) = v_view vol \<and>
   v_open_count (kfastblock_volume_apply_queue_limits vol) = v_open_count vol"
  by (auto simp: kfastblock_volume_apply_queue_limits_def Let_def split: option.splits)

lemma update_queue_gate_open [simp]:
  "v_open_count (kfastblock_volume_update_queue_gate now vol) = v_open_count vol"
proof (cases "v_disk vol")
  case (Some d)
  show ?thesis by (simp add: core_fields [OF update_queue_gate_core [OF Some, of now]])
qed (simp add: kfastblock_volume_update_queue_gate_def)

lemma attach_result:
  assumes at: "kfastblock_volume_attach bootstrap env al m2j now spec vols = (ret, vols')"
    and b: "\<And>v. v_open_count (snd (bootstrap v)) = v_open_count v"
  shows "(ret \<noteq> 0 \<and> vols' = vols) \<or>
    (ret = 0 \<and> (\<exists>vol. vols' = vols @ [vol] \<and> registered vol \<and> volume_key vol \<notin> volume_key ` set vols))"
proof (cases "ret = 0")
  case False
  then show ?thesis using at by (auto simp: kfastblock_volume_attach_def split: if_splits prod.splits)
next
  case True
  obtain spec' v0 v1 where bs: "bootstrap ((init_volume now) \<lparr> v_spec := spec' \<rparr>) = (0, v0)"
      "kfastblock_volume_add_disk env now v0 = (0, v1)"
      "(ii_pool_name (cv_image (v_view v1)), ii_image_name (cv_image (v_view v1))) \<notin> volume_key ` set vols"
    and vols': "vols' = vols @ [kfastblock_volume_schedule_refresh m2j (kfastblock_volume_update_queue_gate now
      (kfastblock_volume_mark_success now KFASTBLOCK_VOLUME_SOURCE_ATTACH
        (kfastblock_volume_record_event now KFASTBLOCK_VOLUME_EVENT_ATTACH_READY 0 REQ_OP_FLUSH 0 0
          (ii_pool_id (cv_image (v_view v1))) (ii_pg_count (cv_image (v_view v1))) (v1 \<lparr> v_ready := True \<rparr>))))]"
    using at True by (auto simp: kfastblock_volume_attach_def volume_find_locked_None split: if_splits prod.splits)
  define w where "w = kfastblock_volume_mark_success now KFASTBLOCK_VOLUME_SOURCE_ATTACH
        (kfastblock_volume_record_event now KFASTBLOCK_VOLUME_EVENT_ATTACH_READY 0 REQ_OP_FLUSH 0 0
          (ii_pool_id (cv_image (v_view v1))) (ii_pg_count (cv_image (v_view v1))) (v1 \<lparr> v_ready := True \<rparr>))"
  have "core w = core (v1 \<lparr> v_ready := True \<rparr>)" by (simp add: w_def)
  note w = core_fields [OF this]
  have "v_open_count v0 = 0"
    using b [of "(init_volume now) \<lparr> v_spec := spec' \<rparr>"] bs(1)
    by (simp add: init_volume_def kfastblock_volume_stats_init_def)
  then have v1: "v_open_count v1 = 0" "v_dev_refs v1 = 1"
    using bs(2) by (auto simp: kfastblock_volume_add_disk_def Let_def split: if_splits)
  let ?vol = "kfastblock_volume_schedule_refresh m2j (kfastblock_volume_update_queue_gate now w)"
  have "registered ?vol"
    using w v1 by (simp add: registered_def kfastblock_volume_schedule_refresh_def)
  moreover have "volume_key ?vol \<notin> volume_key ` set vols"
    using w bs(3) by (simp add: volume_key_def kfastblock_volume_schedule_refresh_def)
  ultimately show ?thesis using True vols' unfolding w_def by blast
qed

section \<open>Detaching\<close>

lemma drain_io_keeps:
  assumes "drain_keeps wait" "kfastblock_volume_drain_io wait vol = (ret, vol')"
  shows "v_view vol' = v_view vol \<and> v_open_count vol' = v_open_count vol \<and> v_dev_refs vol' = v_dev_refs vol \<and>
    ret \<in> {0, - ETIMEDOUT}"
  using assms
  by (auto simp: kfastblock_volume_drain_io_def drain_keeps_def split: if_splits prod.splits) (metis snd_conv)+

lemma unregister_result:
  assumes "drain_keeps wait" "kfastblock_volume_unregister wait m2j now True vol = (ret, vol')" "v_ready vol"
  shows "v_view vol' = v_view vol \<and> v_open_count vol' = v_open_count vol \<and>
    (if 0 < v_open_count vol then ret = - EBUSY \<and> vol' = vol
     else (ret = 0 \<and> v_dev_refs vol' = v_dev_refs vol - 1) \<or>
          (ret = - ETIMEDOUT \<and> v_dev_refs vol' = v_dev_refs vol \<and> v_ready vol'))"
proof (cases "0 < v_open_count vol")
  case False
  let ?v1 = "vol \<lparr> v_ready := False, v_refresh_work := None \<rparr>"
  let ?v2 = "case v_disk vol of None \<Rightarrow> ?v1
     | Some d \<Rightarrow> ?v1 \<lparr> v_queue_paused := True, v_disk := Some (blk_mq_quiesce_queue d) \<rparr>"
  obtain r v3 where d: "kfastblock_volume_drain_io wait ?v2 = (r, v3)" by fastforce
  have k2: "v_view ?v2 = v_view vol \<and> v_open_count ?v2 = v_open_count vol \<and> v_dev_refs ?v2 = v_dev_refs vol"
    by (simp split: option.split)
  note k = drain_io_keeps [OF assms(1) d]
  show ?thesis
    using False assms(2,3) k k2
    by (auto simp: kfastblock_volume_unregister_def kfastblock_volume_begin_stop_def Let_def d
        kfastblock_volume_schedule_refresh_def split: if_splits)
qed (use assms in \<open>simp add: kfastblock_volume_unregister_def\<close>)

lemma map_remove_nth:
  assumes "distinct (map f xs)" "i < length xs"
  shows "map f (take i xs @ drop (Suc i) xs) = remove1 (f (xs ! i)) (map f xs)"
proof -
  have xs: "map f xs = map f (take i xs) @ f (xs ! i) # map f (drop (Suc i) xs)"
    using id_take_nth_drop [OF assms(2)] by (metis list.simps(9) map_append)
  then have "f (xs ! i) \<notin> set (map f (take i xs))"
    using assms(1) by (metis distinct_append disjoint_iff list.set_intros(1))
  then show ?thesis unfolding xs by (simp add: remove1_append)
qed

section \<open>Histories of the table\<close>

inductive table_run :: "volume list \<Rightarrow> bool" where
  loaded: "table_run []"
| attach: "table_run vols \<Longrightarrow> (\<And>v. v_open_count (snd (bootstrap v)) = v_open_count v) \<Longrightarrow>
     table_run (snd (kfastblock_volume_attach bootstrap env al m2j now spec vols))"
| detach: "table_run vols \<Longrightarrow> drain_keeps wait \<Longrightarrow> table_run (snd (kfastblock_volume_detach wait m2j now spec vols))"
| opened: "table_run vols \<Longrightarrow> i < length vols \<Longrightarrow> table_run (vols[i := snd (kfastblock_blk_open (vols ! i))])"
| released: "table_run vols \<Longrightarrow> i < length vols \<Longrightarrow> 0 < v_open_count (vols ! i) \<Longrightarrow>
     table_run (vols[i := kfastblock_blk_release (vols ! i)])"

lemma map_update_same:
  assumes "i < length xs" "f y = f (xs ! i)"
  shows "map f (xs[i := y]) = map f xs"
  using assms by (simp add: map_update list_update_same_conv)

lemma detach_found:
  assumes fl: "kfastblock_volume_find_locked vols (as_pool_name spec) (as_image_name spec) = Some i"
    and det: "kfastblock_volume_detach wait m2j now spec vols = (ret, vols')"
  obtains vol where "kfastblock_volume_unregister wait m2j now True
      ((vols ! i) \<lparr> v_dev_refs := v_dev_refs (vols ! i) + 1 \<rparr>) = (ret, vol)"
    "vols' = put_device_at i (vols[i := vol])"
proof -
  have "i < length vols" using volume_find_locked_Some [OF fl] by simp
  with det show thesis
    by (auto simp: kfastblock_volume_detach_def kfastblock_volume_find_get_locked_def fl split: prod.splits intro: that)
qed

lemma detach_result:
  assumes ok: "table_ok vols" and dk: "drain_keeps wait"
    and det: "kfastblock_volume_detach wait m2j now spec vols = (ret, vols')"
  shows "(ret = 0 \<and> (\<exists>i < length vols. vols' = take i vols @ drop (Suc i) vols \<and>
            as_pool_name spec = Some (fst (volume_key (vols ! i))) \<and>
            as_image_name spec = Some (snd (volume_key (vols ! i))) \<and> v_open_count (vols ! i) = 0)) \<or>
    (ret \<noteq> 0 \<and> map volume_key vols' = map volume_key vols \<and> (\<forall>vol \<in> set vols'. registered vol))"
proof (cases "kfastblock_volume_find_locked vols (as_pool_name spec) (as_image_name spec)")
  case None
  then show ?thesis using det ok
    by (auto simp: kfastblock_volume_detach_def kfastblock_volume_find_get_locked_def table_ok_def)
next
  case (Some i)
  note f = volume_find_locked_Some [OF Some]
  let ?v = "(vols ! i) \<lparr> v_dev_refs := v_dev_refs (vols ! i) + 1 \<rparr>"
  obtain vol where u: "kfastblock_volume_unregister wait m2j now True ?v = (ret, vol)"
      and vols': "vols' = put_device_at i (vols[i := vol])"
    using detach_found [OF Some det] .
  have reg: "registered (vols ! i)" using ok f by (simp add: table_ok_def)
  then have "v_ready ?v" by (simp add: registered_def)
  note un = unregister_result [OF dk u this]
  have vk: "volume_key vol = volume_key (vols ! i)" using un by (simp add: volume_key_def)
  let ?w = "vol \<lparr> v_dev_refs := v_dev_refs vol - 1 \<rparr>"
  show ?thesis
  proof (cases "ret = 0")
    case True
    then have "v_dev_refs ?w = 0" "v_open_count (vols ! i) = 0"
      using un reg by (auto simp: registered_def split: if_splits)
    then show ?thesis using True f vols' by (auto simp: put_device_at_def Let_def)
  next
    case False
    then have "v_dev_refs ?w = v_dev_refs (vols ! i)" "v_ready ?w" "v_open_count ?w = v_open_count (vols ! i)"
      using un reg by (auto simp: registered_def split: if_splits)
    then have rw: "registered ?w" "v_dev_refs ?w \<noteq> 0" using reg by (auto simp: registered_def)
    then have v': "vols' = vols[i := ?w]" using f vols' by (simp add: put_device_at_def Let_def)
    moreover have "map volume_key (vols[i := ?w]) = map volume_key vols"
      using f vk by (intro map_update_same) (simp_all add: volume_key_def)
    moreover have "\<forall>vol \<in> set (vols[i := ?w]). registered vol"
      using rw ok set_update_subset_insert [of vols i ?w] by (auto simp: table_ok_def)
    ultimately show ?thesis using False by simp
  qed
qed

lemma table_ok_update:
  assumes "table_ok vols" "i < length vols" "volume_key vol = volume_key (vols ! i)" "registered vol"
  shows "table_ok (vols[i := vol])"
proof -
  have "map volume_key (vols[i := vol]) = map volume_key vols"
    using assms(2,3) by (rule map_update_same)
  moreover have "\<forall>v \<in> set (vols[i := vol]). registered v"
    using assms set_update_subset_insert [of vols i vol] by (auto simp: table_ok_def)
  ultimately show ?thesis using assms(1) by (simp add: table_ok_def)
qed

lemma table_run_ok: "table_run vols \<Longrightarrow> table_ok vols"
proof (induction rule: table_run.induct)
  case (attach vols bootstrap env al m2j now spec)
  obtain ret vols' where r: "kfastblock_volume_attach bootstrap env al m2j now spec vols = (ret, vols')" by fastforce
  from attach_result [OF r attach.hyps(2)] attach.IH show ?case by (auto simp: r table_ok_def)
next
  case (detach vols wait m2j now spec)
  obtain ret vols' where r: "kfastblock_volume_detach wait m2j now spec vols = (ret, vols')" by fastforce
  from detach_result [OF detach.IH detach.hyps(2) r] detach.IH show ?case
  proof (elim disjE conjE exE)
    fix i assume i: "i < length vols" "vols' = take i vols @ drop (Suc i) vols"
    have "distinct (map volume_key vols')"
      using map_remove_nth [OF _ i(1), of volume_key] detach.IH by (simp add: i(2) table_ok_def distinct_remove1)
    moreover have "set vols' \<subseteq> set vols" by (auto simp: i(2) dest: in_set_takeD in_set_dropD)
    ultimately show ?thesis using detach.IH by (auto simp: r table_ok_def)
  qed (auto simp: r table_ok_def)
next
  case (opened vols i)
  then have "registered (vols ! i)" by (simp add: table_ok_def)
  then have "registered (snd (kfastblock_blk_open (vols ! i)))"
    by (auto simp: kfastblock_blk_open_def registered_def)
  then show ?case using opened
    by (intro table_ok_update) (simp_all add: kfastblock_blk_open_def volume_key_def)
next
  case (released vols i)
  then have "registered (vols ! i)" by (simp add: table_ok_def)
  then have "registered (kfastblock_blk_release (vols ! i))"
    using released by (auto simp: kfastblock_blk_release_def registered_def)
  then show ?case using released
    by (intro table_ok_update) (simp_all add: kfastblock_blk_release_def volume_key_def)
qed (simp add: table_ok_def)



end
