(* ===== verification/KFB_Sysfs.thy ===== *)
theory KFB_Sysfs
  imports KFB_Lifecycle
begin

text \<open>
  The writable sysfs attributes of a volume, \<^verbatim>\<open>kfastblock/src/volume.c\<close>: the three parsers of the
  written text and the store functions. A store returns the number of bytes consumed or a negative
  errno, and the volume. The self-check and diagnostics attributes are not modelled.
\<close>

section \<open>Parsing\<close>

text \<open>\<^verbatim>\<open>kmemdup_nul(buf, count)\<close> read as a C string, and \<^verbatim>\<open>strim\<close> with its returned pointer.\<close>

definition memdup_str :: "string \<Rightarrow> nat \<Rightarrow> string" where
  "memdup_str buf count = takeWhile (\<lambda>c. c \<noteq> CHR 0x00) (take count buf)"

definition strim :: "string \<Rightarrow> string" where
  "strim s = dropWhile isspace (strim_in_place s)"

definition kfastblock_volume_parse_u32_value :: "allocs \<Rightarrow> string \<Rightarrow> nat \<Rightarrow> int + u32" where
  "kfastblock_volume_parse_u32_value al buf count =
     (if count = 0 then Inl (- EINVAL)
      else if \<not> fst (kalloc al) then Inl (- ENOMEM)
      else (let trimmed = strim (memdup_str buf count)
            in if trimmed = [] then Inl (- EINVAL) else kstrtou32 10 trimmed))"

datatype refresh_scope =
  KFASTBLOCK_VOLUME_REFRESH_ALL | KFASTBLOCK_VOLUME_REFRESH_CLUSTER | KFASTBLOCK_VOLUME_REFRESH_IMAGE

datatype transport_scope =
  KFASTBLOCK_VOLUME_TRANSPORT_ALL | KFASTBLOCK_VOLUME_TRANSPORT_OSD | KFASTBLOCK_VOLUME_TRANSPORT_MONITOR

definition refresh_scope_code :: "refresh_scope \<Rightarrow> u32" where
  "refresh_scope_code s = (case s of KFASTBLOCK_VOLUME_REFRESH_ALL \<Rightarrow> 0
     | KFASTBLOCK_VOLUME_REFRESH_CLUSTER \<Rightarrow> 1 | KFASTBLOCK_VOLUME_REFRESH_IMAGE \<Rightarrow> 2)"

definition transport_scope_code :: "transport_scope \<Rightarrow> u32" where
  "transport_scope_code s = (case s of KFASTBLOCK_VOLUME_TRANSPORT_ALL \<Rightarrow> 0
     | KFASTBLOCK_VOLUME_TRANSPORT_OSD \<Rightarrow> 1 | KFASTBLOCK_VOLUME_TRANSPORT_MONITOR \<Rightarrow> 2)"

definition kfastblock_volume_parse_refresh_scope :: "allocs \<Rightarrow> string \<Rightarrow> nat \<Rightarrow> int + refresh_scope" where
  "kfastblock_volume_parse_refresh_scope al buf count =
     (if \<not> fst (kalloc al) then Inl (- ENOMEM)
      else (let v = strim (memdup_str buf count)
            in if v = [] \<or> sysfs_streq v ''1'' \<or> sysfs_streq v ''all'' then Inr KFASTBLOCK_VOLUME_REFRESH_ALL
               else if sysfs_streq v ''cluster'' then Inr KFASTBLOCK_VOLUME_REFRESH_CLUSTER
               else if sysfs_streq v ''image'' then Inr KFASTBLOCK_VOLUME_REFRESH_IMAGE
               else Inl (- EINVAL)))"

definition kfastblock_volume_parse_transport_scope :: "allocs \<Rightarrow> string \<Rightarrow> nat \<Rightarrow> int + transport_scope" where
  "kfastblock_volume_parse_transport_scope al buf count =
     (if \<not> fst (kalloc al) then Inl (- ENOMEM)
      else (let v = strim (memdup_str buf count)
            in if v = [] \<or> sysfs_streq v ''1'' \<or> sysfs_streq v ''all'' then Inr KFASTBLOCK_VOLUME_TRANSPORT_ALL
               else if sysfs_streq v ''osd'' then Inr KFASTBLOCK_VOLUME_TRANSPORT_OSD
               else if sysfs_streq v ''monitor'' then Inr KFASTBLOCK_VOLUME_TRANSPORT_MONITOR
               else Inl (- EINVAL)))"

definition kfastblock_volume_parse_manual_trigger :: "allocs \<Rightarrow> string \<Rightarrow> nat \<Rightarrow> int" where
  "kfastblock_volume_parse_manual_trigger al buf count =
     (if count = 0 then 0
      else if \<not> fst (kalloc al) then - ENOMEM
      else (let v = strim (memdup_str buf count)
            in if v \<noteq> [] \<and> \<not> sysfs_streq v ''1'' \<and> \<not> sysfs_streq v ''all'' then - EINVAL else 0))"

text \<open>\<^verbatim>\<open>kstrtoint\<close>: \<^verbatim>\<open>kstrtoll\<close> with its two range checks, then the range of \<^verbatim>\<open>int\<close>.\<close>

definition kstrtoint :: "nat \<Rightarrow> string \<Rightarrow> int + int" where
  "kstrtoint base s =
     (let r = (case s of
                 c # s' \<Rightarrow>
                   if c = CHR ''-'' then
                     (if s' \<noteq> [] \<and> hd s' = CHR ''+'' then Inl (- EINVAL)
                      else case kstrtou (2 ^ 64) base s' of
                        Inl e \<Rightarrow> Inl e
                      | Inr n \<Rightarrow> if 2 ^ 63 < n then Inl (- ERANGE) else Inr (- int n))
                   else (case kstrtou (2 ^ 64) base s of
                           Inl e \<Rightarrow> Inl e
                         | Inr n \<Rightarrow> if 2 ^ 63 \<le> n then Inl (- ERANGE) else Inr (int n))
               | [] \<Rightarrow> Inl (- EINVAL))
      in case r of
           Inl e \<Rightarrow> Inl e
         | Inr v \<Rightarrow> if v < - (2 ^ 31) \<or> 2 ^ 31 \<le> v then Inl (- ERANGE) else Inr v)"

definition parse_switch :: "string \<Rightarrow> bool option" where
  "parse_switch buf =
     (if sysfs_streq buf ''1'' \<or> sysfs_streq buf ''true'' \<or> sysfs_streq buf ''yes'' then Some True
      else if sysfs_streq buf ''0'' \<or> sysfs_streq buf ''false'' \<or> sysfs_streq buf ''no'' then Some False
      else None)"

section \<open>Manual operations\<close>

definition kfastblock_volume_reset_osd_backoff :: "volume \<Rightarrow> volume" where
  "kfastblock_volume_reset_osd_backoff vol =
     vol \<lparr> v_socket_cache := kfastblock_osd_conn_pool_reset_backoff (v_socket_cache vol) \<rparr>"

definition kfastblock_volume_reset_monitor_backoff :: "volume \<Rightarrow> volume" where
  "kfastblock_volume_reset_monitor_backoff vol =
     vol \<lparr> v_monitor_cache := kfastblock_monitor_conn_pool_reset_backoff (v_monitor_cache vol) \<rparr>"

definition kfastblock_volume_record_manual_op :: "u64 \<Rightarrow> u32 \<Rightarrow> u32 \<Rightarrow> int \<Rightarrow> volume \<Rightarrow> volume" where
  "kfastblock_volume_record_manual_op now type scope ret vol =
     kfastblock_volume_record_event now type ret REQ_OP_FLUSH 0 0 scope 0 vol"

definition force_refresh_store ::
    "(volume \<Rightarrow> int \<times> volume) \<Rightarrow> (volume \<Rightarrow> int \<times> volume) \<Rightarrow> (u32 \<Rightarrow> u64) \<Rightarrow> u64 \<Rightarrow> allocs \<Rightarrow> string \<Rightarrow> nat
      \<Rightarrow> volume \<Rightarrow> int \<times> volume" where
  "force_refresh_store fc fi m2j now al buf count vol =
     (case kfastblock_volume_parse_refresh_scope al buf count of
        Inl ret \<Rightarrow> (ret, vol)
      | Inr scope \<Rightarrow>
          (let v0 = vol \<lparr> v_refresh_work := None \<rparr>
           in if \<not> v_ready v0 then (- ENODEV, v0)
              else (case kfastblock_volume_refresh_locked fc fi now
                           (scope \<noteq> KFASTBLOCK_VOLUME_REFRESH_IMAGE) (scope \<noteq> KFASTBLOCK_VOLUME_REFRESH_CLUSTER) v0 of
                      (ret, v1) \<Rightarrow>
                        (let v2 = (if ret = 0 then inc_stat vs_manual_refreshes_update v1 else v1);
                             v3 = kfastblock_volume_record_manual_op now KFASTBLOCK_VOLUME_EVENT_MANUAL_REFRESH
                                    (refresh_scope_code scope) ret v2;
                             v4 = (if v_ready v3 then kfastblock_volume_schedule_refresh m2j v3 else v3)
                         in (if ret \<noteq> 0 then ret else int count, v4)))))"

definition reset_backoff_store :: "u64 \<Rightarrow> allocs \<Rightarrow> string \<Rightarrow> nat \<Rightarrow> volume \<Rightarrow> int \<times> volume" where
  "reset_backoff_store now al buf count vol =
     (case kfastblock_volume_parse_transport_scope al buf count of
        Inl ret \<Rightarrow> (ret, vol)
      | Inr scope \<Rightarrow>
          (let v1 = (if scope \<noteq> KFASTBLOCK_VOLUME_TRANSPORT_MONITOR
                     then kfastblock_volume_reset_osd_backoff vol else vol);
               v2 = (if scope \<noteq> KFASTBLOCK_VOLUME_TRANSPORT_OSD
                     then kfastblock_volume_reset_monitor_backoff v1 else v1)
           in (int count, kfastblock_volume_record_manual_op now KFASTBLOCK_VOLUME_EVENT_MANUAL_RESET_BACKOFF
                 (transport_scope_code scope) 0 (inc_stat vs_manual_reset_backoffs_update v2))))"

definition drop_transport_store :: "u64 \<Rightarrow> allocs \<Rightarrow> string \<Rightarrow> nat \<Rightarrow> volume \<Rightarrow> int \<times> volume" where
  "drop_transport_store now al buf count vol =
     (case kfastblock_volume_parse_transport_scope al buf count of
        Inl ret \<Rightarrow> (ret, vol)
      | Inr scope \<Rightarrow>
          (let v1 = (if scope \<noteq> KFASTBLOCK_VOLUME_TRANSPORT_MONITOR
                     then kfastblock_volume_close_osd_cached_sockets now vol else vol);
               v2 = (if scope \<noteq> KFASTBLOCK_VOLUME_TRANSPORT_OSD
                     then kfastblock_volume_close_monitor_cached_sockets now v1 else v1)
           in (int count, kfastblock_volume_record_manual_op now KFASTBLOCK_VOLUME_EVENT_MANUAL_DROP_TRANSPORT
                 (transport_scope_code scope) 0 (inc_stat vs_manual_transport_drops_update v2))))"

definition reset_leaders_store :: "u64 \<Rightarrow> allocs \<Rightarrow> string \<Rightarrow> nat \<Rightarrow> volume \<Rightarrow> int \<times> volume" where
  "reset_leaders_store now al buf count vol =
     (let ret = kfastblock_volume_parse_manual_trigger al buf count
      in if ret \<noteq> 0 then (ret, vol)
         else (int count, kfastblock_volume_record_manual_op now KFASTBLOCK_VOLUME_EVENT_MANUAL_RESET_LEADERS 0 0
                 (inc_stat vs_manual_leader_resets_update
                   (vol \<lparr> v_view := kfastblock_meta_invalidate_all_pg_leaders (v_view vol) \<rparr>))))"

definition pause_queue_store :: "u64 \<Rightarrow> allocs \<Rightarrow> string \<Rightarrow> nat \<Rightarrow> volume \<Rightarrow> int \<times> volume" where
  "pause_queue_store now al buf count vol =
     (let ret = kfastblock_volume_parse_manual_trigger al buf count
      in if ret \<noteq> 0 then (ret, vol)
         else (int count, kfastblock_volume_update_queue_gate now
                 (kfastblock_volume_set_manual_queue_pause_locked now True vol)))"

definition resume_queue_store :: "u64 \<Rightarrow> allocs \<Rightarrow> string \<Rightarrow> nat \<Rightarrow> volume \<Rightarrow> int \<times> volume" where
  "resume_queue_store now al buf count vol =
     (let ret = kfastblock_volume_parse_manual_trigger al buf count
      in if ret \<noteq> 0 then (ret, vol)
         else (int count, kfastblock_volume_update_queue_gate now
                 (kfastblock_volume_set_manual_queue_pause_locked now False vol)))"

section \<open>Tunables\<close>

definition dispatch_window_dynamic_store :: "string \<Rightarrow> nat \<Rightarrow> volume \<Rightarrow> int \<times> volume" where
  "dispatch_window_dynamic_store buf count vol =
     (case parse_switch buf of
        None \<Rightarrow> (- EINVAL, vol)
      | Some enabled \<Rightarrow>
          (int count, vol \<lparr> v_scheduler := kfastblock_scheduler_set_dynamic_enabled (v_scheduler vol) enabled \<rparr>))"

definition dispatch_policy_store :: "string \<Rightarrow> nat \<Rightarrow> volume \<Rightarrow> int \<times> volume" where
  "dispatch_policy_store buf count vol =
     (let set = (\<lambda>p. (int count, vol \<lparr> v_scheduler := kfastblock_scheduler_set_policy (v_scheduler vol) p \<rparr>))
      in if sysfs_streq buf ''static'' \<or> sysfs_streq buf ''0'' then set 0
         else if sysfs_streq buf ''adaptive'' \<or> sysfs_streq buf ''1'' then set 1
         else if sysfs_streq buf ''pressure'' \<or> sysfs_streq buf ''2'' then set 2
         else (- EINVAL, vol))"

definition dispatch_pressure_inflight_limit_store :: "allocs \<Rightarrow> string \<Rightarrow> nat \<Rightarrow> volume \<Rightarrow> int \<times> volume" where
  "dispatch_pressure_inflight_limit_store al buf count vol =
     (case kfastblock_volume_parse_u32_value al buf count of
        Inl ret \<Rightarrow> (ret, vol)
      | Inr v \<Rightarrow>
          (int count, vol \<lparr> v_scheduler := kfastblock_scheduler_set_pressure_inflight_limit (v_scheduler vol) v \<rparr>))"

definition dispatch_cooldown_ms_store :: "allocs \<Rightarrow> string \<Rightarrow> nat \<Rightarrow> volume \<Rightarrow> int \<times> volume" where
  "dispatch_cooldown_ms_store al buf count vol =
     (case kfastblock_volume_parse_u32_value al buf count of
        Inl ret \<Rightarrow> (ret, vol)
      | Inr v \<Rightarrow> (int count, vol \<lparr> v_scheduler := kfastblock_scheduler_set_cooldown_ms (v_scheduler vol) v \<rparr>))"

definition dispatch_window_store ::
    "allocs \<Rightarrow> string \<Rightarrow> nat \<Rightarrow> volume \<times> buf_heap \<Rightarrow> int \<times> volume \<times> buf_heap" where
  "dispatch_window_store al buf count vh =
     (case vh of (vol, h) \<Rightarrow>
       case kfastblock_volume_parse_u32_value al buf count of
         Inl ret \<Rightarrow> (ret, vol, h)
       | Inr v \<Rightarrow>
           if v = 0 \<or> KFASTBLOCK_MAX_OBJECT_EXTENTS < v then (- EINVAL, vol, h)
           else (case kfastblock_buffer_pool_set_limit (v_object_buffer_pool vol) h v of
                   (pool, h') \<Rightarrow>
                     (int count,
                      vol \<lparr> v_dispatch_window := v, v_object_buffer_pool := pool,
                            v_scheduler := kfastblock_scheduler_set_base_window (v_scheduler vol) v \<rparr>, h')))"

definition refresh_interval_ms_store :: "(u32 \<Rightarrow> u64) \<Rightarrow> allocs \<Rightarrow> string \<Rightarrow> nat \<Rightarrow> volume \<Rightarrow> int \<times> volume" where
  "refresh_interval_ms_store m2j al buf count vol =
     (case kfastblock_volume_parse_u32_value al buf count of
        Inl ret \<Rightarrow> (ret, vol)
      | Inr v \<Rightarrow>
          if v < 100 \<or> 600000 < v then (- EINVAL, vol)
          else (int count, kfastblock_volume_schedule_refresh m2j (vol \<lparr> v_refresh_interval_ms := v \<rparr>)))"

definition image_refresh_interval_ms_store :: "allocs \<Rightarrow> string \<Rightarrow> nat \<Rightarrow> volume \<Rightarrow> int \<times> volume" where
  "image_refresh_interval_ms_store al buf count vol =
     (case kfastblock_volume_parse_u32_value al buf count of
        Inl ret \<Rightarrow> (ret, vol)
      | Inr v \<Rightarrow>
          if v < 100 \<or> 3600000 < v then (- EINVAL, vol)
          else (int count, vol \<lparr> v_image_refresh_interval_ms := v \<rparr>))"

section \<open>Fault injection\<close>

definition fault_injection_enabled_store :: "u64 \<Rightarrow> string \<Rightarrow> nat \<Rightarrow> volume \<Rightarrow> int \<times> volume" where
  "fault_injection_enabled_store now buf count vol =
     (case parse_switch buf of
        None \<Rightarrow> (- EINVAL, vol)
      | Some enabled \<Rightarrow>
          (let fi = kfastblock_fault_injection_set_enabled now (v_fault_injection vol) enabled
           in (int count, kfastblock_volume_record_event now
                 (if enabled then KFASTBLOCK_VOLUME_EVENT_MANUAL_FAULT_INJECTION_ARM
                  else KFASTBLOCK_VOLUME_EVENT_MANUAL_FAULT_INJECTION_RESET)
                 0 REQ_OP_FLUSH 0 0 (fi_mask fi) (fi_budget fi) (vol \<lparr> v_fault_injection := fi \<rparr>))))"

definition fault_injection_mask_store :: "string \<Rightarrow> nat \<Rightarrow> volume \<Rightarrow> int \<times> volume" where
  "fault_injection_mask_store buf count vol =
     (case kfastblock_fault_parse_mask buf of
        Inl ret \<Rightarrow> (ret, vol)
      | Inr msk \<Rightarrow>
          (int count, vol \<lparr> v_fault_injection := kfastblock_fault_injection_set_mask (v_fault_injection vol) msk \<rparr>))"

definition fault_injection_errno_store :: "string \<Rightarrow> nat \<Rightarrow> volume \<Rightarrow> int \<times> volume" where
  "fault_injection_errno_store buf count vol =
     (case kstrtoint 0 buf of
        Inl ret \<Rightarrow> (ret, vol)
      | Inr v \<Rightarrow>
          if 0 \<le> v then (- EINVAL, vol)
          else (int count,
                vol \<lparr> v_fault_injection := kfastblock_fault_injection_set_errno (v_fault_injection vol) v \<rparr>))"

definition fault_injection_budget_store :: "allocs \<Rightarrow> string \<Rightarrow> nat \<Rightarrow> volume \<Rightarrow> int \<times> volume" where
  "fault_injection_budget_store al buf count vol =
     (case kfastblock_volume_parse_u32_value al buf count of
        Inl ret \<Rightarrow> (ret, vol)
      | Inr v \<Rightarrow>
          (int count, vol \<lparr> v_fault_injection := kfastblock_fault_injection_set_budget (v_fault_injection vol) v \<rparr>))"

definition reset_fault_injection_store :: "u64 \<Rightarrow> string \<Rightarrow> nat \<Rightarrow> volume \<Rightarrow> int \<times> volume" where
  "reset_fault_injection_store now buf count vol =
     (if \<not> sysfs_streq buf ''1'' \<and> \<not> sysfs_streq buf ''true'' \<and> \<not> sysfs_streq buf ''yes'' \<and>
         \<not> sysfs_streq buf ''reset''
      then (- EINVAL, vol)
      else (int count, kfastblock_volume_record_event now KFASTBLOCK_VOLUME_EVENT_MANUAL_FAULT_INJECTION_RESET
              0 REQ_OP_FLUSH 0 0 0 0
              (vol \<lparr> v_fault_injection := kfastblock_fault_injection_reset now (v_fault_injection vol) \<rparr>)))"

section \<open>Reading back what was written\<close>

lemma digit_not_space: "digit_val c \<noteq> None \<Longrightarrow> \<not> isspace c \<and> c \<noteq> CHR 0x00"
  by (auto simp: digit_val_def isspace_def Let_def split: if_splits)

lemma strim_trailing:
  assumes "s \<noteq> []" "\<forall>c \<in> set s. \<not> isspace c" "\<forall>c \<in> set t. isspace c"
  shows "strim (s @ t) = s"
proof -
  have "dropWhile isspace (rev t @ rev s) = dropWhile isspace (rev s)"
    using assms(3) by (intro dropWhile_append2) simp
  moreover have "dropWhile isspace xs = xs" if "xs \<noteq> []" "\<forall>c \<in> set xs. \<not> isspace c" for xs
    using that by (cases xs) auto
  ultimately show ?thesis using assms by (simp add: strim_def strim_in_place_def)
qed

text \<open>The text \<^verbatim>\<open>echo n\<close> writes.\<close>

definition echo :: "u32 \<Rightarrow> string" where
  "echo n = print_num 10 (unat n) @ [CHR 0x0A]"

lemma parse_u32_echo: "kfastblock_volume_parse_u32_value [] (echo n) (length (echo n)) = Inr n"
proof -
  let ?d = "print_num 10 (unat n)"
  have d: "\<forall>c \<in> set ?d. \<not> isspace c \<and> c \<noteq> CHR 0x00"
    using digit_not_space print_num_digit_val [of 10 _ "unat n"] by auto
  then have "\<forall>c \<in> set (echo n). c \<noteq> CHR 0x00" by (auto simp: echo_def)
  then have "memdup_str (echo n) (length (echo n)) = echo n"
    unfolding memdup_str_def by (simp add: takeWhile_eq_all_conv)
  moreover have "strim (echo n) = ?d"
    unfolding echo_def using d by (intro strim_trailing) (simp_all add: isspace_def)
  moreover have "kstrtou32 10 ?d = Inr n"
    using kstrtou_dec [of "unat n" "2 ^ 32"] unat_u32_bound [of n] by (simp add: kstrtou32_def)
  ultimately show ?thesis
    by (simp add: kfastblock_volume_parse_u32_value_def kalloc_def Let_def) (simp add: echo_def)
qed


end
