(* ===== verification/KFB_Wire.thy ===== *)
theory KFB_Wire
  imports KFB_Prelude
begin

text \<open>
  The raw protocol on the wire, \<^verbatim>\<open>kfastblock/include/kfastblock/rawproto.h\<close>: little-endian integers and
  the packed structures, each as a record with its encoder (the structure's bytes) and its decoder
  (\<^verbatim>\<open>memcpy\<close> into the structure followed by the \<^verbatim>\<open>leXX_to_cpu\<close> reads). The same layouts are declared by the
  monitor (\<^verbatim>\<open>monitor/rawproto\<close>) and by the OSD (\<^verbatim>\<open>src/osd/raw_tcp_server.cc\<close>).
\<close>

section \<open>Little-endian integers\<close>

primrec le_enc :: "nat \<Rightarrow> nat \<Rightarrow> u8 list" where
  "le_enc 0 k = []"
| "le_enc (Suc n) k = of_nat (k mod 256) # le_enc n (k div 256)"

primrec le_dec :: "u8 list \<Rightarrow> nat" where
  "le_dec [] = 0"
| "le_dec (b # bs) = unat b + 256 * le_dec bs"

definition cpu_to_le16 :: "u16 \<Rightarrow> u8 list" where "cpu_to_le16 w = le_enc 2 (unat w)"
definition cpu_to_le32 :: "u32 \<Rightarrow> u8 list" where "cpu_to_le32 w = le_enc 4 (unat w)"
definition cpu_to_le64 :: "u64 \<Rightarrow> u8 list" where "cpu_to_le64 w = le_enc 8 (unat w)"

definition le16_to_cpu :: "u8 list \<Rightarrow> u16" where "le16_to_cpu bs = of_nat (le_dec bs)"
definition le32_to_cpu :: "u8 list \<Rightarrow> u32" where "le32_to_cpu bs = of_nat (le_dec bs)"
definition le64_to_cpu :: "u8 list \<Rightarrow> u64" where "le64_to_cpu bs = of_nat (le_dec bs)"

lemma length_le_enc [simp]: "length (le_enc n k) = n"
  by (induction n arbitrary: k) simp_all

lemma le_dec_enc: "le_dec (le_enc n k) = k mod 256 ^ n"
proof (induction n arbitrary: k)
  case (Suc n)
  have "unat (of_nat (k mod 256) :: u8) = k mod 256" by (simp add: unat_of_nat)
  then show ?case using Suc by (simp add: mod_mult2_eq)
qed simp

lemma length_cpu_to_le [simp]:
  "length (cpu_to_le16 a) = 2" "length (cpu_to_le32 b) = 4" "length (cpu_to_le64 c) = 8"
  by (simp_all add: cpu_to_le16_def cpu_to_le32_def cpu_to_le64_def)

lemma le_to_cpu_inverse [simp]:
  "le16_to_cpu (cpu_to_le16 a) = a" "le32_to_cpu (cpu_to_le32 b) = b" "le64_to_cpu (cpu_to_le64 c) = c"
  using unat_u16_bound [of a] unat_u32_bound [of b] unat_u64_bound [of c]
  by (simp_all add: cpu_to_le16_def cpu_to_le32_def cpu_to_le64_def le16_to_cpu_def le32_to_cpu_def
      le64_to_cpu_def le_dec_enc)

text \<open>The bytes of one field of a packed structure.\<close>

definition fld :: "nat \<Rightarrow> nat \<Rightarrow> u8 list \<Rightarrow> u8 list" where
  "fld off n bs = take n (drop off bs)"

lemma fld_append_right [simp]: "length xs \<le> off \<Longrightarrow> fld off n (xs @ ys) = fld (off - length xs) n ys"
  by (simp add: fld_def)

lemma fld_append_left [simp]: "off = 0 \<Longrightarrow> n = length xs \<Longrightarrow> fld off n (xs @ ys) = xs"
  by (simp add: fld_def)

lemma fld_all [simp]: "off = 0 \<Longrightarrow> n = length xs \<Longrightarrow> fld off n xs = xs"
  by (simp add: fld_def)

section \<open>The header\<close>

abbreviation (input) KFASTBLOCK_RAW_MAGIC :: u32 where "KFASTBLOCK_RAW_MAGIC \<equiv> 0x46425257"
abbreviation (input) KFASTBLOCK_RAW_VERSION_MAJOR :: u8 where "KFASTBLOCK_RAW_VERSION_MAJOR \<equiv> 1"
abbreviation (input) KFASTBLOCK_RAW_VERSION_MINOR :: u8 where "KFASTBLOCK_RAW_VERSION_MINOR \<equiv> 0"
abbreviation (input) KFASTBLOCK_RAW_SERVICE_MONITOR :: u8 where "KFASTBLOCK_RAW_SERVICE_MONITOR \<equiv> 1"
abbreviation (input) KFASTBLOCK_RAW_SERVICE_OSD :: u8 where "KFASTBLOCK_RAW_SERVICE_OSD \<equiv> 2"
abbreviation (input) KFASTBLOCK_RAW_OP_GET_IMAGE_INFO :: u8 where "KFASTBLOCK_RAW_OP_GET_IMAGE_INFO \<equiv> 1"
abbreviation (input) KFASTBLOCK_RAW_OP_GET_CLUSTER_MAP :: u8 where "KFASTBLOCK_RAW_OP_GET_CLUSTER_MAP \<equiv> 2"
abbreviation (input) KFASTBLOCK_RAW_OSD_OP_GET_LEADER :: u8 where "KFASTBLOCK_RAW_OSD_OP_GET_LEADER \<equiv> 1"
abbreviation (input) KFASTBLOCK_RAW_OSD_OP_READ_OBJECT :: u8 where "KFASTBLOCK_RAW_OSD_OP_READ_OBJECT \<equiv> 2"
abbreviation (input) KFASTBLOCK_RAW_OSD_OP_WRITE_OBJECT :: u8 where "KFASTBLOCK_RAW_OSD_OP_WRITE_OBJECT \<equiv> 3"
abbreviation (input) KFASTBLOCK_RAW_OSD_OP_DELETE_OBJECT :: u8 where "KFASTBLOCK_RAW_OSD_OP_DELETE_OBJECT \<equiv> 4"
abbreviation (input) KFASTBLOCK_RAW_FLAG_RESPONSE :: u32 where "KFASTBLOCK_RAW_FLAG_RESPONSE \<equiv> 1"
abbreviation (input) KFASTBLOCK_RAW_STATUS_OK :: u32 where "KFASTBLOCK_RAW_STATUS_OK \<equiv> 0"
abbreviation (input) KFASTBLOCK_RAW_STATUS_INVALID_REQUEST :: u32 where "KFASTBLOCK_RAW_STATUS_INVALID_REQUEST \<equiv> 1"
abbreviation (input) KFASTBLOCK_RAW_STATUS_NOT_FOUND :: u32 where "KFASTBLOCK_RAW_STATUS_NOT_FOUND \<equiv> 2"
abbreviation (input) KFASTBLOCK_RAW_STATUS_STALE_EPOCH :: u32 where "KFASTBLOCK_RAW_STATUS_STALE_EPOCH \<equiv> 3"
abbreviation (input) KFASTBLOCK_RAW_STATUS_RETRY_LATER :: u32 where "KFASTBLOCK_RAW_STATUS_RETRY_LATER \<equiv> 4"
abbreviation (input) KFASTBLOCK_RAW_STATUS_NOT_LEADER :: u32 where "KFASTBLOCK_RAW_STATUS_NOT_LEADER \<equiv> 5"
abbreviation (input) KFASTBLOCK_RAW_STATUS_PG_INITIALIZING :: u32 where "KFASTBLOCK_RAW_STATUS_PG_INITIALIZING \<equiv> 6"
abbreviation (input) KFASTBLOCK_RAW_STATUS_OSD_DOWN :: u32 where "KFASTBLOCK_RAW_STATUS_OSD_DOWN \<equiv> 7"
abbreviation (input) KFASTBLOCK_RAW_STATUS_INTERNAL_ERROR :: u32 where "KFASTBLOCK_RAW_STATUS_INTERNAL_ERROR \<equiv> 8"
abbreviation (input) KFASTBLOCK_RAW_IMAGE_FLAG_READ_ONLY :: u32 where "KFASTBLOCK_RAW_IMAGE_FLAG_READ_ONLY \<equiv> 1"

record raw_header =
  rh_magic :: u32
  rh_version_major :: u8
  rh_version_minor :: u8
  rh_service :: u8
  rh_opcode :: u8
  rh_flags :: u32
  rh_seq :: u64
  rh_status :: u32
  rh_body_len :: u32

definition enc_header :: "raw_header \<Rightarrow> u8 list" where
  "enc_header h = cpu_to_le32 (rh_magic h) @ [rh_version_major h] @ [rh_version_minor h] @ [rh_service h] @ [rh_opcode h]
     @ cpu_to_le32 (rh_flags h) @ cpu_to_le64 (rh_seq h) @ cpu_to_le32 (rh_status h) @ cpu_to_le32 (rh_body_len h)"

definition dec_header :: "u8 list \<Rightarrow> raw_header" where
  "dec_header bs = \<lparr> rh_magic = le32_to_cpu (fld 0 4 bs), rh_version_major = hd (fld 4 1 bs),
     rh_version_minor = hd (fld 5 1 bs), rh_service = hd (fld 6 1 bs), rh_opcode = hd (fld 7 1 bs),
     rh_flags = le32_to_cpu (fld 8 4 bs), rh_seq = le64_to_cpu (fld 12 8 bs),
     rh_status = le32_to_cpu (fld 20 4 bs), rh_body_len = le32_to_cpu (fld 24 4 bs) \<rparr>"

abbreviation (input) sizeof_header :: nat where "sizeof_header \<equiv> 28"

definition zero_header :: raw_header where
  "zero_header = \<lparr> rh_magic = 0, rh_version_major = 0, rh_version_minor = 0, rh_service = 0, rh_opcode = 0,
     rh_flags = 0, rh_seq = 0, rh_status = 0, rh_body_len = 0 \<rparr>"

lemma length_enc_header [simp]: "length (enc_header h) = 28"
  by (simp add: enc_header_def)

lemma dec_enc_header [simp]: "dec_header (enc_header h) = h"
  by (simp add: dec_header_def enc_header_def del: append.simps)

section \<open>Messages\<close>

record raw_get_image_info_req =
  iq_image_epoch :: u64
  iq_pool_name_len :: u16
  iq_image_name_len :: u16

definition enc_get_image_info_req :: "raw_get_image_info_req \<Rightarrow> u8 list" where
  "enc_get_image_info_req x = cpu_to_le64 (iq_image_epoch x) @ cpu_to_le16 (iq_pool_name_len x) @
     cpu_to_le16 (iq_image_name_len x)"

definition dec_get_image_info_req :: "u8 list \<Rightarrow> raw_get_image_info_req" where
  "dec_get_image_info_req bs = \<lparr> iq_image_epoch = le64_to_cpu (fld 0 8 bs), iq_pool_name_len = le16_to_cpu (fld 8 2 bs),
     iq_image_name_len = le16_to_cpu (fld 10 2 bs) \<rparr>"

record raw_get_image_info_rsp =
  ir_image_epoch :: u64
  ir_pool_id :: u32
  ir_block_size :: u32
  ir_object_size :: u32
  ir_flags :: u32
  ir_size_bytes :: u64

definition enc_get_image_info_rsp :: "raw_get_image_info_rsp \<Rightarrow> u8 list" where
  "enc_get_image_info_rsp x = cpu_to_le64 (ir_image_epoch x) @ cpu_to_le32 (ir_pool_id x) @ cpu_to_le32 (ir_block_size x) @
     cpu_to_le32 (ir_object_size x) @ cpu_to_le32 (ir_flags x) @ cpu_to_le64 (ir_size_bytes x)"

definition dec_get_image_info_rsp :: "u8 list \<Rightarrow> raw_get_image_info_rsp" where
  "dec_get_image_info_rsp bs = \<lparr> ir_image_epoch = le64_to_cpu (fld 0 8 bs), ir_pool_id = le32_to_cpu (fld 8 4 bs),
     ir_block_size = le32_to_cpu (fld 12 4 bs), ir_object_size = le32_to_cpu (fld 16 4 bs),
     ir_flags = le32_to_cpu (fld 20 4 bs), ir_size_bytes = le64_to_cpu (fld 24 8 bs) \<rparr>"

record raw_get_cluster_map_req =
  cq_osdmap_epoch :: u64
  cq_pool_id :: u32
  cq_reserved :: u32
  cq_pgmap_epoch :: u64

definition enc_get_cluster_map_req :: "raw_get_cluster_map_req \<Rightarrow> u8 list" where
  "enc_get_cluster_map_req x = cpu_to_le64 (cq_osdmap_epoch x) @ cpu_to_le32 (cq_pool_id x) @ cpu_to_le32 (cq_reserved x) @
     cpu_to_le64 (cq_pgmap_epoch x)"

definition dec_get_cluster_map_req :: "u8 list \<Rightarrow> raw_get_cluster_map_req" where
  "dec_get_cluster_map_req bs = \<lparr> cq_osdmap_epoch = le64_to_cpu (fld 0 8 bs), cq_pool_id = le32_to_cpu (fld 8 4 bs),
     cq_reserved = le32_to_cpu (fld 12 4 bs), cq_pgmap_epoch = le64_to_cpu (fld 16 8 bs) \<rparr>"

record raw_cluster_map_rsp_hdr =
  ch_osdmap_epoch :: u64
  ch_pgmap_epoch :: u64
  ch_osd_count :: u32
  ch_pg_count :: u32

definition enc_cluster_map_rsp_hdr :: "raw_cluster_map_rsp_hdr \<Rightarrow> u8 list" where
  "enc_cluster_map_rsp_hdr x = cpu_to_le64 (ch_osdmap_epoch x) @ cpu_to_le64 (ch_pgmap_epoch x) @
     cpu_to_le32 (ch_osd_count x) @ cpu_to_le32 (ch_pg_count x)"

definition dec_cluster_map_rsp_hdr :: "u8 list \<Rightarrow> raw_cluster_map_rsp_hdr" where
  "dec_cluster_map_rsp_hdr bs = \<lparr> ch_osdmap_epoch = le64_to_cpu (fld 0 8 bs), ch_pgmap_epoch = le64_to_cpu (fld 8 8 bs),
     ch_osd_count = le32_to_cpu (fld 16 4 bs), ch_pg_count = le32_to_cpu (fld 20 4 bs) \<rparr>"

record raw_osd_entry_hdr =
  oh_osd_id :: u32
  oh_flags :: u32
  oh_address_len :: u16
  oh_shard_count :: u16

definition enc_osd_entry_hdr :: "raw_osd_entry_hdr \<Rightarrow> u8 list" where
  "enc_osd_entry_hdr x = cpu_to_le32 (oh_osd_id x) @ cpu_to_le32 (oh_flags x) @ cpu_to_le16 (oh_address_len x) @
     cpu_to_le16 (oh_shard_count x)"

definition dec_osd_entry_hdr :: "u8 list \<Rightarrow> raw_osd_entry_hdr" where
  "dec_osd_entry_hdr bs = \<lparr> oh_osd_id = le32_to_cpu (fld 0 4 bs), oh_flags = le32_to_cpu (fld 4 4 bs),
     oh_address_len = le16_to_cpu (fld 8 2 bs), oh_shard_count = le16_to_cpu (fld 10 2 bs) \<rparr>"

record raw_osd_shard_entry =
  oq_shard_id :: u32
  oq_port :: u16
  oq_core_id :: u16

definition enc_osd_shard_entry :: "raw_osd_shard_entry \<Rightarrow> u8 list" where
  "enc_osd_shard_entry x = cpu_to_le32 (oq_shard_id x) @ cpu_to_le16 (oq_port x) @ cpu_to_le16 (oq_core_id x)"

definition dec_osd_shard_entry :: "u8 list \<Rightarrow> raw_osd_shard_entry" where
  "dec_osd_shard_entry bs = \<lparr> oq_shard_id = le32_to_cpu (fld 0 4 bs), oq_port = le16_to_cpu (fld 4 2 bs),
     oq_core_id = le16_to_cpu (fld 6 2 bs) \<rparr>"

record raw_pg_entry_hdr =
  pe_pool_id :: u32
  pe_pg_id :: u32
  pe_version :: u64
  pe_state :: u32
  pe_primary_shard :: u32
  pe_replica_count :: u32

definition enc_pg_entry_hdr :: "raw_pg_entry_hdr \<Rightarrow> u8 list" where
  "enc_pg_entry_hdr x = cpu_to_le32 (pe_pool_id x) @ cpu_to_le32 (pe_pg_id x) @ cpu_to_le64 (pe_version x) @
     cpu_to_le32 (pe_state x) @ cpu_to_le32 (pe_primary_shard x) @ cpu_to_le32 (pe_replica_count x)"

definition dec_pg_entry_hdr :: "u8 list \<Rightarrow> raw_pg_entry_hdr" where
  "dec_pg_entry_hdr bs = \<lparr> pe_pool_id = le32_to_cpu (fld 0 4 bs), pe_pg_id = le32_to_cpu (fld 4 4 bs),
     pe_version = le64_to_cpu (fld 8 8 bs), pe_state = le32_to_cpu (fld 16 4 bs),
     pe_primary_shard = le32_to_cpu (fld 20 4 bs), pe_replica_count = le32_to_cpu (fld 24 4 bs) \<rparr>"

record raw_get_leader_req =
  lq_pool_id :: u32
  lq_pg_id :: u32

definition enc_get_leader_req :: "raw_get_leader_req \<Rightarrow> u8 list" where
  "enc_get_leader_req x = cpu_to_le32 (lq_pool_id x) @ cpu_to_le32 (lq_pg_id x)"

definition dec_get_leader_req :: "u8 list \<Rightarrow> raw_get_leader_req" where
  "dec_get_leader_req bs = \<lparr> lq_pool_id = le32_to_cpu (fld 0 4 bs), lq_pg_id = le32_to_cpu (fld 4 4 bs) \<rparr>"

record raw_get_leader_rsp =
  lr_leader_id :: u32
  lr_leader_port :: u16
  lr_address_len :: u16

definition enc_get_leader_rsp :: "raw_get_leader_rsp \<Rightarrow> u8 list" where
  "enc_get_leader_rsp x = cpu_to_le32 (lr_leader_id x) @ cpu_to_le16 (lr_leader_port x) @ cpu_to_le16 (lr_address_len x)"

definition dec_get_leader_rsp :: "u8 list \<Rightarrow> raw_get_leader_rsp" where
  "dec_get_leader_rsp bs = \<lparr> lr_leader_id = le32_to_cpu (fld 0 4 bs), lr_leader_port = le16_to_cpu (fld 4 2 bs),
     lr_address_len = le16_to_cpu (fld 6 2 bs) \<rparr>"

record raw_read_object_req =
  rq_pool_id :: u32
  rq_pg_id :: u32
  rq_offset :: u64
  rq_length :: u32
  rq_object_name_len :: u16
  rq_reserved :: u16

definition enc_read_object_req :: "raw_read_object_req \<Rightarrow> u8 list" where
  "enc_read_object_req x = cpu_to_le32 (rq_pool_id x) @ cpu_to_le32 (rq_pg_id x) @ cpu_to_le64 (rq_offset x) @
     cpu_to_le32 (rq_length x) @ cpu_to_le16 (rq_object_name_len x) @ cpu_to_le16 (rq_reserved x)"

definition dec_read_object_req :: "u8 list \<Rightarrow> raw_read_object_req" where
  "dec_read_object_req bs = \<lparr> rq_pool_id = le32_to_cpu (fld 0 4 bs), rq_pg_id = le32_to_cpu (fld 4 4 bs),
     rq_offset = le64_to_cpu (fld 8 8 bs), rq_length = le32_to_cpu (fld 16 4 bs),
     rq_object_name_len = le16_to_cpu (fld 20 2 bs), rq_reserved = le16_to_cpu (fld 22 2 bs) \<rparr>"

record raw_read_object_rsp =
  rr_data_len :: u32
  rr_reserved :: u32

definition enc_read_object_rsp :: "raw_read_object_rsp \<Rightarrow> u8 list" where
  "enc_read_object_rsp x = cpu_to_le32 (rr_data_len x) @ cpu_to_le32 (rr_reserved x)"

definition dec_read_object_rsp :: "u8 list \<Rightarrow> raw_read_object_rsp" where
  "dec_read_object_rsp bs = \<lparr> rr_data_len = le32_to_cpu (fld 0 4 bs), rr_reserved = le32_to_cpu (fld 4 4 bs) \<rparr>"

record raw_write_object_req =
  wq_pool_id :: u32
  wq_pg_id :: u32
  wq_offset :: u64
  wq_data_len :: u32
  wq_object_name_len :: u16
  wq_reserved :: u16

definition enc_write_object_req :: "raw_write_object_req \<Rightarrow> u8 list" where
  "enc_write_object_req x = cpu_to_le32 (wq_pool_id x) @ cpu_to_le32 (wq_pg_id x) @ cpu_to_le64 (wq_offset x) @
     cpu_to_le32 (wq_data_len x) @ cpu_to_le16 (wq_object_name_len x) @ cpu_to_le16 (wq_reserved x)"

definition dec_write_object_req :: "u8 list \<Rightarrow> raw_write_object_req" where
  "dec_write_object_req bs = \<lparr> wq_pool_id = le32_to_cpu (fld 0 4 bs), wq_pg_id = le32_to_cpu (fld 4 4 bs),
     wq_offset = le64_to_cpu (fld 8 8 bs), wq_data_len = le32_to_cpu (fld 16 4 bs),
     wq_object_name_len = le16_to_cpu (fld 20 2 bs), wq_reserved = le16_to_cpu (fld 22 2 bs) \<rparr>"

record raw_delete_object_req =
  dq_pool_id :: u32
  dq_pg_id :: u32
  dq_object_name_len :: u16
  dq_reserved :: u16

definition enc_delete_object_req :: "raw_delete_object_req \<Rightarrow> u8 list" where
  "enc_delete_object_req x = cpu_to_le32 (dq_pool_id x) @ cpu_to_le32 (dq_pg_id x) @ cpu_to_le16 (dq_object_name_len x) @
     cpu_to_le16 (dq_reserved x)"

definition dec_delete_object_req :: "u8 list \<Rightarrow> raw_delete_object_req" where
  "dec_delete_object_req bs = \<lparr> dq_pool_id = le32_to_cpu (fld 0 4 bs), dq_pg_id = le32_to_cpu (fld 4 4 bs),
     dq_object_name_len = le16_to_cpu (fld 8 2 bs), dq_reserved = le16_to_cpu (fld 10 2 bs) \<rparr>"

subsection \<open>Every structure survives the wire\<close>

lemma dec_enc_get_image_info_req [simp]: "length (enc_get_image_info_req x) = 12" "dec_get_image_info_req (enc_get_image_info_req x) = x"
  by (simp_all add: enc_get_image_info_req_def dec_get_image_info_req_def)

lemma dec_enc_get_image_info_rsp [simp]: "length (enc_get_image_info_rsp x) = 32" "dec_get_image_info_rsp (enc_get_image_info_rsp x) = x"
  by (simp_all add: enc_get_image_info_rsp_def dec_get_image_info_rsp_def)

lemma dec_enc_get_cluster_map_req [simp]: "length (enc_get_cluster_map_req x) = 24" "dec_get_cluster_map_req (enc_get_cluster_map_req x) = x"
  by (simp_all add: enc_get_cluster_map_req_def dec_get_cluster_map_req_def)

lemma dec_enc_cluster_map_rsp_hdr [simp]: "length (enc_cluster_map_rsp_hdr x) = 24" "dec_cluster_map_rsp_hdr (enc_cluster_map_rsp_hdr x) = x"
  by (simp_all add: enc_cluster_map_rsp_hdr_def dec_cluster_map_rsp_hdr_def)

lemma dec_enc_osd_entry_hdr [simp]: "length (enc_osd_entry_hdr x) = 12" "dec_osd_entry_hdr (enc_osd_entry_hdr x) = x"
  by (simp_all add: enc_osd_entry_hdr_def dec_osd_entry_hdr_def)

lemma dec_enc_osd_shard_entry [simp]: "length (enc_osd_shard_entry x) = 8" "dec_osd_shard_entry (enc_osd_shard_entry x) = x"
  by (simp_all add: enc_osd_shard_entry_def dec_osd_shard_entry_def)

lemma dec_enc_pg_entry_hdr [simp]: "length (enc_pg_entry_hdr x) = 28" "dec_pg_entry_hdr (enc_pg_entry_hdr x) = x"
  by (simp_all add: enc_pg_entry_hdr_def dec_pg_entry_hdr_def)

lemma dec_enc_get_leader_req [simp]: "length (enc_get_leader_req x) = 8" "dec_get_leader_req (enc_get_leader_req x) = x"
  by (simp_all add: enc_get_leader_req_def dec_get_leader_req_def)

lemma dec_enc_get_leader_rsp [simp]: "length (enc_get_leader_rsp x) = 8" "dec_get_leader_rsp (enc_get_leader_rsp x) = x"
  by (simp_all add: enc_get_leader_rsp_def dec_get_leader_rsp_def)

lemma dec_enc_read_object_req [simp]: "length (enc_read_object_req x) = 24" "dec_read_object_req (enc_read_object_req x) = x"
  by (simp_all add: enc_read_object_req_def dec_read_object_req_def)

lemma dec_enc_read_object_rsp [simp]: "length (enc_read_object_rsp x) = 8" "dec_read_object_rsp (enc_read_object_rsp x) = x"
  by (simp_all add: enc_read_object_rsp_def dec_read_object_rsp_def)

lemma dec_enc_write_object_req [simp]: "length (enc_write_object_req x) = 24" "dec_write_object_req (enc_write_object_req x) = x"
  by (simp_all add: enc_write_object_req_def dec_write_object_req_def)

lemma dec_enc_delete_object_req [simp]: "length (enc_delete_object_req x) = 12" "dec_delete_object_req (enc_delete_object_req x) = x"
  by (simp_all add: enc_delete_object_req_def dec_delete_object_req_def)

section \<open>Text in messages\<close>

definition str_bytes :: "string \<Rightarrow> u8 list" where
  "str_bytes s = map (\<lambda>c. of_nat (of_char c)) s"

definition bytes_str :: "u8 list \<Rightarrow> string" where
  "bytes_str bs = map (\<lambda>b. char_of (unat b)) bs"

lemma bytes_str_inverse [simp]: "bytes_str (str_bytes s) = s"
proof -
  have "char_of (unat (of_nat (of_char c) :: u8)) = c" for c
    using unat_of_nat_small [where 'a = 8, of "of_char c"] by simp
  then show ?thesis by (simp add: bytes_str_def str_bytes_def comp_def)
qed

lemma length_str_bytes [simp]: "length (str_bytes s) = length s"
  by (simp add: str_bytes_def)

end
