(* ===== verification/KFB_Socket.thy ===== *)
theory KFB_Socket
  imports KFB_Wire
begin

text \<open>
  Stream sockets and the message exchange over them, \<^verbatim>\<open>kfastblock/src/transport.c\<close>: \<^verbatim>\<open>send_all\<close> and
  \<^verbatim>\<open>recv_all\<close>, requests sent in parts, responses received and checked. The kernel's \<^verbatim>\<open>kernel_sendmsg\<close> and
  \<^verbatim>\<open>kernel_recvmsg\<close> move as many bytes as they like or fail: what each call does is read from a script,
  so a statement for every script covers every fragmentation and every failure.
\<close>

section \<open>The kernel socket\<close>

datatype io_outcome = Moved nat | Failed int

record sock =
  so_in :: "u8 list"
  so_out :: "u8 list"
  so_script :: "io_outcome list"

definition next_outcome :: "sock \<Rightarrow> nat \<Rightarrow> io_outcome \<times> sock" where
  "next_outcome s len =
     (case so_script s of [] \<Rightarrow> (Moved len, s) | oc # sc \<Rightarrow> (oc, s \<lparr> so_script := sc \<rparr>))"

definition kernel_sendmsg :: "sock \<Rightarrow> u8 list \<Rightarrow> int \<times> sock" where
  "kernel_sendmsg s buf =
     (case next_outcome s (length buf) of
        (Moved n, s') \<Rightarrow> (let k = min n (length buf) in (int k, s' \<lparr> so_out := so_out s' @ take k buf \<rparr>))
      | (Failed e, s') \<Rightarrow> (min e 0, s'))"

definition kernel_recvmsg :: "sock \<Rightarrow> nat \<Rightarrow> int \<times> u8 list \<times> sock" where
  "kernel_recvmsg s len =
     (case next_outcome s len of
        (Moved n, s') \<Rightarrow>
          (let k = min (min n len) (length (so_in s'))
           in (int k, take k (so_in s'), s' \<lparr> so_in := drop k (so_in s') \<rparr>))
      | (Failed e, s') \<Rightarrow> (min e 0, [], s'))"

section \<open>Whole buffers\<close>

function kfastblock_transport_send_all :: "sock \<Rightarrow> u8 list \<Rightarrow> int \<times> sock" where
  "kfastblock_transport_send_all s buf =
     (if buf = [] then (0, s)
      else (case kernel_sendmsg s buf of (rc, s') \<Rightarrow>
              if rc \<le> 0 then (if rc < 0 then rc else - EIO, s')
              else kfastblock_transport_send_all s' (drop (nat rc) buf)))"
  by pat_completeness auto
termination by (relation "measure (\<lambda>(s, buf). length buf)") auto

function kfastblock_transport_recv_all :: "sock \<Rightarrow> nat \<Rightarrow> int \<times> u8 list \<times> sock" where
  "kfastblock_transport_recv_all s len =
     (if len = 0 then (0, [], s)
      else (case kernel_recvmsg s len of (rc, bs, s') \<Rightarrow>
              if rc \<le> 0 then (if rc < 0 then rc else - EIO, bs, s')
              else (case kfastblock_transport_recv_all s' (len - nat rc) of
                      (ret, bs2, s'') \<Rightarrow> (ret, bs @ bs2, s''))))"
  by pat_completeness auto
termination by (relation "measure (\<lambda>(s, len). len)") auto

declare kfastblock_transport_send_all.simps [simp del] kfastblock_transport_recv_all.simps [simp del]

section \<open>Messages\<close>

definition kfastblock_transport_status_to_errno :: "u32 \<Rightarrow> int" where
  "kfastblock_transport_status_to_errno status =
     (if status = KFASTBLOCK_RAW_STATUS_OK then 0
      else if status = KFASTBLOCK_RAW_STATUS_INVALID_REQUEST then - EINVAL
      else if status = KFASTBLOCK_RAW_STATUS_NOT_FOUND then - ENOENT
      else if status = KFASTBLOCK_RAW_STATUS_STALE_EPOCH then - ESTALE
      else if status = KFASTBLOCK_RAW_STATUS_RETRY_LATER then - EAGAIN
      else if status = KFASTBLOCK_RAW_STATUS_NOT_LEADER then - ENOLINK
      else if status = KFASTBLOCK_RAW_STATUS_PG_INITIALIZING then - EAGAIN
      else if status = KFASTBLOCK_RAW_STATUS_OSD_DOWN then - EHOSTDOWN
      else - EIO)"

definition request_header :: "u8 \<Rightarrow> u8 \<Rightarrow> u64 \<Rightarrow> u32 \<Rightarrow> raw_header" where
  "request_header service opcode seq body_len =
     \<lparr> rh_magic = KFASTBLOCK_RAW_MAGIC, rh_version_major = KFASTBLOCK_RAW_VERSION_MAJOR,
       rh_version_minor = KFASTBLOCK_RAW_VERSION_MINOR, rh_service = service, rh_opcode = opcode,
       rh_flags = 0, rh_seq = seq, rh_status = 0, rh_body_len = body_len \<rparr>"

text \<open>The body of \<^verbatim>\<open>send_request\<close> is \<^verbatim>\<open>NULL\<close> when it is called by \<^verbatim>\<open>send_request_parts\<close>, which
  sends the parts itself.\<close>

fun send_parts :: "sock \<Rightarrow> u8 list list \<Rightarrow> int \<times> sock" where
  "send_parts s [] = (0, s)"
| "send_parts s (p # ps) =
     (if p = [] then send_parts s ps
      else (case kfastblock_transport_send_all s p of (ret, s') \<Rightarrow>
              if ret \<noteq> 0 then (ret, s') else send_parts s' ps))"

definition kfastblock_transport_send_request_parts ::
    "sock \<Rightarrow> u8 \<Rightarrow> u8 \<Rightarrow> u64 \<Rightarrow> u8 list list \<Rightarrow> int \<times> sock" where
  "kfastblock_transport_send_request_parts s service opcode seq parts =
     (let body_len = of_nat (sum_list (map length parts))
      in case kfastblock_transport_send_all s (enc_header (request_header service opcode seq body_len)) of
           (ret, s') \<Rightarrow> if ret \<noteq> 0 then (ret, s') else send_parts s' parts)"

text \<open>A response context: the header and the received body; a body of \<^verbatim>\<open>NULL\<close> is \<open>None\<close>.\<close>

record response_ctx =
  rs_hdr :: raw_header
  rs_body :: "u8 list option"
  rs_body_len :: u32
  rs_ret :: int

definition kfastblock_transport_response_ctx_reset :: response_ctx where
  "kfastblock_transport_response_ctx_reset =
     \<lparr> rs_hdr = zero_header, rs_body = None, rs_body_len = 0, rs_ret = 0 \<rparr>"

definition is_response :: "raw_header \<Rightarrow> bool" where
  "is_response h \<longleftrightarrow> rh_flags h AND KFASTBLOCK_RAW_FLAG_RESPONSE \<noteq> 0"

definition kfastblock_transport_recv_response_any ::
    "bool \<Rightarrow> sock \<Rightarrow> u8 \<Rightarrow> u8 \<Rightarrow> int \<times> raw_header \<times> u8 list option \<times> sock" where
  "kfastblock_transport_recv_response_any alloc s service opcode =
     (case kfastblock_transport_recv_all s sizeof_header of (ret, hb, s1) \<Rightarrow>
        (let h = dec_header hb
         in if ret \<noteq> 0 then (ret, h, None, s1)
            else if rh_magic h \<noteq> KFASTBLOCK_RAW_MAGIC \<or> rh_version_major h \<noteq> KFASTBLOCK_RAW_VERSION_MAJOR \<or>
                    rh_service h \<noteq> service \<or> rh_opcode h \<noteq> opcode \<or> \<not> is_response h
            then (- EPROTO, h, None, s1)
            else if rh_body_len h = 0 then (kfastblock_transport_status_to_errno (rh_status h), h, None, s1)
            else if \<not> alloc then (- ENOMEM, h, None, s1)
            else (case kfastblock_transport_recv_all s1 (unat (rh_body_len h)) of (ret, body, s2) \<Rightarrow>
                    if ret \<noteq> 0 then (ret, h, None, s2)
                    else (kfastblock_transport_status_to_errno (rh_status h), h, Some body, s2))))"

definition kfastblock_transport_recv_response_exact ::
    "bool \<Rightarrow> sock \<Rightarrow> u8 \<Rightarrow> u8 \<Rightarrow> u64 \<Rightarrow> int \<times> raw_header \<times> u8 list option \<times> sock" where
  "kfastblock_transport_recv_response_exact alloc s service opcode seq =
     (case kfastblock_transport_recv_response_any alloc s service opcode of (ret, h, body, s') \<Rightarrow>
        if ret \<noteq> 0 then (ret, h, body, s')
        else if rh_seq h = seq then (0, h, body, s')
        else (- EPROTO, h, None, s'))"

definition kfastblock_transport_response_expect_min_body :: "response_ctx \<Rightarrow> nat \<Rightarrow> int" where
  "kfastblock_transport_response_expect_min_body rsp n =
     (if rs_body rsp = None \<or> unat (rs_body_len rsp) < n then - EPROTO else 0)"

text \<open>The bytes copied to the destination, \<open>None\<close> when nothing is copied.\<close>

definition kfastblock_transport_response_copy_fixed :: "response_ctx \<Rightarrow> nat \<Rightarrow> int \<times> u8 list option" where
  "kfastblock_transport_response_copy_fixed rsp n =
     (let ret = kfastblock_transport_response_expect_min_body rsp n
      in if ret \<noteq> 0 then (ret, None)
         else if unat (rs_body_len rsp) \<noteq> n then (- EPROTO, None)
         else (0, map_option (take n) (rs_body rsp)))"

definition kfastblock_transport_exec_request_parts ::
    "bool \<Rightarrow> sock \<Rightarrow> u8 \<Rightarrow> u8 \<Rightarrow> u64 \<Rightarrow> u8 list list \<Rightarrow> int \<times> response_ctx \<times> sock" where
  "kfastblock_transport_exec_request_parts alloc s service opcode seq parts =
     (let rsp = kfastblock_transport_response_ctx_reset
      in case kfastblock_transport_send_request_parts s service opcode seq parts of (ret, s1) \<Rightarrow>
           if ret \<noteq> 0 then (ret, rsp \<lparr> rs_ret := ret \<rparr>, s1)
           else (case kfastblock_transport_recv_response_exact alloc s1 service opcode seq of
                   (ret, h, body, s2) \<Rightarrow>
                     (ret, rsp \<lparr> rs_hdr := h, rs_body := body, rs_ret := ret,
                                 rs_body_len := (if ret = 0 then rh_body_len h else 0) \<rparr>, s2)))"

definition kfastblock_transport_exec_request ::
    "bool \<Rightarrow> sock \<Rightarrow> u8 \<Rightarrow> u8 \<Rightarrow> u64 \<Rightarrow> u8 list \<Rightarrow> int \<times> response_ctx \<times> sock" where
  "kfastblock_transport_exec_request alloc s service opcode seq body =
     (if body = [] then kfastblock_transport_exec_request_parts alloc s service opcode seq []
      else kfastblock_transport_exec_request_parts alloc s service opcode seq [body])"

definition kfastblock_transport_exec_request_fixed_body ::
    "bool \<Rightarrow> sock \<Rightarrow> u8 \<Rightarrow> u8 \<Rightarrow> u64 \<Rightarrow> u8 list list \<Rightarrow> nat \<Rightarrow> int \<times> u8 list option \<times> sock" where
  "kfastblock_transport_exec_request_fixed_body alloc s service opcode seq parts n =
     (case kfastblock_transport_exec_request_parts alloc s service opcode seq parts of (ret, rsp, s') \<Rightarrow>
        if ret \<noteq> 0 then (ret, None, s')
        else (case kfastblock_transport_response_copy_fixed rsp n of (ret, bs) \<Rightarrow> (ret, bs, s')))"

definition kfastblock_transport_recv_raw_osd_response ::
    "bool \<Rightarrow> sock \<Rightarrow> int \<times> response_ctx \<times> sock" where
  "kfastblock_transport_recv_raw_osd_response alloc s =
     (let rsp = kfastblock_transport_response_ctx_reset
      in case kfastblock_transport_recv_all s sizeof_header of (ret, hb, s1) \<Rightarrow>
        (let h = dec_header hb; rsp1 = rsp \<lparr> rs_hdr := h \<rparr>
         in if ret \<noteq> 0 then (ret, rsp1, s1)
            else if rh_magic h \<noteq> KFASTBLOCK_RAW_MAGIC \<or> rh_version_major h \<noteq> KFASTBLOCK_RAW_VERSION_MAJOR \<or>
                    rh_service h \<noteq> KFASTBLOCK_RAW_SERVICE_OSD \<or> \<not> is_response h
            then (- EPROTO, rsp1, s1)
            else if rh_body_len h = 0 then (0, rsp1, s1)
            else if \<not> alloc then (- ENOMEM, rsp1, s1)
            else (case kfastblock_transport_recv_all s1 (unat (rh_body_len h)) of (ret, body, s2) \<Rightarrow>
                    if ret \<noteq> 0 then (ret, rsp, s2)
                    else (0, rsp1 \<lparr> rs_body := Some body, rs_body_len := rh_body_len h \<rparr>, s2))))"

section \<open>What the loops move\<close>

text \<open>A script that never fails and always makes progress.\<close>

definition moving :: "sock \<Rightarrow> bool" where
  "moving s \<longleftrightarrow> (\<forall>oc \<in> set (so_script s). case oc of Moved n \<Rightarrow> 0 < n | Failed _ \<Rightarrow> False)"

lemma sendmsg_moves:
  assumes "kernel_sendmsg s buf = (rc, s')"
  shows "so_in s' = so_in s" "0 < rc \<Longrightarrow> nat rc \<le> length buf \<and> so_out s' = so_out s @ take (nat rc) buf"
    "rc \<le> 0 \<Longrightarrow> so_out s' = so_out s" "moving s \<Longrightarrow> moving s'" "moving s \<Longrightarrow> buf \<noteq> [] \<Longrightarrow> 0 < rc"
  using assms by (auto simp: kernel_sendmsg_def next_outcome_def moving_def Let_def
      split: list.splits io_outcome.splits)

lemma recvmsg_moves:
  assumes "kernel_recvmsg s len = (rc, bs, s')"
  shows "so_out s' = so_out s" "bs = take (nat rc) (so_in s)" "so_in s' = drop (nat rc) (so_in s)"
    "nat rc \<le> len" "nat rc \<le> length (so_in s)" "moving s \<Longrightarrow> moving s'"
    "moving s \<Longrightarrow> 0 < len \<Longrightarrow> len \<le> length (so_in s) \<Longrightarrow> 0 < rc"
  using assms by (auto simp: kernel_recvmsg_def next_outcome_def moving_def Let_def min_def
      split: list.splits io_outcome.splits if_splits)

lemma send_all_sends:
  "kfastblock_transport_send_all s buf = (ret, s') \<Longrightarrow>
     so_in s' = so_in s \<and> ret \<le> 0 \<and> (ret = 0 \<longrightarrow> so_out s' = so_out s @ buf) \<and>
     (moving s \<longrightarrow> ret = 0 \<and> moving s')"
proof (induction s buf arbitrary: ret s' rule: kfastblock_transport_send_all.induct)
  case (1 s buf)
  obtain rc s1 where m: "kernel_sendmsg s buf = (rc, s1)" by (cases "kernel_sendmsg s buf")
  note mv = sendmsg_moves [OF m]
  show ?case
  proof (cases "buf = [] \<or> rc \<le> 0")
    case True
    then show ?thesis using 1(2) m mv by (auto simp: kfastblock_transport_send_all.simps [of s buf] split: if_splits)
  next
    case False
    then have "kfastblock_transport_send_all s1 (drop (nat rc) buf) = (ret, s')"
      using 1(2) m by (simp add: kfastblock_transport_send_all.simps [of s buf])
    moreover from False have "buf \<noteq> []" "\<not> rc \<le> 0" by auto
    ultimately show ?thesis using 1(1) [OF _ m [symmetric]] mv False by auto
  qed
qed

lemma recv_all_receives:
  "kfastblock_transport_recv_all s len = (ret, bs, s') \<Longrightarrow>
     so_out s' = so_out s \<and> ret \<le> 0 \<and> (ret = 0 \<longrightarrow> bs = take len (so_in s) \<and> length bs = len \<and> so_in s' = drop len (so_in s)) \<and>
     length (so_in s') \<le> length (so_in s) \<and>
     (moving s \<longrightarrow> len \<le> length (so_in s) \<longrightarrow> ret = 0 \<and> moving s')"
proof (induction s len arbitrary: ret bs s' rule: kfastblock_transport_recv_all.induct)
  case (1 s len)
  obtain rc b1 s1 where m: "kernel_recvmsg s len = (rc, b1, s1)" by (cases "kernel_recvmsg s len")
  note mv = recvmsg_moves [OF m]
  show ?case
  proof (cases "len = 0 \<or> rc \<le> 0")
    case True
    then show ?thesis using 1(2) m mv
      by (auto simp: kfastblock_transport_recv_all.simps [of s len] split: if_splits)
  next
    case False
    obtain bs2 where r: "kfastblock_transport_recv_all s1 (len - nat rc) = (ret, bs2, s')" "bs = b1 @ bs2"
      using 1(2) m False by (auto simp: kfastblock_transport_recv_all.simps [of s len] split: prod.splits)
    have nz: "len \<noteq> 0" "\<not> rc \<le> 0" using False by auto
    note ih = 1(1) [OF nz(1) m [symmetric] refl nz(2) r(1)]
    have tk: "take len (so_in s) = b1 @ take (len - nat rc) (so_in s1)"
      using mv(2-4) take_add [of "nat rc" "len - nat rc" "so_in s"] by simp
    have dr: "drop (len - nat rc) (so_in s1) = drop len (so_in s)" using mv(3,4) by simp
    have "moving s1 \<and> len - nat rc \<le> length (so_in s1)" if "moving s" "len \<le> length (so_in s)"
      using that mv(3,6) by simp
    moreover have "length b1 = nat rc" "length (so_in s1) \<le> length (so_in s)" using mv(2,3,5) by simp_all
    ultimately show ?thesis using ih mv(1,4) r(2) tk dr by auto
  qed
qed

lemma send_parts_sends:
  "send_parts s ps = (ret, s') \<Longrightarrow>
     so_in s' = so_in s \<and> (ret = 0 \<longrightarrow> so_out s' = so_out s @ concat ps) \<and> (moving s \<longrightarrow> ret = 0 \<and> moving s')"
proof (induction s ps arbitrary: ret s' rule: send_parts.induct)
  case (2 s p ps)
  show ?case
  proof (cases "p = []")
    case True
    then show ?thesis using 2(1) [OF True, of ret s'] 2(3) by simp
  next
    case False
    obtain r1 s1 where a: "kfastblock_transport_send_all s p = (r1, s1)" by (cases "kfastblock_transport_send_all s p")
    note h = send_all_sends [OF a]
    show ?thesis
    proof (cases "r1 = 0")
      case True
      then have "send_parts s1 ps = (ret, s')" using 2(3) False a by simp
      then show ?thesis using 2(2) [OF False a [symmetric], of ret s'] h True by simp
    next
      case r1: False
      then show ?thesis using 2(3) False a h by auto
    qed
  qed
qed simp

text \<open>A request puts its header and its parts on the stream, in order and contiguously.\<close>

lemma send_request_parts_sends:
  assumes "kfastblock_transport_send_request_parts s service opcode seq parts = (ret, s')"
  shows "so_in s' = so_in s" "ret = 0 \<Longrightarrow> so_out s' = so_out s @
      enc_header (request_header service opcode seq (of_nat (length (concat parts)))) @ concat parts"
    "moving s \<Longrightarrow> ret = 0 \<and> moving s'"
proof -
  let ?h = "enc_header (request_header service opcode seq (of_nat (length (concat parts))))"
  obtain r1 s1 where a: "kfastblock_transport_send_all s ?h = (r1, s1)"
    by (cases "kfastblock_transport_send_all s ?h")
  note h = send_all_sends [OF a]
  have *: "(if r1 \<noteq> 0 then (r1, s1) else send_parts s1 parts) = (ret, s')"
    using assms a by (simp add: kfastblock_transport_send_request_parts_def length_concat)
  show "so_in s' = so_in s" "ret = 0 \<Longrightarrow> so_out s' = so_out s @ ?h @ concat parts"
    "moving s \<Longrightarrow> ret = 0 \<and> moving s'"
    using * h send_parts_sends [of s1 parts ret s'] by (auto split: if_splits)
qed

text \<open>A response frame as a peer writes it, and what receiving it gives.\<close>

definition frame :: "raw_header \<Rightarrow> u8 list \<Rightarrow> u8 list" where
  "frame h body = enc_header (h \<lparr> rh_body_len := of_nat (length body) \<rparr>) @ body"

lemma recv_frame:
  assumes "moving s" "so_in s = frame h body @ rest" "length body < 2 ^ 32"
    and hd: "kfastblock_transport_recv_all s sizeof_header = (ret, hb, s1)"
    and bd: "kfastblock_transport_recv_all s1 (length body) = (ret', bb, s2)"
  shows "ret = 0" "dec_header hb = h \<lparr> rh_body_len := of_nat (length body) \<rparr>" "ret' = 0" "bb = body"
    "so_in s2 = rest" "so_in s1 = body @ rest" "moving s1" "moving s2" "so_out s2 = so_out s" "so_out s1 = so_out s"
proof -
  have "28 \<le> length (so_in s)" using assms(2) by (simp add: frame_def)
  then have 1: "ret = 0" "hb = take 28 (so_in s)" "so_in s1 = drop 28 (so_in s)" "moving s1" "so_out s1 = so_out s"
    using recv_all_receives [OF hd] assms(1) by auto
  then show "ret = 0" "moving s1" "so_out s1 = so_out s" by auto
  show "dec_header hb = h \<lparr> rh_body_len := of_nat (length body) \<rparr>" using 1 assms(2) by (simp add: frame_def)
  show in1: "so_in s1 = body @ rest" using 1 assms(2) by (simp add: frame_def)
  show "ret' = 0" "bb = body" "so_in s2 = rest" "moving s2" "so_out s2 = so_out s"
    using recv_all_receives [OF bd, unfolded in1] 1(4,5) by auto
qed

text \<open>A header that answers a request.\<close>

definition answers :: "raw_header \<Rightarrow> u8 \<Rightarrow> u8 \<Rightarrow> u64 \<Rightarrow> bool" where
  "answers h service opcode seq \<longleftrightarrow>
     rh_magic h = KFASTBLOCK_RAW_MAGIC \<and> rh_version_major h = KFASTBLOCK_RAW_VERSION_MAJOR \<and>
     rh_service h = service \<and> rh_opcode h = opcode \<and> is_response h \<and> rh_seq h = seq"

definition response_of :: "raw_header \<Rightarrow> u8 list \<Rightarrow> response_ctx" where
  "response_of h body =
     (let e = kfastblock_transport_status_to_errno (rh_status h)
      in \<lparr> rs_hdr = h \<lparr> rh_body_len := of_nat (length body) \<rparr>, rs_body = (if body = [] then None else Some body),
           rs_body_len = (if e = 0 then of_nat (length body) else 0), rs_ret = e \<rparr>)"

lemma recv_response_any_frame:
  assumes mv: "moving s" and inp: "so_in s = frame h body @ rest" and len: "length body < 2 ^ 32"
    and h: "answers h service opcode seq"
  obtains s' where "so_in s' = rest" "so_out s' = so_out s" "moving s'"
    "kfastblock_transport_recv_response_any True s service opcode =
      (kfastblock_transport_status_to_errno (rh_status h), h \<lparr> rh_body_len := of_nat (length body) \<rparr>,
       if body = [] then None else Some body, s')"
proof -
  obtain r2 hb s2 where hd: "kfastblock_transport_recv_all s 28 = (r2, hb, s2)" by (cases "kfastblock_transport_recv_all s 28")
  obtain r3 bb s3 where bd: "kfastblock_transport_recv_all s2 (length body) = (r3, bb, s3)"
    by (cases "kfastblock_transport_recv_all s2 (length body)")
  note rf = recv_frame [OF mv inp len hd bd]
  have bl: "unat (of_nat (length body) :: u32) = length body" using len by (simp add: unat_of_nat_small)
  then have bz: "(of_nat (length body) :: u32) = 0 \<longleftrightarrow> body = []" by (metis length_0_conv unat_eq_zero)
  have s2: "s3 = s2" if "body = []" using bd that by (simp add: kfastblock_transport_recv_all.simps)
  show ?thesis
    using rf(1-4) hd bd s2 h
    by (intro that [OF rf(5,9,8)])
      (simp add: kfastblock_transport_recv_response_any_def answers_def is_response_def bl bz Let_def)
qed

lemma exec_request_parts_frame:
  assumes mv: "moving s" and inp: "so_in s = frame h body @ rest" and len: "length body < 2 ^ 32"
    and h: "answers h service opcode seq"
  obtains s' where "so_in s' = rest" "moving s'"
    "so_out s' = so_out s @ enc_header (request_header service opcode seq (of_nat (length (concat parts)))) @ concat parts"
    "kfastblock_transport_exec_request_parts True s service opcode seq parts =
      (kfastblock_transport_status_to_errno (rh_status h), response_of h body, s')"
proof -
  obtain r1 s1 where snd: "kfastblock_transport_send_request_parts s service opcode seq parts = (r1, s1)"
    by (cases "kfastblock_transport_send_request_parts s service opcode seq parts")
  note sn = send_request_parts_sends [OF snd]
  have s1: "r1 = 0" "moving s1" "so_in s1 = frame h body @ rest" using sn mv inp by auto
  obtain s' where s': "so_in s' = rest" "so_out s' = so_out s1" "moving s'"
    "kfastblock_transport_recv_response_any True s1 service opcode =
      (kfastblock_transport_status_to_errno (rh_status h), h \<lparr> rh_body_len := of_nat (length body) \<rparr>,
       if body = [] then None else Some body, s')"
    by (rule recv_response_any_frame [OF s1(2,3) len h])
  show ?thesis
  proof (rule that [of s'])
    show "so_out s' = so_out s @ enc_header (request_header service opcode seq (of_nat (length (concat parts)))) @ concat parts"
      using sn(2) s1(1) s'(2) by simp
    show "kfastblock_transport_exec_request_parts True s service opcode seq parts =
      (kfastblock_transport_status_to_errno (rh_status h), response_of h body, s')"
      using snd s1(1) s'(4) h
      by (simp add: kfastblock_transport_exec_request_parts_def kfastblock_transport_recv_response_exact_def
          kfastblock_transport_response_ctx_reset_def response_of_def answers_def Let_def)
  qed (rule s')+
qed

end
