(* ===== verification/KFB_Decode.thy ===== *)
theory KFB_Decode
  imports KFB_Socket KFB_Request
begin

text \<open>
  What the client makes of the responses, \<^verbatim>\<open>kfastblock/src/transport.c\<close>: the decoders of the leader, read
  and cluster-map responses, and the fetches from the monitors. The outcome of connecting to an address
  is a parameter. A destination that the source fills through a pointer is a result here.
\<close>

section \<open>Leader and object responses\<close>

definition c_string :: "u8 list \<Rightarrow> string" where
  "c_string bs = takeWhile (\<lambda>c. c \<noteq> CHR 0x00) (bytes_str bs)"

definition kfastblock_transport_response_decode_leader :: "response_ctx \<Rightarrow> leader_info \<Rightarrow> int \<times> leader_info" where
  "kfastblock_transport_response_decode_leader response leader =
     (if kfastblock_transport_response_expect_min_body response 8 \<noteq> 0 then (- EPROTO, leader)
      else (let body = the (rs_body response);
                rsp = dec_get_leader_rsp (take 8 body);
                address_len = unat (lr_address_len rsp)
            in if unat (rs_body_len response) \<noteq> 8 + address_len \<or> address_len = 0 \<or>
                  KFASTBLOCK_MAX_ADDR_LEN \<le> address_len
               then (- EPROTO, leader)
               else (let l = \<lparr> li_osd_id = lr_leader_id rsp, li_port = lr_leader_port rsp,
                               li_address = c_string (take address_len (drop 8 body)) \<rparr>
                     in if li_osd_id l = 0 \<or> li_port l = 0 \<or> li_address l = [] then (- EPROTO, l) else (0, l))))"

text \<open>The first \<open>ox_length extent\<close> bytes of the caller's buffer after a successful decode.\<close>

definition kfastblock_transport_response_decode_read_object ::
    "response_ctx \<Rightarrow> object_extent \<Rightarrow> int + u8 list" where
  "kfastblock_transport_response_decode_read_object response extent =
     (if kfastblock_transport_response_expect_min_body response 8 \<noteq> 0 then Inl (- EPROTO)
      else (let body = the (rs_body response);
                data_len = rr_data_len (dec_read_object_rsp (take 8 body))
            in if unat (rs_body_len response) \<noteq> 8 + unat data_len \<or> ox_length extent < data_len
               then Inl (- EPROTO)
               else Inr (take (unat data_len) (drop 8 body) @
                         replicate (unat (ox_length extent) - unat data_len) 0)))"

section \<open>The cluster map\<close>

definition kfastblock_transport_advance_offset :: "nat \<Rightarrow> nat \<Rightarrow> nat \<Rightarrow> int + nat" where
  "kfastblock_transport_advance_offset body_len offset len =
     (if body_len < offset + len then Inl (- EPROTO) else Inr (offset + len))"

definition kfastblock_transport_copy_from_body ::
    "u8 list \<Rightarrow> nat \<Rightarrow> nat \<Rightarrow> nat \<Rightarrow> int + (u8 list \<times> nat)" where
  "kfastblock_transport_copy_from_body body body_len offset len =
     (case kfastblock_transport_advance_offset body_len offset len of
        Inl ret \<Rightarrow> Inl ret
      | Inr off \<Rightarrow> Inr (take len (drop (off - len) body), off))"

primrec decode_shards :: "u8 list \<Rightarrow> nat \<Rightarrow> nat \<Rightarrow> nat \<Rightarrow> int + (osd_shard list \<times> nat)" where
  "decode_shards body body_len 0 offset = Inr ([], offset)"
| "decode_shards body body_len (Suc n) offset =
     (case kfastblock_transport_copy_from_body body body_len offset 8 of
        Inl ret \<Rightarrow> Inl ret
      | Inr (bs, off) \<Rightarrow>
          (let e = dec_osd_shard_entry bs
           in case decode_shards body body_len n off of
                Inl ret \<Rightarrow> Inl ret
              | Inr (ss, off') \<Rightarrow>
                  Inr (\<lparr> os_shard_id = oq_shard_id e, os_port = oq_port e, os_core_id = oq_core_id e \<rparr> # ss, off')))"

definition decode_osd_entry ::
    "allocs \<Rightarrow> u8 list \<Rightarrow> nat \<Rightarrow> nat \<Rightarrow> int + (osd_endpoint \<times> nat \<times> allocs)" where
  "decode_osd_entry al body body_len offset =
     (case kfastblock_transport_copy_from_body body body_len offset 12 of
        Inl ret \<Rightarrow> Inl ret
      | Inr (bs, off) \<Rightarrow>
          (let hdr = dec_osd_entry_hdr bs;
               address_len = unat (oh_address_len hdr);
               shard_count = oh_shard_count hdr
           in if KFASTBLOCK_MAX_ADDR_LEN \<le> address_len then Inl (- E2BIG)
              else (case kfastblock_transport_advance_offset body_len off address_len of
                      Inl ret \<Rightarrow> Inl ret
                    | Inr off1 \<Rightarrow>
                        (let osd = \<lparr> oe_osd_id = oh_osd_id hdr, oe_flags = oh_flags hdr,
                                     oe_shard_count = shard_count,
                                     oe_address = c_string (take address_len (drop (off1 - address_len) body)),
                                     oe_shards = [] \<rparr>
                         in if shard_count = 0 then Inr (osd, off1, al)
                            else (case kalloc al of (ok, al') \<Rightarrow>
                                    if \<not> ok then Inl (- ENOMEM)
                                    else (case decode_shards body body_len (unat shard_count) off1 of
                                            Inl ret \<Rightarrow> Inl ret
                                          | Inr (ss, off2) \<Rightarrow> Inr (osd \<lparr> oe_shards := ss \<rparr>, off2, al')))))))"

primrec kfastblock_transport_decode_osd_entries ::
    "u8 list \<Rightarrow> nat \<Rightarrow> nat \<Rightarrow> allocs \<Rightarrow> nat \<Rightarrow> int + (osd_endpoint list \<times> nat \<times> allocs)" where
  "kfastblock_transport_decode_osd_entries body body_len 0 al offset = Inr ([], offset, al)"
| "kfastblock_transport_decode_osd_entries body body_len (Suc n) al offset =
     (case decode_osd_entry al body body_len offset of
        Inl ret \<Rightarrow> Inl ret
      | Inr (osd, off, al') \<Rightarrow>
          (case kfastblock_transport_decode_osd_entries body body_len n al' off of
             Inl ret \<Rightarrow> Inl ret
           | Inr (osds, off', al'') \<Rightarrow> Inr (osd # osds, off', al'')))"

primrec decode_replicas :: "u8 list \<Rightarrow> nat \<Rightarrow> nat \<Rightarrow> nat \<Rightarrow> int + (u32 list \<times> nat)" where
  "decode_replicas body body_len 0 offset = Inr ([], offset)"
| "decode_replicas body body_len (Suc n) offset =
     (case kfastblock_transport_copy_from_body body body_len offset 4 of
        Inl ret \<Rightarrow> Inl ret
      | Inr (bs, off) \<Rightarrow>
          (case decode_replicas body body_len n off of
             Inl ret \<Rightarrow> Inl ret
           | Inr (ids, off') \<Rightarrow> Inr (le32_to_cpu bs # ids, off')))"

definition decode_pg_entry ::
    "allocs \<Rightarrow> u8 list \<Rightarrow> nat \<Rightarrow> nat \<Rightarrow> int + (pg_route \<times> nat \<times> allocs)" where
  "decode_pg_entry al body body_len offset =
     (case kfastblock_transport_copy_from_body body body_len offset 28 of
        Inl ret \<Rightarrow> Inl ret
      | Inr (bs, off) \<Rightarrow>
          (let hdr = dec_pg_entry_hdr bs;
               replica_count = pe_replica_count hdr;
               route = \<lparr> pr_pool_id = pe_pool_id hdr, pr_pg_id = pe_pg_id hdr, pr_version = pe_version hdr,
                         pr_state = pe_state hdr, pr_primary_shard = pe_primary_shard hdr,
                         pr_replica_count = replica_count, pr_osd_ids = [], pr_leader_valid = False,
                         pr_leader = zero_leader \<rparr>
           in if replica_count = 0 then Inr (route, off, al)
              else (case kalloc al of (ok, al') \<Rightarrow>
                      if \<not> ok then Inl (- ENOMEM)
                      else (case decode_replicas body body_len (unat replica_count) off of
                              Inl ret \<Rightarrow> Inl ret
                            | Inr (ids, off') \<Rightarrow> Inr (route \<lparr> pr_osd_ids := ids \<rparr>, off', al')))))"

text \<open>The routes, the number of them in the pool asked for, and the offset reached.\<close>

primrec kfastblock_transport_decode_pg_entries ::
    "u8 list \<Rightarrow> nat \<Rightarrow> u32 \<Rightarrow> nat \<Rightarrow> allocs \<Rightarrow> u32 \<Rightarrow> nat \<Rightarrow> int + (pg_route list \<times> u32 \<times> nat \<times> allocs)" where
  "kfastblock_transport_decode_pg_entries body body_len pool_id 0 al pool_pg_count offset =
     Inr ([], pool_pg_count, offset, al)"
| "kfastblock_transport_decode_pg_entries body body_len pool_id (Suc n) al pool_pg_count offset =
     (case decode_pg_entry al body body_len offset of
        Inl ret \<Rightarrow> Inl ret
      | Inr (route, off, al') \<Rightarrow>
          (case kfastblock_transport_decode_pg_entries body body_len pool_id n al'
                  (if pr_pool_id route = pool_id then pool_pg_count + 1 else pool_pg_count) off of
             Inl ret \<Rightarrow> Inl ret
           | Inr (routes, count, off', al'') \<Rightarrow> Inr (route # routes, count, off', al'')))"

definition kfastblock_transport_response_decode_cluster_map_header ::
    "response_ctx \<Rightarrow> int + (raw_cluster_map_rsp_hdr \<times> nat)" where
  "kfastblock_transport_response_decode_cluster_map_header response =
     (if kfastblock_transport_response_expect_min_body response 24 \<noteq> 0 then Inl (- EPROTO)
      else (case kfastblock_transport_copy_from_body (the (rs_body response)) (unat (rs_body_len response)) 0 24 of
              Inl ret \<Rightarrow> Inl ret
            | Inr (bs, off) \<Rightarrow> Inr (dec_cluster_map_rsp_hdr bs, off)))"

text \<open>The allocation of an array of \<open>n\<close> entries, none when \<open>n\<close> is 0.\<close>

definition kvcalloc_nonempty :: "allocs \<Rightarrow> u32 \<Rightarrow> bool \<times> allocs" where
  "kvcalloc_nonempty al n = (if n = 0 then (True, al) else kalloc al)"

definition kfastblock_transport_response_decode_cluster_map ::
    "allocs \<Rightarrow> response_ctx \<Rightarrow> cluster_view \<Rightarrow> int \<times> cluster_view" where
  "kfastblock_transport_response_decode_cluster_map al response view =
     (case kfastblock_transport_response_decode_cluster_map_header response of
        Inl ret \<Rightarrow> (ret, view)
      | Inr (rsp, off) \<Rightarrow>
          (let body = the (rs_body response); body_len = unat (rs_body_len response)
           in case kvcalloc_nonempty al (ch_osd_count rsp) of (ok, al1) \<Rightarrow>
                if \<not> ok then (- ENOMEM, view)
                else (case kfastblock_transport_decode_osd_entries body body_len (unat (ch_osd_count rsp)) al1 off of
                        Inl ret \<Rightarrow> (ret, view)
                      | Inr (osds, off1, al2) \<Rightarrow>
                          (case kvcalloc_nonempty al2 (ch_pg_count rsp) of (ok, al3) \<Rightarrow>
                             if \<not> ok then (- ENOMEM, view)
                             else (case kfastblock_transport_decode_pg_entries body body_len
                                          (ii_pool_id (cv_image view)) (unat (ch_pg_count rsp)) al3 0 off1 of
                                     Inl ret \<Rightarrow> (ret, view)
                                   | Inr (routes, pool_pg_count, off2, _) \<Rightarrow>
                                       if off2 \<noteq> body_len then (- EPROTO, view)
                                       else if pool_pg_count = 0 then (- ENOENT, view)
                                       else (0, kfastblock_meta_replace_cluster_map view
                                                  (ch_osdmap_epoch rsp) (ch_pgmap_epoch rsp) pool_pg_count
                                                  (ch_osd_count rsp) osds (ch_pg_count rsp) routes))))))"

abbreviation (input) KFASTBLOCK_DEFAULT_BLOCK_SIZE :: u32 where "KFASTBLOCK_DEFAULT_BLOCK_SIZE \<equiv> 4096"

section \<open>Fetching from the monitors\<close>

definition kfastblock_transport_fetch_image_info ::
    "bool \<Rightarrow> sock \<Rightarrow> cluster_view \<Rightarrow> u64 \<Rightarrow> int \<times> cluster_view \<times> sock" where
  "kfastblock_transport_fetch_image_info alloc s view seq =
     (let pool_name = ii_pool_name (cv_image view); image_name = ii_image_name (cv_image view);
          req = \<lparr> iq_image_epoch = cv_image_epoch view, iq_pool_name_len = of_nat (length pool_name),
                  iq_image_name_len = of_nat (length image_name) \<rparr>
      in case kfastblock_transport_exec_request_fixed_body alloc s KFASTBLOCK_RAW_SERVICE_MONITOR
                KFASTBLOCK_RAW_OP_GET_IMAGE_INFO seq
                [enc_get_image_info_req req, str_bytes pool_name, str_bytes image_name] 32 of
           (ret, bs, s') \<Rightarrow>
             if ret = - ESTALE then (0, view, s')
             else if ret \<noteq> 0 then (ret, view, s')
             else (let rsp = dec_get_image_info_rsp (the bs)
                   in (0, view \<lparr> cv_image_epoch := ir_image_epoch rsp,
                            cv_image := (cv_image view)
                              \<lparr> ii_pool_id := ir_pool_id rsp,
                                ii_block_size := (if ir_block_size rsp = 0 then KFASTBLOCK_DEFAULT_BLOCK_SIZE
                                                  else ir_block_size rsp),
                                ii_object_size := ir_object_size rsp, ii_size_bytes := ir_size_bytes rsp,
                                ii_read_only := (ir_flags rsp AND KFASTBLOCK_RAW_IMAGE_FLAG_READ_ONLY \<noteq> 0) \<rparr> \<rparr>,
                       s')))"

definition kfastblock_transport_fetch_cluster_map_from_monitor ::
    "allocs \<Rightarrow> sock \<Rightarrow> cluster_view \<Rightarrow> u64 \<Rightarrow> int \<times> cluster_view \<times> sock" where
  "kfastblock_transport_fetch_cluster_map_from_monitor al s view seq =
     (let req = \<lparr> cq_osdmap_epoch = cv_osdmap_epoch view, cq_pool_id = ii_pool_id (cv_image view),
                  cq_reserved = 0, cq_pgmap_epoch = cv_pgmap_epoch view \<rparr>
      in case kalloc al of (ok, al') \<Rightarrow>
           case kfastblock_transport_exec_request ok s KFASTBLOCK_RAW_SERVICE_MONITOR
                  KFASTBLOCK_RAW_OP_GET_CLUSTER_MAP seq (enc_get_cluster_map_req req) of
             (ret, response, s') \<Rightarrow>
               if ret = - ESTALE then (0, view, s')
               else if ret \<noteq> 0 then (ret, view, s')
               else (case kfastblock_transport_response_decode_cluster_map al' response view of
                       (ret, view') \<Rightarrow> (ret, view', s')))"

text \<open>\<^verbatim>\<open>in4_pton(host, -1, dst, -1, NULL)\<close>: the state is whether a digit of the current number was seen, the
  number, and how many numbers are complete.\<close>

fun in4_pton :: "string \<Rightarrow> bool \<Rightarrow> nat \<Rightarrow> nat \<Rightarrow> bool" where
  "in4_pton [] seen w i \<longleftrightarrow> seen \<and> i = 3"
| "in4_pton (c # cs) seen w i \<longleftrightarrow>
     (if c = CHR '':'' then seen \<and> i = 3
      else if c = CHR ''.'' then seen \<and> i + 1 < 4 \<and> in4_pton cs False 0 (i + 1)
      else (case digit_val c of
              Some d \<Rightarrow> d < 10 \<and> w * 10 + d \<le> 255 \<and> i < 4 \<and> in4_pton cs True (w * 10 + d) i
            | None \<Rightarrow> False))"

definition kfastblock_transport_sockaddr_from_host_port :: "string \<Rightarrow> u16 \<Rightarrow> int" where
  "kfastblock_transport_sockaddr_from_host_port host port =
     (if host = [] \<or> port = 0 then - EINVAL else if in4_pton host False 0 0 then 0 else - EINVAL)"

definition kfastblock_transport_try_connect_host ::
    "(string \<Rightarrow> u16 \<Rightarrow> int + 'so) \<Rightarrow> string \<Rightarrow> u16 \<Rightarrow> int + 'so" where
  "kfastblock_transport_try_connect_host kernel_connect host port =
     (let ret = kfastblock_transport_sockaddr_from_host_port host port
      in if ret \<noteq> 0 then Inl ret else kernel_connect host port)"

definition kfastblock_transport_try_connect_monitor ::
    "(string \<Rightarrow> u16 \<Rightarrow> int + 'so) \<Rightarrow> monitor_endpoint \<Rightarrow> int + 'so" where
  "kfastblock_transport_try_connect_monitor kernel_connect endpoint =
     kfastblock_transport_try_connect_host kernel_connect (me_host endpoint) (me_port endpoint)"

text \<open>The loop over the monitors shared by the three fetches: \<open>ask\<close> queries one connected monitor.\<close>

fun fetch_loop ::
    "(string \<Rightarrow> u16 \<Rightarrow> int + sock) \<Rightarrow> (sock \<Rightarrow> cluster_view \<Rightarrow> u64 \<Rightarrow> int \<times> cluster_view \<times> u64)
      \<Rightarrow> monitor_endpoint list \<Rightarrow> u64 \<Rightarrow> int \<Rightarrow> cluster_view \<Rightarrow> int \<times> cluster_view" where
  "fetch_loop connect ask [] seq first_err view = (first_err, view)"
| "fetch_loop connect ask (m # ms) seq first_err view =
     (case kfastblock_transport_try_connect_monitor connect m of
        Inl ret \<Rightarrow> fetch_loop connect ask ms seq ret view
      | Inr s \<Rightarrow> (case ask s view seq of (ret, view', seq') \<Rightarrow>
                    if ret = 0 then (0, view') else fetch_loop connect ask ms seq' ret view'))"

definition kfastblock_transport_fetch_cluster_view ::
    "(string \<Rightarrow> u16 \<Rightarrow> int + sock) \<Rightarrow> allocs \<Rightarrow> attach_spec \<Rightarrow> cluster_view \<Rightarrow> int \<times> cluster_view" where
  "kfastblock_transport_fetch_cluster_view connect al spec view =
     (if as_nr_monitors spec = 0 then (- EINVAL, view)
      else fetch_loop connect
             (\<lambda>s view seq.
               case kfastblock_transport_fetch_image_info True s view seq of
                 (ret, view1, s1) \<Rightarrow>
                   if ret \<noteq> 0 then (ret, view1, seq + 1)
                   else (case kfastblock_transport_fetch_cluster_map_from_monitor al s1 view1 (seq + 1) of
                           (ret, view2, s2) \<Rightarrow> (ret, view2, seq + 2)))
             (take (unat (as_nr_monitors spec)) (as_monitors spec)) 1 (- EIO) view)"

definition kfastblock_transport_fetch_image ::
    "(string \<Rightarrow> u16 \<Rightarrow> int + sock) \<Rightarrow> attach_spec \<Rightarrow> cluster_view \<Rightarrow> int \<times> cluster_view" where
  "kfastblock_transport_fetch_image connect spec view =
     (if as_nr_monitors spec = 0 then (- EINVAL, view)
      else fetch_loop connect
             (\<lambda>s view seq. case kfastblock_transport_fetch_image_info True s view seq of
                             (ret, view1, s1) \<Rightarrow> (ret, view1, seq + 1))
             (take (unat (as_nr_monitors spec)) (as_monitors spec)) 1 (- EIO) view)"

definition kfastblock_transport_fetch_cluster_map ::
    "(string \<Rightarrow> u16 \<Rightarrow> int + sock) \<Rightarrow> allocs \<Rightarrow> attach_spec \<Rightarrow> cluster_view \<Rightarrow> int \<times> cluster_view" where
  "kfastblock_transport_fetch_cluster_map connect al spec view =
     (if as_nr_monitors spec = 0 then (- EINVAL, view)
      else fetch_loop connect
             (\<lambda>s view seq. case kfastblock_transport_fetch_cluster_map_from_monitor al s view seq of
                             (ret, view1, s1) \<Rightarrow> (ret, view1, seq + 1))
             (take (unat (as_nr_monitors spec)) (as_monitors spec)) 1 (- EIO) view)"

end
