(* ===== verification/Mon_Raw.thy ===== *)
theory Mon_Raw
  imports KFB_Wire KFB_Strings
begin

text \<open>
  The monitor's side of the raw protocol, written in Go: \<^verbatim>\<open>monitor/rawproto\<close> (headers, request decoding,
  response encoding), \<^verbatim>\<open>monitor/rawserver/server.go\<close> (the request handlers) and the lookups they call in
  \<^verbatim>\<open>monitor/osd\<close>. The monitor's tables are a record; a Go map is an association list with distinct keys.
  \<^verbatim>\<open>int32\<close> and \<^verbatim>\<open>int64\<close> values are words, ordered by their signed reading where the code sorts them.
\<close>

section \<open>The monitor's tables\<close>

record shard_core =
  sk_coreid :: u32
  sk_port :: u32
  sk_raw_port :: u32

record osd_dynamic_info =
  od_osdid :: u32
  od_address :: string
  od_sharded_ports :: "(u32 \<times> shard_core) list"
  od_isin :: bool
  od_isup :: bool

record pg_config =
  pc_version :: u64
  pc_state :: u32
  pc_core_index :: u32
  pc_osd_list :: "u32 list"

record pool_config =
  pl_name :: string
  pl_version :: u64
  pl_pg_map :: "(string \<times> pg_config) list"

record image_config =
  ic_image_id :: u32
  ic_imagename :: string
  ic_poolname :: string
  ic_imagesize :: u64
  ic_objectsize :: u64

record monitor =
  mo_osd_version :: u64
  mo_osds :: "osd_dynamic_info list"
  mo_pools :: "(u32 \<times> pool_config) list"
  mo_images :: "(u32 \<times> image_config) list"

record pg_info =
  pg_pgid :: u32
  pg_version :: u64
  pg_state :: u32
  pg_coreindex :: u32
  pg_osdid :: "u32 list"

record get_pg_map_response =
  gp_versions :: "(u32 \<times> u64) list"
  gp_pgs :: "(u32 \<times> pg_info list) list"

section \<open>Lookups\<close>

definition GetOSDMapVersion :: "monitor \<Rightarrow> u64" where
  "GetOSDMapVersion mon = mo_osd_version mon"

definition GetPoolPGMapVersion :: "monitor \<Rightarrow> u32 \<Rightarrow> u64 option" where
  "GetPoolPGMapVersion mon pool_id = map_option pl_version (map_of (mo_pools mon) pool_id)"

definition GetPoolIDByName :: "monitor \<Rightarrow> string \<Rightarrow> u32 option" where
  "GetPoolIDByName mon name = map_option fst (find (\<lambda>(i, p). pl_name p = name) (mo_pools mon))"

text \<open>\<^verbatim>\<open>strconv.Atoi\<close> with its error ignored: 0 for text that is not a number, the nearest representable
  value for one that is out of range.\<close>

definition strconv_Atoi :: "string \<Rightarrow> int" where
  "strconv_Atoi s =
     (let neg = (s \<noteq> [] \<and> hd s = CHR ''-'');
          d = (if s \<noteq> [] \<and> (hd s = CHR ''-'' \<or> hd s = CHR ''+'') then tl s else s)
      in case parse_integer 10 d 0 0 of
           (v, k, r) \<Rightarrow>
             if k = 0 \<or> r \<noteq> [] then 0
             else if neg then - int (min v (2 ^ 63)) else int (min v (2 ^ 63 - 1)))"

definition pg_info_of :: "string \<times> pg_config \<Rightarrow> pg_info" where
  "pg_info_of kc = \<lparr> pg_pgid = word_of_int (strconv_Atoi (fst kc)), pg_version = pc_version (snd kc),
     pg_state = pc_state (snd kc), pg_coreindex = pc_core_index (snd kc), pg_osdid = pc_osd_list (snd kc) \<rparr>"

text \<open>\<^verbatim>\<open>ProcessGetPgMapMessage\<close> for a request that names pools: \<open>pvs\<close> gives the version the client has of each.\<close>

fun pg_map_pools ::
    "(u32 \<times> u64) list \<Rightarrow> (u32 \<times> pool_config) list \<Rightarrow> get_pg_map_response \<Rightarrow> get_pg_map_response" where
  "pg_map_pools pvs [] resp = resp"
| "pg_map_pools pvs ((pid, ppc) # ps) resp =
     pg_map_pools pvs ps
       (case map_of pvs pid of
          None \<Rightarrow> resp
        | Some clientVersion \<Rightarrow>
            (let r1 = resp \<lparr> gp_versions := (pid, pl_version ppc) # gp_versions resp \<rparr>
             in if sint (pl_version ppc) \<le> sint clientVersion then r1
                else r1 \<lparr> gp_pgs := (pid, map pg_info_of (pl_pg_map ppc)) # gp_pgs resp \<rparr>))"

definition ProcessGetPgMapMessage :: "monitor \<Rightarrow> (u32 \<times> u64) list \<Rightarrow> get_pg_map_response option" where
  "ProcessGetPgMapMessage mon pvs =
     (if mo_pools mon = [] then None
      else Some (pg_map_pools pvs (mo_pools mon) \<lparr> gp_versions = [], gp_pgs = [] \<rparr>))"

datatype osd_map_error_code = osd_map_ok | clientVersionHigher | noOsdsExist

text \<open>\<^verbatim>\<open>ProcessGetOsdMapMessage\<close>; the heartbeat time it refreshes when \<open>oid\<close> is a known OSD is not part of the
  tables here.\<close>

definition ProcessGetOsdMapMessage ::
    "monitor \<Rightarrow> u64 \<Rightarrow> osd_dynamic_info list \<times> u64 \<times> osd_map_error_code" where
  "ProcessGetOsdMapMessage mon cv =
     (if mo_osds mon = [] then ([], - 1, noOsdsExist)
      else if sint (mo_osd_version mon) < sint cv then ([], - 1, clientVersionHigher)
      else if cv = mo_osd_version mon then ([], cv, osd_map_ok)
      else (mo_osds mon, mo_osd_version mon, osd_map_ok))"

definition ProcessGetImageMessage :: "monitor \<Rightarrow> string \<Rightarrow> string \<Rightarrow> image_config option" where
  "ProcessGetImageMessage mon imagename poolname =
     (case find (\<lambda>(i, c). ic_imagename c = imagename \<and> ic_poolname c = poolname) (mo_images mon) of
        None \<Rightarrow> None
      | Some (i, c) \<Rightarrow> map_of (mo_images mon) (ic_image_id c))"

text \<open>\<^verbatim>\<open>hash/fnv\<close>'s 64-bit FNV-1a and \<^verbatim>\<open>strconv.FormatInt\<close>.\<close>

definition fnv64a :: "u8 list \<Rightarrow> u64" where
  "fnv64a bs = fold (\<lambda>b h. (h XOR ucast b) * 1099511628211) bs 14695981039346656037"

definition FormatInt :: "int \<Rightarrow> string" where
  "FormatInt k = (if k < 0 then ''-'' @ print_num 10 (nat (- k)) else print_num 10 (nat k))"

definition GetImageEpoch :: "image_config \<Rightarrow> u64" where
  "GetImageEpoch c = fnv64a (str_bytes (ic_poolname c) @ [0] @ str_bytes (ic_imagename c) @ [0] @
     str_bytes (FormatInt (sint (ic_image_id c))) @ [0] @ str_bytes (FormatInt (sint (ic_imagesize c))) @ [0] @
     str_bytes (FormatInt (sint (ic_objectsize c))))"

section \<open>Messages\<close>

text \<open>\<^verbatim>\<open>WriteMessage\<close>: the bytes written to the connection.\<close>

definition WriteMessage :: "raw_header \<Rightarrow> u8 list \<Rightarrow> u8 list" where
  "WriteMessage hdr body = enc_header (hdr \<lparr> rh_body_len := of_nat (length body) \<rparr>) @ body"

definition ValidateRequestHeader :: "raw_header \<Rightarrow> bool" where
  "ValidateRequestHeader hdr \<longleftrightarrow>
     rh_magic hdr = KFASTBLOCK_RAW_MAGIC \<and> rh_version_major hdr = KFASTBLOCK_RAW_VERSION_MAJOR \<and>
     rh_service hdr = KFASTBLOCK_RAW_SERVICE_MONITOR \<and> rh_flags hdr AND KFASTBLOCK_RAW_FLAG_RESPONSE = 0"

definition response_header :: "u8 \<Rightarrow> u64 \<Rightarrow> u32 \<Rightarrow> raw_header" where
  "response_header opcode seq status =
     \<lparr> rh_magic = KFASTBLOCK_RAW_MAGIC, rh_version_major = KFASTBLOCK_RAW_VERSION_MAJOR,
       rh_version_minor = KFASTBLOCK_RAW_VERSION_MINOR, rh_service = KFASTBLOCK_RAW_SERVICE_MONITOR,
       rh_opcode = opcode, rh_flags = KFASTBLOCK_RAW_FLAG_RESPONSE, rh_seq = seq, rh_status = status,
       rh_body_len = 0 \<rparr>"

definition MakeResponseHeader :: "raw_header \<Rightarrow> u32 \<Rightarrow> raw_header" where
  "MakeResponseHeader req status = response_header (rh_opcode req) (rh_seq req) status"

definition WriteErrorResponse :: "raw_header \<Rightarrow> u32 \<Rightarrow> u8 list" where
  "WriteErrorResponse req status = WriteMessage (MakeResponseHeader req status) []"

definition DecodeGetImageInfoRequest :: "u8 list \<Rightarrow> (u64 \<times> string \<times> string) option" where
  "DecodeGetImageInfoRequest body =
     (if length body < 12 then None
      else (let imageEpoch = le64_to_cpu (fld 0 8 body);
                poolNameLen = unat (le16_to_cpu (fld 8 2 body));
                imageNameLen = unat (le16_to_cpu (fld 10 2 body));
                rest = drop 12 body
            in if length rest \<noteq> poolNameLen + imageNameLen then None
               else Some (imageEpoch, bytes_str (take poolNameLen rest), bytes_str (drop poolNameLen rest))))"

definition EncodeGetImageInfoResponse ::
    "u64 \<Rightarrow> u32 \<Rightarrow> u64 \<Rightarrow> u32 \<Rightarrow> u32 \<Rightarrow> u32 \<Rightarrow> u32 \<Rightarrow> u64 \<Rightarrow> raw_header \<times> u8 list" where
  "EncodeGetImageInfoResponse seq status imageEpoch poolID blockSize objectSize flags sizeBytes =
     (response_header KFASTBLOCK_RAW_OP_GET_IMAGE_INFO seq status,
      cpu_to_le64 imageEpoch @ cpu_to_le32 poolID @ cpu_to_le32 blockSize @ cpu_to_le32 objectSize @
      cpu_to_le32 flags @ cpu_to_le64 sizeBytes)"

definition DecodeGetClusterMapRequest :: "u8 list \<Rightarrow> raw_get_cluster_map_req option" where
  "DecodeGetClusterMapRequest body =
     (if length body = 24 then Some (dec_get_cluster_map_req body) else None)"

definition encode_shard :: "u32 \<times> shard_core \<Rightarrow> u8 list" where
  "encode_shard kc =
     (let core = snd kc; port = (if sk_raw_port core = 0 then sk_port core else sk_raw_port core)
      in enc_osd_shard_entry \<lparr> oq_shard_id = fst kc, oq_port = ucast port, oq_core_id = ucast (sk_coreid core) \<rparr>)"

definition osd_flags :: "osd_dynamic_info \<Rightarrow> u32" where
  "osd_flags info = (if od_isin info then 1 else 0) OR (if od_isup info then 2 else 0)"

definition encodeOSDEntry :: "osd_dynamic_info \<Rightarrow> u8 list" where
  "encodeOSDEntry info =
     (let shards = sort_key fst (od_sharded_ports info)
      in enc_osd_entry_hdr \<lparr> oh_osd_id = od_osdid info, oh_flags = osd_flags info,
           oh_address_len = of_nat (length (od_address info)), oh_shard_count = of_nat (length shards) \<rparr>
         @ str_bytes (od_address info) @ concat (map encode_shard shards))"

definition encode_pg :: "u32 \<Rightarrow> pg_info \<Rightarrow> u8 list" where
  "encode_pg poolID pg =
     enc_pg_entry_hdr \<lparr> pe_pool_id = poolID, pe_pg_id = pg_pgid pg, pe_version = pg_version pg,
       pe_state = pg_state pg, pe_primary_shard = pg_coreindex pg, pe_replica_count = of_nat (length (pg_osdid pg)) \<rparr>
     @ concat (map cpu_to_le32 (pg_osdid pg))"

definition encodePGEntries :: "get_pg_map_response \<Rightarrow> u8 list" where
  "encodePGEntries resp =
     concat (map (\<lambda>(poolID, pgs). concat (map (encode_pg poolID) (sort_key (\<lambda>pg. sint (pg_pgid pg)) pgs)))
       (sort_key (\<lambda>(poolID, pgs). sint poolID) (gp_pgs resp)))"

definition EncodeGetClusterMapResponse ::
    "u64 \<Rightarrow> u32 \<Rightarrow> u64 \<Rightarrow> u64 \<Rightarrow> osd_dynamic_info list \<Rightarrow> get_pg_map_response \<Rightarrow> raw_header \<times> u8 list" where
  "EncodeGetClusterMapResponse seq status osdMapEpoch pgMapEpoch osds resp =
     (response_header KFASTBLOCK_RAW_OP_GET_CLUSTER_MAP seq status,
      enc_cluster_map_rsp_hdr \<lparr> ch_osdmap_epoch = osdMapEpoch, ch_pgmap_epoch = pgMapEpoch,
        ch_osd_count = of_nat (length osds), ch_pg_count = of_nat (sum_list (map (length \<circ> snd) (gp_pgs resp))) \<rparr>
      @ concat (map encodeOSDEntry (sort_key (\<lambda>info. sint (od_osdid info)) osds)) @ encodePGEntries resp)"

section \<open>Handlers\<close>

definition handleGetImageInfo :: "monitor \<Rightarrow> raw_header \<Rightarrow> u8 list \<Rightarrow> u8 list" where
  "handleGetImageInfo mon hdr body =
     (case DecodeGetImageInfoRequest body of
        None \<Rightarrow> WriteErrorResponse hdr KFASTBLOCK_RAW_STATUS_INVALID_REQUEST
      | Some (reqEpoch, poolName, imageName) \<Rightarrow>
          (case ProcessGetImageMessage mon imageName poolName of
             None \<Rightarrow> (case EncodeGetImageInfoResponse (rh_seq hdr) KFASTBLOCK_RAW_STATUS_NOT_FOUND 0 0 4096 0 0 0 of
                        (h, b) \<Rightarrow> WriteMessage h b)
           | Some info \<Rightarrow>
               (case GetPoolIDByName mon (ic_poolname info) of
                  None \<Rightarrow> WriteErrorResponse hdr KFASTBLOCK_RAW_STATUS_INTERNAL_ERROR
                | Some poolID \<Rightarrow>
                    (let imageEpoch = GetImageEpoch info
                     in if reqEpoch \<noteq> 0 \<and> reqEpoch = imageEpoch
                        then WriteErrorResponse hdr KFASTBLOCK_RAW_STATUS_STALE_EPOCH
                        else (case EncodeGetImageInfoResponse (rh_seq hdr) KFASTBLOCK_RAW_STATUS_OK imageEpoch
                                     poolID 4096 (ucast (ic_objectsize info)) 0 (ic_imagesize info) of
                                (h, b) \<Rightarrow> WriteMessage h b)))))"

definition maxPGMapVersion :: "get_pg_map_response \<Rightarrow> u64" where
  "maxPGMapVersion resp = fold (\<lambda>(_, v) m. if sint m < sint v then v else m) (gp_versions resp) 0"

definition handleGetClusterMap :: "monitor \<Rightarrow> raw_header \<Rightarrow> u8 list \<Rightarrow> u8 list" where
  "handleGetClusterMap mon hdr body =
     (case DecodeGetClusterMapRequest body of
        None \<Rightarrow> WriteErrorResponse hdr KFASTBLOCK_RAW_STATUS_INVALID_REQUEST
      | Some req \<Rightarrow>
          if cq_pool_id req = 0 then WriteErrorResponse hdr KFASTBLOCK_RAW_STATUS_INVALID_REQUEST
          else (case GetPoolPGMapVersion mon (cq_pool_id req) of
                  None \<Rightarrow> WriteErrorResponse hdr KFASTBLOCK_RAW_STATUS_NOT_FOUND
                | Some pgv \<Rightarrow>
                    if cq_osdmap_epoch req = GetOSDMapVersion mon \<and> cq_pgmap_epoch req = pgv
                    then WriteErrorResponse hdr KFASTBLOCK_RAW_STATUS_STALE_EPOCH
                    else (case ProcessGetPgMapMessage mon [(cq_pool_id req, - 1)] of
                            None \<Rightarrow> WriteErrorResponse hdr KFASTBLOCK_RAW_STATUS_INTERNAL_ERROR
                          | Some pgResp \<Rightarrow>
                              (case ProcessGetOsdMapMessage mon (- 1) of
                                 (osds, osdMapVersion, rc) \<Rightarrow>
                                   (let status = (if rc \<noteq> osd_map_ok \<and> rc \<noteq> noOsdsExist
                                                  then KFASTBLOCK_RAW_STATUS_INTERNAL_ERROR
                                                  else KFASTBLOCK_RAW_STATUS_OK)
                                    in case EncodeGetClusterMapResponse (rh_seq hdr) status osdMapVersion
                                              (maxPGMapVersion pgResp) osds pgResp of
                                         (h, b) \<Rightarrow> WriteMessage h b)))))"

definition handleRequest :: "monitor \<Rightarrow> raw_header \<Rightarrow> u8 list \<Rightarrow> u8 list" where
  "handleRequest mon hdr body =
     (if rh_opcode hdr = KFASTBLOCK_RAW_OP_GET_IMAGE_INFO then handleGetImageInfo mon hdr body
      else if rh_opcode hdr = KFASTBLOCK_RAW_OP_GET_CLUSTER_MAP then handleGetClusterMap mon hdr body
      else WriteErrorResponse hdr KFASTBLOCK_RAW_STATUS_INVALID_REQUEST)"

text \<open>\<^verbatim>\<open>handleConnection\<close>: the bytes a connection answers to the bytes it received, up to the end of the stream
  or a truncated message.\<close>

function handleConnection :: "monitor \<Rightarrow> u8 list \<Rightarrow> u8 list" where
  "handleConnection mon inp =
     (if length inp < sizeof_header then []
      else (let hdr = dec_header (take sizeof_header inp); n = unat (rh_body_len hdr); rest = drop sizeof_header inp
            in if length rest < n then []
               else (let body = take n rest
                     in (if ValidateRequestHeader hdr then handleRequest mon hdr body
                         else WriteErrorResponse hdr KFASTBLOCK_RAW_STATUS_INVALID_REQUEST)
                        @ handleConnection mon (drop n rest))))"
  by pat_completeness auto
termination by (relation "measure (\<lambda>(mon, inp). length inp)") auto

declare handleConnection.simps [simp del]

end
