(* ===== verification/Mon_Client.thy ===== *)
theory Mon_Client
  imports KFB_Decode Mon_Raw
begin

text \<open>
  The client and the monitor together: the cluster map the monitor's tables hold is the one the client's
  decoder installs, however the stream is fragmented, and it meets the ordering the client's searches
  rely on.
\<close>

section \<open>Decoding what was encoded\<close>

lemma copy_from_body_append:
  "kfastblock_transport_copy_from_body (pre @ x @ post) (length (pre @ x @ post)) (length pre) (length x) =
     Inr (x, length pre + length x)"
  by (simp add: kfastblock_transport_copy_from_body_def kfastblock_transport_advance_offset_def)

definition shard_of :: "u32 \<times> shard_core \<Rightarrow> osd_shard" where
  "shard_of kc = \<lparr> os_shard_id = fst kc,
     os_port = ucast (if sk_raw_port (snd kc) = 0 then sk_port (snd kc) else sk_raw_port (snd kc)),
     os_core_id = ucast (sk_coreid (snd kc)) \<rparr>"

definition osd_of :: "osd_dynamic_info \<Rightarrow> osd_endpoint" where
  "osd_of info = \<lparr> oe_osd_id = od_osdid info, oe_flags = osd_flags info,
     oe_shard_count = of_nat (length (od_sharded_ports info)), oe_address = od_address info,
     oe_shards = map shard_of (sort_key fst (od_sharded_ports info)) \<rparr>"

definition route_of :: "u32 \<Rightarrow> pg_info \<Rightarrow> pg_route" where
  "route_of poolID pg = \<lparr> pr_pool_id = poolID, pr_pg_id = pg_pgid pg, pr_version = pg_version pg,
     pr_state = pg_state pg, pr_primary_shard = pg_coreindex pg,
     pr_replica_count = of_nat (length (pg_osdid pg)), pr_osd_ids = pg_osdid pg, pr_leader_valid = False,
     pr_leader = zero_leader \<rparr>"

lemma length_encode_shard [simp]: "length (encode_shard kc) = 8"
  by (simp add: encode_shard_def Let_def)

lemma decode_shards_encoded:
  "decode_shards (pre @ concat (map encode_shard xs) @ post)
     (length (pre @ concat (map encode_shard xs) @ post)) (length xs) (length pre) =
     Inr (map shard_of xs, length pre + 8 * length xs)"
proof (induction xs arbitrary: pre)
  case (Cons x xs)
  have c: "kfastblock_transport_copy_from_body (pre @ encode_shard x @ concat (map encode_shard xs) @ post)
      (length (pre @ encode_shard x @ concat (map encode_shard xs) @ post)) (length pre) 8 =
      Inr (encode_shard x, length pre + 8)"
    using copy_from_body_append [of pre "encode_shard x" "concat (map encode_shard xs) @ post"] by simp
  have d: "dec_osd_shard_entry (encode_shard x) = \<lparr> oq_shard_id = os_shard_id (shard_of x),
      oq_port = os_port (shard_of x), oq_core_id = os_core_id (shard_of x) \<rparr>"
    by (simp add: encode_shard_def shard_of_def Let_def)
  show ?case using Cons [of "pre @ encode_shard x"] c by (simp add: d Let_def)
qed simp

lemma c_string_str_bytes: "CHR 0x00 \<notin> set a \<Longrightarrow> c_string (str_bytes a) = a"
  by (auto simp: c_string_def takeWhile_eq_all_conv)

text \<open>What an OSD record must satisfy for its encoding to carry it.\<close>

definition osd_fits :: "osd_dynamic_info \<Rightarrow> bool" where
  "osd_fits info \<longleftrightarrow> length (od_address info) < 256 \<and> CHR 0x00 \<notin> set (od_address info) \<and>
     length (od_sharded_ports info) < 2 ^ 16"

lemma decode_osd_entry_encoded:
  assumes fits: "osd_fits info" and body: "body = pre @ encodeOSDEntry info @ post"
  shows "decode_osd_entry [] body (length body) (length pre) = Inr (osd_of info, length pre + length (encodeOSDEntry info), [])"
proof -
  define shards where "shards = sort_key fst (od_sharded_ports info)"
  define hdr where "hdr = \<lparr> oh_osd_id = od_osdid info, oh_flags = osd_flags info,
    oh_address_len = of_nat (length (od_address info)), oh_shard_count = of_nat (length shards) \<rparr>"
  define a where "a = str_bytes (od_address info)"
  have enc: "encodeOSDEntry info = enc_osd_entry_hdr hdr @ a @ concat (map encode_shard shards)"
    by (simp add: encodeOSDEntry_def hdr_def a_def shards_def Let_def)
  have b: "body = pre @ enc_osd_entry_hdr hdr @ a @ concat (map encode_shard shards) @ post"
    using body enc by simp
  have len: "length a < 256" "length shards < 2 ^ 16" "length shards = length (od_sharded_ports info)"
    using fits by (simp_all add: osd_fits_def a_def shards_def)
  have al: "unat (oh_address_len hdr) = length a"
    using len(1) by (simp add: hdr_def a_def unat_of_nat_small)
  have sc: "unat (oh_shard_count hdr) = length shards"
    using len(2) by (simp add: hdr_def unat_of_nat_small)
  have c: "kfastblock_transport_copy_from_body body (length body) (length pre) 12 =
      Inr (enc_osd_entry_hdr hdr, length pre + 12)"
    using copy_from_body_append [of pre "enc_osd_entry_hdr hdr" "a @ concat (map encode_shard shards) @ post"] b by simp
  have addr: "c_string (take (length a) (drop (length pre + 12) body)) = od_address info"
    using fits by (simp add: b a_def osd_fits_def c_string_str_bytes)
  have adv: "kfastblock_transport_advance_offset (length body) (length pre + 12) (length a) = Inr (length pre + 12 + length a)"
    by (simp add: kfastblock_transport_advance_offset_def b)
  have sh: "decode_shards body (length body) (length shards) (length pre + 12 + length a) =
      Inr (map shard_of shards, length pre + 12 + length a + 8 * length shards)"
    using decode_shards_encoded [of "pre @ enc_osd_entry_hdr hdr @ a" shards post] b by (simp add: add.assoc)
  have l8: "length (concat (map encode_shard shards)) = 8 * length shards"
    by (simp add: length_concat comp_def sum_list_triv)
  have osd: "osd_of info = \<lparr> oe_osd_id = oh_osd_id hdr, oe_flags = oh_flags hdr, oe_shard_count = oh_shard_count hdr,
      oe_address = od_address info, oe_shards = map shard_of shards \<rparr>"
    by (simp add: osd_of_def hdr_def shards_def)
  have zero: "oh_shard_count hdr = 0 \<longleftrightarrow> shards = []"
    using sc by (metis length_0_conv unat_eq_zero)
  show ?thesis
    using len(1) l8 sh
    by (cases "shards = []")
      (simp_all add: decode_osd_entry_def c al sc adv addr zero enc osd Let_def kalloc_def KFASTBLOCK_MAX_ADDR_LEN_def)
qed

lemma decode_osd_entries_encoded:
  assumes "\<forall>info \<in> set xs. osd_fits info" "body = pre @ concat (map encodeOSDEntry xs) @ post"
  shows "kfastblock_transport_decode_osd_entries body (length body) (length xs) [] (length pre) =
     Inr (map osd_of xs, length pre + length (concat (map encodeOSDEntry xs)), [])"
  using assms
proof (induction xs arbitrary: pre)
  case (Cons x xs)
  have "kfastblock_transport_decode_osd_entries body (length body) (length xs) [] (length (pre @ encodeOSDEntry x)) =
     Inr (map osd_of xs, length (pre @ encodeOSDEntry x) + length (concat (map encodeOSDEntry xs)), [])"
    using Cons(2,3) by (intro Cons(1)) simp_all
  moreover have "decode_osd_entry [] body (length body) (length pre) = Inr (osd_of x, length pre + length (encodeOSDEntry x), [])"
    using Cons(2,3) by (intro decode_osd_entry_encoded [where post = "concat (map encodeOSDEntry xs) @ post"]) simp_all
  ultimately show ?case by simp
qed simp

lemma decode_replicas_encoded:
  "decode_replicas (pre @ concat (map cpu_to_le32 ids) @ post)
     (length (pre @ concat (map cpu_to_le32 ids) @ post)) (length ids) (length pre) =
     Inr (ids, length pre + 4 * length ids)"
proof (induction ids arbitrary: pre)
  case (Cons x xs)
  have c: "kfastblock_transport_copy_from_body (pre @ cpu_to_le32 x @ concat (map cpu_to_le32 xs) @ post)
      (length (pre @ cpu_to_le32 x @ concat (map cpu_to_le32 xs) @ post)) (length pre) 4 =
      Inr (cpu_to_le32 x, length pre + 4)"
    using copy_from_body_append [of pre "cpu_to_le32 x" "concat (map cpu_to_le32 xs) @ post"] by simp
  show ?case using Cons [of "pre @ cpu_to_le32 x"] c by simp
qed simp

lemma decode_pg_entry_encoded:
  assumes fits: "length (pg_osdid pg) < 2 ^ 32" and body: "body = pre @ encode_pg poolID pg @ post"
  shows "decode_pg_entry [] body (length body) (length pre) =
    Inr (route_of poolID pg, length pre + length (encode_pg poolID pg), [])"
proof -
  define ids where "ids = pg_osdid pg"
  define hdr where "hdr = \<lparr> pe_pool_id = poolID, pe_pg_id = pg_pgid pg, pe_version = pg_version pg,
    pe_state = pg_state pg, pe_primary_shard = pg_coreindex pg, pe_replica_count = of_nat (length ids) \<rparr>"
  have enc: "encode_pg poolID pg = enc_pg_entry_hdr hdr @ concat (map cpu_to_le32 ids)"
    by (simp add: encode_pg_def hdr_def ids_def)
  have b: "body = pre @ enc_pg_entry_hdr hdr @ concat (map cpu_to_le32 ids) @ post" using body enc by simp
  have rc: "unat (pe_replica_count hdr) = length ids" using fits by (simp add: hdr_def ids_def unat_of_nat_small)
  have c: "kfastblock_transport_copy_from_body body (length body) (length pre) 28 =
      Inr (enc_pg_entry_hdr hdr, length pre + 28)"
    using copy_from_body_append [of pre "enc_pg_entry_hdr hdr" "concat (map cpu_to_le32 ids) @ post"] b by simp
  have r: "decode_replicas body (length body) (length ids) (length pre + 28) = Inr (ids, length pre + 28 + 4 * length ids)"
    using decode_replicas_encoded [of "pre @ enc_pg_entry_hdr hdr" ids post] b by (simp add: add.assoc)
  have l4: "length (concat (map cpu_to_le32 ids)) = 4 * length ids" by (simp add: length_concat comp_def sum_list_triv)
  have rt: "route_of poolID pg = \<lparr> pr_pool_id = pe_pool_id hdr, pr_pg_id = pe_pg_id hdr, pr_version = pe_version hdr,
      pr_state = pe_state hdr, pr_primary_shard = pe_primary_shard hdr, pr_replica_count = pe_replica_count hdr,
      pr_osd_ids = ids, pr_leader_valid = False, pr_leader = zero_leader \<rparr>"
    by (simp add: route_of_def hdr_def ids_def)
  have zero: "pe_replica_count hdr = 0 \<longleftrightarrow> ids = []" using rc by (metis length_0_conv unat_eq_zero)
  show ?thesis
    using r l4 by (cases "ids = []") (simp_all add: decode_pg_entry_def c rc zero enc rt Let_def kalloc_def)
qed

lemma decode_pg_entries_encoded:
  assumes "\<forall>pg \<in> set xs. length (pg_osdid pg) < 2 ^ 32" "body = pre @ concat (map (encode_pg poolID) xs) @ post"
  shows "kfastblock_transport_decode_pg_entries body (length body) poolID (length xs) [] k (length pre) =
     Inr (map (route_of poolID) xs, k + of_nat (length xs), length pre + length (concat (map (encode_pg poolID) xs)), [])"
  using assms
proof (induction xs arbitrary: pre k)
  case (Cons x xs)
  have "kfastblock_transport_decode_pg_entries body (length body) poolID (length xs) [] (k + 1) (length (pre @ encode_pg poolID x)) =
     Inr (map (route_of poolID) xs, k + 1 + of_nat (length xs),
          length (pre @ encode_pg poolID x) + length (concat (map (encode_pg poolID) xs)), [])"
    using Cons(2,3) by (intro Cons(1)) simp_all
  moreover have "decode_pg_entry [] body (length body) (length pre) =
      Inr (route_of poolID x, length pre + length (encode_pg poolID x), [])"
    using Cons(2,3) by (intro decode_pg_entry_encoded [where post = "concat (map (encode_pg poolID) xs) @ post"]) simp_all
  moreover have "pr_pool_id (route_of poolID x) = poolID" by (simp add: route_of_def)
  ultimately show ?case by simp
qed simp

section \<open>Signed sorting gives the client's order\<close>

lemma sort_key_strict:
  fixes key :: "'a \<Rightarrow> u32"
  assumes "distinct (map key xs)" "\<forall>x \<in> set xs. unat (key x) < 2 ^ 31"
  shows "sorted_wrt (<) (map key (sort_key (\<lambda>x. sint (key x)) xs))"
proof -
  let ?ys = "sort_key (\<lambda>x. sint (key x)) xs"
  have s: "sorted_wrt (\<lambda>x y. sint (key x) \<le> sint (key y)) ?ys"
    using sorted_sort_key [of "\<lambda>x. sint (key x)" xs] by (simp add: sorted_wrt_map)
  have "sorted (map key ?ys)"
    unfolding sorted_wrt_map
  proof (rule sorted_wrt_mono_rel [OF _ s])
    fix x y assume "x \<in> set ?ys" "y \<in> set ?ys" "sint (key x) \<le> sint (key y)"
    then show "key x \<le> key y" using assms(2) by (simp add: sint_u32_small word_le_def)
  qed
  moreover have "distinct (map key ?ys)"
    using assms(1) by (simp add: distinct_map inj_on_def)
  ultimately show ?thesis by (simp add: strict_sorted_iff)
qed

section \<open>One exchange\<close>

definition cluster_map_request :: "cluster_view \<Rightarrow> raw_get_cluster_map_req" where
  "cluster_map_request view = \<lparr> cq_osdmap_epoch = cv_osdmap_epoch view, cq_pool_id = ii_pool_id (cv_image view),
     cq_reserved = 0, cq_pgmap_epoch = cv_pgmap_epoch view \<rparr>"

definition cluster_map_request_bytes :: "cluster_view \<Rightarrow> u64 \<Rightarrow> u8 list" where
  "cluster_map_request_bytes view seq =
     enc_header (request_header KFASTBLOCK_RAW_SERVICE_MONITOR KFASTBLOCK_RAW_OP_GET_CLUSTER_MAP seq 24)
     @ enc_get_cluster_map_req (cluster_map_request view)"

lemma handleConnection_nil [simp]: "handleConnection mon [] = []"
  by (simp add: handleConnection.simps)

lemma handleConnection_one:
  assumes "length body < 2 ^ 32" "rh_body_len h = of_nat (length body)"
  shows "handleConnection mon (enc_header h @ body) =
    (if ValidateRequestHeader h then handleRequest mon h body
     else WriteErrorResponse h KFASTBLOCK_RAW_STATUS_INVALID_REQUEST)"
  using assms by (subst handleConnection.simps) (simp add: unat_of_nat_small)

lemma monitor_answers_map_request:
  "handleConnection mon (cluster_map_request_bytes view seq) =
     handleGetClusterMap mon (request_header 1 2 seq 24) (enc_get_cluster_map_req (cluster_map_request view))"
  unfolding cluster_map_request_bytes_def
  by (subst handleConnection_one) (simp_all add: request_header_def ValidateRequestHeader_def handleRequest_def)

lemma WriteMessage_frame: "WriteMessage h b = frame h b"
  by (simp add: WriteMessage_def frame_def)

text \<open>What the client makes of a response frame to its request.\<close>

lemma fetch_cluster_map_frame:
  assumes "moving s" "so_in s = frame h body @ rest" "length body < 2 ^ 32"
    "answers h KFASTBLOCK_RAW_SERVICE_MONITOR KFASTBLOCK_RAW_OP_GET_CLUSTER_MAP seq"
  obtains s' where "so_in s' = rest" "so_out s' = so_out s @ cluster_map_request_bytes view seq" "moving s'"
    "kfastblock_transport_fetch_cluster_map_from_monitor [] s view seq =
      (let ret = kfastblock_transport_status_to_errno (rh_status h)
       in if ret = - ESTALE then (0, view, s')
          else if ret \<noteq> 0 then (ret, view, s')
          else (case kfastblock_transport_response_decode_cluster_map [] (response_of h body) view of
                  (ret, view') \<Rightarrow> (ret, view', s')))"
proof -
  let ?req = "enc_get_cluster_map_req (cluster_map_request view)"
  have ne: "?req \<noteq> []" using dec_enc_get_cluster_map_req(1) [of "cluster_map_request view"]
    by (auto simp del: dec_enc_get_cluster_map_req)
  obtain s' where s': "so_in s' = rest" "moving s'"
    "so_out s' = so_out s @ enc_header (request_header 1 2 seq (of_nat (length (concat [?req])))) @ concat [?req]"
    "kfastblock_transport_exec_request_parts True s 1 2 seq [?req] =
      (kfastblock_transport_status_to_errno (rh_status h), response_of h body, s')"
    by (rule exec_request_parts_frame [OF assms])
  show ?thesis
    using s' ne
    by (intro that [of s'])
      (simp_all add: kfastblock_transport_fetch_cluster_map_from_monitor_def kalloc_def Let_def
        kfastblock_transport_exec_request_def cluster_map_request_bytes_def cluster_map_request_def [symmetric])
qed

lemma concat_map_lengths:
  assumes "\<And>x. 1 \<le> length (f x)"
  shows "length xs \<le> length (concat (map f xs))" "x \<in> set xs \<Longrightarrow> length (f x) \<le> length (concat (map f xs))"
proof -
  show "length xs \<le> length (concat (map f xs))"
  proof (induction xs)
    case (Cons a xs)
    then show ?case using assms [of a] by simp
  qed simp
  show "x \<in> set xs \<Longrightarrow> length (f x) \<le> length (concat (map f xs))"
    by (induction xs) auto
qed

lemma encodings_nonempty: "1 \<le> length (encodeOSDEntry info)" "1 \<le> length (encode_pg poolID pg)"
    "length (pg_osdid pg) \<le> length (encode_pg poolID pg)"
  by (simp_all add: encodeOSDEntry_def encode_pg_def Let_def length_concat comp_def sum_list_triv)

lemma decode_cluster_map_encoded:
  assumes enc: "EncodeGetClusterMapResponse seq 0 e1 e2 osds resp = (h, body)"
    and pgs: "gp_pgs resp = [(pid, pgs)]" "pgs \<noteq> []" and pool: "ii_pool_id (cv_image view) = pid"
    and fits: "\<forall>info \<in> set osds. osd_fits info" and len: "length body < 2 ^ 32"
  shows "kfastblock_transport_response_decode_cluster_map [] (response_of h body) view =
    (0, kfastblock_meta_replace_cluster_map view e1 e2 (of_nat (length pgs))
          (of_nat (length osds)) (map osd_of (sort_key (\<lambda>info. sint (od_osdid info)) osds))
          (of_nat (length pgs)) (map (route_of pid) (sort_key (\<lambda>pg. sint (pg_pgid pg)) pgs)))"
proof -
  define so where "so = sort_key (\<lambda>info. sint (od_osdid info)) osds"
  define sp where "sp = sort_key (\<lambda>pg. sint (pg_pgid pg)) pgs"
  define hdr where "hdr = \<lparr> ch_osdmap_epoch = e1, ch_pgmap_epoch = e2, ch_osd_count = of_nat (length osds), ch_pg_count = of_nat (length pgs) \<rparr>"
  define ob where "ob = concat (map encodeOSDEntry so)"
  define pb where "pb = concat (map (encode_pg pid) sp)"
  have b: "body = enc_cluster_map_rsp_hdr hdr @ ob @ pb" and st: "rh_status h = 0"
    using enc pgs(1)
    by (auto simp: EncodeGetClusterMapResponse_def encodePGEntries_def response_header_def hdr_def ob_def pb_def so_def sp_def)
  have "length so \<le> length ob" "length sp \<le> length pb"
    unfolding ob_def pb_def by (rule concat_map_lengths(1), rule encodings_nonempty)+
  then have n: "unat (of_nat (length osds) :: u32) = length so" "unat (of_nat (length pgs) :: u32) = length sp"
    using len b by (simp_all add: so_def sp_def unat_of_nat_small)
  then have sp0: "(of_nat (length pgs) :: u32) \<noteq> 0" using pgs(2) by (auto simp: sp_def)
  have "length (pg_osdid pg) < 2 ^ 32" if "pg \<in> set sp" for pg
    using concat_map_lengths(2) [where f = "encode_pg pid" and xs = sp, OF encodings_nonempty(2) that]
      encodings_nonempty(3) [where poolID = pid and pg = pg] len b by (simp add: pb_def)
  then have reps: "\<forall>pg \<in> set sp. length (pg_osdid pg) < 2 ^ 32" by blast
  have bl: "unat (of_nat (length body) :: u32) = length body" using len by (simp add: unat_of_nat_small)
  have le: "24 \<le> length body" using b by simp
  then have "body \<noteq> []" by auto
  then have rsp: "rs_body (response_of h body) = Some body" "rs_body_len (response_of h body) = of_nat (length body)"
    using st by (simp_all add: response_of_def kfastblock_transport_status_to_errno_def Let_def)
  have cp: "kfastblock_transport_copy_from_body body (length body) 0 24 = Inr (enc_cluster_map_rsp_hdr hdr, 24)"
    using copy_from_body_append [of "[]" "enc_cluster_map_rsp_hdr hdr" "ob @ pb"] b by simp
  have hd: "kfastblock_transport_response_decode_cluster_map_header (response_of h body) = Inr (hdr, 24)"
    using cp le by (simp add: kfastblock_transport_response_decode_cluster_map_header_def
        kfastblock_transport_response_expect_min_body_def rsp bl)
  have o: "kfastblock_transport_decode_osd_entries body (length body) (length so) [] 24 = Inr (map osd_of so, 24 + length ob, [])"
    using decode_osd_entries_encoded [of so body "enc_cluster_map_rsp_hdr hdr" pb] fits b by (simp add: so_def ob_def)
  have p: "kfastblock_transport_decode_pg_entries body (length body) pid (length sp) [] 0 (24 + length ob) =
      Inr (map (route_of pid) sp, of_nat (length sp), 24 + length ob + length pb, [])"
    using decode_pg_entries_encoded [of sp body "enc_cluster_map_rsp_hdr hdr @ ob" pid "[]" 0] reps b by (simp add: pb_def)
  have c: "ch_osd_count hdr = of_nat (length osds)" "ch_pg_count hdr = of_nat (length pgs)"
    "ch_osdmap_epoch hdr = e1" "ch_pgmap_epoch hdr = e2" by (simp_all add: hdr_def)
  have ls: "length sp = length pgs" by (simp add: sp_def)
  have kv: "kvcalloc_nonempty [] k = (True, [])" for k by (simp add: kvcalloc_nonempty_def kalloc_def)
  have tot: "24 + length ob + length pb = length body" using b by simp
  show ?thesis
    unfolding kfastblock_transport_response_decode_cluster_map_def
    using o p sp0 tot
    by (simp add: hd rsp bl n c ls kv pool Let_def so_def [symmetric] sp_def [symmetric])
qed

lemma map_lengths:
  assumes enc: "EncodeGetClusterMapResponse seq st e1 e2 osds \<lparr> gp_versions = vs, gp_pgs = [(pid, map f cs)] \<rparr> = (h, body)"
  shows "length osds \<le> length body" "length cs \<le> length body"
proof -
  have b: "body = enc_cluster_map_rsp_hdr \<lparr> ch_osdmap_epoch = e1, ch_pgmap_epoch = e2, ch_osd_count = of_nat (length osds),
      ch_pg_count = of_nat (length cs) \<rparr>
    @ concat (map encodeOSDEntry (sort_key (\<lambda>info. sint (od_osdid info)) osds))
    @ concat (map (encode_pg pid) (sort_key (\<lambda>pg. sint (pg_pgid pg)) (map f cs)))"
    using enc by (auto simp: EncodeGetClusterMapResponse_def encodePGEntries_def)
  show "length osds \<le> length body"
    using concat_map_lengths(1) [of encodeOSDEntry "sort_key (\<lambda>info. sint (od_osdid info)) osds"] encodings_nonempty(1) b
    by simp
  show "length cs \<le> length body"
    using concat_map_lengths(1) [of "encode_pg pid" "sort_key (\<lambda>pg. sint (pg_pgid pg)) (map f cs)"] encodings_nonempty(2) b
    by simp
qed

section \<open>The exchange with the monitor\<close>

lemma pg_map_pools_one:
  assumes "distinct (map fst ps)"
  shows "pg_map_pools [(pid, - 1)] ps r =
    (case map_of ps pid of
       None \<Rightarrow> r
     | Some pool \<Rightarrow>
         if sint (pl_version pool) < 0 then r \<lparr> gp_versions := (pid, pl_version pool) # gp_versions r \<rparr>
         else r \<lparr> gp_versions := (pid, pl_version pool) # gp_versions r,
                  gp_pgs := (pid, map pg_info_of (pl_pg_map pool)) # gp_pgs r \<rparr>)"
  using assms
proof (induction ps arbitrary: r)
  case (Cons kp ps)
  obtain k p where kp: "kp = (k, p)" by (cases kp)
  have out: "map_of ps k = None" using Cons(2) kp by (simp add: map_of_eq_None_iff)
  have neg: "sint (pl_version p) \<le> - 1 \<longleftrightarrow> sint (pl_version p) < 0" by arith
  show ?case
  proof (cases "k = pid")
    case True
    then show ?thesis using Cons out kp by (simp add: neg Let_def)
  next
    case False
    then show ?thesis using Cons kp by simp
  qed
qed simp

text \<open>What the monitor's tables must satisfy: distinct keys, identifiers that are small non-negative
  numbers, addresses that fit the client's buffers.\<close>

definition monitor_ok :: "monitor \<Rightarrow> bool" where
  "monitor_ok mon \<longleftrightarrow>
     mo_osds mon \<noteq> [] \<and> distinct (map od_osdid (mo_osds mon)) \<and> distinct (map fst (mo_pools mon)) \<and>
     (\<forall>info \<in> set (mo_osds mon). unat (od_osdid info) < 2 ^ 31 \<and> osd_fits info) \<and> 0 \<le> sint (mo_osd_version mon) \<and>
     (\<forall>(pid, pool) \<in> set (mo_pools mon). 0 \<le> sint (pl_version pool) \<and> pl_pg_map pool \<noteq> [] \<and>
        distinct (map (pg_pgid \<circ> pg_info_of) (pl_pg_map pool)) \<and>
        (\<forall>kc \<in> set (pl_pg_map pool). unat (pg_pgid (pg_info_of kc)) < 2 ^ 31))"

definition pool_routes :: "u32 \<Rightarrow> pool_config \<Rightarrow> pg_route list" where
  "pool_routes pid pool = map (route_of pid) (sort_key (\<lambda>pg. sint (pg_pgid pg)) (map pg_info_of (pl_pg_map pool)))"

definition monitor_osds :: "monitor \<Rightarrow> osd_endpoint list" where
  "monitor_osds mon = map osd_of (sort_key (\<lambda>info. sint (od_osdid info)) (mo_osds mon))"

lemma monitor_map_fresh:
  assumes ok: "monitor_ok mon" and pool: "map_of (mo_pools mon) pid = Some pool"
    and len: "length (mo_osds mon) < 2 ^ 32" "length (pl_pg_map pool) < 2 ^ 32"
  shows "fresh_map (of_nat (length (mo_osds mon))) (monitor_osds mon)
    (of_nat (length (pl_pg_map pool))) (pool_routes pid pool)"
proof -
  have pm: "(pid, pool) \<in> set (mo_pools mon)" using pool by (rule map_of_SomeD)
  have o: "map oe_osd_id (map osd_of xs) = map od_osdid xs" for xs by (simp add: osd_of_def)
  have "sorted_wrt (<) (map oe_osd_id (monitor_osds mon))"
    unfolding monitor_osds_def o using ok by (intro sort_key_strict) (auto simp: monitor_ok_def)
  moreover have "sorted_wrt (<) (map pg_pgid (sort_key (\<lambda>pg. sint (pg_pgid pg)) (map pg_info_of (pl_pg_map pool))))"
    using ok pm by (intro sort_key_strict) (auto simp: monitor_ok_def)
  then have "sorted_wrt (<) (map route_key (pool_routes pid pool))"
    by (simp add: pool_routes_def sorted_wrt_map route_key_def route_of_def)
  moreover have "\<not> pr_leader_valid r" if "r \<in> set (pool_routes pid pool)" for r
    using that by (auto simp: pool_routes_def route_of_def)
  ultimately show ?thesis
    using len by (simp add: fresh_map_def unat_of_nat_small pool_routes_def monitor_osds_def)
qed

lemma status_codes [simp]:
  "kfastblock_transport_status_to_errno 0 = 0" "kfastblock_transport_status_to_errno 3 = - ESTALE"
  by (simp_all add: kfastblock_transport_status_to_errno_def)

text \<open>The monitor's answer is a frame the client accepts, and what it says.\<close>

lemma monitor_map_answer:
  assumes ok: "monitor_ok mon" and pool: "map_of (mo_pools mon) pid = Some pool" "pid \<noteq> 0"
    and pid: "ii_pool_id (cv_image view) = pid"
  obtains h body where "handleConnection mon (cluster_map_request_bytes view seq) = frame h body"
    "answers h KFASTBLOCK_RAW_SERVICE_MONITOR KFASTBLOCK_RAW_OP_GET_CLUSTER_MAP seq"
    "if cv_osdmap_epoch view = mo_osd_version mon \<and> cv_pgmap_epoch view = pl_version pool
     then rh_status h = KFASTBLOCK_RAW_STATUS_STALE_EPOCH \<and> body = []
     else EncodeGetClusterMapResponse seq 0 (mo_osd_version mon) (pl_version pool) (mo_osds mon)
            \<lparr> gp_versions = [(pid, pl_version pool)], gp_pgs = [(pid, map pg_info_of (pl_pg_map pool))] \<rparr> = (h, body)"
proof -
  have pm: "(pid, pool) \<in> set (mo_pools mon)" using pool(1) by (rule map_of_SomeD)
  have pv: "0 \<le> sint (pl_version pool)" "0 \<le> sint (mo_osd_version mon)" "mo_osds mon \<noteq> []"
    using ok pm by (auto simp: monitor_ok_def)
  let ?resp = "\<lparr> gp_versions = [(pid, pl_version pool)], gp_pgs = [(pid, map pg_info_of (pl_pg_map pool))] \<rparr>"
  have mx: "maxPGMapVersion ?resp = pl_version pool"
  proof (cases "pl_version pool = 0")
    case False
    then have "sint (pl_version pool) \<noteq> 0" by (metis signed_0 signed_word_eqI)
    then show ?thesis using pv(1) by (simp add: maxPGMapVersion_def)
  qed (simp add: maxPGMapVersion_def)
  have pgm: "ProcessGetPgMapMessage mon [(pid, - 1)] = Some ?resp"
    using ok pm pv(1) pool(1)
    by (auto simp: ProcessGetPgMapMessage_def monitor_ok_def pg_map_pools_one)
  have m1: "mo_osd_version mon \<noteq> - 1"
  proof
    assume "mo_osd_version mon = - 1"
    then have "sint (mo_osd_version mon) = - 1" by simp
    then show False using pv(2) by simp
  qed
  have om: "ProcessGetOsdMapMessage mon (- 1) = (mo_osds mon, mo_osd_version mon, osd_map_ok)"
    using pv(2,3) m1 by (auto simp: ProcessGetOsdMapMessage_def)
  have dec: "DecodeGetClusterMapRequest (enc_get_cluster_map_req (cluster_map_request view)) = Some (cluster_map_request view)"
    by (simp add: DecodeGetClusterMapRequest_def)
  have cr: "cq_osdmap_epoch (cluster_map_request view) = cv_osdmap_epoch view" "cq_pool_id (cluster_map_request view) = pid"
    "cq_pgmap_epoch (cluster_map_request view) = cv_pgmap_epoch view"
    using pid by (simp_all add: cluster_map_request_def)
  have werr: "WriteErrorResponse (request_header 1 2 seq 24) st = frame (response_header 2 seq st) []"
    "rh_status (response_header 2 seq st) = st" for st
    by (simp_all add: WriteErrorResponse_def MakeResponseHeader_def WriteMessage_frame request_header_def response_header_def)
  have ans: "answers (response_header 2 seq st) 1 2 seq" for st
    by (simp add: answers_def response_header_def is_response_def)
  show ?thesis
  proof (cases "cv_osdmap_epoch view = mo_osd_version mon \<and> cv_pgmap_epoch view = pl_version pool")
    case True
    show ?thesis
      using True pool pid
      by (intro that [of "response_header 2 seq 3" "[]"])
        (simp_all add: monitor_answers_map_request handleGetClusterMap_def dec ans werr
          cr GetPoolPGMapVersion_def GetOSDMapVersion_def)
  next
    case False
    obtain h body where e: "EncodeGetClusterMapResponse seq 0 (mo_osd_version mon) (pl_version pool) (mo_osds mon) ?resp = (h, body)"
      by (cases "EncodeGetClusterMapResponse seq 0 (mo_osd_version mon) (pl_version pool) (mo_osds mon) ?resp")
    have "answers h 1 2 seq" using e ans by (auto simp: EncodeGetClusterMapResponse_def)
    then show ?thesis
      using False pool pid e
      by (intro that [of h body])
        (auto simp: monitor_answers_map_request handleGetClusterMap_def dec WriteMessage_frame request_header_def
          GetPoolPGMapVersion_def GetOSDMapVersion_def cr pgm om mx Let_def)
  qed
qed

text \<open>
  C7. The cluster map travels intact from the monitor's tables to the client's view. Whatever the
  fragmentation of the stream, fetching the map from a monitor whose tables are well formed succeeds, leaves
  the view alone when the monitor's versions are the ones the client has, and otherwise installs exactly the
  monitor's OSDs and the pool's placement groups, in an order on which the client's binary searches find
  every placement group and every OSD.
\<close>

theorem cluster_map_fetch_exact:
  assumes ok: "monitor_ok mon" and pool: "map_of (mo_pools mon) (ii_pool_id (cv_image view)) = Some pool"
    and pid: "ii_pool_id (cv_image view) \<noteq> 0" and view: "view_ok view"
    and answer: "so_in s = handleConnection mon (cluster_map_request_bytes view seq) @ rest"
    and sz: "length (handleConnection mon (cluster_map_request_bytes view seq)) < 2 ^ 32" and mv: "moving s"
    and fetch: "kfastblock_transport_fetch_cluster_map_from_monitor [] s view seq = (ret, view', s')"
  shows "ret = 0 \<and> so_in s' = rest \<and> so_out s' = so_out s @ cluster_map_request_bytes view seq \<and> view_ok view' \<and>
    (if cv_osdmap_epoch view = mo_osd_version mon \<and> cv_pgmap_epoch view = pl_version pool then view' = view
     else cv_osdmap_epoch view' = mo_osd_version mon \<and> cv_pgmap_epoch view' = pl_version pool \<and>
       cv_osds view' = monitor_osds mon \<and> cv_routes view' = pool_routes (ii_pool_id (cv_image view)) pool \<and>
       ii_pg_count (cv_image view') = of_nat (length (pl_pg_map pool)))"
proof -
  let ?pid = "ii_pool_id (cv_image view)"
  let ?same = "cv_osdmap_epoch view = mo_osd_version mon \<and> cv_pgmap_epoch view = pl_version pool"
  obtain h body where a: "handleConnection mon (cluster_map_request_bytes view seq) = frame h body" "answers h 1 2 seq"
    "if ?same then rh_status h = 3 \<and> body = []
     else EncodeGetClusterMapResponse seq 0 (mo_osd_version mon) (pl_version pool) (mo_osds mon)
            \<lparr> gp_versions = [(?pid, pl_version pool)], gp_pgs = [(?pid, map pg_info_of (pl_pg_map pool))] \<rparr> = (h, body)"
    by (rule monitor_map_answer [OF ok pool pid refl])
  have len: "length body < 2 ^ 32" using sz a(1) by (simp add: frame_def)
  obtain s1 where s1: "so_in s1 = rest" "so_out s1 = so_out s @ cluster_map_request_bytes view seq" "moving s1"
    "kfastblock_transport_fetch_cluster_map_from_monitor [] s view seq =
      (let ret = kfastblock_transport_status_to_errno (rh_status h)
       in if ret = - ESTALE then (0, view, s1)
          else if ret \<noteq> 0 then (ret, view, s1)
          else (case kfastblock_transport_response_decode_cluster_map [] (response_of h body) view of
                  (ret, view') \<Rightarrow> (ret, view', s1)))"
    by (rule fetch_cluster_map_frame [OF mv _ len a(2)]) (use answer a(1) in simp)
  show ?thesis
  proof (cases ?same)
    case True
    then show ?thesis using a(3) s1 fetch view by simp
  next
    case False
    then have e: "EncodeGetClusterMapResponse seq 0 (mo_osd_version mon) (pl_version pool) (mo_osds mon)
        \<lparr> gp_versions = [(?pid, pl_version pool)], gp_pgs = [(?pid, map pg_info_of (pl_pg_map pool))] \<rparr> = (h, body)"
      using a(3) by simp
    have pm: "(?pid, pool) \<in> set (mo_pools mon)" using pool by (rule map_of_SomeD)
    have ne: "map pg_info_of (pl_pg_map pool) \<noteq> []" and fits: "\<forall>info \<in> set (mo_osds mon). osd_fits info"
      using ok pm by (auto simp: monitor_ok_def)
    define fresh where "fresh = kfastblock_meta_replace_cluster_map view (mo_osd_version mon) (pl_version pool)
       (of_nat (length (pl_pg_map pool))) (of_nat (length (mo_osds mon))) (monitor_osds mon)
       (of_nat (length (pl_pg_map pool))) (pool_routes ?pid pool)"
    have d: "kfastblock_transport_response_decode_cluster_map [] (response_of h body) view = (0, fresh)"
      using decode_cluster_map_encoded [OF e _ ne refl fits len] by (simp add: fresh_def monitor_osds_def pool_routes_def)
    have "rh_status h = 0" using e by (auto simp: EncodeGetClusterMapResponse_def response_header_def)
    then have r: "ret = 0" "view' = fresh" "s' = s1" using s1(4) d fetch by simp_all
    have lens: "length (mo_osds mon) < 2 ^ 32" "length (pl_pg_map pool) < 2 ^ 32"
      using map_lengths [OF e] len by simp_all
    have "view_ok fresh"
      unfolding fresh_def by (rule replace_cluster_map_leaders(1) [OF view monitor_map_fresh [OF ok pool lens] refl])
    then show ?thesis
      using False r s1(1,2) by (auto simp: fresh_def kfastblock_meta_replace_cluster_map_def Let_def)
  qed
qed

definition sample_pool :: pool_config where
  "sample_pool = \<lparr> pl_name = ''p'', pl_version = 4,
     pl_pg_map = [(''1'', \<lparr> pc_version = 1, pc_state = 0, pc_core_index = 0, pc_osd_list = [2] \<rparr>)] \<rparr>"

definition sample_monitor :: monitor where
  "sample_monitor = \<lparr> mo_osd_version = 3,
     mo_osds = [\<lparr> od_osdid = 2, od_address = ''10.0.0.2'', od_sharded_ports = [(0, \<lparr> sk_coreid = 1, sk_port = 9000, sk_raw_port = 9001 \<rparr>)],
                 od_isin = True, od_isup = True \<rparr>],
     mo_pools = [(5, sample_pool)], mo_images = [] \<rparr>"

definition sample_client_view :: cluster_view where
  "sample_client_view = kfastblock_meta_cleanup_view
     \<lparr> cv_image := (cv_image kfastblock_meta_cleanup_view) \<lparr> ii_pool_id := 5 \<rparr> \<rparr>"

definition sample_stream :: sock where
  "sample_stream = \<lparr> so_in = handleConnection sample_monitor (cluster_map_request_bytes sample_client_view 7), so_out = [],
     so_script = [Moved 3, Moved 1000, Moved 1] \<rparr>"

lemma sample_atoi: "strconv_Atoi ''1'' = 1"
  by (simp add: strconv_Atoi_def digit_val_def)

lemma sample_monitor_ok: "monitor_ok sample_monitor"
  by (simp add: monitor_ok_def sample_monitor_def sample_pool_def osd_fits_def pg_info_of_def sample_atoi)

lemma sample_client: "ii_pool_id (cv_image sample_client_view) = 5" "cv_osdmap_epoch sample_client_view = 0"
    "cv_pgmap_epoch sample_client_view = 0" "view_ok sample_client_view"
  by (simp_all add: sample_client_view_def kfastblock_meta_cleanup_view_def view_ok_def)

lemma sample_answer_size: "length (handleConnection sample_monitor (cluster_map_request_bytes sample_client_view 7)) = 112"
proof -
  have p: "map_of (mo_pools sample_monitor) 5 = Some sample_pool" by (simp add: sample_monitor_def)
  obtain h body where a: "handleConnection sample_monitor (cluster_map_request_bytes sample_client_view 7) = frame h body"
    "answers h 1 2 7"
    "if cv_osdmap_epoch sample_client_view = mo_osd_version sample_monitor \<and> cv_pgmap_epoch sample_client_view = pl_version sample_pool
     then rh_status h = 3 \<and> body = []
     else EncodeGetClusterMapResponse 7 0 (mo_osd_version sample_monitor) (pl_version sample_pool) (mo_osds sample_monitor)
            \<lparr> gp_versions = [(5, pl_version sample_pool)], gp_pgs = [(5, map pg_info_of (pl_pg_map sample_pool))] \<rparr> = (h, body)"
    by (rule monitor_map_answer [OF sample_monitor_ok p _ sample_client(1)]) simp
  then have "length body = 84"
    by (auto simp: sample_client EncodeGetClusterMapResponse_def encodePGEntries_def encodeOSDEntry_def encode_pg_def
        sample_monitor_def sample_pool_def pg_info_of_def)
  then show ?thesis using a(1) by (simp add: frame_def)
qed

theorem cluster_map_fetch_exact_witness:
  "case kfastblock_transport_fetch_cluster_map_from_monitor [] sample_stream sample_client_view 7 of (ret, view', s') \<Rightarrow>
     ret = 0 \<and> view_ok view' \<and> cv_osds view' = monitor_osds sample_monitor \<and> cv_routes view' = pool_routes 5 sample_pool \<and>
     map pr_osd_ids (cv_routes view') = [[2]]"
proof -
  obtain ret view' s' where f:
    "kfastblock_transport_fetch_cluster_map_from_monitor [] sample_stream sample_client_view 7 = (ret, view', s')"
    by (cases "kfastblock_transport_fetch_cluster_map_from_monitor [] sample_stream sample_client_view 7")
  have p: "map_of (mo_pools sample_monitor) (ii_pool_id (cv_image sample_client_view)) = Some sample_pool"
    by (simp add: sample_client) (simp add: sample_monitor_def)
  have i: "so_in sample_stream = handleConnection sample_monitor (cluster_map_request_bytes sample_client_view 7) @ []"
    "moving sample_stream" "ii_pool_id (cv_image sample_client_view) \<noteq> 0"
    by (simp_all add: sample_stream_def moving_def sample_client)
  have sz: "length (handleConnection sample_monitor (cluster_map_request_bytes sample_client_view 7)) < 2 ^ 32"
    by (simp add: sample_answer_size)
  have v: "mo_osd_version sample_monitor = 3" "pl_version sample_pool = 4"
    by (simp_all add: sample_monitor_def sample_pool_def)
  have r: "map pr_osd_ids (pool_routes 5 sample_pool) = [[2]]"
    by (simp add: pool_routes_def sample_pool_def route_of_def pg_info_of_def)
  show ?thesis
    using cluster_map_fetch_exact [OF sample_monitor_ok p i(3) sample_client(4) i(1) sz i(2) f] f r
    by (simp add: sample_client v)
qed

end
