(* ===== verification/Osd_Raw.thy ===== *)
theory Osd_Raw
  imports KFB_Wire
begin

text \<open>
  The OSD's side of the raw protocol, \<^verbatim>\<open>src/osd/raw_tcp_server.cc\<close>: receiving requests from a non-blocking
  connection, the table of requests in flight, dispatch to the OSD service, completion by the service's
  callbacks, and the writing of responses. The service (\<^verbatim>\<open>osd_service\<close>: leader lookup and the asynchronous
  object operations) is a parameter: a dispatched operation is a value, and its callback a later event.
  What a non-blocking \<^verbatim>\<open>recv\<close> or \<^verbatim>\<open>send\<close> does is read from a script.
\<close>

section \<open>State\<close>

record inflight_response =
  if_request_header :: raw_header
  if_response_body :: "u8 list"
  if_detached :: bool
  if_completed :: bool
  if_status :: u32

text \<open>\<^verbatim>\<open>shared_ptr\<close>s to responses in flight are numbers; \<open>rc_objects\<close> is what they point to, and every number
  below \<open>rc_next\<close> has been allocated.\<close>

record connection_state =
  rc_stopping :: bool
  rc_requests_received :: nat
  rc_responses_ready :: nat
  rc_responses_sent :: nat
  rc_responses_reordered :: nat
  rc_callbacks_dropped :: nat
  rc_protocol_errors :: nat
  rc_peak_pending :: nat
  rc_pending :: "nat list"
  rc_ready :: "nat list"
  rc_inflight_by_seq :: "(u64 \<times> nat) list"
  rc_objects :: "nat \<Rightarrow> inflight_response"
  rc_next :: nat

datatype recv_outcome = Got nat | Recv_intr | Recv_again | Recv_closed | Recv_error nat

datatype send_outcome = Sent nat | Send_intr | Send_again | Send_zero | Send_error nat

record connection_context =
  cx_done :: bool
  cx_input :: "u8 list"
  cx_header :: "u8 list"
  cx_body :: "u8 list"
  cx_target :: nat
  cx_sending :: "nat option"
  cx_send_reordered :: bool
  cx_send_frame :: "u8 list"
  cx_send_bytes :: nat
  cx_output :: "u8 list"
  cx_waiting :: "(raw_header \<times> u8 list) option"
  cx_state :: connection_state

abbreviation (input) raw_max_inflight_requests :: nat where "raw_max_inflight_requests \<equiv> 128"
abbreviation (input) max_raw_body_len :: nat where "max_raw_body_len \<equiv> 4195328"

definition dangling :: inflight_response where
  "dangling = \<lparr> if_request_header = zero_header, if_response_body = [], if_detached = False,
     if_completed = False, if_status = 0 \<rparr>"

definition new_connection_state :: connection_state where
  "new_connection_state = \<lparr> rc_stopping = False, rc_requests_received = 0, rc_responses_ready = 0,
     rc_responses_sent = 0, rc_responses_reordered = 0, rc_callbacks_dropped = 0, rc_protocol_errors = 0,
     rc_peak_pending = 0, rc_pending = [], rc_ready = [], rc_inflight_by_seq = [],
     rc_objects = (\<lambda>_. dangling), rc_next = 0 \<rparr>"

definition start_connection :: connection_context where
  "start_connection = \<lparr> cx_done = False, cx_input = [], cx_header = [], cx_body = [], cx_target = 0,
     cx_sending = None, cx_send_reordered = False, cx_send_frame = [], cx_send_bytes = 0, cx_output = [],
     cx_waiting = None, cx_state = new_connection_state \<rparr>"

section \<open>Errors and headers\<close>

definition raw_status_from_errno :: "int \<Rightarrow> u32" where
  "raw_status_from_errno state =
     (if state = 0 then KFASTBLOCK_RAW_STATUS_OK
      else if state = - EINVAL then KFASTBLOCK_RAW_STATUS_INVALID_REQUEST
      else if state = - 144 \<or> state = - 162 then KFASTBLOCK_RAW_STATUS_NOT_FOUND
      else if state = - 143 \<or> state = - 147 \<or> state = - 153 \<or> state = - 154 then KFASTBLOCK_RAW_STATUS_RETRY_LATER
      else if state = - 135 then KFASTBLOCK_RAW_STATUS_NOT_LEADER
      else if state = - 152 \<or> state = - 150 then KFASTBLOCK_RAW_STATUS_PG_INITIALIZING
      else if state = - 149 then KFASTBLOCK_RAW_STATUS_OSD_DOWN
      else KFASTBLOCK_RAW_STATUS_INTERNAL_ERROR)"

definition validate_request_header :: "raw_header \<Rightarrow> bool" where
  "validate_request_header hdr \<longleftrightarrow>
     rh_magic hdr = KFASTBLOCK_RAW_MAGIC \<and> rh_version_major hdr = KFASTBLOCK_RAW_VERSION_MAJOR \<and>
     rh_version_minor hdr = KFASTBLOCK_RAW_VERSION_MINOR \<and> rh_service hdr = KFASTBLOCK_RAW_SERVICE_OSD \<and>
     rh_flags hdr AND KFASTBLOCK_RAW_FLAG_RESPONSE = 0 \<and> rh_status hdr = 0 \<and>
     unat (rh_body_len hdr) \<le> max_raw_body_len"

section \<open>The table of requests in flight\<close>

definition stop_connection :: "connection_state \<Rightarrow> connection_state" where
  "stop_connection st =
     st \<lparr> rc_stopping := True,
          rc_objects := (\<lambda>i. if i \<in> snd ` set (rc_inflight_by_seq st)
                             then (rc_objects st i) \<lparr> if_detached := True \<rparr> else rc_objects st i),
          rc_inflight_by_seq := [], rc_pending := [], rc_ready := [] \<rparr>"

text \<open>\<^verbatim>\<open>enqueue_inflight_response\<close> waits while the table is full: \<open>Enq_waits\<close> is the state in which the caller
  stays until another thread makes room or stops the connection.\<close>

datatype enqueue_result = Enq_waits | Enq_refused connection_state | Enq_accepted nat connection_state

definition enqueue_inflight_response :: "connection_state \<Rightarrow> raw_header \<Rightarrow> enqueue_result" where
  "enqueue_inflight_response st hdr =
     (let seq = rh_seq hdr
      in if seq = 0 then Enq_refused st
         else if \<not> rc_stopping st \<and> raw_max_inflight_requests \<le> length (rc_pending st) then Enq_waits
         else if rc_stopping st then Enq_refused st
         else if map_of (rc_inflight_by_seq st) seq \<noteq> None
         then Enq_refused (st \<lparr> rc_protocol_errors := rc_protocol_errors st + 1 \<rparr>)
         else (let i = rc_next st; pending = rc_pending st @ [i]
               in Enq_accepted i
                    (st \<lparr> rc_next := i + 1,
                          rc_objects := (rc_objects st)(i := dangling \<lparr> if_request_header := hdr,
                                                              if_status := KFASTBLOCK_RAW_STATUS_INTERNAL_ERROR \<rparr>),
                          rc_pending := pending, rc_inflight_by_seq := (seq, i) # rc_inflight_by_seq st,
                          rc_requests_received := rc_requests_received st + 1,
                          rc_peak_pending := max (rc_peak_pending st) (length pending) \<rparr>)))"

definition complete_inflight_response ::
    "nat \<Rightarrow> u32 \<Rightarrow> u8 list \<Rightarrow> connection_state \<Rightarrow> connection_state" where
  "complete_inflight_response i status body st =
     (let obj = rc_objects st i; drop = st \<lparr> rc_callbacks_dropped := rc_callbacks_dropped st + 1 \<rparr>
      in if if_detached obj \<or> rc_stopping st \<or> if_completed obj then drop
         else if map_of (rc_inflight_by_seq st) (rh_seq (if_request_header obj)) \<noteq> Some i then drop
         else st \<lparr> rc_objects := (rc_objects st)(i := obj \<lparr> if_status := status, if_response_body := body,
                                                        if_completed := True \<rparr>),
                   rc_ready := rc_ready st @ [i], rc_responses_ready := rc_responses_ready st + 1 \<rparr>)"

section \<open>Dispatch\<close>

record leader_endpoint =
  le_state :: int
  le_leader_id :: int
  le_leader_addr :: string
  le_leader_port :: int

datatype osd_call =
    Process_read u32 u32 u64 u32 string
  | Process_write u32 u32 u64 string "u8 list"
  | Process_delete u32 u32 string

definition build_leader_response_body :: "leader_endpoint \<Rightarrow> u8 list" where
  "build_leader_response_body leader =
     enc_get_leader_rsp \<lparr> lr_leader_id = word_of_int (le_leader_id leader), lr_leader_port = word_of_int (le_leader_port leader),
       lr_address_len = of_nat (length (le_leader_addr leader)) \<rparr> @ str_bytes (le_leader_addr leader)"

definition build_read_response_body :: "u8 list \<Rightarrow> u8 list" where
  "build_read_response_body data =
     enc_read_object_rsp \<lparr> rr_data_len = of_nat (length data), rr_reserved = 0 \<rparr> @ data"

text \<open>A dispatch either completes the request or hands it to the service.\<close>

definition dispatch_get_leader_request ::
    "(u32 \<Rightarrow> u32 \<Rightarrow> leader_endpoint) \<Rightarrow> nat \<Rightarrow> u8 list \<Rightarrow> connection_state \<Rightarrow> connection_state" where
  "dispatch_get_leader_request resolve_pg_leader i body st =
     (if length body \<noteq> 8 then complete_inflight_response i KFASTBLOCK_RAW_STATUS_INVALID_REQUEST [] st
      else (let req = dec_get_leader_req body; leader = resolve_pg_leader (lq_pool_id req) (lq_pg_id req)
            in if le_state leader \<noteq> 0
               then complete_inflight_response i (raw_status_from_errno (le_state leader)) [] st
               else if le_leader_port leader \<le> 0 \<or> 65535 < le_leader_port leader \<or> le_leader_id leader < 0 \<or>
                       65535 < length (le_leader_addr leader)
               then complete_inflight_response i KFASTBLOCK_RAW_STATUS_INTERNAL_ERROR [] st
               else complete_inflight_response i KFASTBLOCK_RAW_STATUS_OK (build_leader_response_body leader) st))"

definition dispatch_read_request :: "nat \<Rightarrow> u8 list \<Rightarrow> connection_state \<Rightarrow> osd_call option \<times> connection_state" where
  "dispatch_read_request i body st =
     (let bad = (None, complete_inflight_response i KFASTBLOCK_RAW_STATUS_INVALID_REQUEST [] st)
      in if length body < 24 then bad
         else (let req = dec_read_object_req (take 24 body); name_len = unat (rq_object_name_len req)
               in if length body \<noteq> 24 + name_len \<or> name_len = 0 then bad
                  else (Some (Process_read (rq_pool_id req) (rq_pg_id req) (rq_offset req) (rq_length req)
                                (bytes_str (take name_len (drop 24 body)))), st)))"

definition dispatch_write_request :: "nat \<Rightarrow> u8 list \<Rightarrow> connection_state \<Rightarrow> osd_call option \<times> connection_state" where
  "dispatch_write_request i body st =
     (let bad = (None, complete_inflight_response i KFASTBLOCK_RAW_STATUS_INVALID_REQUEST [] st)
      in if length body < 24 then bad
         else (let req = dec_write_object_req (take 24 body); name_len = unat (wq_object_name_len req);
                   data_len = unat (wq_data_len req)
               in if length body \<noteq> 24 + name_len + data_len \<or> name_len = 0 then bad
                  else (Some (Process_write (wq_pool_id req) (wq_pg_id req) (wq_offset req)
                                (bytes_str (take name_len (drop 24 body)))
                                (take data_len (drop (24 + name_len) body))), st)))"

definition dispatch_delete_request :: "nat \<Rightarrow> u8 list \<Rightarrow> connection_state \<Rightarrow> osd_call option \<times> connection_state" where
  "dispatch_delete_request i body st =
     (let bad = (None, complete_inflight_response i KFASTBLOCK_RAW_STATUS_INVALID_REQUEST [] st)
      in if length body < 12 then bad
         else (let req = dec_delete_object_req (take 12 body); name_len = unat (dq_object_name_len req)
               in if length body \<noteq> 12 + name_len \<or> name_len = 0 then bad
                  else (Some (Process_delete (dq_pool_id req) (dq_pg_id req)
                                (bytes_str (take name_len (drop 12 body)))), st)))"

definition dispatch_request ::
    "(u32 \<Rightarrow> u32 \<Rightarrow> leader_endpoint) \<Rightarrow> nat \<Rightarrow> u8 list \<Rightarrow> connection_state \<Rightarrow> osd_call option \<times> connection_state" where
  "dispatch_request resolve_pg_leader i body st =
     (let hdr = if_request_header (rc_objects st i)
      in if \<not> validate_request_header hdr
         then (None, complete_inflight_response i KFASTBLOCK_RAW_STATUS_INVALID_REQUEST []
                       (st \<lparr> rc_protocol_errors := rc_protocol_errors st + 1 \<rparr>))
         else if rh_opcode hdr = KFASTBLOCK_RAW_OSD_OP_GET_LEADER
         then (None, dispatch_get_leader_request resolve_pg_leader i body st)
         else if rh_opcode hdr = KFASTBLOCK_RAW_OSD_OP_READ_OBJECT then dispatch_read_request i body st
         else if rh_opcode hdr = KFASTBLOCK_RAW_OSD_OP_WRITE_OBJECT then dispatch_write_request i body st
         else if rh_opcode hdr = KFASTBLOCK_RAW_OSD_OP_DELETE_OBJECT then dispatch_delete_request i body st
         else (None, complete_inflight_response i KFASTBLOCK_RAW_STATUS_INVALID_REQUEST [] st))"

text \<open>The closures the service runs when an operation is done.\<close>

definition read_done :: "nat \<Rightarrow> int \<Rightarrow> u8 list \<Rightarrow> connection_state \<Rightarrow> connection_state" where
  "read_done i state data st =
     (if state \<noteq> 0 then complete_inflight_response i (raw_status_from_errno state) [] st
      else if max_raw_body_len - 8 < length data
      then complete_inflight_response i KFASTBLOCK_RAW_STATUS_INTERNAL_ERROR [] st
      else complete_inflight_response i KFASTBLOCK_RAW_STATUS_OK (build_read_response_body data) st)"

definition write_done :: "nat \<Rightarrow> int \<Rightarrow> connection_state \<Rightarrow> connection_state" where
  "write_done i state st = complete_inflight_response i (raw_status_from_errno state) [] st"

section \<open>Receiving\<close>

definition reset_connection_frame :: "connection_context \<Rightarrow> connection_context" where
  "reset_connection_frame conn = conn \<lparr> cx_header := [], cx_body := [], cx_target := 0 \<rparr>"

text \<open>\<^verbatim>\<open>fill_connection_frame\<close>: the bytes received so far, the rest of the input and of the script. When the
  input is exhausted, or the script is, the socket would block.\<close>

primrec fill_connection_frame ::
    "recv_outcome list \<Rightarrow> u8 list \<Rightarrow> nat \<Rightarrow> u8 list \<Rightarrow> int \<times> u8 list \<times> u8 list \<times> recv_outcome list" where
  "fill_connection_frame [] got target inp = (if target \<le> length got then 1 else 0, got, inp, [])"
| "fill_connection_frame (oc # sc) got target inp =
     (if target \<le> length got then (1, got, inp, oc # sc)
      else (case oc of
              Got n \<Rightarrow>
                if inp = [] then (0, got, inp, sc)
                else (let k = min (Suc n) (target - length got)
                      in fill_connection_frame sc (got @ take k inp) target (drop k inp))
            | Recv_intr \<Rightarrow> fill_connection_frame sc got target inp
            | Recv_again \<Rightarrow> (0, got, inp, sc)
            | Recv_closed \<Rightarrow> (- ECONNRESET, got, inp, sc)
            | Recv_error e \<Rightarrow> (- int (Suc e), got, inp, sc)))"

definition receive_body ::
    "recv_outcome list \<Rightarrow> connection_context \<Rightarrow> int \<times> (raw_header \<times> u8 list) option \<times> recv_outcome list \<times> connection_context" where
  "receive_body script conn =
     (case fill_connection_frame script (cx_body conn) (cx_target conn) (cx_input conn) of
        (ret, got, inp, sc) \<Rightarrow>
          (let c1 = conn \<lparr> cx_body := got, cx_input := inp \<rparr>
           in if ret \<le> 0 then (ret, None, sc, c1)
              else (1, Some (dec_header (cx_header c1), cx_body c1), sc, reset_connection_frame c1)))"

definition try_receive_one_request ::
    "recv_outcome list \<Rightarrow> connection_context \<Rightarrow> int \<times> (raw_header \<times> u8 list) option \<times> recv_outcome list \<times> connection_context" where
  "try_receive_one_request script conn =
     (if length (cx_header conn) < sizeof_header
      then (case fill_connection_frame script (cx_header conn) sizeof_header (cx_input conn) of
              (ret, got, inp, sc) \<Rightarrow>
                (let c1 = conn \<lparr> cx_header := got, cx_input := inp \<rparr>
                 in if ret \<le> 0 then (ret, None, sc, c1)
                    else (let hdr = dec_header got
                          in if \<not> validate_request_header hdr
                             then (- EPROTO, None, sc, reset_connection_frame c1)
                             else (let c2 = c1 \<lparr> cx_target := unat (rh_body_len hdr) \<rparr>
                                   in if cx_target c2 = 0 then (1, Some (hdr, []), sc, reset_connection_frame c2)
                                      else receive_body sc c2))))
      else receive_body script conn)"

definition close_connection :: "connection_context \<Rightarrow> connection_context" where
  "close_connection conn = conn \<lparr> cx_state := stop_connection (cx_state conn), cx_done := True \<rparr>"

text \<open>A connection received \<open>n\<close> more bytes of input.\<close>

lemma fill_spec:
  "fill_connection_frame script got target inp = (ret, got', inp', sc) \<Longrightarrow>
     got' @ inp' = got @ inp \<and> length got \<le> length got' \<and> (length got \<le> target \<longrightarrow> length got' \<le> target) \<and>
     (0 < ret \<longrightarrow> ret = 1 \<and> target \<le> length got') \<and> (ret = 0 \<longrightarrow> length got' < target) \<and>
     length sc \<le> length script \<and> (length got < target \<longrightarrow> 0 < ret \<longrightarrow> length sc < length script)"
proof (induction script arbitrary: got inp)
  case Nil
  then show ?case by (auto split: if_splits)
next
  case (Cons oc s)
  show ?case
  proof (cases "target \<le> length got")
    case True
    then show ?thesis using Cons(2) by auto
  next
    case False
    show ?thesis
    proof (cases oc)
      case (Got n)
      define k where "k = min (Suc n) (target - length got)"
      show ?thesis
      proof (cases "inp = []")
        case True
        then show ?thesis using Cons(2) False Got by auto
      next
        case ne: False
        have "fill_connection_frame s (got @ take k inp) target (drop k inp) = (ret, got', inp', sc)"
          using Cons(2) False Got ne by (simp add: k_def Let_def)
        note ih = Cons(1) [OF this]
        have "k \<le> target - length got" by (simp add: k_def)
        then show ?thesis using ih False by auto
      qed
    next
      case Recv_intr
      then have "fill_connection_frame s got target inp = (ret, got', inp', sc)" using Cons(2) False by simp
      then show ?thesis using Cons(1) [of got inp] by auto
    qed (use Cons(2) False in auto)
  qed
qed

lemma receive_body_progress:
  assumes "receive_body script conn = (ret, req, sc, c)" "0 < ret"
  shows "ret = 1" "cx_header c = []" "length sc \<le> length script" "req \<noteq> None" "cx_state c = cx_state conn"
  using assms
  by (auto simp: receive_body_def reset_connection_frame_def Let_def split: prod.splits if_splits dest!: fill_spec)

lemma try_receive_progress:
  assumes r: "try_receive_one_request script conn = (ret, req, sc, c)" and pos: "0 < ret"
  shows "cx_header c = []" "req \<noteq> None"
    "length sc < length script \<or> (length sc \<le> length script \<and> cx_header conn \<noteq> [])"
proof -
  have "cx_header c = [] \<and> req \<noteq> None \<and>
    (length sc < length script \<or> (length sc \<le> length script \<and> cx_header conn \<noteq> []))"
  proof (cases "length (cx_header conn) < 28")
    case True
    obtain r1 got inp s1 where f: "fill_connection_frame script (cx_header conn) 28 (cx_input conn) = (r1, got, inp, s1)"
      by (cases "fill_connection_frame script (cx_header conn) 28 (cx_input conn)")
    define c1 where "c1 = conn \<lparr> cx_header := got, cx_input := inp, cx_target := unat (rh_body_len (dec_header got)) \<rparr>"
    have "0 < r1 \<and> validate_request_header (dec_header got) \<and>
        ((cx_target c1 = 0 \<and> req = Some (dec_header got, []) \<and> sc = s1 \<and> c = reset_connection_frame c1) \<or>
         receive_body s1 c1 = (ret, req, sc, c))"
      using r pos True f
      by (auto simp: try_receive_one_request_def c1_def Let_def split: if_splits)
    then show ?thesis
      using fill_spec [OF f] True receive_body_progress [of s1 c1 ret req sc c] pos
      by (auto simp: reset_connection_frame_def)
  next
    case False
    then have rb: "receive_body script conn = (ret, req, sc, c)" using r by (simp add: try_receive_one_request_def)
    from False have "cx_header conn \<noteq> []" by auto
    then show ?thesis using receive_body_progress [OF rb pos] by simp
  qed
  then show "cx_header c = []" "req \<noteq> None"
    "length sc < length script \<or> (length sc \<le> length script \<and> cx_header conn \<noteq> [])" by auto
qed

text \<open>The receive loop of \<^verbatim>\<open>service_connection_io\<close>; the operations handed to the service, with the request
  they belong to.\<close>

function service_io_loop ::
    "(u32 \<Rightarrow> u32 \<Rightarrow> leader_endpoint) \<Rightarrow> recv_outcome list \<Rightarrow> connection_context
      \<Rightarrow> (nat \<times> osd_call) list \<times> connection_context" where
  "service_io_loop resolve script conn =
     (case try_receive_one_request script conn of (ret, req, sc, c1) \<Rightarrow>
        if ret < 0
        then ([], close_connection (c1 \<lparr> cx_state := (cx_state c1)
                       \<lparr> rc_protocol_errors := rc_protocol_errors (cx_state c1) + 1 \<rparr> \<rparr>))
        else if ret = 0 then ([], c1)
        else (let (hdr, body) = the req
              in case enqueue_inflight_response (cx_state c1) hdr of
                   Enq_waits \<Rightarrow> ([], c1 \<lparr> cx_waiting := Some (hdr, body) \<rparr>)
                 | Enq_refused st \<Rightarrow> ([], close_connection (c1 \<lparr> cx_state := st \<rparr>))
                 | Enq_accepted i st \<Rightarrow>
                     (case dispatch_request resolve i body st of (call, st') \<Rightarrow>
                        (case service_io_loop resolve sc (c1 \<lparr> cx_state := st' \<rparr>) of (calls, c2) \<Rightarrow>
                           ((case call of None \<Rightarrow> calls | Some f \<Rightarrow> (i, f) # calls), c2)))))"
  by pat_completeness auto
termination
proof (relation "measure (\<lambda>(resolve, script, conn). 2 * length script + (if cx_header conn = [] then 0 else 1))",
    goal_cases)
  case (2 resolve script conn ret y req z sc c1)
  then have "try_receive_one_request script conn = (ret, req, sc, c1)" "0 < ret" by auto
  from try_receive_progress [OF this] show ?case by auto
qed simp

declare service_io_loop.simps [simp del]

definition service_connection_io ::
    "(u32 \<Rightarrow> u32 \<Rightarrow> leader_endpoint) \<Rightarrow> bool \<Rightarrow> bool \<Rightarrow> recv_outcome list \<Rightarrow> connection_context
      \<Rightarrow> (nat \<times> osd_call) list \<times> connection_context" where
  "service_connection_io resolve hup readable script conn =
     (if cx_done conn then ([], conn)
      else if hup then ([], close_connection conn)
      else if \<not> readable then ([], conn)
      else service_io_loop resolve script conn)"

text \<open>The wait of \<^verbatim>\<open>enqueue_inflight_response\<close> ends when there is room or the connection stops; the loop then
  goes on.\<close>

definition resume_waiting ::
    "(u32 \<Rightarrow> u32 \<Rightarrow> leader_endpoint) \<Rightarrow> recv_outcome list \<Rightarrow> connection_context
      \<Rightarrow> (nat \<times> osd_call) list \<times> connection_context" where
  "resume_waiting resolve script conn =
     (case cx_waiting conn of
        None \<Rightarrow> ([], conn)
      | Some (hdr, body) \<Rightarrow>
          (case enqueue_inflight_response (cx_state conn) hdr of
             Enq_waits \<Rightarrow> ([], conn)
           | Enq_refused st \<Rightarrow> ([], close_connection (conn \<lparr> cx_waiting := None, cx_state := st \<rparr>))
           | Enq_accepted i st \<Rightarrow>
               (case dispatch_request resolve i body st of (call, st') \<Rightarrow>
                  (case service_io_loop resolve script (conn \<lparr> cx_waiting := None, cx_state := st' \<rparr>) of
                     (calls, c2) \<Rightarrow> ((case call of None \<Rightarrow> calls | Some f \<Rightarrow> (i, f) # calls), c2)))))"

section \<open>Writing\<close>

definition response_frame :: "inflight_response \<Rightarrow> u8 list" where
  "response_frame obj =
     enc_header ((if_request_header obj)
       \<lparr> rh_magic := KFASTBLOCK_RAW_MAGIC, rh_version_major := KFASTBLOCK_RAW_VERSION_MAJOR,
         rh_version_minor := KFASTBLOCK_RAW_VERSION_MINOR, rh_service := KFASTBLOCK_RAW_SERVICE_OSD,
         rh_flags := rh_flags (if_request_header obj) OR KFASTBLOCK_RAW_FLAG_RESPONSE,
         rh_status := if_status obj, rh_body_len := of_nat (length (if_response_body obj)) \<rparr>)
     @ if_response_body obj"

primrec flush_connection_send_frame ::
    "send_outcome list \<Rightarrow> connection_context \<Rightarrow> int \<times> send_outcome list \<times> connection_context" where
  "flush_connection_send_frame [] conn =
     (if cx_send_bytes conn < length (cx_send_frame conn) then 0 else 1, [], conn)"
| "flush_connection_send_frame (oc # sc) conn =
     (if \<not> cx_send_bytes conn < length (cx_send_frame conn) then (1, oc # sc, conn)
      else (case oc of
              Sent n \<Rightarrow>
                (let k = min (Suc n) (length (cx_send_frame conn) - cx_send_bytes conn)
                 in flush_connection_send_frame sc
                      (conn \<lparr> cx_send_bytes := cx_send_bytes conn + k,
                              cx_output := cx_output conn @ take k (drop (cx_send_bytes conn) (cx_send_frame conn)) \<rparr>))
            | Send_intr \<Rightarrow> flush_connection_send_frame sc conn
            | Send_again \<Rightarrow> (0, sc, conn)
            | Send_zero \<Rightarrow> (- EIO, sc, conn)
            | Send_error e \<Rightarrow> (- int (Suc e), sc, conn)))"

definition reset_connection_send :: "connection_context \<Rightarrow> connection_context" where
  "reset_connection_send conn =
     conn \<lparr> cx_send_bytes := 0, cx_send_reordered := False, cx_send_frame := [], cx_sending := None \<rparr>"

text \<open>Taking the next completed response, \<open>None\<close> when it is no longer pending.\<close>

definition take_ready :: "nat \<Rightarrow> connection_context \<Rightarrow> connection_context" where
  "take_ready i conn =
     (let st = cx_state conn; obj = rc_objects st i
      in conn \<lparr> cx_state := st \<lparr> rc_inflight_by_seq := filter (\<lambda>(s, _). s \<noteq> rh_seq (if_request_header obj)) (rc_inflight_by_seq st),
                                 rc_pending := remove1 i (rc_pending st) \<rparr>,
                cx_send_reordered := (rc_pending st \<noteq> [] \<and> hd (rc_pending st) \<noteq> i),
                cx_sending := Some i, cx_send_frame := response_frame obj \<rparr>)"

definition note_sent :: "connection_context \<Rightarrow> connection_context" where
  "note_sent conn =
     (let st = cx_state conn
      in reset_connection_send (conn \<lparr> cx_state := st \<lparr> rc_responses_sent := rc_responses_sent st + 1,
           rc_responses_reordered := (if cx_send_reordered conn then rc_responses_reordered st + 1
                                      else rc_responses_reordered st) \<rparr> \<rparr>))"

lemma take_drop_step:
  assumes "b + k \<le> m"
  shows "take k (drop b xs) @ drop (b + k) (take m xs) = drop b (take m xs)"
proof -
  have "take k (drop b (take m xs)) = take k (drop b xs)"
    using assms by (subst drop_take) (simp only: take_take min.absorb1 le_diff_conv2 add_leD1 add.commute)
  moreover have "drop k (drop b (take m xs)) = drop (b + k) (take m xs)" by (simp only: drop_drop add.commute)
  ultimately show ?thesis using append_take_drop_id [of k "drop b (take m xs)"] by (simp only:)
qed

lemma flush_fields:
  "flush_connection_send_frame script conn = (ret, sc, c) \<Longrightarrow>
     c \<lparr> cx_send_bytes := 0, cx_output := [] \<rparr> = conn \<lparr> cx_send_bytes := 0, cx_output := [] \<rparr>"
proof (induction script arbitrary: conn)
  case Nil
  then show ?case by simp
next
  case (Cons oc s)
  show ?case
  proof (cases "cx_send_bytes conn < length (cx_send_frame conn)")
    case lt: True
    show ?thesis
    proof (cases oc)
      case (Sent n)
      from Cons(2) lt have "flush_connection_send_frame s
          (conn \<lparr> cx_send_bytes := cx_send_bytes conn + min (Suc n) (length (cx_send_frame conn) - cx_send_bytes conn),
                  cx_output := cx_output conn @ take (min (Suc n) (length (cx_send_frame conn) - cx_send_bytes conn))
                                  (drop (cx_send_bytes conn) (cx_send_frame conn)) \<rparr>) = (ret, sc, c)"
        by (simp add: Sent Let_def)
      from Cons(1) [OF this] show ?thesis by simp
    next
      case Send_intr
      then show ?thesis using Cons(1) [of conn] Cons(2) lt by simp
    qed (use Cons(2) lt in simp_all)
  next
    case False
    then show ?thesis using Cons(2) by simp
  qed
qed

text \<open>The output grows by exactly the bytes of the frame between the old and the new send position, and a
  positive result means that the whole frame is out.\<close>

lemma flush_output:
  assumes "flush_connection_send_frame script conn = (ret, sc, c)"
    "cx_send_bytes conn \<le> length (cx_send_frame conn)"
  shows "cx_send_bytes c \<le> length (cx_send_frame conn) \<and> cx_send_bytes conn \<le> cx_send_bytes c \<and>
    cx_output c = cx_output conn @ drop (cx_send_bytes conn) (take (cx_send_bytes c) (cx_send_frame conn)) \<and>
    (0 < ret \<longrightarrow> cx_send_bytes c = length (cx_send_frame conn))"
  using assms
proof (induction script arbitrary: conn)
  case Nil
  then show ?case by (simp split: if_splits)
next
  case (Cons oc s)
  show ?case
  proof (cases "cx_send_bytes conn < length (cx_send_frame conn)")
    case lt: True
    show ?thesis
    proof (cases oc)
      case (Sent n)
      define k where "k = min (Suc n) (length (cx_send_frame conn) - cx_send_bytes conn)"
      define d where "d = conn \<lparr> cx_send_bytes := cx_send_bytes conn + k,
                     cx_output := cx_output conn @ take k (drop (cx_send_bytes conn) (cx_send_frame conn)) \<rparr>"
      have f: "flush_connection_send_frame s d = (ret, sc, c)" using Cons(2) lt Sent by (simp add: d_def k_def Let_def)
      have d: "cx_send_frame d = cx_send_frame conn" "cx_send_bytes d = cx_send_bytes conn + k"
        "cx_output d = cx_output conn @ take k (drop (cx_send_bytes conn) (cx_send_frame conn))"
        by (simp_all add: d_def)
      have "cx_send_bytes d \<le> length (cx_send_frame d)" using lt by (simp add: d k_def)
      from Cons(1) [OF f this] show ?thesis
        using take_drop_step [of "cx_send_bytes conn" k "cx_send_bytes c" "cx_send_frame conn"] unfolding d by simp
    next
      case Send_intr
      then show ?thesis using Cons lt by simp
    qed (use Cons(2,3) lt in simp_all)
  next
    case False
    then show ?thesis using Cons(2,3) by simp
  qed
qed

lemma flush_keeps:
  assumes "flush_connection_send_frame script conn = (ret, sc, c)"
  shows "cx_state c = cx_state conn" "cx_sending c = cx_sending conn" "cx_done c = cx_done conn"
    "cx_send_frame c = cx_send_frame conn" "cx_waiting c = cx_waiting conn" "cx_send_reordered c = cx_send_reordered conn"
    "cx_input c = cx_input conn" "cx_header c = cx_header conn"
proof -
  let ?e = "\<lambda>c. c \<lparr> cx_send_bytes := 0, cx_output := [] \<rparr>"
  have e: "?e c = ?e conn" by (rule flush_fields [OF assms])
  show "cx_state c = cx_state conn" using arg_cong [OF e, of cx_state] by simp
  show "cx_sending c = cx_sending conn" using arg_cong [OF e, of cx_sending] by simp
  show "cx_done c = cx_done conn" using arg_cong [OF e, of cx_done] by simp
  show "cx_send_frame c = cx_send_frame conn" using arg_cong [OF e, of cx_send_frame] by simp
  show "cx_waiting c = cx_waiting conn" using arg_cong [OF e, of cx_waiting] by simp
  show "cx_send_reordered c = cx_send_reordered conn" using arg_cong [OF e, of cx_send_reordered] by simp
  show "cx_input c = cx_input conn" using arg_cong [OF e, of cx_input] by simp
  show "cx_header c = cx_header conn" using arg_cong [OF e, of cx_header] by simp
qed

lemma send_fields:
  "rc_ready (cx_state (note_sent c)) = rc_ready (cx_state c)" "cx_sending (note_sent c) = None"
  "rc_ready (cx_state (take_ready i c)) = rc_ready (cx_state c)"
  by (simp_all add: note_sent_def reset_connection_send_def take_ready_def Let_def)



function service_connection_write :: "bool \<Rightarrow> send_outcome list \<Rightarrow> connection_context \<Rightarrow> connection_context" where
  "service_connection_write running script conn =
     (if cx_done conn \<or> \<not> running \<or> rc_stopping (cx_state conn) then conn
      else (case cx_sending conn of
              None \<Rightarrow>
                (case rc_ready (cx_state conn) of
                   [] \<Rightarrow> conn
                 | i # rest \<Rightarrow>
                     (let c1 = conn \<lparr> cx_state := (cx_state conn) \<lparr> rc_ready := rest \<rparr> \<rparr>
                      in if i \<notin> set (rc_pending (cx_state conn)) then service_connection_write running script c1
                         else (case flush_connection_send_frame script (take_ready i c1) of (ret, sc, c2) \<Rightarrow>
                                 if ret < 0 then close_connection c2
                                 else if ret = 0 then c2
                                 else service_connection_write running sc (note_sent c2))))
            | Some _ \<Rightarrow>
                (case flush_connection_send_frame script conn of (ret, sc, c2) \<Rightarrow>
                   if ret < 0 then close_connection c2
                   else if ret = 0 then c2
                   else service_connection_write running sc (note_sent c2))))"
  by pat_completeness auto
termination
proof (relation "measure (\<lambda>(running, script, conn). 2 * length (rc_ready (cx_state conn)) +
      (if cx_sending conn = None then 0 else 1))", goal_cases)
  case (3 running script conn i rest c1 ret y sc c2)
  then have "flush_connection_send_frame script (take_ready i c1) = (ret, sc, c2)" by auto
  note k = flush_keeps [OF this]
  show ?case using 3(2,3,4) k by (simp add: send_fields)
next
  case (4 running script conn x ret y sc c2)
  then have "flush_connection_send_frame script conn = (ret, sc, c2)" by auto
  note k = flush_keeps [OF this]
  show ?case using 4(2) k by (simp add: send_fields)
qed simp_all

declare service_connection_write.simps [simp del]

end
