(* ===== verification/Osd_Run.thy ===== *)
theory Osd_Run
  imports Osd_Raw
begin

text \<open>
  Histories of one connection of the OSD's raw server. The listener thread receives and dispatches requests and
  writes responses; callbacks of the service complete requests at any time, in any order, and more than once;
  the connection can be stopped at any time. The invariant says what the client gets to see.
\<close>

section \<open>Histories\<close>

text \<open>A run, with the operations that were handed to the service: only those can be completed by a callback.\<close>

inductive osd_run :: "(u32 \<Rightarrow> u32 \<Rightarrow> leader_endpoint) \<Rightarrow> connection_context \<Rightarrow> (nat \<times> osd_call) list \<Rightarrow> bool"
  for resolve where
  accepted: "osd_run resolve start_connection []"
| arrive: "osd_run resolve c calls \<Longrightarrow> osd_run resolve (c \<lparr> cx_input := cx_input c @ bs \<rparr>) calls"
| io: "\<lbrakk> osd_run resolve c calls; cx_waiting c = None; service_connection_io resolve hup readable script c = (new, c') \<rbrakk>
    \<Longrightarrow> osd_run resolve c' (calls @ new)"
| resume: "\<lbrakk> osd_run resolve c calls; resume_waiting resolve script c = (new, c') \<rbrakk> \<Longrightarrow> osd_run resolve c' (calls @ new)"
| read_callback: "\<lbrakk> osd_run resolve c calls; (i, Process_read pool pg offset len name) \<in> set calls \<rbrakk>
    \<Longrightarrow> osd_run resolve (c \<lparr> cx_state := read_done i state data (cx_state c) \<rparr>) calls"
| write_callback: "\<lbrakk> osd_run resolve c calls; (i, call) \<in> set calls; \<not> (\<exists>pool pg offset len name. call = Process_read pool pg offset len name) \<rbrakk>
    \<Longrightarrow> osd_run resolve (c \<lparr> cx_state := write_done i state (cx_state c) \<rparr>) calls"
| send_out: "\<lbrakk> osd_run resolve c calls; cx_waiting c = None \<rbrakk>
    \<Longrightarrow> osd_run resolve (service_connection_write running script c) calls"
| stop: "osd_run resolve c calls \<Longrightarrow> osd_run resolve (close_connection c) calls"

section \<open>The invariant\<close>

definition sending_list :: "connection_context \<Rightarrow> nat list" where
  "sending_list c = (case cx_sending c of None \<Rightarrow> [] | Some i \<Rightarrow> [i])"

text \<open>The table: what is pending is indexed by its sequence number, and what is ready is pending and completed.\<close>

definition table_ok :: "connection_state \<Rightarrow> bool" where
  "table_ok st \<longleftrightarrow>
     distinct (rc_pending st) \<and> length (rc_pending st) \<le> raw_max_inflight_requests \<and>
     distinct (map fst (rc_inflight_by_seq st)) \<and> 
     (\<forall>i\<in>set (rc_pending st). i < rc_next st \<and>
        (rh_seq (if_request_header (rc_objects st i)), i) \<in> set (rc_inflight_by_seq st)) \<and>
     (\<forall>(s, i)\<in>set (rc_inflight_by_seq st). i \<in> set (rc_pending st) \<and> s = rh_seq (if_request_header (rc_objects st i))) \<and>
     distinct (rc_ready st) \<and>
     set (rc_ready st) = {i \<in> set (rc_pending st). if_completed (rc_objects st i)} \<and>
     (\<forall>i. length (if_response_body (rc_objects st i)) \<le> max_raw_body_len) \<and>
     (rc_stopping st \<longrightarrow> rc_pending st = []) \<and> rc_requests_received st = rc_next st"

text \<open>What was answered: \<open>sent\<close> lists the requests whose responses are out, in the order they were written.\<close>

definition answers_ok :: "nat list \<Rightarrow> connection_context \<Rightarrow> bool" where
  "answers_ok sent c \<longleftrightarrow>
     (let st = cx_state c; gone = sent @ sending_list c
      in distinct gone \<and> set gone \<inter> set (rc_pending st) = {} \<and>
         (\<forall>i\<in>set gone. i < rc_next st \<and> if_completed (rc_objects st i)) \<and>
         (\<not> rc_stopping st \<longrightarrow> {..<rc_next st} \<subseteq> set gone \<union> set (rc_pending st)) \<and>
         rc_responses_sent st = length sent)"

definition output_ok :: "nat list \<Rightarrow> connection_context \<Rightarrow> bool" where
  "output_ok sent c \<longleftrightarrow>
     (let frames = concat (map (\<lambda>i. response_frame (rc_objects (cx_state c) i)) sent)
      in case cx_sending c of
           None \<Rightarrow> cx_send_bytes c = 0 \<and> cx_output c = frames
         | Some i \<Rightarrow> cx_send_frame c = response_frame (rc_objects (cx_state c) i) \<and>
                     cx_send_bytes c \<le> length (cx_send_frame c) \<and>
                     cx_output c = frames @ take (cx_send_bytes c) (cx_send_frame c))"

definition conn_ok :: "nat list \<Rightarrow> connection_context \<Rightarrow> bool" where
  "conn_ok sent c \<longleftrightarrow> table_ok (cx_state c) \<and> answers_ok sent c \<and> output_ok sent c"

lemma start_ok: "conn_ok [] start_connection"
  by (simp add: conn_ok_def table_ok_def answers_ok_def output_ok_def start_connection_def new_connection_state_def
      sending_list_def dangling_def)

section \<open>Steps on the table\<close>

text \<open>A change of the table that keeps what was answered: nothing leaves the pending requests, and the objects
  already completed keep their response.\<close>

definition grows :: "connection_state \<Rightarrow> connection_state \<Rightarrow> bool" where
  "grows st st' \<longleftrightarrow> rc_next st \<le> rc_next st' \<and> rc_stopping st' = rc_stopping st \<and>
     rc_responses_sent st' = rc_responses_sent st \<and>
     (\<forall>i<rc_next st. if_completed (rc_objects st i) \<longrightarrow> rc_objects st' i = rc_objects st i) \<and>
     set (rc_pending st') = set (rc_pending st) \<union> {rc_next st..<rc_next st'}"

lemma grows_refl: "grows st st"
  by (simp add: grows_def)

lemma grows_trans:
  assumes "grows a b" "grows b c"
  shows "grows a c"
proof -
  have "{rc_next a..<rc_next b} \<union> {rc_next b..<rc_next c} = {rc_next a..<rc_next c}"
    using assms by (intro ivl_disj_un_two(3)) (auto simp: grows_def)
  moreover have "rc_objects c i = rc_objects a i" if "i < rc_next a" "if_completed (rc_objects a i)" for i
  proof -
    have "rc_objects b i = rc_objects a i" using assms(1) that by (simp add: grows_def)
    moreover have "i < rc_next b" using assms(1) that by (simp add: grows_def)
    ultimately show ?thesis using assms(2) that by (simp add: grows_def)
  qed
  ultimately show ?thesis using assms by (auto simp: grows_def)
qed

lemma complete_grows: "grows st (complete_inflight_response i status body st)"
  by (simp add: grows_def complete_inflight_response_def Let_def)

lemma complete_table_ok:
  assumes "table_ok st" "length body \<le> max_raw_body_len"
  shows "table_ok (complete_inflight_response i status body st)"
proof (cases "if_detached (rc_objects st i) \<or> rc_stopping st \<or> if_completed (rc_objects st i) \<or>
    map_of (rc_inflight_by_seq st) (rh_seq (if_request_header (rc_objects st i))) \<noteq> Some i")
  case True
  then show ?thesis using assms by (auto simp: complete_inflight_response_def table_ok_def Let_def)
next
  case False
  then have m: "(rh_seq (if_request_header (rc_objects st i)), i) \<in> set (rc_inflight_by_seq st)"
    by (simp add: map_of_SomeD)
  then have i: "i \<in> set (rc_pending st)" using assms by (auto simp: table_ok_def)
  define obj where "obj = (rc_objects st i) \<lparr> if_status := status, if_response_body := body, if_completed := True \<rparr>"
  have "complete_inflight_response i status body st =
      st \<lparr> rc_objects := (rc_objects st)(i := obj), rc_ready := rc_ready st @ [i],
           rc_responses_ready := rc_responses_ready st + 1 \<rparr>"
    using False by (simp add: complete_inflight_response_def Let_def obj_def)
  moreover have "if_request_header obj = if_request_header (rc_objects st i)" "if_completed obj"
    "length (if_response_body obj) \<le> max_raw_body_len"
    using assms(2) by (simp_all add: obj_def)
  moreover have "i \<notin> set (rc_ready st)" using False assms by (simp add: table_ok_def)
  ultimately show ?thesis using assms i by (auto simp: table_ok_def)
qed

lemma read_done_table:
  "grows st (read_done i state data st)" "table_ok st \<Longrightarrow> table_ok (read_done i state data st)"
  "grows st (write_done i state st)" "table_ok st \<Longrightarrow> table_ok (write_done i state st)"
  by (simp_all add: read_done_def write_done_def build_read_response_body_def complete_grows complete_table_ok)

text \<open>Operations that change neither the table nor the objects.\<close>

lemma protocol_error_table:
  "grows st (st \<lparr> rc_protocol_errors := n \<rparr>)" "table_ok (st \<lparr> rc_protocol_errors := n \<rparr>) = table_ok st"
  by (simp_all add: grows_def table_ok_def)

lemma dispatch_get_leader_table:
  "grows st (dispatch_get_leader_request resolve i body st)"
  "table_ok st \<Longrightarrow> table_ok (dispatch_get_leader_request resolve i body st)"
  by (auto simp: dispatch_get_leader_request_def build_leader_response_body_def Let_def complete_grows complete_table_ok)

lemma dispatch_object_table:
  "grows st (snd (dispatch_read_request i body st))" "table_ok st \<Longrightarrow> table_ok (snd (dispatch_read_request i body st))"
  "grows st (snd (dispatch_write_request i body st))" "table_ok st \<Longrightarrow> table_ok (snd (dispatch_write_request i body st))"
  "grows st (snd (dispatch_delete_request i body st))" "table_ok st \<Longrightarrow> table_ok (snd (dispatch_delete_request i body st))"
  by (simp_all only: dispatch_read_request_def dispatch_write_request_def dispatch_delete_request_def Let_def
      if_distrib [of "\<lambda>x. grows st (snd x)"] if_distrib [of "\<lambda>x. table_ok (snd x)"] snd_conv
      complete_grows complete_table_ok grows_refl if_cancel list.size(3) le0)

lemma dispatch_grows: "grows st (snd (dispatch_request resolve i body st))"
  using grows_trans [OF protocol_error_table(1) complete_grows]
  by (simp add: dispatch_request_def Let_def dispatch_get_leader_table dispatch_object_table complete_grows)

lemma dispatch_table_ok: "table_ok st \<Longrightarrow> table_ok (snd (dispatch_request resolve i body st))"
  by (simp add: dispatch_request_def Let_def dispatch_get_leader_table dispatch_object_table complete_table_ok
      protocol_error_table)

lemma enqueue_accepted_table:
  assumes "enqueue_inflight_response st hdr = Enq_accepted i st'"
  shows "grows st st'" "table_ok st \<Longrightarrow> table_ok st'" "i = rc_next st" "rc_next st' = Suc i"
    "if_request_header (rc_objects st' i) = hdr" "\<not> rc_stopping st'"
proof -
  define obj where "obj = dangling \<lparr> if_request_header := hdr, if_status := KFASTBLOCK_RAW_STATUS_INTERNAL_ERROR \<rparr>"
  have g: "\<not> rc_stopping st" "length (rc_pending st) < 128" "map_of (rc_inflight_by_seq st) (rh_seq hdr) = None"
    "i = rc_next st"
    "st' = st \<lparr> rc_next := i + 1, rc_objects := (rc_objects st)(i := obj), rc_pending := rc_pending st @ [i],
       rc_inflight_by_seq := (rh_seq hdr, i) # rc_inflight_by_seq st, rc_requests_received := rc_requests_received st + 1,
       rc_peak_pending := max (rc_peak_pending st) (length (rc_pending st @ [i])) \<rparr>"
    using assms by (auto simp: enqueue_inflight_response_def Let_def obj_def split: if_splits)
  have obj: "if_request_header obj = hdr" "\<not> if_completed obj" by (simp_all add: obj_def dangling_def)
  show "i = rc_next st" "rc_next st' = Suc i" "if_request_header (rc_objects st' i) = hdr" "\<not> rc_stopping st'"
    using g obj by simp_all
  show "grows st st'" using g(4) by (auto simp: g(5) grows_def)
  assume t: "table_ok st"
  then have pend: "\<And>j. j \<in> set (rc_pending st) \<Longrightarrow> j < i" and rd: "\<And>j. j \<in> set (rc_ready st) \<Longrightarrow> j < i"
    and inf: "\<And>s j. (s, j) \<in> set (rc_inflight_by_seq st) \<Longrightarrow> j < i"
    using g(4) by (auto simp: table_ok_def)
  have fresh: "rh_seq hdr \<notin> fst ` set (rc_inflight_by_seq st)" using g(3) by (simp add: map_of_eq_None_iff)
  have keep: "\<And>j. j < i \<Longrightarrow> rc_objects st' j = rc_objects st j" "rc_objects st' i = obj" by (simp_all add: g(5))
  show "table_ok st'"
    unfolding table_ok_def
  proof (intro conjI)
    show "\<forall>j. length (if_response_body (rc_objects st' j)) \<le> max_raw_body_len"
      using t by (simp add: g(5) table_ok_def obj_def dangling_def)
    show "distinct (rc_pending st')" "length (rc_pending st') \<le> 128" "distinct (map fst (rc_inflight_by_seq st'))"
      "distinct (rc_ready st')" "rc_stopping st' \<longrightarrow> rc_pending st' = []" "rc_requests_received st' = rc_next st'"
      using t g(1,2,4) fresh pend by (auto simp: g(5) table_ok_def)
    show "\<forall>j\<in>set (rc_pending st'). j < rc_next st' \<and> (rh_seq (if_request_header (rc_objects st' j)), j) \<in> set (rc_inflight_by_seq st')"
      using t pend obj by (auto simp: g(5) table_ok_def less_Suc_eq)
    show "\<forall>(s, j)\<in>set (rc_inflight_by_seq st'). j \<in> set (rc_pending st') \<and> s = rh_seq (if_request_header (rc_objects st' j))"
      using t inf obj by (auto simp: g(5) table_ok_def)
    show "set (rc_ready st') = {j \<in> set (rc_pending st'). if_completed (rc_objects st' j)}"
      using t pend obj by (auto simp: g(5) table_ok_def)
  qed
qed

section \<open>Steps of the connection\<close>

text \<open>What the writing side of a connection consists of.\<close>

definition write_side :: "connection_context \<Rightarrow> nat option \<times> nat \<times> u8 list \<times> u8 list" where
  "write_side c = (cx_sending c, cx_send_bytes c, cx_send_frame c, cx_output c)"

lemma write_side_updates [simp]:
  "write_side (c \<lparr> cx_state := st \<rparr>) = write_side c" "write_side (c \<lparr> cx_input := bs \<rparr>) = write_side c"
  "write_side (c \<lparr> cx_waiting := w \<rparr>) = write_side c" "write_side (c \<lparr> cx_done := d \<rparr>) = write_side c"
  "write_side (c \<lparr> cx_header := bs \<rparr>) = write_side c" "write_side (c \<lparr> cx_body := bs \<rparr>) = write_side c"
  "write_side (c \<lparr> cx_target := n \<rparr>) = write_side c"
  by (simp_all add: write_side_def)

lemma conn_ok_grows:
  assumes ok: "conn_ok sent c" and w: "write_side c' = write_side c"
    and g: "grows (cx_state c) (cx_state c')" and t: "table_ok (cx_state c')"
  shows "conn_ok sent c'"
proof -
  have sl: "sending_list c' = sending_list c" using w by (simp add: write_side_def sending_list_def)
  have gone: "\<forall>i\<in>set (sent @ sending_list c). i < rc_next (cx_state c) \<and> if_completed (rc_objects (cx_state c) i) \<and>
      rc_objects (cx_state c') i = rc_objects (cx_state c) i"
    using ok g by (auto simp: conn_ok_def answers_ok_def Let_def grows_def)
  have "answers_ok sent c'"
    unfolding answers_ok_def Let_def sl
  proof (intro conjI)
    have a: "distinct (sent @ sending_list c)" "set (sent @ sending_list c) \<inter> set (rc_pending (cx_state c)) = {}"
      "\<not> rc_stopping (cx_state c) \<Longrightarrow> {..<rc_next (cx_state c)} \<subseteq> set (sent @ sending_list c) \<union> set (rc_pending (cx_state c))"
      "rc_responses_sent (cx_state c) = length sent"
      using ok by (simp_all add: conn_ok_def answers_ok_def Let_def)
    have g': "rc_next (cx_state c) \<le> rc_next (cx_state c')" "rc_stopping (cx_state c') = rc_stopping (cx_state c)"
      "rc_responses_sent (cx_state c') = rc_responses_sent (cx_state c)"
      "set (rc_pending (cx_state c')) = set (rc_pending (cx_state c)) \<union> {rc_next (cx_state c)..<rc_next (cx_state c')}"
      using g by (simp_all add: grows_def)
    show "distinct (sent @ sending_list c)" "rc_responses_sent (cx_state c') = length sent" using a g' by simp_all
    show "\<forall>i\<in>set (sent @ sending_list c). i < rc_next (cx_state c') \<and> if_completed (rc_objects (cx_state c') i)"
    proof
      fix i assume "i \<in> set (sent @ sending_list c)"
      then show "i < rc_next (cx_state c') \<and> if_completed (rc_objects (cx_state c') i)"
        using bspec [OF gone, of i] less_le_trans [OF _ g'(1), of i] by simp
    qed
    show "set (sent @ sending_list c) \<inter> set (rc_pending (cx_state c')) = {}"
    proof (rule ccontr)
      assume "set (sent @ sending_list c) \<inter> set (rc_pending (cx_state c')) \<noteq> {}"
      then obtain i where i: "i \<in> set (sent @ sending_list c)" "i \<in> set (rc_pending (cx_state c'))" by blast
      then have "i < rc_next (cx_state c)" "i \<notin> set (rc_pending (cx_state c))" using bspec [OF gone i(1)] a(2) by blast+
      then show False using i(2) unfolding g'(4) by simp
    qed
    show "\<not> rc_stopping (cx_state c') \<longrightarrow>
        {..<rc_next (cx_state c')} \<subseteq> set (sent @ sending_list c) \<union> set (rc_pending (cx_state c'))"
    proof (intro impI subsetI)
      fix x assume "\<not> rc_stopping (cx_state c')" "x \<in> {..<rc_next (cx_state c')}"
      then show "x \<in> set (sent @ sending_list c) \<union> set (rc_pending (cx_state c'))"
        using a(3) unfolding g'(2,4) by (cases "x < rc_next (cx_state c)") auto
    qed
  qed
  moreover have "concat (map (\<lambda>i. response_frame (rc_objects (cx_state c') i)) sent) =
      concat (map (\<lambda>i. response_frame (rc_objects (cx_state c) i)) sent)"
    using gone by (intro arg_cong [of _ _ concat] map_cong) simp_all
  then have "output_ok sent c'"
    using ok w gone
    by (cases "cx_sending c") (auto simp: conn_ok_def output_ok_def Let_def write_side_def sending_list_def)
  ultimately show ?thesis using t by (simp add: conn_ok_def)
qed

lemma conn_ok_receive:
  assumes "conn_ok sent c" "write_side c' = write_side c" "cx_state c' = cx_state c"
  shows "conn_ok sent c'"
  using conn_ok_grows [OF assms(1,2)] assms(1,3) by (simp add: grows_refl conn_ok_def)

lemma conn_ok_protocol_error:
  "conn_ok sent c \<Longrightarrow> conn_ok sent (c \<lparr> cx_state := (cx_state c) \<lparr> rc_protocol_errors := n \<rparr> \<rparr>)"
  using conn_ok_grows [of sent c "c \<lparr> cx_state := (cx_state c) \<lparr> rc_protocol_errors := n \<rparr> \<rparr>"]
    protocol_error_table [where st = "cx_state c" and n = n]
  by (simp add: conn_ok_def)

lemma response_frame_detached: "response_frame (obj \<lparr> if_detached := d \<rparr>) = response_frame obj"
  by (simp add: response_frame_def)

lemma conn_ok_close:
  assumes "conn_ok sent c"
  shows "conn_ok sent (close_connection c)"
proof -
  have fr: "response_frame (rc_objects (stop_connection st) i) = response_frame (rc_objects st i)" for st i
    by (simp add: stop_connection_def response_frame_detached)
  have "table_ok (cx_state (close_connection c))"
    using assms by (simp add: conn_ok_def table_ok_def close_connection_def stop_connection_def)
  moreover have "answers_ok sent (close_connection c)"
    using assms by (auto simp: conn_ok_def answers_ok_def close_connection_def stop_connection_def Let_def sending_list_def)
  moreover have "output_ok sent (close_connection c)"
    using assms by (cases "cx_sending c") (auto simp: conn_ok_def output_ok_def close_connection_def fr)
  ultimately show ?thesis by (simp add: conn_ok_def)
qed

lemma try_receive_keeps:
  assumes "try_receive_one_request script conn = (ret, req, sc, c)"
  shows "write_side c = write_side conn" "cx_state c = cx_state conn"
  using assms
  by (auto simp: try_receive_one_request_def receive_body_def reset_connection_frame_def Let_def
      split: prod.splits if_splits)

lemma enqueue_refused_table:
  assumes "enqueue_inflight_response st hdr = Enq_refused st'"
  shows "\<exists>n. st' = st \<lparr> rc_protocol_errors := n \<rparr>"
  using assms by (auto simp: enqueue_inflight_response_def Let_def intro: exI [of _ "rc_protocol_errors st"] split: if_splits)

lemma conn_ok_accept:
  assumes "conn_ok sent c" "enqueue_inflight_response (cx_state c) hdr = Enq_accepted i st"
    "dispatch_request resolve i body st = (call, st')" "write_side c' = write_side c" "cx_state c' = st'"
  shows "conn_ok sent c'"
proof (rule conn_ok_grows [OF assms(1,4)])
  have "snd (dispatch_request resolve i body st) = st'" using assms(3) by simp
  then show "grows (cx_state c) (cx_state c')" "table_ok (cx_state c')"
    using enqueue_accepted_table(1,2) [OF assms(2)] assms(1,5) dispatch_grows [of st resolve i body]
      dispatch_table_ok [of st resolve i body] grows_trans
    by (auto simp: conn_ok_def)
qed

lemma io_loop_ok:
  "service_io_loop resolve script c = (new, c') \<Longrightarrow> conn_ok sent c \<Longrightarrow> conn_ok sent c'"
proof (induction resolve script c arbitrary: new c' rule: service_io_loop.induct)
  case (1 resolve script c)
  obtain ret req sc c1 where r: "try_receive_one_request script c = (ret, req, sc, c1)"
    by (cases "try_receive_one_request script c")
  have ok1: "conn_ok sent c1" using conn_ok_receive [OF 1(3)] try_receive_keeps [OF r] by simp
  consider "ret < 0" | "ret = 0" | "0 < ret" by linarith
  then show ?case
  proof cases
    case pos: 3
    obtain hdr body where hb: "the req = (hdr, body)" by (cases "the req")
    show ?thesis
    proof (cases "enqueue_inflight_response (cx_state c1) hdr")
      case Enq_waits
      then have "c' = c1 \<lparr> cx_waiting := Some (hdr, body) \<rparr>"
        using 1(2) r pos hb by (subst (asm) service_io_loop.simps) simp
      then show ?thesis using conn_ok_receive [OF ok1] by simp
    next
      case (Enq_refused st)
      then have "c' = close_connection (c1 \<lparr> cx_state := st \<rparr>)"
        using 1(2) r pos hb by (subst (asm) service_io_loop.simps) simp
      moreover obtain n where "st = (cx_state c1) \<lparr> rc_protocol_errors := n \<rparr>"
        using enqueue_refused_table [OF Enq_refused] by blast
      ultimately show ?thesis using conn_ok_close conn_ok_protocol_error [OF ok1] by simp
    next
      case (Enq_accepted i st)
      obtain call st' where d: "dispatch_request resolve i body st = (call, st')"
        by (cases "dispatch_request resolve i body st")
      obtain calls c2 where l: "service_io_loop resolve sc (c1 \<lparr> cx_state := st' \<rparr>) = (calls, c2)"
        by (cases "service_io_loop resolve sc (c1 \<lparr> cx_state := st' \<rparr>)")
      have "c' = c2" using 1(2) r pos hb Enq_accepted d l by (subst (asm) service_io_loop.simps) simp
      moreover have "conn_ok sent (c1 \<lparr> cx_state := st' \<rparr>)"
        by (rule conn_ok_accept [OF ok1 Enq_accepted d]) simp_all
      ultimately show ?thesis
        using 1(1) [OF r [symmetric] refl refl _ _ refl hb [symmetric] Enq_accepted d [symmetric] l] pos by simp
    qed
  qed (use 1(2) r ok1 conn_ok_close conn_ok_protocol_error in \<open>auto simp: service_io_loop.simps [of resolve script c]\<close>)
qed

lemma service_io_ok:
  "service_connection_io resolve hup readable script c = (new, c') \<Longrightarrow> conn_ok sent c \<Longrightarrow> conn_ok sent c'"
  using io_loop_ok conn_ok_close by (auto simp: service_connection_io_def split: if_splits)

lemma resume_ok:
  assumes r: "resume_waiting resolve script c = (new, c')" and ok: "conn_ok sent c"
  shows "conn_ok sent c'"
proof (cases "cx_waiting c")
  case None
  then show ?thesis using r ok by (simp add: resume_waiting_def)
next
  case (Some hb)
  obtain hdr body where hb: "hb = (hdr, body)" by (cases hb)
  define c1 where "c1 = c \<lparr> cx_waiting := None \<rparr>"
  have ok1: "conn_ok sent c1" using conn_ok_receive [OF ok] by (simp add: c1_def)
  have st1: "cx_state c1 = cx_state c" by (simp add: c1_def)
  show ?thesis
  proof (cases "enqueue_inflight_response (cx_state c) hdr")
    case Enq_waits
    then show ?thesis using r ok Some hb by (simp add: resume_waiting_def)
  next
    case (Enq_refused st)
    then have "c' = close_connection (c1 \<lparr> cx_state := st \<rparr>)" using r Some hb by (simp add: resume_waiting_def c1_def)
    moreover obtain n where "st = (cx_state c1) \<lparr> rc_protocol_errors := n \<rparr>"
      using enqueue_refused_table [OF Enq_refused] st1 by auto
    ultimately show ?thesis using conn_ok_close conn_ok_protocol_error [OF ok1] by simp
  next
    case (Enq_accepted i st)
    obtain call st' where d: "dispatch_request resolve i body st = (call, st')"
      by (cases "dispatch_request resolve i body st")
    obtain calls c2 where l: "service_io_loop resolve script (c1 \<lparr> cx_state := st' \<rparr>) = (calls, c2)"
      by (cases "service_io_loop resolve script (c1 \<lparr> cx_state := st' \<rparr>)")
    have "c' = c2" using r Some hb Enq_accepted d l by (simp add: resume_waiting_def c1_def)
    moreover have "conn_ok sent (c1 \<lparr> cx_state := st' \<rparr>)"
      by (rule conn_ok_accept [OF ok1 Enq_accepted [folded st1] d]) simp_all
    ultimately show ?thesis using io_loop_ok [OF l] by simp
  qed
qed

section \<open>Writing responses\<close>

lemma take_ready_ok:
  assumes ok: "conn_ok sent c" and s: "cx_sending c = None" and r: "rc_ready (cx_state c) = i # rest"
  shows "conn_ok sent (take_ready i (c \<lparr> cx_state := (cx_state c) \<lparr> rc_ready := rest \<rparr> \<rparr>))"
proof -
  define d where "d = take_ready i (c \<lparr> cx_state := (cx_state c) \<lparr> rc_ready := rest \<rparr> \<rparr>)"
  define st where "st = cx_state c"
  let ?seq = "\<lambda>j. rh_seq (if_request_header (rc_objects st j))"
  have t: "table_ok st" using ok by (simp add: conn_ok_def st_def)
  then have rd: "set (i # rest) = {j \<in> set (rc_pending st). if_completed (rc_objects st j)}" "i \<notin> set rest" "distinct rest"
    using r by (simp_all add: table_ok_def st_def)
  have i: "i \<in> set (rc_pending st)" "if_completed (rc_objects st i)" using rd(1) by auto
  have ns: "\<not> rc_stopping st" using i t by (auto simp: table_ok_def)
  have seq: "?seq j = ?seq i \<Longrightarrow> j = i" if "j \<in> set (rc_pending st)" for j
  proof -
    assume e: "?seq j = ?seq i"
    have "(?seq i, j) \<in> set (rc_inflight_by_seq st)" "(?seq i, i) \<in> set (rc_inflight_by_seq st)"
      using t that i(1) e by (auto simp: table_ok_def)
    then show "j = i" using t by (auto simp: table_ok_def dest: eq_key_imp_eq_value)
  qed
  have d: "cx_sending d = Some i" "cx_send_frame d = response_frame (rc_objects st i)" "cx_output d = cx_output c"
    "cx_send_bytes d = cx_send_bytes c" "rc_pending (cx_state d) = remove1 i (rc_pending st)" "rc_ready (cx_state d) = rest"
    "rc_objects (cx_state d) = rc_objects st" "rc_next (cx_state d) = rc_next st"
    "rc_inflight_by_seq (cx_state d) = filter (\<lambda>(s, _). s \<noteq> ?seq i) (rc_inflight_by_seq st)"
    "rc_stopping (cx_state d) = rc_stopping st" "rc_requests_received (cx_state d) = rc_requests_received st"
    "rc_responses_sent (cx_state d) = rc_responses_sent st"
    by (simp_all add: d_def take_ready_def Let_def st_def)
  have pend: "set (rc_pending (cx_state d)) = set (rc_pending st) - {i}" using t by (simp add: d table_ok_def)
  have "table_ok (cx_state d)"
    unfolding table_ok_def
  proof (intro conjI)
    show "\<forall>j. length (if_response_body (rc_objects (cx_state d) j)) \<le> max_raw_body_len" using t by (simp add: d table_ok_def)
    show "distinct (rc_pending (cx_state d))" "length (rc_pending (cx_state d)) \<le> 128" "distinct (rc_ready (cx_state d))"
      "rc_stopping (cx_state d) \<longrightarrow> rc_pending (cx_state d) = []" "rc_requests_received (cx_state d) = rc_next (cx_state d)"
      using t rd(3) i(1) by (auto simp: d table_ok_def length_remove1 ns)
    show "distinct (map fst (rc_inflight_by_seq (cx_state d)))" using t by (simp add: d table_ok_def distinct_map_filter)
    show "\<forall>j\<in>set (rc_pending (cx_state d)). j < rc_next (cx_state d) \<and>
        (rh_seq (if_request_header (rc_objects (cx_state d) j)), j) \<in> set (rc_inflight_by_seq (cx_state d))"
      using t seq unfolding pend by (auto simp: d table_ok_def)
    show "\<forall>(s, j)\<in>set (rc_inflight_by_seq (cx_state d)). j \<in> set (rc_pending (cx_state d)) \<and>
        s = rh_seq (if_request_header (rc_objects (cx_state d) j))"
      using t unfolding pend by (auto simp: d table_ok_def)
    show "set (rc_ready (cx_state d)) = {j \<in> set (rc_pending (cx_state d)). if_completed (rc_objects (cx_state d) j)}"
      using rd unfolding pend by (auto simp: d)
  qed
  moreover have "answers_ok sent d"
  proof -
    have a: "distinct sent" "set sent \<inter> set (rc_pending st) = {}" "\<forall>j\<in>set sent. j < rc_next st \<and> if_completed (rc_objects st j)"
      "{..<rc_next st} \<subseteq> set sent \<union> set (rc_pending st)" "rc_responses_sent st = length sent"
      using ok s ns by (simp_all add: conn_ok_def answers_ok_def Let_def sending_list_def st_def)
    have "i < rc_next st" using t i(1) by (simp add: table_ok_def)
    then show ?thesis using a i pend
      by (auto simp: answers_ok_def Let_def sending_list_def d(1,5,7,8,10,12) simp flip: d(5))
  qed
  moreover have "output_ok sent d"
    using ok s by (simp add: conn_ok_def output_ok_def d st_def)
  ultimately show ?thesis by (simp add: conn_ok_def d_def)
qed

lemma flush_ok:
  assumes f: "flush_connection_send_frame script c = (ret, sc, c')" and ok: "conn_ok sent c" and s: "cx_sending c = Some i"
  shows "conn_ok sent c'" "cx_sending c' = Some i" "0 < ret \<Longrightarrow> conn_ok (sent @ [i]) (note_sent c')"
proof -
  note k = flush_keeps [OF f]
  show s': "cx_sending c' = Some i" using k s by simp
  define F where "F = concat (map (\<lambda>i. response_frame (rc_objects (cx_state c) i)) sent)"
  have o: "cx_send_bytes c \<le> length (cx_send_frame c)" "cx_send_frame c = response_frame (rc_objects (cx_state c) i)"
    "cx_output c = F @ take (cx_send_bytes c) (cx_send_frame c)"
    using ok s by (auto simp: conn_ok_def output_ok_def F_def)
  note fo = flush_output [OF f o(1)]
  have out: "cx_output c' = F @ take (cx_send_bytes c') (cx_send_frame c)"
    using fo take_drop_step [of 0 "cx_send_bytes c" "cx_send_bytes c'" "cx_send_frame c"] by (simp add: o(3))
  have ta: "table_ok (cx_state c')" "answers_ok sent c'"
    using ok k by (simp_all add: conn_ok_def answers_ok_def sending_list_def)
  then show "conn_ok sent c'"
    using fo out by (simp add: conn_ok_def output_ok_def s' k F_def o(2)) 
  show "conn_ok (sent @ [i]) (note_sent c')" if "0 < ret"
  proof -
    have "cx_output c' = F @ response_frame (rc_objects (cx_state c) i)" using fo out that o(2) by simp
    then have "output_ok (sent @ [i]) (note_sent c')"
      by (simp add: output_ok_def note_sent_def reset_connection_send_def Let_def k F_def)
    moreover have "table_ok (cx_state (note_sent c'))"
      using ta(1) by (simp add: note_sent_def reset_connection_send_def Let_def table_ok_def)
    moreover have "answers_ok (sent @ [i]) (note_sent c')"
      using ta(2) s' by (simp add: note_sent_def reset_connection_send_def Let_def answers_ok_def sending_list_def)
    ultimately show ?thesis by (simp add: conn_ok_def)
  qed
qed

lemma write_ok:
  "conn_ok sent c \<Longrightarrow> \<exists>more. conn_ok (sent @ more) (service_connection_write running script c)"
proof (induction running script c arbitrary: sent rule: service_connection_write.induct)
  case (1 running script c)
  show ?case
  proof (cases "cx_done c \<or> \<not> running \<or> rc_stopping (cx_state c)")
    case True
    then show ?thesis using 1(4) by (intro exI [of _ "[]"]) (subst service_connection_write.simps, simp)
  next
    case go: False
    show ?thesis
    proof (cases "cx_sending c")
      case None
      show ?thesis
      proof (cases "rc_ready (cx_state c)")
        case Nil
        then show ?thesis using 1(4) go None
          by (intro exI [of _ "[]"]) (subst service_connection_write.simps, simp)
      next
        case (Cons i rest)
        define c1 where "c1 = c \<lparr> cx_state := (cx_state c) \<lparr> rc_ready := rest \<rparr> \<rparr>"
        have i: "i \<in> set (rc_pending (cx_state c))" using 1(4) Cons by (auto simp: conn_ok_def table_ok_def)
        have tok: "conn_ok sent (take_ready i c1)" unfolding c1_def by (rule take_ready_ok [OF 1(4) None Cons])
        have ts: "cx_sending (take_ready i c1) = Some i" by (simp add: take_ready_def Let_def)
        obtain ret sc c2 where f: "flush_connection_send_frame script (take_ready i c1) = (ret, sc, c2)"
          by (cases "flush_connection_send_frame script (take_ready i c1)")
        note fl = flush_ok [OF f tok ts]
        have eq: "service_connection_write running script c =
            (if ret < 0 then close_connection c2 else if ret = 0 then c2 else service_connection_write running sc (note_sent c2))"
          using go None Cons i f by (subst service_connection_write.simps) (simp add: c1_def Let_def)
        show ?thesis
        proof (cases "0 < ret")
          case True
          have "\<exists>more. conn_ok ((sent @ [i]) @ more) (service_connection_write running sc (note_sent c2))"
            using 1(2) [OF _ None Cons c1_def _ f [symmetric] refl _ _ fl(3)] go i True by simp
          then show ?thesis using eq True by auto
        next
          case False
          then show ?thesis using eq fl(1) conn_ok_close by (intro exI [of _ "[]"]) auto
        qed
      qed
    next
      case (Some i)
      obtain ret sc c2 where f: "flush_connection_send_frame script c = (ret, sc, c2)"
        by (cases "flush_connection_send_frame script c")
      note fl = flush_ok [OF f 1(4) Some]
      have eq: "service_connection_write running script c =
          (if ret < 0 then close_connection c2 else if ret = 0 then c2 else service_connection_write running sc (note_sent c2))"
        using go Some f by (subst service_connection_write.simps, simp)
      show ?thesis
      proof (cases "0 < ret")
        case True
        have "\<exists>more. conn_ok ((sent @ [i]) @ more) (service_connection_write running sc (note_sent c2))"
          using 1(3) [OF _ Some f [symmetric] refl _ _ fl(3)] go True by simp
        then show ?thesis using eq True by auto
      next
        case False
        then show ?thesis using eq fl(1) conn_ok_close by (intro exI [of _ "[]"]) auto
      qed
    qed
  qed
qed

text \<open>The invariant holds in every history.\<close>

lemma run_ok: "osd_run resolve c calls \<Longrightarrow> \<exists>sent. conn_ok sent c"
proof (induction rule: osd_run.induct)
  case accepted
  show ?case using start_ok by blast
next
  case (arrive c calls bs)
  then obtain sent where "conn_ok sent c" by blast
  then have "conn_ok sent (c \<lparr> cx_input := cx_input c @ bs \<rparr>)" by (rule conn_ok_receive) simp_all
  then show ?case by blast
next
  case (io c calls hup readable script new c')
  then show ?case using service_io_ok by blast
next
  case (resume c calls script new c')
  then show ?case using resume_ok by blast
next
  case (read_callback c calls i pool pg offset len name state data)
  then obtain sent where ok: "conn_ok sent c" by blast
  then have "conn_ok sent (c \<lparr> cx_state := read_done i state data (cx_state c) \<rparr>)"
    by (rule conn_ok_grows) (use ok in \<open>simp_all add: read_done_table conn_ok_def\<close>)
  then show ?case by blast
next
  case (write_callback c calls i call state)
  then obtain sent where ok: "conn_ok sent c" by blast
  then have "conn_ok sent (c \<lparr> cx_state := write_done i state (cx_state c) \<rparr>)"
    by (rule conn_ok_grows) (use ok in \<open>simp_all add: read_done_table conn_ok_def\<close>)
  then show ?case by blast
next
  case (send_out c calls running script)
  then show ?case using write_ok by blast
next
  case (stop c calls)
  then show ?case using conn_ok_close by blast
qed

section \<open>A full table blocks its only reader\<close>

text \<open>Only the writing side removes a pending request, and it runs in the thread that waits for room: completions
  by the service leave a full table full, so the wait of \<^verbatim>\<open>enqueue_inflight_response\<close> goes on.\<close>

lemma full_table_keeps_waiting:
  assumes "enqueue_inflight_response st hdr = Enq_waits"
  shows "enqueue_inflight_response (read_done i state data st) hdr = Enq_waits"
    "enqueue_inflight_response (write_done i state st) hdr = Enq_waits"
proof -
  have "enqueue_inflight_response (complete_inflight_response i status body st) hdr = Enq_waits" for status body
    using assms
    by (auto simp: enqueue_inflight_response_def complete_inflight_response_def Let_def split: if_splits)
  then show "enqueue_inflight_response (read_done i state data st) hdr = Enq_waits"
    "enqueue_inflight_response (write_done i state st) hdr = Enq_waits"
    by (simp_all add: read_done_def write_done_def)
qed

end
