(* ===== verification/KFB_Mux.thy ===== *)
theory KFB_Mux
  imports KFB_Decode
begin

text \<open>
  Sharing one OSD socket between requests, the multiplexer of \<^verbatim>\<open>kfastblock/src/transport.c\<close>: a request registers a
  waiter under its sequence number and sends its bytes; one receive work reads responses and completes the waiter
  each response belongs to. A completed waiter is a triple of the waiter, the result and the response it was given.
\<close>

type_synonym mux_completion = "mux_waiter \<times> int \<times> response_ctx"

definition kfastblock_transport_osd_mux_socket_init :: "cached_socket \<Rightarrow> cached_socket" where
  "kfastblock_transport_osd_mux_socket_init c = (if cs_mux_initialized c then c else c \<lparr> cs_mux_initialized := True \<rparr>)"

definition kfastblock_transport_find_mux_waiter_locked :: "cached_socket \<Rightarrow> u64 \<Rightarrow> mux_waiter option" where
  "kfastblock_transport_find_mux_waiter_locked c seq =
     (if seq = 0 then None else find (\<lambda>w. mw_seq w = seq) (cs_mux_waiters c))"

definition kfastblock_transport_fail_mux_waiters :: "int \<Rightarrow> cached_socket \<Rightarrow> mux_completion list \<times> cached_socket" where
  "kfastblock_transport_fail_mux_waiters ret c =
     (map (\<lambda>w. (w, ret, kfastblock_transport_response_ctx_reset)) (cs_mux_waiters c),
      c \<lparr> cs_mux_waiters := [], cs_mux_inflight := 0 \<rparr>)"

text \<open>The receive work. \<open>al\<close> holds, response by response, whether the buffer for its body can be allocated. Every
  iteration that does not return completes a waiter, so the loop ends.\<close>

definition mux_dec :: "u32 \<Rightarrow> u32" where
  "mux_dec n = (if n \<noteq> 0 then n - 1 else n)"

function kfastblock_transport_osd_mux_recv_work ::
    "allocs \<Rightarrow> sock \<Rightarrow> cached_socket \<Rightarrow> mux_completion list \<times> sock \<times> cached_socket" where
  "kfastblock_transport_osd_mux_recv_work al s c =
     (if cs_mux_inflight c = 0 then ([], s, c)
      else case kalloc al of (ok, al') \<Rightarrow>
        (case kfastblock_transport_recv_raw_osd_response ok s of (ret, rsp, s') \<Rightarrow>
           if ret \<noteq> 0 then (case kfastblock_transport_fail_mux_waiters ret c of (dn, c') \<Rightarrow> (dn, s', c'))
           else (let rsp' = rsp \<lparr> rs_ret := kfastblock_transport_status_to_errno (rh_status (rs_hdr rsp)) \<rparr>
                 in case kfastblock_transport_find_mux_waiter_locked c (rh_seq (rs_hdr rsp)) of
                      None \<Rightarrow> (case kfastblock_transport_fail_mux_waiters (- EPROTO) c of (dn, c') \<Rightarrow> (dn, s', c'))
                    | Some w \<Rightarrow>
                        (case kfastblock_transport_osd_mux_recv_work al' s'
                                (c \<lparr> cs_mux_waiters := remove1 w (cs_mux_waiters c),
                                     cs_mux_inflight := mux_dec (cs_mux_inflight c) \<rparr>) of
                           (dn, s2, c2) \<Rightarrow> ((w, rs_ret rsp', rsp') # dn, s2, c2)))))"
  by pat_completeness auto
termination
  by (relation "measure (\<lambda>(al, s, c). length (cs_mux_waiters c))")
    (auto simp: kfastblock_transport_find_mux_waiter_locked_def length_remove1 find_Some_iff
      split: if_splits intro: length_pos_if_in_set)

declare kfastblock_transport_osd_mux_recv_work.simps [simp del]

section \<open>Requests on a shared socket\<close>

definition kfastblock_transport_next_shared_seq :: "u64 \<Rightarrow> cached_socket \<Rightarrow> u64 \<times> cached_socket" where
  "kfastblock_transport_next_shared_seq now c = kfastblock_osd_conn_slot_next_seq_locked now c"

definition kfastblock_transport_init_mux_waiter :: "nat \<Rightarrow> u64 \<Rightarrow> u8 \<Rightarrow> u8 \<Rightarrow> mux_waiter" where
  "kfastblock_transport_init_mux_waiter i seq service opcode =
     \<lparr> mw_id = i, mw_seq = seq, mw_service = service, mw_opcode = opcode \<rparr>"

definition kfastblock_transport_register_mux_waiter :: "mux_waiter \<Rightarrow> cached_socket \<Rightarrow> int \<times> cached_socket" where
  "kfastblock_transport_register_mux_waiter w c =
     (if cs_mux_dead c then (- ENOTCONN, c)
      else (0, c \<lparr> cs_mux_waiters := cs_mux_waiters c @ [w], cs_mux_inflight := cs_mux_inflight c + 1 \<rparr>))"

definition kfastblock_transport_unregister_mux_waiter :: "mux_waiter \<Rightarrow> cached_socket \<Rightarrow> cached_socket" where
  "kfastblock_transport_unregister_mux_waiter w c =
     (if w \<in> set (cs_mux_waiters c)
      then c \<lparr> cs_mux_waiters := remove1 w (cs_mux_waiters c), cs_mux_inflight := mux_dec (cs_mux_inflight c) \<rparr>
      else c)"

text \<open>\<^verbatim>\<open>exec_mux_request_parts\<close> up to the wait for its completion: the request is registered and sent, or refused.\<close>

definition kfastblock_transport_exec_mux_request_parts ::
    "nat \<Rightarrow> u8 \<Rightarrow> u8 \<Rightarrow> u64 \<Rightarrow> u8 list list \<Rightarrow> sock \<Rightarrow> cached_socket \<Rightarrow> int \<times> sock \<times> cached_socket" where
  "kfastblock_transport_exec_mux_request_parts i service opcode seq parts s c =
     (let w = kfastblock_transport_init_mux_waiter i seq service opcode
      in case kfastblock_transport_register_mux_waiter w c of (ret, c1) \<Rightarrow>
           if ret \<noteq> 0 then (ret, s, c1)
           else if cs_sock c1 = None \<or> cs_mux_dead c1
           then (- ENOTCONN, s, kfastblock_transport_unregister_mux_waiter w c1)
           else (case kfastblock_transport_send_request_parts s service opcode seq parts of (ret, s') \<Rightarrow>
                   if ret \<noteq> 0 then (ret, s', kfastblock_transport_unregister_mux_waiter w c1)
                   else (0, s', c1)))"

section \<open>Object requests\<close>

definition read_object_parts :: "u32 \<Rightarrow> object_extent \<Rightarrow> u8 list list" where
  "read_object_parts pool_id extent =
     [enc_read_object_req \<lparr> rq_pool_id = pool_id, rq_pg_id = ox_pg_id extent, rq_offset = ucast (ox_object_offset extent),
        rq_length = ox_length extent, rq_object_name_len = of_nat (length (ox_object_name extent)), rq_reserved = 0 \<rparr>,
      str_bytes (ox_object_name extent)]"

definition write_object_parts :: "u32 \<Rightarrow> object_extent \<Rightarrow> u8 list \<Rightarrow> u8 list list" where
  "write_object_parts pool_id extent data =
     [enc_write_object_req \<lparr> wq_pool_id = pool_id, wq_pg_id = ox_pg_id extent, wq_offset = ucast (ox_object_offset extent),
        wq_data_len = ox_length extent, wq_object_name_len = of_nat (length (ox_object_name extent)), wq_reserved = 0 \<rparr>,
      str_bytes (ox_object_name extent), take (unat (ox_length extent)) data]"

definition delete_object_parts :: "u32 \<Rightarrow> object_extent \<Rightarrow> u8 list list" where
  "delete_object_parts pool_id extent =
     [enc_delete_object_req \<lparr> dq_pool_id = pool_id, dq_pg_id = ox_pg_id extent,
        dq_object_name_len = of_nat (length (ox_object_name extent)), dq_reserved = 0 \<rparr>,
      str_bytes (ox_object_name extent)]"

definition kfastblock_transport_write_object ::
    "nat \<Rightarrow> u32 \<Rightarrow> object_extent \<Rightarrow> u8 list \<Rightarrow> u64 \<Rightarrow> sock \<Rightarrow> cached_socket \<Rightarrow> int \<times> sock \<times> cached_socket" where
  "kfastblock_transport_write_object i pool_id extent data seq s c =
     kfastblock_transport_exec_mux_request_parts i KFASTBLOCK_RAW_SERVICE_OSD KFASTBLOCK_RAW_OSD_OP_WRITE_OBJECT seq
       (write_object_parts pool_id extent data) s c"

definition kfastblock_transport_read_object ::
    "nat \<Rightarrow> u32 \<Rightarrow> object_extent \<Rightarrow> u64 \<Rightarrow> sock \<Rightarrow> cached_socket \<Rightarrow> int \<times> sock \<times> cached_socket" where
  "kfastblock_transport_read_object i pool_id extent seq s c =
     kfastblock_transport_exec_mux_request_parts i KFASTBLOCK_RAW_SERVICE_OSD KFASTBLOCK_RAW_OSD_OP_READ_OBJECT seq
       (read_object_parts pool_id extent) s c"

definition kfastblock_transport_delete_object ::
    "nat \<Rightarrow> u32 \<Rightarrow> object_extent \<Rightarrow> u64 \<Rightarrow> sock \<Rightarrow> cached_socket \<Rightarrow> int \<times> sock \<times> cached_socket" where
  "kfastblock_transport_delete_object i pool_id extent seq s c =
     kfastblock_transport_exec_mux_request_parts i KFASTBLOCK_RAW_SERVICE_OSD KFASTBLOCK_RAW_OSD_OP_DELETE_OBJECT seq
       (delete_object_parts pool_id extent) s c"

text \<open>What \<^verbatim>\<open>read_object\<close> does when its waiter is completed: the data for the caller's buffer, or the error.\<close>

definition read_object_done :: "object_extent \<Rightarrow> int \<Rightarrow> response_ctx \<Rightarrow> int + u8 list" where
  "read_object_done extent ret response =
     (if ret \<noteq> 0 then Inl ret else kfastblock_transport_response_decode_read_object response extent)"

definition get_leader_parts :: "u32 \<Rightarrow> u32 \<Rightarrow> u8 list list" where
  "get_leader_parts pool_id pg_id = [enc_get_leader_req \<lparr> lq_pool_id = pool_id, lq_pg_id = pg_id \<rparr>]"

text \<open>\<^verbatim>\<open>fetch_pg_leader_from_osd\<close> when its waiter is completed. The result of the decoder is dropped: a response
  that could not be decoded is reported as success.\<close>

definition fetch_pg_leader_done :: "int \<Rightarrow> response_ctx \<Rightarrow> int \<times> leader_info" where
  "fetch_pg_leader_done ret response =
     (if ret \<noteq> 0 then (ret, zero_leader)
      else (0, snd (kfastblock_transport_response_decode_leader response zero_leader)))"

section \<open>Responses find their request\<close>

definition osd_response :: "raw_header \<Rightarrow> u8 list \<Rightarrow> response_ctx" where
  "osd_response h body =
     \<lparr> rs_hdr = h \<lparr> rh_body_len := of_nat (length body) \<rparr>, rs_body = (if body = [] then None else Some body),
       rs_body_len = of_nat (length body), rs_ret = kfastblock_transport_status_to_errno (rh_status h) \<rparr>"

text \<open>A header an OSD answers with.\<close>

definition osd_answer :: "raw_header \<Rightarrow> bool" where
  "osd_answer h \<longleftrightarrow> rh_magic h = KFASTBLOCK_RAW_MAGIC \<and> rh_version_major h = KFASTBLOCK_RAW_VERSION_MAJOR \<and>
     rh_service h = KFASTBLOCK_RAW_SERVICE_OSD \<and> is_response h"

lemma recv_raw_osd_response_frame:
  assumes mv: "moving s" and inp: "so_in s = frame h body @ rest" and len: "length body < 2 ^ 32" and h: "osd_answer h"
  obtains s' where "so_in s' = rest" "so_out s' = so_out s" "moving s'"
    "kfastblock_transport_recv_raw_osd_response True s = (0, (osd_response h body) \<lparr> rs_ret := 0 \<rparr>, s')"
proof -
  obtain r2 hb s2 where hd: "kfastblock_transport_recv_all s 28 = (r2, hb, s2)" by (cases "kfastblock_transport_recv_all s 28")
  obtain r3 bb s3 where bd: "kfastblock_transport_recv_all s2 (length body) = (r3, bb, s3)"
    by (cases "kfastblock_transport_recv_all s2 (length body)")
  note rf = recv_frame [OF mv inp len hd bd]
  have bl: "unat (of_nat (length body) :: u32) = length body" using len by (simp add: unat_of_nat_small)
  then have bz: "(of_nat (length body) :: u32) = 0 \<longleftrightarrow> body = []" by (metis length_0_conv unat_eq_zero)
  have s2: "s3 = s2" if "body = []" using bd that by (simp add: kfastblock_transport_recv_all.simps)
  show ?thesis
    using rf(1-4) hd bd s2 h
    by (intro that [OF rf(5,9,8)])
      (simp add: kfastblock_transport_recv_raw_osd_response_def osd_answer_def is_response_def bl bz Let_def
        kfastblock_transport_response_ctx_reset_def osd_response_def)
qed

type_synonym mux_answer = "mux_waiter \<times> raw_header \<times> u8 list"

definition answer_bytes :: "mux_answer list \<Rightarrow> u8 list" where
  "answer_bytes as = concat (map (\<lambda>(w, h, body). frame h body) as)"

definition answer_completions :: "mux_answer list \<Rightarrow> mux_completion list" where
  "answer_completions as = map (\<lambda>(w, h, body). (w, rs_ret (osd_response h body), osd_response h body)) as"

text \<open>The answers are well-formed, and each carries the sequence number of the waiter it is for.\<close>

definition mux_answers_ok :: "mux_answer list \<Rightarrow> bool" where
  "mux_answers_ok as \<longleftrightarrow> (\<forall>(w, h, body)\<in>set as. osd_answer h \<and> rh_seq h = mw_seq w \<and> length body < 2 ^ 32)"

lemma find_mux_waiter_unique:
  assumes "w \<in> set (cs_mux_waiters c)" "distinct (map mw_seq (cs_mux_waiters c))" "mw_seq w \<noteq> 0"
  shows "kfastblock_transport_find_mux_waiter_locked c (mw_seq w) = Some w"
proof -
  obtain v where f: "find (\<lambda>v. mw_seq v = mw_seq w) (cs_mux_waiters c) = Some v"
    using assms(1) by (cases "find (\<lambda>v. mw_seq v = mw_seq w) (cs_mux_waiters c)") (auto simp: find_None_iff)
  then have "v \<in> set (cs_mux_waiters c)" "mw_seq v = mw_seq w" by (auto simp: find_Some_iff)
  then have "v = w" using assms(1,2) by (auto simp: distinct_map dest: inj_onD)
  then show ?thesis using f assms(3) by (simp add: kfastblock_transport_find_mux_waiter_locked_def)
qed

lemma of_nat_u32_zero:
  assumes "n < 2 ^ 32"
  shows "(of_nat n :: u32) = 0 \<longleftrightarrow> n = 0"
proof -
  have u: "unat (of_nat n :: u32) = n" by (rule unat_of_nat_small) (use assms in simp)
  show ?thesis unfolding unat_eq_zero [symmetric] u ..
qed

lemma mux_recv_work_answers:
  assumes "moving s" "so_in s = answer_bytes as @ rest" "mux_answers_ok as"
    "distinct (map mw_seq (cs_mux_waiters c))" "0 \<notin> mw_seq ` set (cs_mux_waiters c)"
    "distinct (map fst as)" "fst ` set as = set (cs_mux_waiters c)"
    "cs_mux_inflight c = of_nat (length (cs_mux_waiters c))" "length (cs_mux_waiters c) < 2 ^ 32"
  shows "\<exists>s'. kfastblock_transport_osd_mux_recv_work [] s c =
      (answer_completions as, s', c \<lparr> cs_mux_waiters := [], cs_mux_inflight := 0 \<rparr>) \<and>
    so_in s' = rest \<and> so_out s' = so_out s"
  using assms
proof (induction as arbitrary: s c)
  case Nil
  then have "cs_mux_waiters c = []" "cs_mux_inflight c = 0" by auto
  then show ?case using Nil(2)
    by (intro exI [of _ s]) (simp add: kfastblock_transport_osd_mux_recv_work.simps answer_completions_def answer_bytes_def)
next
  case (Cons a as)
  obtain w h body where a: "a = (w, h, body)" by (cases a)
  have h: "osd_answer h" "rh_seq h = mw_seq w" "length body < 2 ^ 32" using Cons.prems(3) by (auto simp: mux_answers_ok_def a)
  have inp: "so_in s = frame h body @ (answer_bytes as @ rest)" using Cons.prems(2) by (simp add: answer_bytes_def a)
  obtain s1 where s1: "so_in s1 = answer_bytes as @ rest" "so_out s1 = so_out s" "moving s1"
    "kfastblock_transport_recv_raw_osd_response True s = (0, (osd_response h body) \<lparr> rs_ret := 0 \<rparr>, s1)"
    by (rule recv_raw_osd_response_frame [OF Cons.prems(1) inp h(3,1)])
  have w: "w \<in> set (cs_mux_waiters c)" using Cons.prems(7) by (auto simp: a)
  have dw: "distinct (cs_mux_waiters c)" using Cons.prems(4) by (simp add: distinct_map)
  have f: "kfastblock_transport_find_mux_waiter_locked c (rh_seq h) = Some w"
  proof -
    have "mw_seq w \<noteq> 0" using Cons.prems(5) w by (metis imageI)
    then show ?thesis using find_mux_waiter_unique [OF w Cons.prems(4)] h(2) by simp
  qed
  define c1 where "c1 = c \<lparr> cs_mux_waiters := remove1 w (cs_mux_waiters c), cs_mux_inflight := mux_dec (cs_mux_inflight c) \<rparr>"
  have ws: "cs_mux_waiters c1 = remove1 w (cs_mux_waiters c)" by (simp add: c1_def)
  obtain m where m: "length (cs_mux_waiters c) = Suc m" using w by (cases "cs_mux_waiters c") auto
  have i: "cs_mux_inflight c \<noteq> 0" unfolding Cons.prems(8) using of_nat_u32_zero [OF Cons.prems(9)] m by simp
  have "\<exists>s'. kfastblock_transport_osd_mux_recv_work [] s1 c1 =
      (answer_completions as, s', c1 \<lparr> cs_mux_waiters := [], cs_mux_inflight := 0 \<rparr>) \<and> so_in s' = rest \<and> so_out s' = so_out s1"
  proof (rule Cons.IH [OF s1(3,1)])
    show "mux_answers_ok as" "distinct (map fst as)" using Cons.prems(3,6) by (simp_all add: mux_answers_ok_def)
    show "distinct (map mw_seq (cs_mux_waiters c1))"
      using Cons.prems(4) by (auto simp: ws distinct_map inj_on_diff)
    show "0 \<notin> mw_seq ` set (cs_mux_waiters c1)" using Cons.prems(5) set_remove1_subset by (fastforce simp: ws)
    show "fst ` set as = set (cs_mux_waiters c1)" using Cons.prems(6,7) dw by (auto simp: ws a image_iff)
    show "cs_mux_inflight c1 = of_nat (length (cs_mux_waiters c1))"
      using Cons.prems(8) i m w by (simp add: c1_def mux_dec_def length_remove1)
    show "length (cs_mux_waiters c1) < 2 ^ 32" using Cons.prems(9) by (auto simp: ws length_remove1)
  qed
  then obtain s' where s': "kfastblock_transport_osd_mux_recv_work [] s1 c1 =
      (answer_completions as, s', c1 \<lparr> cs_mux_waiters := [], cs_mux_inflight := 0 \<rparr>)" "so_in s' = rest" "so_out s' = so_out s1"
    by blast
  have "(osd_response h body) \<lparr> rs_ret := rs_ret (osd_response h body) \<rparr> = osd_response h body" by simp
  then have "kfastblock_transport_osd_mux_recv_work [] s c =
      (answer_completions (a # as), s', c \<lparr> cs_mux_waiters := [], cs_mux_inflight := 0 \<rparr>)"
    using i s1(4) f s'(1)
    by (subst kfastblock_transport_osd_mux_recv_work.simps)
      (simp add: kalloc_def c1_def [symmetric] answer_completions_def a, simp add: c1_def osd_response_def)
  then show ?case using s'(2,3) s1(2) by auto
qed

end
