(* ===== verification/Osd_Client.thy ===== *)
theory Osd_Client
  imports Osd_Run KFB_Mux
begin

text \<open>
  The kernel client and the OSD's raw server together: what the client writes for an object operation is the
  operation the OSD's service is asked for, and what the service reports is what the client's waiter is given.
\<close>

section \<open>Receiving a whole request\<close>

text \<open>A script of a socket that delivers at least \<open>n\<close> times before it would block; interrupted calls may come in
  between.\<close>

definition delivers :: "recv_outcome list \<Rightarrow> nat \<Rightarrow> bool" where
  "delivers script n \<longleftrightarrow> (\<forall>oc\<in>set script. case oc of Got _ \<Rightarrow> True | Recv_intr \<Rightarrow> True | _ \<Rightarrow> False) \<and>
     n \<le> length (filter (\<lambda>oc. oc \<noteq> Recv_intr) script)"

lemma delivers_Cons:
  assumes "delivers (oc # sc) n"
  shows "(\<exists>k. oc = Got k) \<and> delivers sc (n - 1) \<or> oc = Recv_intr \<and> delivers sc n"
  using assms by (cases oc) (auto simp: delivers_def)

lemma fill_complete:
  "\<lbrakk> delivers script (target - length got + m); length got \<le> target; target - length got \<le> length inp \<rbrakk> \<Longrightarrow>
     \<exists>sc. fill_connection_frame script got target inp =
        (1, got @ take (target - length got) inp, drop (target - length got) inp, sc) \<and> delivers sc m"
proof (induction script arbitrary: got inp)
  case Nil
  then show ?case by (simp add: delivers_def)
next
  case (Cons oc s)
  show ?case
  proof (cases "target = length got")
    case True
    then show ?thesis using Cons.prems by simp
  next
    case False
    then have lt: "length got < target" using Cons.prems(2) by simp
    consider (got) k where "oc = Got k" "delivers s (target - length got + m - 1)"
      | (intr) "oc = Recv_intr" "delivers s (target - length got + m)"
      using delivers_Cons [OF Cons.prems(1)] by auto
    then show ?thesis
    proof cases
      case got
      define j where "j = min (Suc k) (target - length got)"
      have j: "0 < j" "j \<le> target - length got" using lt by (auto simp: j_def)
      have ne: "inp \<noteq> []" using Cons.prems(3) lt by auto
      have lg: "length (got @ take j inp) = length got + j" using j Cons.prems(3) by simp
      have d: "delivers s (target - length (got @ take j inp) + m)"
        using got(2) j lt unfolding lg delivers_def by auto
      obtain sc where sc: "fill_connection_frame s (got @ take j inp) target (drop j inp) =
          (1, (got @ take j inp) @ take (target - length (got @ take j inp)) (drop j inp),
           drop (target - length (got @ take j inp)) (drop j inp), sc)" "delivers sc m"
      proof -
        have "length (got @ take j inp) \<le> target" unfolding lg using j lt by linarith
        moreover have "target - length (got @ take j inp) \<le> length (drop j inp)"
          unfolding lg using j lt Cons.prems(3) by simp
        ultimately show ?thesis using Cons.IH [OF d] that by blast
      qed
      have r: "target - (length got + j) + j = target - length got" using j lt by simp
      have "take j inp @ take (target - (length got + j)) (drop j inp) = take (target - length got) inp"
        using take_add [of j "target - (length got + j)" inp] r by (simp add: add.commute)
      moreover have "drop (target - (length got + j)) (drop j inp) = drop (target - length got) inp" using r by simp
      ultimately show ?thesis
        using sc lt ne got(1) unfolding lg by (intro exI [of _ sc]) (simp add: j_def [symmetric] Let_def)
    next
      case intr
      then show ?thesis using Cons.IH [of got inp] Cons.prems(2,3) lt by simp
    qed
  qed
qed

text \<open>A connection between two requests.\<close>

definition osd_idle :: "connection_context \<Rightarrow> bool" where
  "osd_idle c \<longleftrightarrow> cx_header c = [] \<and> cx_body c = [] \<and> cx_target c = 0"

lemma try_receive_request:
  assumes idle: "osd_idle c" and inp: "cx_input c = enc_header h @ body @ rest"
    and v: "validate_request_header h" and bl: "unat (rh_body_len h) = length body"
    and d: "delivers script (28 + length body + m)"
  shows "\<exists>sc. try_receive_one_request script c = (1, Some (h, body), sc, c \<lparr> cx_input := rest \<rparr>) \<and> delivers sc m"
proof -
  have hd: "cx_header c = []" "cx_body c = []" "cx_target c = 0" using idle by (auto simp: osd_idle_def)
  have d1: "delivers script (28 - length (cx_header c) + (length body + m))" using d hd by (simp add: add.assoc)
  obtain s1 where f1: "fill_connection_frame script [] 28 (cx_input c) = (1, enc_header h, body @ rest, s1)"
    "delivers s1 (length body + m)"
    using fill_complete [OF d1, of "enc_header h @ body @ rest"] inp hd by auto
  define c1 where "c1 = c \<lparr> cx_header := enc_header h, cx_input := body @ rest, cx_target := length body \<rparr>"
  have cc: "c \<lparr> cx_input := rest \<rparr> = c \<lparr> cx_header := [], cx_body := [], cx_target := 0, cx_input := rest \<rparr>"
    using hd by (cases c) simp
  show ?thesis
  proof (cases "body = []")
    case True
    then have "unat (rh_body_len h) = 0" using bl by simp
    then show ?thesis using f1 hd v True cc
      by (intro exI [of _ s1]) (simp add: try_receive_one_request_def Let_def reset_connection_frame_def)
  next
    case False
    obtain s2 where f2: "fill_connection_frame s1 [] (length body) (body @ rest) = (1, body, rest, s2)" "delivers s2 m"
      using fill_complete [of s1 "length body" "[]" m "body @ rest"] f1(2) by auto
    then show ?thesis using f1 hd v False bl cc
      by (intro exI [of _ s2])
        (simp add: try_receive_one_request_def receive_body_def Let_def reset_connection_frame_def)
  qed
qed

text \<open>A connection that can take the request with header \<open>h\<close>.\<close>

definition osd_takes :: "connection_context \<Rightarrow> raw_header \<Rightarrow> bool" where
  "osd_takes c h \<longleftrightarrow> \<not> rc_stopping (cx_state c) \<and> length (rc_pending (cx_state c)) < raw_max_inflight_requests \<and>
     rh_seq h \<noteq> 0 \<and> map_of (rc_inflight_by_seq (cx_state c)) (rh_seq h) = None"

lemma enqueue_accepts:
  assumes "osd_takes c h"
  shows "\<exists>st. enqueue_inflight_response (cx_state c) h = Enq_accepted (rc_next (cx_state c)) st"
  using assms by (simp add: enqueue_inflight_response_def osd_takes_def Let_def)

lemma io_loop_empty:
  assumes "osd_idle c" "cx_input c = []" "delivers script m"
  shows "service_io_loop resolve script c = ([], c)"
proof -
  have "\<exists>sc. fill_connection_frame script [] 28 [] = (0, [], [], sc)"
    using assms(3)
  proof (induction script)
    case (Cons oc s)
    then show ?case by (cases oc) (auto simp: delivers_def)
  qed simp
  then obtain sc where f: "fill_connection_frame script [] 28 [] = (0, [], [], sc)" by blast
  have hd: "cx_header c = []" using assms(1) by (simp add: osd_idle_def)
  then have cc: "c \<lparr> cx_header := [], cx_input := [] \<rparr> = c" using assms(2) by (cases c) simp
  have "try_receive_one_request script c = (0, None, sc, c)"
    using f hd assms(2) cc by (simp add: try_receive_one_request_def Let_def)
  then show ?thesis by (subst service_io_loop.simps) simp
qed

text \<open>One complete request is accepted and dispatched.\<close>

lemma io_loop_request:
  assumes idle: "osd_idle c" and inp: "cx_input c = enc_header h @ body"
    and v: "validate_request_header h" and bl: "unat (rh_body_len h) = length body"
    and d: "delivers script (28 + length body)" and t: "osd_takes c h"
    and e: "enqueue_inflight_response (cx_state c) h = Enq_accepted i st"
    and disp: "dispatch_request resolve i body st = (call, st')"
  shows "service_io_loop resolve script c =
    ((case call of None \<Rightarrow> [] | Some f \<Rightarrow> [(i, f)]), c \<lparr> cx_input := [], cx_state := st' \<rparr>)"
proof -
  obtain sc where r: "try_receive_one_request script c = (1, Some (h, body), sc, c \<lparr> cx_input := [] \<rparr>)" "delivers sc 0"
    using try_receive_request [of c h body "[]" script 0] assms by auto
  have "service_io_loop resolve sc (c \<lparr> cx_input := [], cx_state := st' \<rparr>) = ([], c \<lparr> cx_input := [], cx_state := st' \<rparr>)"
    using io_loop_empty [OF _ _ r(2)] idle by (simp add: osd_idle_def)
  then show ?thesis using r(1) e disp by (subst service_io_loop.simps) (simp split: option.splits)
qed

section \<open>Requests\<close>

lemma exec_mux_sends:
  assumes "cs_sock c \<noteq> None" "\<not> cs_mux_dead c" "moving s"
    and r: "kfastblock_transport_exec_mux_request_parts i service opcode seq parts s c = (ret, s', c')"
  shows "ret = 0" "so_in s' = so_in s" "moving s'"
    "so_out s' = so_out s @ enc_header (request_header service opcode seq (of_nat (length (concat parts)))) @ concat parts"
    "c' = c \<lparr> cs_mux_waiters := cs_mux_waiters c @ [kfastblock_transport_init_mux_waiter i seq service opcode],
              cs_mux_inflight := cs_mux_inflight c + 1 \<rparr>"
proof -
  obtain r1 s1 where snd: "kfastblock_transport_send_request_parts s service opcode seq parts = (r1, s1)"
    by (cases "kfastblock_transport_send_request_parts s service opcode seq parts")
  note sn = send_request_parts_sends [OF snd]
  have r1: "r1 = 0" using sn assms(3) by auto
  then have *: "ret = 0" "s' = s1"
    "c' = c \<lparr> cs_mux_waiters := cs_mux_waiters c @ [kfastblock_transport_init_mux_waiter i seq service opcode],
              cs_mux_inflight := cs_mux_inflight c + 1 \<rparr>"
    using r snd assms(1,2)
    by (auto simp: kfastblock_transport_exec_mux_request_parts_def kfastblock_transport_register_mux_waiter_def Let_def)
  then show "ret = 0" "c' = c \<lparr> cs_mux_waiters := cs_mux_waiters c @ [kfastblock_transport_init_mux_waiter i seq service opcode],
              cs_mux_inflight := cs_mux_inflight c + 1 \<rparr>" by auto
  show "so_in s' = so_in s" "moving s'"
    "so_out s' = so_out s @ enc_header (request_header service opcode seq (of_nat (length (concat parts)))) @ concat parts"
    using sn r1 assms(3) *(2) by auto
qed

text \<open>The operations the OSD's service is asked for when the bytes \<open>bs\<close> arrive.\<close>

definition osd_calls ::
    "(u32 \<Rightarrow> u32 \<Rightarrow> leader_endpoint) \<Rightarrow> recv_outcome list \<Rightarrow> connection_context \<Rightarrow> u8 list \<Rightarrow> (nat \<times> osd_call) list" where
  "osd_calls resolve script c bs = fst (service_connection_io resolve False True script (c \<lparr> cx_input := bs \<rparr>))"

lemma osd_calls_request:
  assumes idle: "osd_idle c" "\<not> cx_done c" and op: "opcode \<noteq> KFASTBLOCK_RAW_OSD_OP_GET_LEADER"
    and len: "length body \<le> max_raw_body_len" and d: "delivers script (28 + length body)"
    and t: "osd_takes c (request_header KFASTBLOCK_RAW_SERVICE_OSD opcode seq n)" and n: "n = of_nat (length body)"
    and disp: "\<And>i st. if_request_header (rc_objects st i) = request_header KFASTBLOCK_RAW_SERVICE_OSD opcode seq n \<Longrightarrow>
        \<exists>st'. dispatch_request resolve i body st = (Some call, st')"
  shows "osd_calls resolve script c (enc_header (request_header KFASTBLOCK_RAW_SERVICE_OSD opcode seq n) @ body) =
    [(rc_next (cx_state c), call)]"
proof -
  let ?h = "request_header KFASTBLOCK_RAW_SERVICE_OSD opcode seq n"
  let ?c = "c \<lparr> cx_input := enc_header ?h @ body \<rparr>"
  have bl: "unat n = length body" unfolding n by (rule unat_of_nat_small) (use len in simp)
  then have v: "validate_request_header ?h" "unat (rh_body_len ?h) = length body"
    using len by (simp_all add: validate_request_header_def request_header_def)
  have t': "osd_takes ?c ?h" "osd_idle ?c" using t idle by (simp_all add: osd_takes_def osd_idle_def)
  obtain st where e: "enqueue_inflight_response (cx_state c) ?h = Enq_accepted (rc_next (cx_state c)) st"
    using enqueue_accepts [OF t] by blast
  have "if_request_header (rc_objects st (rc_next (cx_state c))) = ?h" using enqueue_accepted_table(5) [OF e] .
  then obtain st' where ds: "dispatch_request resolve (rc_next (cx_state c)) body st = (Some call, st')" using disp by blast
  have "service_io_loop resolve script ?c = ([(rc_next (cx_state c), call)], ?c \<lparr> cx_input := [], cx_state := st' \<rparr>)"
    using io_loop_request [OF t'(2) _ v d t'(1), of "rc_next (cx_state c)" st resolve "Some call" st'] e ds by simp
  then show ?thesis using idle(2) by (simp add: osd_calls_def service_connection_io_def)
qed

text \<open>The OSD reads back what the client put into the body.\<close>

lemma dispatch_object_request:
  assumes "if_request_header (rc_objects st j) = request_header KFASTBLOCK_RAW_SERVICE_OSD opcode seq (of_nat (length body))"
    "length body \<le> max_raw_body_len" "opcode \<noteq> KFASTBLOCK_RAW_OSD_OP_GET_LEADER"
  shows "dispatch_request resolve j body st =
    (if opcode = KFASTBLOCK_RAW_OSD_OP_READ_OBJECT then dispatch_read_request j body st
     else if opcode = KFASTBLOCK_RAW_OSD_OP_WRITE_OBJECT then dispatch_write_request j body st
     else if opcode = KFASTBLOCK_RAW_OSD_OP_DELETE_OBJECT then dispatch_delete_request j body st
     else (None, complete_inflight_response j KFASTBLOCK_RAW_STATUS_INVALID_REQUEST [] st))"
proof -
  have "unat (of_nat (length body) :: u32) = length body" by (rule unat_of_nat_small) (use assms(2) in simp)
  then have "validate_request_header (if_request_header (rc_objects st j))"
    using assms(1,2) by (simp add: validate_request_header_def request_header_def)
  then show ?thesis using assms(1,3) by (simp add: dispatch_request_def request_header_def)
qed

lemma name_len:
  assumes "length name < 65536"
  shows "unat (of_nat (length name) :: u16) = length name"
  by (rule unat_of_nat_small) (use assms in simp)

lemma dispatch_read_parts:
  assumes "ox_object_name e \<noteq> []" "length (ox_object_name e) < 65536"
  shows "dispatch_read_request j (concat (read_object_parts pool_id e)) st =
    (Some (Process_read pool_id (ox_pg_id e) (ucast (ox_object_offset e)) (ox_length e) (ox_object_name e)), st)"
  using assms name_len [OF assms(2)]
  by (simp add: dispatch_read_request_def read_object_parts_def Let_def)

lemma dispatch_write_parts:
  assumes "ox_object_name e \<noteq> []" "length (ox_object_name e) < 65536" "length data = unat (ox_length e)"
  shows "dispatch_write_request j (concat (write_object_parts pool_id e data)) st =
    (Some (Process_write pool_id (ox_pg_id e) (ucast (ox_object_offset e)) (ox_object_name e) data), st)"
  using assms name_len [OF assms(2)]
  by (simp add: dispatch_write_request_def write_object_parts_def Let_def)

lemma dispatch_delete_parts:
  assumes "ox_object_name e \<noteq> []" "length (ox_object_name e) < 65536"
  shows "dispatch_delete_request j (concat (delete_object_parts pool_id e)) st =
    (Some (Process_delete pool_id (ox_pg_id e) (ox_object_name e)), st)"
  using assms name_len [OF assms(2)]
  by (simp add: dispatch_delete_request_def delete_object_parts_def Let_def)

lemma client_request_reaches_osd:
  assumes client: "cs_sock c \<noteq> None" "\<not> cs_mux_dead c" "moving s" "so_out s = []"
    and osd: "osd_idle conn" "\<not> cx_done conn" "\<not> rc_stopping (cx_state conn)"
      "length (rc_pending (cx_state conn)) < raw_max_inflight_requests"
      "seq \<noteq> 0" "map_of (rc_inflight_by_seq (cx_state conn)) seq = None"
    and len: "length (concat parts) \<le> max_raw_body_len" and script: "delivers script (28 + length (concat parts))"
    and op: "opcode \<noteq> KFASTBLOCK_RAW_OSD_OP_GET_LEADER"
    and disp: "\<And>j st. if_request_header (rc_objects st j) =
        request_header KFASTBLOCK_RAW_SERVICE_OSD opcode seq (of_nat (length (concat parts))) \<Longrightarrow>
        dispatch_request resolve j (concat parts) st = (Some call, st)"
  shows "\<exists>s1 c1. kfastblock_transport_exec_mux_request_parts i KFASTBLOCK_RAW_SERVICE_OSD opcode seq parts s c = (0, s1, c1) \<and>
    osd_calls resolve script conn (so_out s1) = [(rc_next (cx_state conn), call)]"
proof -
  let ?h = "request_header KFASTBLOCK_RAW_SERVICE_OSD opcode seq (of_nat (length (concat parts)))"
  obtain r s1 c1 where e: "kfastblock_transport_exec_mux_request_parts i KFASTBLOCK_RAW_SERVICE_OSD opcode seq parts s c = (r, s1, c1)"
    by (cases "kfastblock_transport_exec_mux_request_parts i KFASTBLOCK_RAW_SERVICE_OSD opcode seq parts s c")
  note sn = exec_mux_sends [OF client(1-3) e]
  have t: "osd_takes conn ?h" using osd by (simp add: osd_takes_def request_header_def)
  have "osd_calls resolve script conn (enc_header ?h @ concat parts) = [(rc_next (cx_state conn), call)]"
    by (rule osd_calls_request [OF osd(1,2) op len script t refl]) (use disp in blast)
  then show ?thesis using e sn client(4) by auto
qed

lemma delivers_mono: "delivers script n \<Longrightarrow> m \<le> n \<Longrightarrow> delivers script m"
  by (auto simp: delivers_def)

text \<open>
  C3. What the kernel client sends for an object read, write or delete on a connected socket, however the two sockets
  fragment the bytes, makes the OSD's raw server ask its service for exactly this operation: same pool, placement
  group, object name, offset, length and data.
\<close>

theorem object_requests_reach_osd:
  assumes client: "cs_sock c \<noteq> None" "\<not> cs_mux_dead c" "moving s" "so_out s = []"
    and name: "ox_object_name extent \<noteq> []" "length (ox_object_name extent) < 65536"
    and data: "length data = unat (ox_length extent)"
      "24 + length (ox_object_name extent) + length data \<le> max_raw_body_len"
    and osd: "osd_idle conn" "\<not> cx_done conn" "\<not> rc_stopping (cx_state conn)"
      "length (rc_pending (cx_state conn)) < raw_max_inflight_requests"
      "seq \<noteq> 0" "map_of (rc_inflight_by_seq (cx_state conn)) seq = None"
    and script: "delivers script (52 + length (ox_object_name extent) + length data)"
  shows "(\<exists>s1 c1. kfastblock_transport_read_object i pool_id extent seq s c = (0, s1, c1) \<and>
      osd_calls resolve script conn (so_out s1) =
        [(rc_next (cx_state conn), Process_read pool_id (ox_pg_id extent) (ucast (ox_object_offset extent)) (ox_length extent)
           (ox_object_name extent))]) \<and>
    (\<exists>s1 c1. kfastblock_transport_write_object i pool_id extent data seq s c = (0, s1, c1) \<and>
      osd_calls resolve script conn (so_out s1) =
        [(rc_next (cx_state conn), Process_write pool_id (ox_pg_id extent) (ucast (ox_object_offset extent))
           (ox_object_name extent) data)]) \<and>
    (\<exists>s1 c1. kfastblock_transport_delete_object i pool_id extent seq s c = (0, s1, c1) \<and>
      osd_calls resolve script conn (so_out s1) =
        [(rc_next (cx_state conn), Process_delete pool_id (ox_pg_id extent) (ox_object_name extent))])"
proof (intro conjI, goal_cases)
  have l: "length (concat (read_object_parts pool_id extent)) = 24 + length (ox_object_name extent)"
    "length (concat (write_object_parts pool_id extent data)) = 24 + length (ox_object_name extent) + length data"
    "length (concat (delete_object_parts pool_id extent)) = 12 + length (ox_object_name extent)"
    using data(1) by (simp_all add: read_object_parts_def write_object_parts_def delete_object_parts_def)
  note reaches = client_request_reaches_osd [OF client osd]
  case 1
  show ?case unfolding kfastblock_transport_read_object_def
    by (rule reaches [OF _ delivers_mono [OF script]])
      (use l data(2) dispatch_read_parts [OF name] dispatch_object_request in simp_all)
  case 2
  show ?case unfolding kfastblock_transport_write_object_def
    by (rule reaches [OF _ delivers_mono [OF script]])
      (use l data(2) dispatch_write_parts [OF name data(1)] dispatch_object_request in simp_all)
  case 3
  show ?case unfolding kfastblock_transport_delete_object_def
    by (rule reaches [OF _ delivers_mono [OF script]])
      (use l data(2) dispatch_delete_parts [OF name] dispatch_object_request in simp_all)
qed

section \<open>Responses\<close>


definition reply_header :: "inflight_response \<Rightarrow> raw_header" where
  "reply_header obj = (if_request_header obj)
     \<lparr> rh_magic := KFASTBLOCK_RAW_MAGIC, rh_version_major := KFASTBLOCK_RAW_VERSION_MAJOR,
       rh_version_minor := KFASTBLOCK_RAW_VERSION_MINOR, rh_service := KFASTBLOCK_RAW_SERVICE_OSD,
       rh_flags := rh_flags (if_request_header obj) OR KFASTBLOCK_RAW_FLAG_RESPONSE, rh_status := if_status obj \<rparr>"

text \<open>What the client's waiter for a request is completed with.\<close>

definition client_sees :: "inflight_response \<Rightarrow> u64 \<times> int \<times> response_ctx" where
  "client_sees obj = (rh_seq (if_request_header obj), kfastblock_transport_status_to_errno (if_status obj),
     osd_response (reply_header obj) (if_response_body obj))"

lemma response_frame_reply: "response_frame obj = frame (reply_header obj) (if_response_body obj)"
  by (simp add: response_frame_def frame_def reply_header_def)

lemma or_one_response: "(x OR 1 :: u32) AND 1 \<noteq> 0"
proof -
  have "bit ((x OR 1 :: u32) AND 1) 0" by (simp add: bit_simps)
  then show ?thesis by (metis bit_0_eq bot_apply bot_bool_def)
qed

lemma reply_header_answers:
  "osd_answer (reply_header obj)" "rh_seq (reply_header obj) = rh_seq (if_request_header obj)"
  "rh_status (reply_header obj) = if_status obj"
  using or_one_response by (simp_all add: osd_answer_def is_response_def reply_header_def)

text \<open>Two injective labellings with the same labels give a matching.\<close>

lemma matching:
  assumes f: "inj_on f A" and g: "inj_on g B" and eq: "g ` B = f ` A"
  obtains m where "\<And>a. a \<in> A \<Longrightarrow> m a \<in> B \<and> g (m a) = f a" "inj_on m A" "m ` A = B"
proof (rule that [of "inv_into B g \<circ> f"])
  show m: "(inv_into B g \<circ> f) a \<in> B \<and> g ((inv_into B g \<circ> f) a) = f a" if "a \<in> A" for a
  proof -
    have "f a \<in> g ` B" unfolding eq using that by (rule imageI)
    then show ?thesis by (simp add: inv_into_into f_inv_into_f)
  qed
  show "inj_on (inv_into B g \<circ> f) A" by (rule inj_onI) (metis m f inj_onD)
  show "(inv_into B g \<circ> f) ` A = B"
    unfolding image_comp [symmetric] eq [symmetric] using g by (simp add: image_inv_into_cancel inv_into_image_cancel)
qed

text \<open>
  C6. When all requests an OSD connection accepted have been answered, in whatever order the service completed them, a
  client whose waiters have the sequence numbers of these requests, reading the bytes the OSD wrote in whatever pieces
  the socket delivers them, completes every waiter exactly once, each with the status and body of its own request.
\<close>

theorem osd_answers_reach_waiters:
  assumes run: "osd_run resolve conn calls"
    and answered: "\<not> rc_stopping (cx_state conn)" "rc_pending (cx_state conn) = []" "cx_sending conn = None"
    and seqs: "inj_on (\<lambda>i. rh_seq (if_request_header (rc_objects (cx_state conn) i))) {..<rc_next (cx_state conn)}"
    and waiters: "distinct (map mw_seq (cs_mux_waiters c))" "0 \<notin> mw_seq ` set (cs_mux_waiters c)"
      "mw_seq ` set (cs_mux_waiters c) =
        (\<lambda>i. rh_seq (if_request_header (rc_objects (cx_state conn) i))) ` {..<rc_next (cx_state conn)}"
      "cs_mux_inflight c = of_nat (length (cs_mux_waiters c))" "length (cs_mux_waiters c) < 2 ^ 32"
    and socket: "moving s" "so_in s = cx_output conn"
  shows "\<exists>sent dn s'. kfastblock_transport_osd_mux_recv_work [] s c =
      (dn, s', c \<lparr> cs_mux_waiters := [], cs_mux_inflight := 0 \<rparr>) \<and> so_in s' = [] \<and>
    distinct sent \<and> set sent = {..<rc_next (cx_state conn)} \<and>
    distinct (map fst dn) \<and> fst ` set dn = set (cs_mux_waiters c) \<and>
    map (\<lambda>(w, ret, rsp). (mw_seq w, ret, rsp)) dn = map (\<lambda>i. client_sees (rc_objects (cx_state conn) i)) sent"
proof -
  define obj where "obj = rc_objects (cx_state conn)"
  define n where "n = rc_next (cx_state conn)"
  let ?seq = "\<lambda>i. rh_seq (if_request_header (obj i))"
  define ws where "ws = cs_mux_waiters c"
  obtain sent where ok: "conn_ok sent conn" using run_ok [OF run] by blast
  have sent: "distinct sent" "set sent = {..<n}"
    using ok answered by (auto simp: conn_ok_def answers_ok_def sending_list_def n_def Let_def)
  have out: "cx_output conn = concat (map (\<lambda>i. response_frame (obj i)) sent)"
    using ok answered(3) by (simp add: conn_ok_def output_ok_def obj_def)
  have small: "length (if_response_body (obj i)) < 2 ^ 32" for i
  proof -
    have "length (if_response_body (obj i)) \<le> max_raw_body_len" using ok by (simp add: conn_ok_def table_ok_def obj_def)
    then show ?thesis by simp
  qed
  obtain wt where wt: "\<And>i. i \<in> set sent \<Longrightarrow> wt i \<in> set ws \<and> mw_seq (wt i) = ?seq i"
    and inj: "inj_on wt (set sent)" and img: "wt ` set sent = set ws"
  proof (rule matching [of ?seq "set sent" mw_seq "set ws"])
    show "inj_on ?seq (set sent)" "mw_seq ` set ws = ?seq ` set sent"
      using seqs waiters(3) unfolding sent(2) by (simp_all add: obj_def n_def ws_def)
    show "inj_on mw_seq (set ws)" using waiters(1) by (simp add: ws_def distinct_map)
  qed blast
  define as where "as = map (\<lambda>i. (wt i, reply_header (obj i), if_response_body (obj i))) sent"
  have "\<exists>s'. kfastblock_transport_osd_mux_recv_work [] s c =
      (answer_completions as, s', c \<lparr> cs_mux_waiters := [], cs_mux_inflight := 0 \<rparr>) \<and> so_in s' = [] \<and> so_out s' = so_out s"
  proof (rule mux_recv_work_answers [OF socket(1) _ _ waiters(1,2) _ _ waiters(4,5)])
    show "so_in s = answer_bytes as @ []"
      using socket(2) out by (simp add: as_def answer_bytes_def response_frame_reply comp_def)
    show "mux_answers_ok as" using wt small by (auto simp: as_def mux_answers_ok_def reply_header_answers)
    show "distinct (map fst as)" using sent(1) inj by (simp add: as_def comp_def distinct_map)
    show "fst ` set as = set (cs_mux_waiters c)" using img by (simp add: as_def ws_def image_image)
  qed
  then obtain s' where s': "kfastblock_transport_osd_mux_recv_work [] s c =
      (answer_completions as, s', c \<lparr> cs_mux_waiters := [], cs_mux_inflight := 0 \<rparr>)" "so_in s' = []" by blast
  have m: "map fst (answer_completions as) = map wt sent" by (simp add: answer_completions_def as_def)
  have "map (\<lambda>(w, ret, rsp). (mw_seq w, ret, rsp)) (answer_completions as) = map (\<lambda>i. client_sees (obj i)) sent"
    using wt by (simp add: answer_completions_def as_def client_sees_def osd_response_def reply_header_answers)
  moreover have "distinct (map fst (answer_completions as))" using sent(1) inj unfolding m by (simp add: distinct_map)
  moreover have "fst ` set (answer_completions as) = set ws"
    using img unfolding set_map [symmetric] m by simp
  ultimately show ?thesis using s' sent unfolding ws_def n_def obj_def by blast
qed

text \<open>The body of a successful read is what the reader's buffer is filled with; a shorter object is padded with zeros.\<close>

lemma read_data_reaches_caller:
  assumes "length data \<le> unat (ox_length extent)" "length data < 4294967288"
  shows "read_object_done extent 0 (osd_response h (build_read_response_body data)) =
    Inr (data @ replicate (unat (ox_length extent) - length data) 0)"
proof -
  let ?b = "build_read_response_body data"
  have l: "length ?b = 8 + length data" by (simp add: build_read_response_body_def)
  have u: "unat (of_nat (8 + length data) :: u32) = 8 + length data" "unat (of_nat (length data) :: u32) = length data"
    by (rule unat_of_nat_small, use assms(2) in simp)+
  have hd: "take 8 ?b = enc_read_object_rsp \<lparr> rr_data_len = of_nat (length data), rr_reserved = 0 \<rparr>" "drop 8 ?b = data"
    by (simp_all add: build_read_response_body_def)
  have ne: "?b \<noteq> []" using l by auto
  have le: "\<not> ox_length extent < (of_nat (length data) :: u32)" using assms(1) u(2) by (simp add: word_less_nat_alt)
  have "rs_body (osd_response h ?b) = Some ?b" "unat (rs_body_len (osd_response h ?b)) = 8 + length data"
    using ne u(1) l by (simp_all add: osd_response_def)
  then show ?thesis
    using hd le u(2)
    by (simp add: read_object_done_def kfastblock_transport_response_decode_read_object_def
        kfastblock_transport_response_expect_min_body_def word_less_nat_alt)
qed

section \<open>A concrete exchange\<close>

definition sample_extent :: object_extent where
  "sample_extent = \<lparr> ox_object_seq = 0, ox_request_offset = 0, ox_object_offset = 512, ox_length = 3, ox_pg_id = 7,
     ox_object_name = ''1_a_0'' \<rparr>"

definition sample_slot :: cached_socket where
  "sample_slot = (kfastblock_osd_conn_slot_init) \<lparr> cs_sock := Some 0 \<rparr>"

definition fresh_sock :: sock where
  "fresh_sock = \<lparr> so_in = [], so_out = [], so_script = [] \<rparr>"

definition no_leader :: "u32 \<Rightarrow> u32 \<Rightarrow> leader_endpoint" where
  "no_leader pool pg = \<lparr> le_state = - 149, le_leader_id = 0, le_leader_addr = [], le_leader_port = 0 \<rparr>"

definition bytewise :: "recv_outcome list" where
  "bytewise = replicate 60 (Got 0)"

lemma bytewise_delivers: "n \<le> 60 \<Longrightarrow> delivers bytewise n"
  by (simp add: delivers_def bytewise_def)

theorem object_requests_reach_osd_witness:
  "(\<exists>s1 c1. kfastblock_transport_read_object 0 1 sample_extent 1 fresh_sock sample_slot = (0, s1, c1) \<and>
      osd_calls no_leader bytewise start_connection (so_out s1) = [(0, Process_read 1 7 512 3 ''1_a_0'')]) \<and>
   (\<exists>s1 c1. kfastblock_transport_write_object 0 1 sample_extent [1, 2, 3] 1 fresh_sock sample_slot = (0, s1, c1) \<and>
      osd_calls no_leader bytewise start_connection (so_out s1) = [(0, Process_write 1 7 512 ''1_a_0'' [1, 2, 3])]) \<and>
   (\<exists>s1 c1. kfastblock_transport_delete_object 0 1 sample_extent 1 fresh_sock sample_slot = (0, s1, c1) \<and>
      osd_calls no_leader bytewise start_connection (so_out s1) = [(0, Process_delete 1 7 ''1_a_0'')])"
  using object_requests_reach_osd [of sample_slot fresh_sock sample_extent "[1, 2, 3]" start_connection 1 bytewise 0 1 no_leader]
  by (simp add: sample_slot_def kfastblock_osd_conn_slot_init_def fresh_sock_def moving_def sample_extent_def
      start_connection_def new_connection_state_def osd_idle_def bytewise_delivers)

text \<open>The read arrives, is dispatched, is completed with three bytes of data, and its response is written.\<close>

definition sample_header :: raw_header where
  "sample_header = request_header KFASTBLOCK_RAW_SERVICE_OSD KFASTBLOCK_RAW_OSD_OP_READ_OBJECT 1 29"

definition sample_request :: "u8 list" where
  "sample_request = enc_header sample_header @ concat (read_object_parts 1 sample_extent)"

definition sample_accepted :: connection_state where
  "sample_accepted = new_connection_state
     \<lparr> rc_next := 1, rc_objects := (\<lambda>_. dangling)(0 := dangling \<lparr> if_request_header := sample_header,
                                          if_status := KFASTBLOCK_RAW_STATUS_INTERNAL_ERROR \<rparr>),
       rc_pending := [0], rc_inflight_by_seq := [(1, 0)], rc_requests_received := 1, rc_peak_pending := 1 \<rparr>"

definition sample_reading :: connection_context where
  "sample_reading = start_connection \<lparr> cx_state := sample_accepted \<rparr>"

definition sample_answered :: connection_context where
  "sample_answered = service_connection_write True [Sent 100]
     (sample_reading \<lparr> cx_state := read_done 0 0 [7, 8, 9] sample_accepted \<rparr>)"

lemma sample_reading_io:
  "service_connection_io no_leader False True bytewise (start_connection \<lparr> cx_input := sample_request \<rparr>) =
     ([(0, Process_read 1 7 512 3 ''1_a_0'')], sample_reading)"
proof -
  let ?body = "concat (read_object_parts 1 sample_extent)"
  let ?c = "start_connection \<lparr> cx_input := sample_request \<rparr>"
  have len: "length ?body = 29" by (simp add: read_object_parts_def sample_extent_def)
  have h: "validate_request_header sample_header" "unat (rh_body_len sample_header) = length ?body"
    using len by (simp_all add: validate_request_header_def sample_header_def request_header_def)
  have e: "enqueue_inflight_response (cx_state ?c) sample_header = Enq_accepted 0 sample_accepted"
    by (simp add: enqueue_inflight_response_def start_connection_def new_connection_state_def sample_accepted_def
        sample_header_def request_header_def)
  have hd: "if_request_header (rc_objects sample_accepted 0) = sample_header"
    by (simp add: sample_accepted_def)
  have d: "dispatch_request no_leader 0 ?body sample_accepted = (Some (Process_read 1 7 512 3 ''1_a_0''), sample_accepted)"
    using dispatch_object_request [of sample_accepted 0 KFASTBLOCK_RAW_OSD_OP_READ_OBJECT 1 ?body no_leader]
      dispatch_read_parts [of sample_extent 0 1 sample_accepted] hd len
    by (simp add: sample_header_def sample_extent_def)
  have idle: "osd_idle ?c" "osd_takes ?c sample_header"
    by (simp_all add: osd_idle_def osd_takes_def start_connection_def new_connection_state_def sample_header_def request_header_def)
  have "cx_input ?c = enc_header sample_header @ ?body" by (simp add: sample_request_def)
  note l = io_loop_request [OF idle(1) this h _ idle(2) e d, of bytewise]
  have "service_io_loop no_leader bytewise ?c = ([(0, Process_read 1 7 512 3 ''1_a_0'')], sample_reading)"
    using l bytewise_delivers [of "28 + length ?body"] len by (simp add: sample_reading_def start_connection_def)
  then show ?thesis by (simp add: service_connection_io_def start_connection_def)
qed

lemma sample_answered_run: "osd_run no_leader sample_answered [(0, Process_read 1 7 512 3 ''1_a_0'')]"
proof -
  have "osd_run no_leader (start_connection \<lparr> cx_input := cx_input start_connection @ sample_request \<rparr>) []"
    by (rule arrive) (rule accepted)
  then have "osd_run no_leader (start_connection \<lparr> cx_input := sample_request \<rparr>) []" by (simp add: start_connection_def)
  then have "osd_run no_leader sample_reading ([] @ [(0, Process_read 1 7 512 3 ''1_a_0'')])"
    by (rule io [OF _ _ sample_reading_io]) (simp add: start_connection_def)
  then have r: "osd_run no_leader sample_reading [(0, Process_read 1 7 512 3 ''1_a_0'')]" by simp
  have "osd_run no_leader (sample_reading \<lparr> cx_state := read_done 0 0 [7, 8, 9] (cx_state sample_reading) \<rparr>)
      [(0, Process_read 1 7 512 3 ''1_a_0'')]"
    by (rule read_callback [OF r]) simp
  moreover have "cx_state sample_reading = sample_accepted" by (simp add: sample_reading_def)
  ultimately show ?thesis unfolding sample_answered_def
    by (intro send_out) (simp_all add: sample_reading_def start_connection_def)
qed

lemma sample_answered_state:
  "rc_next (cx_state sample_answered) = 1" "rc_pending (cx_state sample_answered) = []" "cx_sending sample_answered = None"
  "\<not> rc_stopping (cx_state sample_answered)"
  "rh_seq (if_request_header (rc_objects (cx_state sample_answered) 0)) = 1"
  "if_status (rc_objects (cx_state sample_answered) 0) = 0"
  "if_response_body (rc_objects (cx_state sample_answered) 0) = build_read_response_body [7, 8, 9]"
proof -
  define obj where "obj = dangling \<lparr> if_request_header := sample_header, if_status := 0,
      if_response_body := build_read_response_body [7, 8, 9], if_completed := True \<rparr>"
  have bl: "length (build_read_response_body [7, 8, 9]) = 11" by (simp add: build_read_response_body_def)
  have fl: "length (response_frame obj) = 39" by (simp add: response_frame_def obj_def bl)
  have hd: "rh_seq sample_header = 1" by (simp add: sample_header_def request_header_def)
  define st where "st = read_done 0 0 [7, 8, 9] sample_accepted"
  have st: "rc_next st = 1" "rc_pending st = [0]" "rc_ready st = [0]" "\<not> rc_stopping st" "rc_objects st 0 = obj"
    by (simp_all add: st_def read_done_def complete_inflight_response_def sample_accepted_def new_connection_state_def
        dangling_def hd obj_def)
  have w: "service_connection_write True [] c = c" if "cx_sending c = None" "rc_ready (cx_state c) = []" for c
    by (subst service_connection_write.simps) (simp add: that)
  define d where "d = take_ready 0 (sample_reading \<lparr> cx_state := st \<lparr> rc_ready := [] \<rparr> \<rparr>)"
  define d1 where "d1 = d \<lparr> cx_send_bytes := 39, cx_output := cx_output d @ response_frame obj \<rparr>"
  have d: "cx_send_bytes d = 0" "cx_send_frame d = response_frame obj" "rc_ready (cx_state d) = []"
    "rc_next (cx_state d) = 1" "rc_pending (cx_state d) = []" "\<not> rc_stopping (cx_state d)" "rc_objects (cx_state d) 0 = obj"
    by (simp_all add: d_def take_ready_def Let_def st sample_reading_def start_connection_def)
  have f: "flush_connection_send_frame [Sent 100] d = (1, [], d1)"
    using d fl by (simp add: d1_def)
  have n: "rc_ready (cx_state (note_sent d1)) = []" "cx_sending (note_sent d1) = None"
    by (simp_all add: send_fields d1_def d)
  have sa: "sample_answered = note_sent d1"
    unfolding sample_answered_def st_def [symmetric]
    using f n w [OF n(2,1)] st
    by (subst service_connection_write.simps) (simp add: sample_reading_def start_connection_def d_def Let_def)
  have "rc_objects (cx_state sample_answered) 0 = obj" "rc_next (cx_state sample_answered) = 1"
    "rc_pending (cx_state sample_answered) = []" "\<not> rc_stopping (cx_state sample_answered)" "cx_sending sample_answered = None"
    using d n by (simp_all add: sa note_sent_def reset_connection_send_def Let_def d1_def)
  then show "rc_next (cx_state sample_answered) = 1" "rc_pending (cx_state sample_answered) = []"
    "cx_sending sample_answered = None" "\<not> rc_stopping (cx_state sample_answered)"
    "rh_seq (if_request_header (rc_objects (cx_state sample_answered) 0)) = 1"
    "if_status (rc_objects (cx_state sample_answered) 0) = 0"
    "if_response_body (rc_objects (cx_state sample_answered) 0) = build_read_response_body [7, 8, 9]"
    by (simp_all add: obj_def hd)
qed


definition sample_waiting :: cached_socket where
  "sample_waiting = sample_slot \<lparr> cs_mux_waiters := [kfastblock_transport_init_mux_waiter 0 1 KFASTBLOCK_RAW_SERVICE_OSD
     KFASTBLOCK_RAW_OSD_OP_READ_OBJECT], cs_mux_inflight := 1 \<rparr>"

theorem osd_answers_reach_waiters_witness:
  "\<exists>w rsp s'. kfastblock_transport_osd_mux_recv_work [] (fresh_sock \<lparr> so_in := cx_output sample_answered \<rparr>) sample_waiting =
     ([(w, 0, rsp)], s', sample_waiting \<lparr> cs_mux_waiters := [], cs_mux_inflight := 0 \<rparr>) \<and>
   mw_seq w = 1 \<and> read_object_done sample_extent 0 rsp = Inr [7, 8, 9]"
proof -
  let ?o = "rc_objects (cx_state sample_answered) 0"
  obtain sent dn s' where
    r: "kfastblock_transport_osd_mux_recv_work [] (fresh_sock \<lparr> so_in := cx_output sample_answered \<rparr>) sample_waiting =
      (dn, s', sample_waiting \<lparr> cs_mux_waiters := [], cs_mux_inflight := 0 \<rparr>)"
    and s: "distinct sent" "set sent = {..<1}"
    and m: "map (\<lambda>(w, ret, rsp). (mw_seq w, ret, rsp)) dn = map (\<lambda>i. client_sees (rc_objects (cx_state sample_answered) i)) sent"
    using osd_answers_reach_waiters [OF sample_answered_run, of sample_waiting "fresh_sock \<lparr> so_in := cx_output sample_answered \<rparr>"]
    by (auto simp: sample_answered_state sample_waiting_def kfastblock_transport_init_mux_waiter_def fresh_sock_def moving_def lessThan_Suc)
  have "length sent = 1" using distinct_card [OF s(1)] s(2) by simp
  then obtain x where "sent = [x]" by (auto simp: length_Suc_conv)
  then have "sent = [0]" using s(2) by auto
  then obtain w rsp where "dn = [(w, 0, rsp)]" "mw_seq w = 1"
    "rsp = osd_response (reply_header ?o) (build_read_response_body [7, 8, 9])"
    using m by (auto simp: client_sees_def sample_answered_state kfastblock_transport_status_to_errno_def)
  moreover have "read_object_done sample_extent 0 (osd_response (reply_header ?o) (build_read_response_body [7, 8, 9])) = Inr [7, 8, 9]"
    by (subst read_data_reaches_caller) (simp_all add: sample_extent_def)
  ultimately show ?thesis using r by blast
qed

end
