(* ===== verification/KFB_Recovery.thy ===== *)
theory KFB_Recovery
  imports KFB_Lifecycle
begin

text \<open>
  Failure handling, \<^verbatim>\<open>kfastblock/src/recovery.c\<close>: which actions an error calls for, and how they are applied to
  the volume. The action flags keep their bit values.
\<close>

abbreviation (input) KFASTBLOCK_RECOVERY_DROP_SOCKET :: u32 where "KFASTBLOCK_RECOVERY_DROP_SOCKET \<equiv> 1"
abbreviation (input) KFASTBLOCK_RECOVERY_INVALIDATE_LEADER :: u32 where "KFASTBLOCK_RECOVERY_INVALIDATE_LEADER \<equiv> 2"
abbreviation (input) KFASTBLOCK_RECOVERY_KICK_REFRESH :: u32 where "KFASTBLOCK_RECOVERY_KICK_REFRESH \<equiv> 4"
abbreviation (input) KFASTBLOCK_RECOVERY_RETRY :: u32 where "KFASTBLOCK_RECOVERY_RETRY \<equiv> 8"

section \<open>Classification\<close>

definition kfastblock_recovery_should_retry_monitor :: "int \<Rightarrow> bool" where
  "kfastblock_recovery_should_retry_monitor ret \<longleftrightarrow>
     ret \<in> {- EAGAIN, - ETIMEDOUT, - ECONNRESET, - EPIPE, - ECONNREFUSED, - EHOSTUNREACH, - ENETUNREACH, - EPROTO, - EIO}"

definition kfastblock_recovery_classify_object_failure :: "int \<Rightarrow> u32" where
  "kfastblock_recovery_classify_object_failure ret =
     (if ret = - ESTALE then KFASTBLOCK_RECOVERY_KICK_REFRESH
      else if ret \<in> {- ENOLINK, - EAGAIN, - EHOSTDOWN, - ETIMEDOUT, - ECONNRESET, - EPIPE}
      then KFASTBLOCK_RECOVERY_DROP_SOCKET OR KFASTBLOCK_RECOVERY_INVALIDATE_LEADER OR
           KFASTBLOCK_RECOVERY_KICK_REFRESH OR KFASTBLOCK_RECOVERY_RETRY
      else if ret = - EPROTO
      then KFASTBLOCK_RECOVERY_DROP_SOCKET OR KFASTBLOCK_RECOVERY_INVALIDATE_LEADER OR KFASTBLOCK_RECOVERY_KICK_REFRESH
      else if ret = - EIO then KFASTBLOCK_RECOVERY_DROP_SOCKET OR KFASTBLOCK_RECOVERY_KICK_REFRESH
      else 0)"

definition kfastblock_recovery_classify_leader_failure :: "int \<Rightarrow> u32" where
  "kfastblock_recovery_classify_leader_failure ret =
     (if ret = - ESTALE then KFASTBLOCK_RECOVERY_INVALIDATE_LEADER OR KFASTBLOCK_RECOVERY_KICK_REFRESH
      else if ret \<in> {- ENOLINK, - EAGAIN, - EHOSTDOWN, - ETIMEDOUT, - ECONNRESET, - EPIPE, - EPROTO, - EIO}
      then KFASTBLOCK_RECOVERY_DROP_SOCKET OR KFASTBLOCK_RECOVERY_INVALIDATE_LEADER OR KFASTBLOCK_RECOVERY_KICK_REFRESH
      else KFASTBLOCK_RECOVERY_INVALIDATE_LEADER)"

definition kfastblock_recovery_classify_monitor_failure :: "int \<Rightarrow> u32" where
  "kfastblock_recovery_classify_monitor_failure ret =
     (if kfastblock_recovery_should_retry_monitor ret then KFASTBLOCK_RECOVERY_DROP_SOCKET else 0)"

definition kfastblock_recovery_prefetch_should_fail_request :: "int \<Rightarrow> bool" where
  "kfastblock_recovery_prefetch_should_fail_request ret \<longleftrightarrow>
     ret \<in> {- EINVAL, - ENOMEM, - E2BIG, - EOPNOTSUPP, - ENOENT}"

definition kfastblock_recovery_errno_to_blk_status :: "int \<Rightarrow> blk_status" where
  "kfastblock_recovery_errno_to_blk_status ret =
     (if ret = 0 then BLK_STS_OK
      else if ret \<in> {- EAGAIN, - ESTALE, - EBUSY} then BLK_STS_RESOURCE
      else if ret \<in> {- EHOSTDOWN, - ENOLINK, - ETIMEDOUT, - ECONNRESET, - EPIPE} then BLK_STS_TRANSPORT
      else BLK_STS_IOERR)"

section \<open>Application\<close>

definition kfastblock_recovery_update_live_pg_leader ::
    "u32 \<Rightarrow> u32 \<Rightarrow> leader_info \<Rightarrow> volume \<Rightarrow> int \<times> volume" where
  "kfastblock_recovery_update_live_pg_leader pool_id pg_id leader vol =
     (case kfastblock_meta_set_pg_leader (v_view vol) pool_id pg_id leader of
        (ret, view) \<Rightarrow> (ret, vol \<lparr> v_view := view \<rparr>))"

definition kfastblock_recovery_invalidate_live_pg_leader :: "u32 \<Rightarrow> u32 \<Rightarrow> volume \<Rightarrow> volume" where
  "kfastblock_recovery_invalidate_live_pg_leader pool_id pg_id vol =
     vol \<lparr> v_view := kfastblock_meta_invalidate_pg_leader (v_view vol) pool_id pg_id \<rparr>"

definition kfastblock_recovery_mark_osd_socket_failure ::
    "(u32 \<Rightarrow> u64) \<Rightarrow> (u64 \<Rightarrow> u32) \<Rightarrow> u64 \<Rightarrow> leader_info \<Rightarrow> int \<Rightarrow> volume \<times> cached_socket \<Rightarrow> volume \<times> cached_socket" where
  "kfastblock_recovery_mark_osd_socket_failure m2j j2m now leader ret vc =
     (case vc of (vol, c) \<Rightarrow>
        case kfastblock_osd_conn_slot_mark_failure_locked m2j now c leader ret of
          (backoff, c') \<Rightarrow>
            (kfastblock_volume_account_socket_backoff j2m now False (li_osd_id leader) (li_port leader)
               (cs_fail_streak c') backoff ret vol, c'))"

definition kfastblock_recovery_mark_monitor_socket_failure ::
    "(u32 \<Rightarrow> u64) \<Rightarrow> (u64 \<Rightarrow> u32) \<Rightarrow> u64 \<Rightarrow> monitor_endpoint \<Rightarrow> int \<Rightarrow> volume \<times> cached_monitor_socket
      \<Rightarrow> volume \<times> cached_monitor_socket" where
  "kfastblock_recovery_mark_monitor_socket_failure m2j j2m now endpoint ret vc =
     (case vc of (vol, c) \<Rightarrow>
        case kfastblock_monitor_conn_slot_mark_failure_locked m2j now c endpoint ret of
          (backoff, c') \<Rightarrow>
            (kfastblock_volume_account_socket_backoff j2m now True 0 (me_port endpoint)
               (cm_fail_streak c') backoff ret vol, c'))"

definition kfastblock_recovery_finalize_osd_socket ::
    "(u32 \<Rightarrow> u64) \<Rightarrow> (u64 \<Rightarrow> u32) \<Rightarrow> u64 \<Rightarrow> leader_info \<Rightarrow> int \<Rightarrow> u32 \<Rightarrow> volume \<times> cached_socket
      \<Rightarrow> volume \<times> cached_socket" where
  "kfastblock_recovery_finalize_osd_socket m2j j2m now leader ret actions vc =
     (case vc of (vol, c) \<Rightarrow>
        if ret = 0 then (vol, c)
        else (let drop_sock = kfastblock_volume_account_socket_drop now False (li_osd_id leader) (li_port leader) ret;
                  (vol', c') = (if cs_sock c = None then (vol, c)
                                else if actions AND KFASTBLOCK_RECOVERY_DROP_SOCKET \<noteq> 0
                                then (case kfastblock_recovery_mark_osd_socket_failure m2j j2m now leader ret (vol, c) of
                                        (v, c1) \<Rightarrow> (drop_sock v, c1))
                                else (drop_sock vol, c))
              in (vol', kfastblock_osd_conn_slot_close_locked now c')))"

definition kfastblock_recovery_finalize_monitor_socket ::
    "(u32 \<Rightarrow> u64) \<Rightarrow> (u64 \<Rightarrow> u32) \<Rightarrow> u64 \<Rightarrow> int \<Rightarrow> u32 \<Rightarrow> volume \<times> cached_monitor_socket
      \<Rightarrow> volume \<times> cached_monitor_socket" where
  "kfastblock_recovery_finalize_monitor_socket m2j j2m now ret actions vc =
     (case vc of (vol, c) \<Rightarrow>
        if ret = 0 \<or> actions AND KFASTBLOCK_RECOVERY_DROP_SOCKET = 0 then (vol, c)
        else (let endpoint = \<lparr> me_host = strscpy KFASTBLOCK_MAX_ADDR_LEN (cm_address c), me_port = cm_port c \<rparr>;
                  (vol', c') = (if cm_sock c = None then (vol, c)
                                else (case kfastblock_recovery_mark_monitor_socket_failure m2j j2m now endpoint ret (vol, c) of
                                        (v, c1) \<Rightarrow> (kfastblock_volume_account_socket_drop now True 0 (cm_port c1) ret v, c1)))
              in (vol', kfastblock_monitor_conn_slot_close_locked now c')))"

definition kfastblock_recovery_apply_object_failure ::
    "(u32 \<Rightarrow> u64) \<Rightarrow> u64 \<Rightarrow> u32 \<Rightarrow> object_extent \<Rightarrow> u8 \<Rightarrow> leader_info \<Rightarrow> int \<Rightarrow> u32 \<Rightarrow> volume \<Rightarrow> volume" where
  "kfastblock_recovery_apply_object_failure m2j now pool_id extent op leader ret actions vol =
     (let v1 = (if actions AND KFASTBLOCK_RECOVERY_INVALIDATE_LEADER \<noteq> 0
                then kfastblock_recovery_invalidate_live_pg_leader pool_id (ox_pg_id extent)
                       (kfastblock_volume_account_leader_invalidate now (ox_pg_id extent) ret vol) else vol);
          v2 = (if actions AND KFASTBLOCK_RECOVERY_KICK_REFRESH \<noteq> 0
                then kfastblock_volume_kick_refresh (kfastblock_volume_account_refresh_kick now (ox_pg_id extent) ret v1) else v1)
      in if actions AND KFASTBLOCK_RECOVERY_RETRY \<noteq> 0
         then kfastblock_volume_account_object_retry now op (ox_pg_id extent) (li_osd_id leader) (ox_length extent) ret
                (v2 \<lparr> v_scheduler := kfastblock_scheduler_note_retry m2j now (v_scheduler v2) \<rparr>)
         else v2)"

definition kfastblock_recovery_apply_leader_failure ::
    "u64 \<Rightarrow> u32 \<Rightarrow> u32 \<Rightarrow> int \<Rightarrow> u32 \<Rightarrow> volume \<Rightarrow> volume" where
  "kfastblock_recovery_apply_leader_failure now pool_id pg_id ret actions vol =
     (let v1 = (if actions AND KFASTBLOCK_RECOVERY_INVALIDATE_LEADER \<noteq> 0
                then kfastblock_recovery_invalidate_live_pg_leader pool_id pg_id
                       (kfastblock_volume_account_leader_invalidate now pg_id ret vol) else vol)
      in if actions AND KFASTBLOCK_RECOVERY_KICK_REFRESH \<noteq> 0
         then kfastblock_volume_kick_refresh (kfastblock_volume_account_refresh_kick now pg_id ret v1) else v1)"

section \<open>What the classes mean\<close>

text \<open>An object is retried for exactly the six transient errors.\<close>

lemma object_retry_errors:
  "kfastblock_recovery_classify_object_failure ret AND KFASTBLOCK_RECOVERY_RETRY \<noteq> 0 \<longleftrightarrow>
     ret \<in> {- ENOLINK, - EAGAIN, - EHOSTDOWN, - ETIMEDOUT, - ECONNRESET, - EPIPE}"
  by (simp add: kfastblock_recovery_classify_object_failure_def)

text \<open>Every retried object also drops its socket and its cached leader, so that the retry starts from a new leader.\<close>

lemma object_retry_drops:
  assumes "kfastblock_recovery_classify_object_failure ret AND KFASTBLOCK_RECOVERY_RETRY \<noteq> 0"
  shows "kfastblock_recovery_classify_object_failure ret AND KFASTBLOCK_RECOVERY_DROP_SOCKET \<noteq> 0"
    "kfastblock_recovery_classify_object_failure ret AND KFASTBLOCK_RECOVERY_INVALIDATE_LEADER \<noteq> 0"
  using assms [unfolded object_retry_errors] by (auto simp: kfastblock_recovery_classify_object_failure_def)

end
