(* ===== verification/KFB_Exchange.thy ===== *)
theory KFB_Exchange
  imports KFB_Mux KFB_Recovery
begin

text \<open>
  One worker of the transport (\<^verbatim>\<open>kfastblock/src/transport.c\<close>): finding or connecting a socket to an OSD, the
  bookkeeping of an exchange in the request's pipeline, and the query for the leader of a placement group.

  The worker's state is the volume, the request, the buffer heap and the pages of the block request. What the
  network does is read from two scripts: the outcomes of connecting, and the outcomes of waiting for a response on a
  shared socket (see \<open>KFB_Mux\<close> for how a response finds its waiter). When a script is exhausted, every further
  attempt fails. \<open>iw_wire\<close> records the requests handed to the sockets: the slot, the opcode, the sequence number and
  the body parts. The worker reads the clock once.
\<close>

section \<open>Environment and state\<close>

record transport_env =
  te_now :: u64
  te_m2j :: "u32 \<Rightarrow> u64"
  te_j2m :: "u64 \<Rightarrow> u32"
  te_busy :: "nat \<Rightarrow> bool"
  te_parallel_limit :: u32
  te_kv :: kvmalloc

record io_world =
  iw_vol :: volume
  iw_req :: request
  iw_heap :: buf_heap
  iw_pages :: "u8 list list"
  iw_connects :: "(int + nat) list"
  iw_exchanges :: "(int \<times> response_ctx) list"
  iw_wire :: "(nat \<times> u8 \<times> u64 \<times> u8 list list) list"
  iw_completed :: "mux_completion list"

definition on_vol :: "(volume \<Rightarrow> volume) \<Rightarrow> io_world \<Rightarrow> io_world" where
  "on_vol f w = w \<lparr> iw_vol := f (iw_vol w) \<rparr>"

definition on_both :: "(volume \<times> request \<Rightarrow> volume \<times> request) \<Rightarrow> io_world \<Rightarrow> io_world" where
  "on_both f w = (case f (iw_vol w, iw_req w) of (vol, r) \<Rightarrow> w \<lparr> iw_vol := vol, iw_req := r \<rparr>)"

definition slot :: "io_world \<Rightarrow> nat \<Rightarrow> cached_socket" where
  "slot w i = v_socket_cache (iw_vol w) ! i"

definition set_slot :: "nat \<Rightarrow> cached_socket \<Rightarrow> volume \<Rightarrow> volume" where
  "set_slot i c vol = vol \<lparr> v_socket_cache := (v_socket_cache vol)[i := c] \<rparr>"

definition next_connect :: "io_world \<Rightarrow> (int + nat) \<times> io_world" where
  "next_connect w = (case iw_connects w of [] \<Rightarrow> (Inl (- ECONNREFUSED), w) | x # xs \<Rightarrow> (x, w \<lparr> iw_connects := xs \<rparr>))"

definition next_exchange :: "nat \<Rightarrow> u8 \<Rightarrow> u64 \<Rightarrow> u8 list list \<Rightarrow> io_world \<Rightarrow> (int \<times> response_ctx) \<times> io_world" where
  "next_exchange i opcode seq parts w =
     (let w1 = w \<lparr> iw_wire := iw_wire w @ [(i, opcode, seq, parts)] \<rparr>
      in case iw_exchanges w of
           [] \<Rightarrow> ((- ECONNRESET, kfastblock_transport_response_ctx_reset), w1)
         | x # xs \<Rightarrow> (x, w1 \<lparr> iw_exchanges := xs \<rparr>))"

section \<open>Sockets\<close>

definition kfastblock_transport_maybe_inject_fault :: "u64 \<Rightarrow> u32 \<Rightarrow> volume \<Rightarrow> int \<times> volume" where
  "kfastblock_transport_maybe_inject_fault now site vol =
     (case kfastblock_fault_injection_should_fail now (v_fault_injection vol) site of
        (None, s) \<Rightarrow> (0, vol \<lparr> v_fault_injection := s \<rparr>)
      | (Some ret, s) \<Rightarrow> (if ret \<noteq> 0 then ret else - EIO,
                         kfastblock_volume_account_fault_injection now site ret (vol \<lparr> v_fault_injection := s \<rparr>)))"

definition kfastblock_transport_mark_osd_socket_failure ::
    "transport_env \<Rightarrow> nat \<Rightarrow> leader_info \<Rightarrow> int \<Rightarrow> io_world \<Rightarrow> io_world" where
  "kfastblock_transport_mark_osd_socket_failure env i leader ret w =
     (case kfastblock_osd_conn_slot_mark_failure_locked (te_m2j env) (te_now env) (slot w i) leader ret of
        (backoff, c) \<Rightarrow>
          on_vol (\<lambda>vol. kfastblock_volume_account_socket_backoff (te_j2m env) (te_now env) False (li_osd_id leader)
                    (li_port leader) (cs_fail_streak c) backoff ret (set_slot i c vol)) w)"

definition connect_failed :: "transport_env \<Rightarrow> nat \<Rightarrow> leader_info \<Rightarrow> int \<Rightarrow> io_world \<Rightarrow> io_world" where
  "connect_failed env i leader ret w =
     (let w1 = kfastblock_transport_mark_osd_socket_failure env i leader ret w
      in on_vol (set_slot i ((slot w1 i) \<lparr> cs_connecting := False \<rparr>)) w1)"

definition kfastblock_transport_connect_osd_cached_locked ::
    "transport_env \<Rightarrow> nat \<Rightarrow> leader_info \<Rightarrow> io_world \<Rightarrow> int \<times> io_world" where
  "kfastblock_transport_connect_osd_cached_locked env i leader w =
     (let w1 = on_vol (set_slot i (kfastblock_osd_conn_slot_close_locked (te_now env) (slot w i))) w
      in case kfastblock_transport_maybe_inject_fault (te_now env) KFASTBLOCK_FAULT_OSD_CONNECT (iw_vol w1) of
           (ret, vol) \<Rightarrow>
             (let w2 = w1 \<lparr> iw_vol := vol \<rparr>
              in if ret \<noteq> 0 then (ret, connect_failed env i leader ret w2)
                 else if kfastblock_transport_sockaddr_from_host_port (li_address leader) (li_port leader) \<noteq> 0
                 then (let ret = kfastblock_transport_sockaddr_from_host_port (li_address leader) (li_port leader)
                       in (ret, connect_failed env i leader ret w2))
                 else (case next_connect w2 of
                         (Inl ret, w3) \<Rightarrow> (ret, connect_failed env i leader ret w3)
                       | (Inr s, w3) \<Rightarrow>
                           (0, on_vol (set_slot i (kfastblock_osd_conn_slot_mark_success_locked (te_now env)
                                 ((slot w3 i) \<lparr> cs_sock := Some s, cs_next_seq := 1, cs_connecting := False \<rparr>) leader)) w3))))"

definition kfastblock_transport_check_osd_backoff :: "transport_env \<Rightarrow> leader_info \<Rightarrow> io_world \<Rightarrow> int \<times> io_world" where
  "kfastblock_transport_check_osd_backoff env leader w =
     (case kfastblock_osd_conn_pool_check_backoff (te_now env) (v_socket_cache (iw_vol w)) leader of
        (ret, remaining) \<Rightarrow>
          if ret \<noteq> 0
          then (ret, on_vol (kfastblock_volume_account_socket_backoff_wait (te_j2m env) (te_now env) False (li_osd_id leader)
                       (li_port leader) remaining ret) w)
          else (0, w))"

definition use_slot :: "nat \<Rightarrow> io_world \<Rightarrow> int \<times> nat option \<times> io_world" where
  "use_slot i w = (0, Some i, on_vol (set_slot i (kfastblock_transport_osd_mux_socket_init (slot w i))) w)"

definition fallback_wait_match :: "transport_env \<Rightarrow> leader_info \<Rightarrow> io_world \<Rightarrow> int \<times> nat option \<times> io_world" where
  "fallback_wait_match env leader w =
     (case kfastblock_osd_conn_pool_acquire_match (te_now env) (te_busy env) (v_socket_cache (iw_vol w)) leader of
        (None, _) \<Rightarrow> (- EBUSY, None, w)
      | (Some (i, _), slots) \<Rightarrow> use_slot i (on_vol (\<lambda>vol. vol \<lparr> v_socket_cache := slots \<rparr>) w))"

definition kfastblock_transport_acquire_osd_socket ::
    "transport_env \<Rightarrow> leader_info \<Rightarrow> io_world \<Rightarrow> int \<times> nat option \<times> io_world" where
  "kfastblock_transport_acquire_osd_socket env leader w =
     (case kfastblock_osd_conn_pool_try_acquire_match (te_now env) (te_busy env) (v_socket_cache (iw_vol w)) leader of
        (Some (i, _), slots) \<Rightarrow> use_slot i (on_vol (\<lambda>vol. vol \<lparr> v_socket_cache := slots \<rparr>) w)
      | (None, _) \<Rightarrow>
          (case kfastblock_transport_check_osd_backoff env leader w of (ret, w1) \<Rightarrow>
             if ret \<noteq> 0 then (ret, None, w1)
             else if max (te_parallel_limit env) 1 \<le> kfastblock_osd_conn_pool_endpoint_active_count (v_socket_cache (iw_vol w1)) leader
             then fallback_wait_match env leader w1
             else (case kfastblock_osd_conn_pool_reserve (te_now env) (te_busy env) (v_socket_cache (iw_vol w1)) of
                     (None, _) \<Rightarrow> fallback_wait_match env leader w1
                   | (Some i, slots) \<Rightarrow>
                       (let w2 = on_vol (\<lambda>vol. set_slot i ((slots ! i) \<lparr> cs_osd_id := li_osd_id leader, cs_port := li_port leader,
                                             cs_address := strscpy KFASTBLOCK_MAX_ADDR_LEN (li_address leader) \<rparr>)
                                           (vol \<lparr> v_socket_cache := slots \<rparr>)) w1
                        in case kfastblock_transport_connect_osd_cached_locked env i leader w2 of (ret, w3) \<Rightarrow>
                             if ret \<noteq> 0 then (ret, None, w3) else use_slot i w3))))"

definition kfastblock_transport_prepare_mux_osd_socket ::
    "transport_env \<Rightarrow> leader_info \<Rightarrow> io_world \<Rightarrow> int \<times> nat option \<times> io_world" where
  "kfastblock_transport_prepare_mux_osd_socket env leader w = kfastblock_transport_acquire_osd_socket env leader w"

text \<open>\<^verbatim>\<open>exec_mux_request_parts\<close> as the caller sees it: refused, or the result its waiter is completed with.\<close>

definition mux_exchange :: "nat \<Rightarrow> u8 \<Rightarrow> u64 \<Rightarrow> u8 list list \<Rightarrow> io_world \<Rightarrow> (int \<times> response_ctx) \<times> io_world" where
  "mux_exchange i opcode seq parts w =
     (if cs_mux_dead (slot w i) \<or> cs_sock (slot w i) = None
      then ((- ENOTCONN, kfastblock_transport_response_ctx_reset), w)
      else next_exchange i opcode seq parts w)"

definition kfastblock_transport_finalize_mux_osd_socket ::
    "transport_env \<Rightarrow> nat \<Rightarrow> leader_info \<Rightarrow> int \<Rightarrow> u32 \<Rightarrow> io_world \<Rightarrow> io_world" where
  "kfastblock_transport_finalize_mux_osd_socket env i leader ret actions w =
     (if ret = 0 then w
      else (let live = (cs_sock (slot w i) \<noteq> None \<and> \<not> cs_mux_dead (slot w i));
                drop_sock = on_vol (kfastblock_volume_account_socket_drop (te_now env) False (li_osd_id leader) (li_port leader) ret);
                w1 = (if live then on_vol (set_slot i ((slot w i) \<lparr> cs_mux_dead := True \<rparr>)) w else w);
                w2 = (if \<not> live then w1
                      else (let w' = drop_sock (if actions AND KFASTBLOCK_RECOVERY_DROP_SOCKET \<noteq> 0
                                                then kfastblock_transport_mark_osd_socket_failure env i leader ret w1 else w1)
                            in on_vol (set_slot i (kfastblock_osd_conn_slot_close_locked (te_now env) (slot w' i))) w'))
            in case kfastblock_transport_fail_mux_waiters ret (slot w2 i) of
                 (dn, c) \<Rightarrow> (on_vol (set_slot i c) w2) \<lparr> iw_completed := iw_completed w2 @ dn \<rparr>))"

definition shared_seq :: "transport_env \<Rightarrow> nat \<Rightarrow> io_world \<Rightarrow> u64 \<times> io_world" where
  "shared_seq env i w =
     (case kfastblock_transport_next_shared_seq (te_now env) (slot w i) of (seq, c) \<Rightarrow> (seq, on_vol (set_slot i c) w))"

section \<open>Exchanges in the pipeline\<close>

text \<open>An exchange that was never begun has sequence number 0.\<close>

record exchange_ctx =
  ec_object_index :: u32
  ec_service :: u8
  ec_opcode :: u8
  ec_seq :: u64

definition zero_exchange :: exchange_ctx where
  "zero_exchange = \<lparr> ec_object_index = 0, ec_service = 0, ec_opcode = 0, ec_seq = 0 \<rparr>"

definition kfastblock_transport_begin_exchange ::
    "u64 \<Rightarrow> u32 \<Rightarrow> u8 \<Rightarrow> u8 \<Rightarrow> u64 \<Rightarrow> volume \<times> request \<Rightarrow> int \<times> exchange_ctx \<times> volume \<times> request" where
  "kfastblock_transport_begin_exchange now object_index service opcode seq vr =
     (case vr of (vol, r) \<Rightarrow>
        if seq = 0 then (- EINVAL, zero_exchange, vol, r)
        else (let ctx = \<lparr> ec_object_index = object_index, ec_service = service, ec_opcode = opcode, ec_seq = seq \<rparr>
              in case kfastblock_pipeline_begin_exchange now (kr_pipeline r) seq object_index service opcode of
                   (p, None) \<Rightarrow> (- ENOMEM, ctx, vol, r \<lparr> kr_pipeline := p \<rparr>)
                 | (p, Some _) \<Rightarrow>
                     (case kfastblock_request_record_object_seq object_index seq (vol, r \<lparr> kr_pipeline := p \<rparr>) of
                        (v1, r1) \<Rightarrow> (0, ctx, kfastblock_volume_update_pipeline_snapshot (kr_pipeline r1) v1, r1))))"

definition kfastblock_transport_lookup_response_header_object ::
    "exchange_ctx \<Rightarrow> request \<Rightarrow> raw_header option \<Rightarrow> int + (u64 \<times> u32)" where
  "kfastblock_transport_lookup_response_header_object ctx r rsp_hdr =
     (case rsp_hdr of
        None \<Rightarrow> Inl (- EINVAL)
      | Some h \<Rightarrow>
          if rh_service h \<noteq> ec_service ctx \<or> rh_opcode h \<noteq> ec_opcode ctx \<or> rh_seq h = 0 then Inl (- EPROTO)
          else (case kfastblock_request_lookup_object_by_seq r (rh_seq h) of
                  Inl ret \<Rightarrow> Inl ret
                | Inr i \<Rightarrow> Inr (rh_seq h, i)))"

definition kfastblock_transport_lookup_response_object ::
    "exchange_ctx \<Rightarrow> request \<Rightarrow> response_ctx \<Rightarrow> int + (u64 \<times> u32)" where
  "kfastblock_transport_lookup_response_object ctx r response =
     kfastblock_transport_lookup_response_header_object ctx r (Some (rs_hdr response))"

definition kfastblock_transport_finish_exchange ::
    "u64 \<Rightarrow> exchange_ctx \<Rightarrow> int \<Rightarrow> raw_header option \<Rightarrow> volume \<times> request \<Rightarrow> volume \<times> request" where
  "kfastblock_transport_finish_exchange now ctx ret rsp_hdr vr =
     (case vr of (vol, r) \<Rightarrow>
        if ec_seq ctx = 0 then (vol, r)
        else (let (status, body_len, flags, response_seq) =
                    (case rsp_hdr of
                       None \<Rightarrow> (ret, 0, 0, 0)
                     | Some h \<Rightarrow> (kfastblock_transport_status_to_errno (rh_status h), rh_body_len h, rh_flags h, rh_seq h));
                  object = (case kfastblock_transport_lookup_response_header_object ctx r rsp_hdr of
                              Inr (_, i) \<Rightarrow> i | Inl _ \<Rightarrow> ec_object_index ctx)
              in case kfastblock_request_record_object_response object status body_len flags (vol, r) of
                   (v1, r1) \<Rightarrow>
                     (let p = fst (kfastblock_pipeline_finish_exchange now (kr_pipeline r1)
                                     (if response_seq \<noteq> 0 then response_seq else ec_seq ctx) ret status body_len flags)
                      in (kfastblock_volume_update_pipeline_snapshot p v1, r1 \<lparr> kr_pipeline := p \<rparr>))))"

definition kfastblock_transport_match_exchange_response :: "exchange_ctx \<Rightarrow> request \<Rightarrow> response_ctx \<Rightarrow> int" where
  "kfastblock_transport_match_exchange_response ctx r response =
     (case kfastblock_transport_lookup_response_object ctx r response of
        Inl ret \<Rightarrow> ret
      | Inr (seq, i) \<Rightarrow> if seq \<noteq> ec_seq ctx \<or> i \<noteq> ec_object_index ctx then - EPROTO else 0)"

definition kfastblock_transport_complete_exchange_response ::
    "u64 \<Rightarrow> exchange_ctx \<Rightarrow> response_ctx \<Rightarrow> int \<Rightarrow> volume \<times> request \<Rightarrow> int \<times> volume \<times> request" where
  "kfastblock_transport_complete_exchange_response now ctx response ret vr =
     (let match_ret = kfastblock_transport_match_exchange_response ctx (snd vr) response;
          ret' = (if match_ret \<noteq> 0 then match_ret else ret)
      in (ret', kfastblock_transport_finish_exchange now ctx ret' (if ret' \<noteq> 0 then None else Some (rs_hdr response)) vr))"

text \<open>A failed wait leaves an empty response, whose service is not the OSD's: the result of the exchange is
  \<^verbatim>\<open>-EPROTO\<close> whatever the failure was.\<close>

lemma failed_exchange_is_eproto:
  assumes "ec_service ctx = KFASTBLOCK_RAW_SERVICE_OSD"
  shows "fst (kfastblock_transport_complete_exchange_response now ctx kfastblock_transport_response_ctx_reset ret vr) = - EPROTO"
  using assms
  by (simp add: kfastblock_transport_complete_exchange_response_def kfastblock_transport_match_exchange_response_def
      kfastblock_transport_lookup_response_object_def kfastblock_transport_lookup_response_header_object_def
      kfastblock_transport_response_ctx_reset_def zero_header_def)

section \<open>The leader of a placement group\<close>

abbreviation (input) KFASTBLOCK_OSD_FLAG_IN :: u32 where "KFASTBLOCK_OSD_FLAG_IN \<equiv> 1"
abbreviation (input) KFASTBLOCK_OSD_FLAG_UP :: u32 where "KFASTBLOCK_OSD_FLAG_UP \<equiv> 2"

definition kfastblock_transport_request_view_stale :: "io_world \<Rightarrow> int" where
  "kfastblock_transport_request_view_stale w =
     (if cv_osdmap_epoch (v_view (iw_vol w)) \<noteq> kr_osdmap_epoch (iw_req w) \<or>
         cv_pgmap_epoch (v_view (iw_vol w)) \<noteq> kr_pgmap_epoch (iw_req w)
      then - ESTALE else 0)"

definition hint_at :: "io_world \<Rightarrow> nat \<Rightarrow> request_pg_hint" where
  "hint_at w j = kr_pg_hints (iw_req w) ! j"

definition on_hint :: "nat \<Rightarrow> (request_pg_hint \<Rightarrow> request_pg_hint) \<Rightarrow> io_world \<Rightarrow> io_world" where
  "on_hint j f w = w \<lparr> iw_req := (iw_req w) \<lparr> kr_pg_hints := (kr_pg_hints (iw_req w))[j := f (hint_at w j)] \<rparr> \<rparr>"

definition kfastblock_transport_leader_query_target_usable :: "request_pg_target \<Rightarrow> bool" where
  "kfastblock_transport_leader_query_target_usable t \<longleftrightarrow>
     pt_flags t AND KFASTBLOCK_OSD_FLAG_IN \<noteq> 0 \<and> pt_flags t AND KFASTBLOCK_OSD_FLAG_UP \<noteq> 0 \<and>
     pt_address t \<noteq> [] \<and> pt_port t \<noteq> 0"

definition kfastblock_transport_prepare_leader_query_target :: "request_pg_hint \<Rightarrow> nat \<Rightarrow> int + leader_info" where
  "kfastblock_transport_prepare_leader_query_target hint i =
     (if unat (ph_nr_targets hint) \<le> i then Inl (- EINVAL)
      else (let t = ph_targets hint ! i
            in if \<not> kfastblock_transport_leader_query_target_usable t then Inl (- EHOSTDOWN)
               else Inr \<lparr> li_osd_id = pt_osd_id t, li_port = pt_port t,
                          li_address = strscpy KFASTBLOCK_MAX_ADDR_LEN (pt_address t) \<rparr>))"

definition apply_leader_failure :: "transport_env \<Rightarrow> nat \<Rightarrow> int \<Rightarrow> u32 \<Rightarrow> io_world \<Rightarrow> io_world" where
  "apply_leader_failure env j ret actions w =
     on_vol (kfastblock_recovery_apply_leader_failure (te_now env) (kr_pool_id (iw_req w)) (ph_pg_id (hint_at w j)) ret actions) w"

definition kfastblock_transport_prepare_leader_query_request ::
    "transport_env \<Rightarrow> nat \<Rightarrow> io_world \<Rightarrow> int \<times> io_world" where
  "kfastblock_transport_prepare_leader_query_request env j w =
     (case kfastblock_transport_maybe_inject_fault (te_now env) KFASTBLOCK_FAULT_LEADER_QUERY (iw_vol w) of
        (ret, vol) \<Rightarrow>
          (let w1 = w \<lparr> iw_vol := vol \<rparr>;
               ret' = (if ret \<noteq> 0 then ret else kfastblock_transport_request_view_stale w1)
           in if ret' \<noteq> 0
              then (ret', apply_leader_failure env j ret' (kfastblock_recovery_classify_leader_failure ret') w1)
              else (0, w1)))"

text \<open>One target: the result, the actions it calls for, and the leader as far as it was filled in.\<close>

definition kfastblock_transport_drive_leader_query_target ::
    "transport_env \<Rightarrow> nat \<Rightarrow> nat \<Rightarrow> leader_info \<Rightarrow> io_world \<Rightarrow> int \<times> u32 \<times> leader_info \<times> io_world" where
  "kfastblock_transport_drive_leader_query_target env j t leader w =
     (case kfastblock_transport_prepare_leader_query_target (hint_at w j) t of
        Inl ret \<Rightarrow> (ret, 0, leader, w)
      | Inr target \<Rightarrow>
          (case kfastblock_transport_prepare_mux_osd_socket env target w of
             (ret, None, w1) \<Rightarrow> (ret, 0, leader, w1)
           | (ret, Some i, w1) \<Rightarrow>
               (case shared_seq env i w1 of (seq, w2) \<Rightarrow>
                  (case mux_exchange i KFASTBLOCK_RAW_OSD_OP_GET_LEADER seq
                          (get_leader_parts (kr_pool_id (iw_req w2)) (ph_pg_id (hint_at w j))) w2 of ((xret, response), w3) \<Rightarrow>
                     (case fetch_pg_leader_done xret response of (ret, leader') \<Rightarrow>
                        (let actions = kfastblock_recovery_classify_leader_failure ret;
                             w4 = on_vol (kfastblock_volume_account_leader_query (te_now env) (ph_pg_id (hint_at w j)) (li_osd_id target) ret)
                                    (kfastblock_transport_finalize_mux_osd_socket env i target ret actions w3)
                         in if ret \<noteq> 0 then (ret, actions, leader', w4)
                            else (case kfastblock_recovery_update_live_pg_leader (kr_pool_id (iw_req w4)) (ph_pg_id (hint_at w j)) leader' (iw_vol w4) of
                                    (ret, vol) \<Rightarrow> (ret, actions, leader', w4 \<lparr> iw_vol := vol \<rparr>))))))))"

definition kfastblock_transport_note_leader_query_failure ::
    "transport_env \<Rightarrow> nat \<Rightarrow> int \<Rightarrow> u32 \<Rightarrow> io_world \<Rightarrow> io_world" where
  "kfastblock_transport_note_leader_query_failure env j ret actions w =
     apply_leader_failure env j ret actions (on_hint j kfastblock_request_invalidate_pg_hint_leader w)"

text \<open>The loop over the targets: \<^verbatim>\<open>ctx->ret\<close>, \<^verbatim>\<open>ctx->first_err\<close>, the leader and the state.\<close>

fun leader_query_loop ::
    "transport_env \<Rightarrow> nat \<Rightarrow> nat list \<Rightarrow> int \<Rightarrow> int \<Rightarrow> leader_info \<Rightarrow> io_world \<Rightarrow> int \<times> int \<times> leader_info \<times> io_world" where
  "leader_query_loop env j [] ret first_err leader w = (ret, first_err, leader, w)"
| "leader_query_loop env j (t # ts) ret first_err leader w =
     (case kfastblock_transport_drive_leader_query_target env j t leader w of (ret, actions, leader', w1) \<Rightarrow>
        if ret = - EHOSTDOWN then leader_query_loop env j ts ret (- EHOSTDOWN) leader' w1
        else if ret \<noteq> 0
        then leader_query_loop env j ts ret ret leader'
               (kfastblock_transport_note_leader_query_failure env j ret
                  (if actions = 0 then kfastblock_recovery_classify_leader_failure ret else actions) w1)
        else (0, first_err, leader', w1))"

definition kfastblock_transport_query_pg_leader ::
    "transport_env \<Rightarrow> nat option \<Rightarrow> leader_info \<Rightarrow> io_world \<Rightarrow> int \<times> leader_info \<times> io_world" where
  "kfastblock_transport_query_pg_leader env hint leader w =
     (case hint of
        None \<Rightarrow> (- EINVAL, leader, w)
      | Some j \<Rightarrow>
          if ph_nr_targets (hint_at w j) = 0 \<or> ph_targets (hint_at w j) = [] then (- ENOENT, leader, w)
          else (case kfastblock_transport_prepare_leader_query_request env j w of (ret, w1) \<Rightarrow>
                  if ret \<noteq> 0 then (- ENOENT, leader, w1)
                  else (case leader_query_loop env j [0..<unat (ph_nr_targets (hint_at w1 j))] 0 (- ENOENT) leader w1 of
                          (ret, first_err, leader', w2) \<Rightarrow> (if ret = 0 then 0 else first_err, leader', w2))))"

end
