(* ===== verification/KFB_Object_IO.thy ===== *)
theory KFB_Object_IO
  imports KFB_Exchange
begin

text \<open>
  One object of a request, from the queued work to its result (\<^verbatim>\<open>kfastblock/src/transport.c\<close>,
  \<^verbatim>\<open>copy_request_data\<close> to \<^verbatim>\<open>submit_object_io\<close>): the buffer, at most two attempts, each with a leader, a
  socket and an exchange, and the recovery after a failure. The block request's data are the segments
  \<open>iw_pages\<close>; the object's buffer is an address of the buffer heap.
\<close>

section \<open>Copying between the block request and a buffer\<close>

definition memcpy_at :: "'a list \<Rightarrow> nat \<Rightarrow> 'a list \<Rightarrow> 'a list" where
  "memcpy_at xs n ys = take n xs @ ys @ drop (n + length ys) xs"

fun copy_segments ::
    "u32 \<Rightarrow> u32 \<Rightarrow> bool \<Rightarrow> u8 list list \<Rightarrow> u32 \<Rightarrow> u32 \<Rightarrow> u8 list \<Rightarrow> int \<times> u8 list list \<times> u8 list" where
  "copy_segments request_offset len to_request [] copied skipped buf =
     (if copied = len then 0 else - EIO, [], buf)"
| "copy_segments request_offset len to_request (seg # segs) copied skipped buf =
     (let bv_len = of_nat (length seg)
      in if skipped + bv_len \<le> request_offset
         then (case copy_segments request_offset len to_request segs copied (skipped + bv_len) buf of
                 (ret, segs', buf') \<Rightarrow> (ret, seg # segs', buf'))
         else (let seg_offset = (if skipped < request_offset then request_offset - skipped else 0);
                   chunk = min (len - copied) (bv_len - seg_offset);
                   seg' = (if to_request then memcpy_at seg (unat seg_offset) (take (unat chunk) (drop (unat copied) buf)) else seg);
                   buf' = (if to_request then buf else memcpy_at buf (unat copied) (take (unat chunk) (drop (unat seg_offset) seg)))
               in if copied + chunk = len then (0, seg' # segs, buf')
                  else (case copy_segments request_offset len to_request segs (copied + chunk) (skipped + bv_len) buf' of
                          (ret, segs', buf'') \<Rightarrow> (ret, seg' # segs', buf''))))"

definition kfastblock_transport_copy_request_data ::
    "blk_request option \<Rightarrow> u8 list list \<Rightarrow> u32 \<Rightarrow> u8 list option \<Rightarrow> u32 \<Rightarrow> bool \<Rightarrow> int \<times> u8 list list \<times> u8 list option" where
  "kfastblock_transport_copy_request_data rq segs request_offset buf len to_request =
     (if rq = None \<or> (buf = None \<and> len \<noteq> 0) then (- EINVAL, segs, buf)
      else if len = 0 then (0, segs, buf)
      else (case copy_segments request_offset len to_request segs 0 0 (the buf) of
              (ret, segs', buf') \<Rightarrow> (ret, segs', Some buf')))"

section \<open>The context of an object\<close>

record object_io_ctx =
  oc_extent :: object_extent
  oc_hint :: "nat option"
  oc_leader :: leader_info
  oc_cached :: "nat option"
  oc_attempt :: nat
  oc_object_index :: u32
  oc_op :: u8
  oc_raw_opcode :: u8
  oc_buf :: "addr option"
  oc_exchange :: exchange_ctx
  oc_response :: response_ctx
  oc_ret :: int
  oc_actions :: u32

abbreviation (input) REQ_OP_LAST :: u8 where "REQ_OP_LAST \<equiv> 36"
abbreviation (input) KFASTBLOCK_OBJECT_IO_MAX_ATTEMPTS :: nat where "KFASTBLOCK_OBJECT_IO_MAX_ATTEMPTS \<equiv> 2"

definition kfastblock_transport_find_request_pg_hint :: "request \<Rightarrow> u32 \<Rightarrow> nat option" where
  "kfastblock_transport_find_request_pg_hint r pg_id =
     List.find (\<lambda>i. ph_pg_id (kr_pg_hints r ! i) = pg_id) [0..<unat (kr_nr_unique_pgs r)]"

definition kfastblock_transport_request_failed :: "request \<Rightarrow> bool" where
  "kfastblock_transport_request_failed r \<longleftrightarrow> kr_status r \<noteq> 0"

definition kfastblock_transport_object_op :: "request \<Rightarrow> u32 \<Rightarrow> u8" where
  "kfastblock_transport_object_op r i =
     (case kr_rq r of
        None \<Rightarrow> REQ_OP_LAST
      | Some rq \<Rightarrow>
          if kr_nr_objects r \<le> i then REQ_OP_LAST
          else if br_op rq \<noteq> REQ_OP_DISCARD then br_op rq
          else (let extent = kr_objects r ! unat i
                in if ox_object_offset extent = 0 \<and> ox_length extent = kr_object_size r
                   then REQ_OP_DISCARD else REQ_OP_WRITE_ZEROES))"

definition kfastblock_transport_raw_opcode_for_object_op :: "u8 \<Rightarrow> u8" where
  "kfastblock_transport_raw_opcode_for_object_op op =
     (if op = REQ_OP_WRITE \<or> op = REQ_OP_WRITE_ZEROES then KFASTBLOCK_RAW_OSD_OP_WRITE_OBJECT
      else if op = REQ_OP_READ then KFASTBLOCK_RAW_OSD_OP_READ_OBJECT
      else if op = REQ_OP_DISCARD then KFASTBLOCK_RAW_OSD_OP_DELETE_OBJECT
      else 0)"

definition kfastblock_transport_object_io_ctx_init :: "request \<Rightarrow> u32 \<Rightarrow> int + object_io_ctx" where
  "kfastblock_transport_object_io_ctx_init r i =
     (if \<not> kr_has_vol r \<or> kr_rq r = None \<or> kr_nr_objects r \<le> i then Inl (- EINVAL)
      else (let extent = kr_objects r ! unat i; op = kfastblock_transport_object_op r i
            in Inr \<lparr> oc_extent = extent, oc_hint = kfastblock_transport_find_request_pg_hint r (ox_pg_id extent),
                     oc_leader = zero_leader, oc_cached = None, oc_attempt = 0, oc_object_index = i, oc_op = op,
                     oc_raw_opcode = kfastblock_transport_raw_opcode_for_object_op op, oc_buf = None,
                     oc_exchange = zero_exchange, oc_response = kfastblock_transport_response_ctx_reset,
                     oc_ret = 0, oc_actions = 0 \<rparr>))"

definition kfastblock_transport_object_io_ctx_reset_attempt :: "object_io_ctx \<Rightarrow> object_io_ctx" where
  "kfastblock_transport_object_io_ctx_reset_attempt ctx =
     ctx \<lparr> oc_leader := zero_leader, oc_cached := None, oc_ret := 0, oc_actions := 0,
           oc_exchange := zero_exchange, oc_response := kfastblock_transport_response_ctx_reset \<rparr>"

section \<open>The buffer\<close>

definition buf_data :: "addr option \<Rightarrow> io_world \<Rightarrow> u8 list option" where
  "buf_data buf w = (case buf of None \<Rightarrow> None | Some a \<Rightarrow> map_option be_data (iw_heap w a))"

definition set_buf :: "addr option \<Rightarrow> (u8 list \<Rightarrow> u8 list) \<Rightarrow> io_world \<Rightarrow> io_world" where
  "set_buf buf f w =
     (case buf of None \<Rightarrow> w
      | Some a \<Rightarrow> w \<lparr> iw_heap := (iw_heap w)(a := map_option (be_data_update f) (iw_heap w a)) \<rparr>)"

definition alloc_object_buffer :: "transport_env \<Rightarrow> u32 \<Rightarrow> bool \<Rightarrow> io_world \<Rightarrow> addr option \<times> io_world" where
  "alloc_object_buffer env len zero w =
     (case kfastblock_buffer_pool_alloc (te_kv env) (Some (v_object_buffer_pool (iw_vol w))) (iw_heap w) (ucast len) zero of
        (p, h, a) \<Rightarrow> (a, on_vol (\<lambda>vol. vol \<lparr> v_object_buffer_pool := the p \<rparr>) (w \<lparr> iw_heap := h \<rparr>)))"

definition free_object_buffer :: "addr option \<Rightarrow> io_world \<Rightarrow> io_world" where
  "free_object_buffer buf w =
     (case kfastblock_buffer_pool_free (Some (v_object_buffer_pool (iw_vol w))) (iw_heap w) buf of
        (p, h) \<Rightarrow> on_vol (\<lambda>vol. vol \<lparr> v_object_buffer_pool := the p \<rparr>) (w \<lparr> iw_heap := h \<rparr>))"

definition kfastblock_transport_prepare_object_buffer ::
    "transport_env \<Rightarrow> object_io_ctx \<Rightarrow> io_world \<Rightarrow> int \<times> addr option \<times> io_world" where
  "kfastblock_transport_prepare_object_buffer env ctx w =
     (let len = ox_length (oc_extent ctx)
      in if oc_op ctx = REQ_OP_WRITE
         then (case alloc_object_buffer env len False w of
                 (None, w1) \<Rightarrow> (- ENOMEM, None, w1)
               | (Some a, w1) \<Rightarrow>
                   (case kfastblock_transport_copy_request_data (kr_rq (iw_req w1)) (iw_pages w1)
                           (ox_request_offset (oc_extent ctx)) (buf_data (Some a) w1) len False of
                      (ret, segs, data) \<Rightarrow>
                        (let w2 = set_buf (Some a) (\<lambda>_. the data) (w1 \<lparr> iw_pages := segs \<rparr>)
                         in if ret \<noteq> 0 then (ret, None, free_object_buffer (Some a) w2) else (0, Some a, w2))))
         else if oc_op ctx = REQ_OP_WRITE_ZEROES \<or> oc_op ctx = REQ_OP_READ
         then (case alloc_object_buffer env len (oc_op ctx = REQ_OP_WRITE_ZEROES) w of
                 (None, w1) \<Rightarrow> (- ENOMEM, None, w1)
               | (Some a, w1) \<Rightarrow> (0, Some a, w1))
         else (0, None, w))"

definition kfastblock_transport_release_object_buffer :: "object_io_ctx \<Rightarrow> io_world \<Rightarrow> object_io_ctx \<times> io_world" where
  "kfastblock_transport_release_object_buffer ctx w = (ctx \<lparr> oc_buf := None \<rparr>, free_object_buffer (oc_buf ctx) w)"

section \<open>An exchange for the object\<close>

definition object_parts :: "object_io_ctx \<Rightarrow> io_world \<Rightarrow> u8 list list" where
  "object_parts ctx w =
     (if oc_op ctx = REQ_OP_WRITE \<or> oc_op ctx = REQ_OP_WRITE_ZEROES
      then write_object_parts (kr_pool_id (iw_req w)) (oc_extent ctx) (the (buf_data (oc_buf ctx) w))
      else if oc_op ctx = REQ_OP_READ then read_object_parts (kr_pool_id (iw_req w)) (oc_extent ctx)
      else delete_object_parts (kr_pool_id (iw_req w)) (oc_extent ctx))"

definition object_opcode :: "object_io_ctx \<Rightarrow> u8" where
  "object_opcode ctx =
     (if oc_op ctx = REQ_OP_WRITE \<or> oc_op ctx = REQ_OP_WRITE_ZEROES then KFASTBLOCK_RAW_OSD_OP_WRITE_OBJECT
      else if oc_op ctx = REQ_OP_READ then KFASTBLOCK_RAW_OSD_OP_READ_OBJECT
      else KFASTBLOCK_RAW_OSD_OP_DELETE_OBJECT)"

definition kfastblock_transport_execute_object_opcode ::
    "object_io_ctx \<Rightarrow> io_world \<Rightarrow> int \<times> response_ctx \<times> io_world" where
  "kfastblock_transport_execute_object_opcode ctx w =
     (case mux_exchange (the (oc_cached ctx)) (object_opcode ctx) (ec_seq (oc_exchange ctx)) (object_parts ctx w) w of
        ((ret, response), w1) \<Rightarrow>
          if oc_op ctx = REQ_OP_READ
          then (case read_object_done (oc_extent ctx) ret response of
                  Inl ret \<Rightarrow> (ret, response, w1)
                | Inr data \<Rightarrow> (0, response, set_buf (oc_buf ctx) (\<lambda>bs. memcpy_at bs 0 data) w1))
          else (ret, response, w1))"

definition kfastblock_transport_normalize_object_ret :: "object_io_ctx \<Rightarrow> int \<Rightarrow> io_world \<Rightarrow> int \<times> io_world" where
  "kfastblock_transport_normalize_object_ret ctx ret w =
     (if ret = - ENOENT \<and> oc_op ctx = REQ_OP_READ
      then (0, set_buf (oc_buf ctx) (zero_prefix (unat (ox_length (oc_extent ctx)))) w)
      else if ret = - ENOENT \<and> oc_op ctx = REQ_OP_DISCARD then (0, w)
      else (ret, w))"

definition kfastblock_transport_run_object_exchange ::
    "transport_env \<Rightarrow> object_io_ctx \<Rightarrow> io_world \<Rightarrow> object_io_ctx \<times> io_world" where
  "kfastblock_transport_run_object_exchange env ctx w =
     (case kfastblock_transport_execute_object_opcode ctx w of (ret, response, w1) \<Rightarrow>
        (case kfastblock_transport_normalize_object_ret ctx ret w1 of (ret, w2) \<Rightarrow>
           (case kfastblock_transport_complete_exchange_response (te_now env) (oc_exchange ctx) response ret (iw_vol w2, iw_req w2) of
              (ret, vol, r) \<Rightarrow>
                (ctx \<lparr> oc_ret := ret, oc_response := kfastblock_transport_response_ctx_reset \<rparr>,
                 w2 \<lparr> iw_vol := vol, iw_req := r \<rparr>))))"

definition kfastblock_transport_pick_object_leader ::
    "transport_env \<Rightarrow> object_io_ctx \<Rightarrow> io_world \<Rightarrow> int \<times> leader_info \<times> io_world" where
  "kfastblock_transport_pick_object_leader env ctx w =
     (case (oc_hint ctx, map_option (\<lambda>j. kfastblock_request_get_pg_hint_leader (hint_at w j)) (oc_hint ctx)) of
        (Some j, Some (Inr leader)) \<Rightarrow>
          if oc_attempt ctx = 0 then (0, leader, w)
          else kfastblock_transport_query_pg_leader env (oc_hint ctx) (oc_leader ctx) w
      | _ \<Rightarrow> kfastblock_transport_query_pg_leader env (oc_hint ctx) (oc_leader ctx) w)"

definition kfastblock_transport_prepare_object_exchange ::
    "transport_env \<Rightarrow> object_io_ctx \<Rightarrow> io_world \<Rightarrow> int \<times> object_io_ctx \<times> io_world" where
  "kfastblock_transport_prepare_object_exchange env ctx w =
     (case kfastblock_transport_prepare_mux_osd_socket env (oc_leader ctx) w of
        (ret, None, w1) \<Rightarrow> (ret, ctx, w1)
      | (ret, Some i, w1) \<Rightarrow>
          (case shared_seq env i w1 of (seq, w2) \<Rightarrow>
             (case kfastblock_transport_begin_exchange (te_now env) (oc_object_index ctx) KFASTBLOCK_RAW_SERVICE_OSD
                     (oc_raw_opcode ctx) seq (iw_vol w2, iw_req w2) of
                (ret, exchange, vol, r) \<Rightarrow>
                  (ret, ctx \<lparr> oc_cached := Some i, oc_exchange := exchange \<rparr>, w2 \<lparr> iw_vol := vol, iw_req := r \<rparr>))))"

definition kfastblock_transport_begin_object_attempt ::
    "transport_env \<Rightarrow> object_io_ctx \<Rightarrow> io_world \<Rightarrow> int \<times> object_io_ctx \<times> io_world" where
  "kfastblock_transport_begin_object_attempt env ctx w =
     (case kfastblock_transport_pick_object_leader env ctx w of (ret, leader, w1) \<Rightarrow>
        if ret \<noteq> 0 then (ret, ctx \<lparr> oc_leader := leader \<rparr>, w1)
        else kfastblock_transport_prepare_object_exchange env (ctx \<lparr> oc_leader := leader \<rparr>) w1)"

section \<open>After the exchange\<close>

definition kfastblock_transport_finish_object_success ::
    "transport_env \<Rightarrow> object_io_ctx \<Rightarrow> io_world \<Rightarrow> int \<times> io_world" where
  "kfastblock_transport_finish_object_success env ctx w =
     (case (if oc_op ctx = REQ_OP_READ
            then (case kfastblock_transport_copy_request_data (kr_rq (iw_req w)) (iw_pages w)
                         (ox_request_offset (oc_extent ctx)) (buf_data (oc_buf ctx) w) (ox_length (oc_extent ctx)) True of
                    (ret, segs, _) \<Rightarrow> (ret, w \<lparr> iw_pages := segs \<rparr>))
            else (0, w)) of
        (ret, w1) \<Rightarrow>
          if ret \<noteq> 0 then (ret, w1)
          else (0, on_vol (\<lambda>vol. (vol \<lparr> v_scheduler := kfastblock_scheduler_note_success (v_scheduler vol) \<rparr>))
                     (on_vol (kfastblock_volume_account_object_success (te_now env) (oc_op ctx) (ox_pg_id (oc_extent ctx))
                                (li_osd_id (oc_leader ctx)) (ox_length (oc_extent ctx))) w1)))"

definition kfastblock_transport_handle_object_failure ::
    "transport_env \<Rightarrow> object_io_ctx \<Rightarrow> io_world \<Rightarrow> bool \<times> io_world" where
  "kfastblock_transport_handle_object_failure env ctx w =
     (if oc_actions ctx = 0 then (False, w)
      else (let w1 = on_vol (kfastblock_recovery_apply_object_failure (te_m2j env) (te_now env) (kr_pool_id (iw_req w))
                       (oc_extent ctx) (oc_op ctx) (oc_leader ctx) (oc_ret ctx) (oc_actions ctx)) w;
                w2 = (case oc_hint ctx of
                        None \<Rightarrow> w1
                      | Some j \<Rightarrow> if oc_actions ctx AND KFASTBLOCK_RECOVERY_INVALIDATE_LEADER \<noteq> 0
                                  then on_hint j kfastblock_request_invalidate_pg_hint_leader w1 else w1)
            in if oc_actions ctx AND KFASTBLOCK_RECOVERY_RETRY \<noteq> 0
               then (True, on_both (\<lambda>vr. snd (kfastblock_request_requeue_object (te_now env) (oc_object_index ctx) (oc_ret ctx) vr)) w2)
               else (False, w2)))"

definition kfastblock_transport_finalize_object_socket ::
    "transport_env \<Rightarrow> object_io_ctx \<Rightarrow> io_world \<Rightarrow> object_io_ctx \<times> io_world" where
  "kfastblock_transport_finalize_object_socket env ctx w =
     (case oc_cached ctx of
        None \<Rightarrow> (ctx, w)
      | Some i \<Rightarrow> (ctx \<lparr> oc_cached := None \<rparr>,
                   kfastblock_transport_finalize_mux_osd_socket env i (oc_leader ctx) (oc_ret ctx) (oc_actions ctx) w))"

definition kfastblock_transport_abort_object_exchange ::
    "transport_env \<Rightarrow> object_io_ctx \<Rightarrow> io_world \<Rightarrow> object_io_ctx \<times> io_world" where
  "kfastblock_transport_abort_object_exchange env ctx w =
     (case kfastblock_transport_finalize_object_socket env ctx w of (ctx, w) \<Rightarrow>
        (ctx, on_both (kfastblock_transport_finish_exchange (te_now env) (oc_exchange ctx) (oc_ret ctx) None) w))"

definition kfastblock_transport_fail_object_attempt ::
    "transport_env \<Rightarrow> bool \<Rightarrow> object_io_ctx \<Rightarrow> io_world \<Rightarrow> bool \<times> object_io_ctx \<times> io_world" where
  "kfastblock_transport_fail_object_attempt env after_exchange ctx w =
     (let ctx1 = ctx \<lparr> oc_actions := kfastblock_recovery_classify_object_failure (oc_ret ctx) \<rparr>
      in case (if after_exchange then kfastblock_transport_abort_object_exchange env ctx1 w
               else kfastblock_transport_finalize_object_socket env ctx1 w) of
           (ctx2, w2) \<Rightarrow>
             (case kfastblock_transport_handle_object_failure env ctx2 w2 of (again, w3) \<Rightarrow> (again, ctx2, w3)))"

definition kfastblock_transport_complete_successful_object_attempt ::
    "transport_env \<Rightarrow> object_io_ctx \<Rightarrow> io_world \<Rightarrow> object_io_ctx \<times> io_world" where
  "kfastblock_transport_complete_successful_object_attempt env ctx w =
     (let w1 = (case oc_hint ctx of
                  None \<Rightarrow> w | Some j \<Rightarrow> on_hint j (kfastblock_request_set_pg_hint_leader (oc_leader ctx)) w)
      in case kfastblock_transport_finish_object_success env ctx w1 of (ret, w2) \<Rightarrow> (ctx \<lparr> oc_ret := ret \<rparr>, w2))"

definition kfastblock_transport_finalize_completed_object_attempt ::
    "transport_env \<Rightarrow> object_io_ctx \<Rightarrow> io_world \<Rightarrow> bool \<times> object_io_ctx \<times> io_world" where
  "kfastblock_transport_finalize_completed_object_attempt env ctx w =
     (let ctx1 = ctx \<lparr> oc_actions := (if oc_ret ctx \<noteq> 0 then kfastblock_recovery_classify_object_failure (oc_ret ctx) else 0) \<rparr>
      in case kfastblock_transport_finalize_object_socket env ctx1 w of (ctx2, w2) \<Rightarrow>
           if oc_ret ctx2 \<noteq> 0
           then (case kfastblock_transport_handle_object_failure env ctx2 w2 of (again, w3) \<Rightarrow> (again, ctx2, w3))
           else (False, kfastblock_transport_complete_successful_object_attempt env ctx2 w2))"

section \<open>Attempts\<close>

definition kfastblock_transport_drive_object_attempt ::
    "transport_env \<Rightarrow> object_io_ctx \<Rightarrow> io_world \<Rightarrow> bool \<times> object_io_ctx \<times> io_world" where
  "kfastblock_transport_drive_object_attempt env ctx w =
     (case kfastblock_transport_begin_object_attempt env ctx w of (ret, ctx1, w1) \<Rightarrow>
        if ret \<noteq> 0 then kfastblock_transport_fail_object_attempt env False (ctx1 \<lparr> oc_ret := ret \<rparr>) w1
        else (case kfastblock_transport_maybe_inject_fault (te_now env) KFASTBLOCK_FAULT_OBJECT_IO (iw_vol w1) of
                (ret, vol) \<Rightarrow>
                  (let w2 = w1 \<lparr> iw_vol := vol \<rparr>
                   in if ret \<noteq> 0 then kfastblock_transport_fail_object_attempt env True (ctx1 \<lparr> oc_ret := ret \<rparr>) w2
                      else (case kfastblock_transport_run_object_exchange env ctx1 w2 of
                              (ctx3, w3) \<Rightarrow> kfastblock_transport_finalize_completed_object_attempt env ctx3 w3))))"

fun object_attempts :: "transport_env \<Rightarrow> nat list \<Rightarrow> object_io_ctx \<Rightarrow> io_world \<Rightarrow> object_io_ctx \<times> io_world" where
  "object_attempts env [] ctx w = (ctx, w)"
| "object_attempts env (attempt # rest) ctx w =
     (case kfastblock_transport_drive_object_attempt env
             ((kfastblock_transport_object_io_ctx_reset_attempt ctx) \<lparr> oc_attempt := attempt \<rparr>) w of
        (again, ctx', w') \<Rightarrow> if again then object_attempts env rest ctx' w' else (ctx', w'))"

definition kfastblock_transport_run_object_attempts ::
    "transport_env \<Rightarrow> object_io_ctx \<Rightarrow> io_world \<Rightarrow> object_io_ctx \<times> io_world" where
  "kfastblock_transport_run_object_attempts env ctx w =
     object_attempts env [0..<KFASTBLOCK_OBJECT_IO_MAX_ATTEMPTS] ctx w"

section \<open>The whole object\<close>

definition kfastblock_transport_begin_object_io_ctx :: "object_io_ctx \<Rightarrow> io_world \<Rightarrow> object_io_ctx \<times> io_world" where
  "kfastblock_transport_begin_object_io_ctx ctx w =
     (let w1 = w \<lparr> iw_req := kfastblock_request_mark_object_inflight (oc_object_index ctx) (iw_req w) \<rparr>
      in (ctx \<lparr> oc_ret := (if kfastblock_transport_request_failed (iw_req w1) then - ECANCELED
                           else if oc_op ctx \<in> {REQ_OP_FLUSH, REQ_OP_READ, REQ_OP_WRITE, REQ_OP_DISCARD, REQ_OP_WRITE_ZEROES}
                           then 0 else - EOPNOTSUPP) \<rparr>, w1))"

definition kfastblock_transport_reject_stale_object_request ::
    "transport_env \<Rightarrow> object_io_ctx \<Rightarrow> io_world \<Rightarrow> object_io_ctx \<times> io_world" where
  "kfastblock_transport_reject_stale_object_request env ctx w =
     (let ret = kfastblock_transport_request_view_stale w; ctx1 = ctx \<lparr> oc_ret := ret \<rparr>
      in if ret \<noteq> 0
         then (let ctx2 = ctx1 \<lparr> oc_actions := kfastblock_recovery_classify_object_failure ret \<rparr>
               in (ctx2, snd (kfastblock_transport_handle_object_failure env ctx2 w)))
         else (ctx1, w))"

definition kfastblock_transport_prepare_object_execution ::
    "transport_env \<Rightarrow> object_io_ctx \<Rightarrow> io_world \<Rightarrow> object_io_ctx \<times> io_world" where
  "kfastblock_transport_prepare_object_execution env ctx w =
     (case kfastblock_transport_reject_stale_object_request env (ctx \<lparr> oc_ret := 0, oc_actions := 0 \<rparr>) w of (ctx1, w1) \<Rightarrow>
        if oc_ret ctx1 \<noteq> 0 then (ctx1, w1)
        else (case kfastblock_transport_prepare_object_buffer env ctx1 w1 of
                (ret, buf, w2) \<Rightarrow> (ctx1 \<lparr> oc_ret := ret, oc_buf := buf \<rparr>, w2)))"

definition kfastblock_transport_cleanup_object_io :: "transport_env \<Rightarrow> object_io_ctx \<Rightarrow> io_world \<Rightarrow> io_world" where
  "kfastblock_transport_cleanup_object_io env ctx w =
     snd (kfastblock_transport_release_object_buffer ctx
       (if oc_ret ctx \<noteq> 0
        then on_vol (kfastblock_volume_account_object_error (te_now env) (oc_op ctx) (ox_pg_id (oc_extent ctx))
                       (li_osd_id (oc_leader ctx)) (ox_length (oc_extent ctx)) (oc_ret ctx)) w
        else w))"

definition kfastblock_transport_run_object_io_ctx ::
    "transport_env \<Rightarrow> object_io_ctx \<Rightarrow> io_world \<Rightarrow> int \<times> io_world" where
  "kfastblock_transport_run_object_io_ctx env ctx w =
     (case kfastblock_transport_begin_object_io_ctx ctx w of (ctx1, w1) \<Rightarrow>
        (case (if oc_ret ctx1 = 0 \<and> oc_op ctx1 \<noteq> REQ_OP_FLUSH
               then (case kfastblock_transport_prepare_object_execution env ctx1 w1 of (ctx2, w2) \<Rightarrow>
                       if oc_ret ctx2 = 0 then kfastblock_transport_run_object_attempts env ctx2 w2 else (ctx2, w2))
               else (ctx1, w1)) of
           (ctx3, w3) \<Rightarrow>
             (let ctx4 = (if oc_op ctx3 = REQ_OP_FLUSH then ctx3 \<lparr> oc_ret := 0 \<rparr> else ctx3)
              in (oc_ret ctx4, kfastblock_transport_cleanup_object_io env ctx4 w3))))"

definition kfastblock_transport_submit_object_io :: "transport_env \<Rightarrow> u32 \<Rightarrow> io_world \<Rightarrow> int \<times> io_world" where
  "kfastblock_transport_submit_object_io env i w =
     (case kfastblock_transport_object_io_ctx_init (iw_req w) i of
        Inl ret \<Rightarrow> (ret, w)
      | Inr ctx \<Rightarrow> kfastblock_transport_run_object_io_ctx env ctx w)"

definition kfastblock_transport_submit_object :: "transport_env \<Rightarrow> u32 \<Rightarrow> io_world \<Rightarrow> int \<times> io_world" where
  "kfastblock_transport_submit_object env i w =
     (if kr_rq (iw_req w) = None \<or> \<not> kr_has_vol (iw_req w) \<or> kr_nr_objects (iw_req w) \<le> i then (- EINVAL, w)
      else kfastblock_transport_submit_object_io env i w)"

end
