(* ===== verification/KFB_Object_Laws.thy ===== *)
theory KFB_Object_Laws
  imports KFB_Object_IO
begin

text \<open>
  What an object's I/O leaves alone, and what it puts on the wire. \<open>frame P n A w w'\<close>: the buffer pool, the pages
  and the request's identity are unchanged, buffer contents change only at the addresses \<open>A\<close>, no buffer is
  allocated, freed or resized, and at most \<open>n\<close> requests were sent, each satisfying \<open>P\<close>.
\<close>

named_theorems same_pool "operations that leave the buffer pool of the volume alone"
named_theorems framed "frames of the operations of one object"

section \<open>Volume operations\<close>

lemma pool_record_event [simp]:
  "v_object_buffer_pool (kfastblock_volume_record_event now ty ret op a b c d vol) = v_object_buffer_pool vol"
  by (simp add: kfastblock_volume_record_event_def)

lemma pool_update_health [simp]:
  "v_object_buffer_pool (kfastblock_volume_update_health now st src ret vol) = v_object_buffer_pool vol"
  by (simp add: kfastblock_volume_update_health_def Let_def)

lemma pool_mark_success [simp]:
  "v_object_buffer_pool (kfastblock_volume_mark_success now src vol) = v_object_buffer_pool vol"
  by (simp add: kfastblock_volume_mark_success_def Let_def)

lemma pool_set_slot [simp]: "v_object_buffer_pool (set_slot i c vol) = v_object_buffer_pool vol"
  by (simp add: set_slot_def)

lemma pool_kick_refresh [simp]: "v_object_buffer_pool (kfastblock_volume_kick_refresh vol) = v_object_buffer_pool vol"
  by (simp add: kfastblock_volume_kick_refresh_def)

lemma pool_update_snapshot [simp]:
  "v_object_buffer_pool (kfastblock_volume_update_pipeline_snapshot p vol) = v_object_buffer_pool vol"
  by (simp add: kfastblock_volume_update_pipeline_snapshot_def)

lemma pool_account [simp]:
  "v_object_buffer_pool (kfastblock_volume_account_fault_injection now site ret vol) = v_object_buffer_pool vol"
  "v_object_buffer_pool (kfastblock_volume_account_socket_drop now b o1 port ret vol) = v_object_buffer_pool vol"
  "v_object_buffer_pool (kfastblock_volume_account_socket_backoff j2m now b o1 port f j ret vol) = v_object_buffer_pool vol"
  "v_object_buffer_pool (kfastblock_volume_account_socket_backoff_wait j2m now b o1 port j ret vol) = v_object_buffer_pool vol"
  "v_object_buffer_pool (kfastblock_volume_account_leader_query now pg o1 ret vol) = v_object_buffer_pool vol"
  "v_object_buffer_pool (kfastblock_volume_account_leader_invalidate now pg ret vol) = v_object_buffer_pool vol"
  "v_object_buffer_pool (kfastblock_volume_account_refresh_kick now pg ret vol) = v_object_buffer_pool vol"
  by (simp_all add: kfastblock_volume_account_fault_injection_def kfastblock_volume_account_socket_drop_def
      kfastblock_volume_account_socket_backoff_def kfastblock_volume_account_socket_backoff_wait_def
      kfastblock_volume_account_leader_query_def kfastblock_volume_account_leader_invalidate_def
      kfastblock_volume_account_refresh_kick_def)

lemma pool_account_object [simp]:
  "v_object_buffer_pool (kfastblock_volume_account_object_success now op pg o1 len vol) = v_object_buffer_pool vol"
  "v_object_buffer_pool (kfastblock_volume_account_object_retry now op pg o1 len ret vol) = v_object_buffer_pool vol"
  "v_object_buffer_pool (kfastblock_volume_account_object_error now op pg o1 len ret vol) = v_object_buffer_pool vol"
  by (simp_all add: kfastblock_volume_account_object_success_def kfastblock_volume_account_object_retry_def
      kfastblock_volume_account_object_error_def)

lemma pool_recovery [simp]:
  "v_object_buffer_pool (kfastblock_recovery_invalidate_live_pg_leader pool pg vol) = v_object_buffer_pool vol"
  "v_object_buffer_pool (snd (kfastblock_recovery_update_live_pg_leader pool pg leader vol)) = v_object_buffer_pool vol"
  by (simp_all add: kfastblock_recovery_invalidate_live_pg_leader_def kfastblock_recovery_update_live_pg_leader_def split_beta)

lemma pool_apply [simp]:
  "v_object_buffer_pool (kfastblock_recovery_apply_leader_failure now pool pg ret actions vol) = v_object_buffer_pool vol"
  "v_object_buffer_pool (kfastblock_recovery_apply_object_failure m2j now pool extent op leader ret actions vol) = v_object_buffer_pool vol"
  by (simp_all add: kfastblock_recovery_apply_leader_failure_def kfastblock_recovery_apply_object_failure_def Let_def)

lemma pool_inject [simp]:
  "v_object_buffer_pool (snd (kfastblock_transport_maybe_inject_fault now site vol)) = v_object_buffer_pool vol"
  by (simp add: kfastblock_transport_maybe_inject_fault_def split: prod.splits option.splits)

section \<open>Frames\<close>

text \<open>What a request is about: none of the operations of its objects changes it.\<close>

definition request_id :: "request \<Rightarrow> blk_request option \<times> bool \<times> u32 \<times> u32 list" where
  "request_id r = (kr_rq r, kr_has_vol r, kr_pool_id r, map ph_nr_targets (kr_pg_hints r))"

definition same_shape :: "buf_heap \<Rightarrow> buf_heap \<Rightarrow> bool" where
  "same_shape h h' \<longleftrightarrow>
     (\<forall>a. map_option (\<lambda>e. (be_pooled e, be_capacity e, length (be_data e))) (h' a) =
          map_option (\<lambda>e. (be_pooled e, be_capacity e, length (be_data e))) (h a))"

type_synonym wire_entry = "nat \<times> u8 \<times> u64 \<times> u8 list list"

definition frame :: "(wire_entry \<Rightarrow> bool) \<Rightarrow> nat \<Rightarrow> addr set \<Rightarrow> io_world \<Rightarrow> io_world \<Rightarrow> bool" where
  "frame P n A w w' \<longleftrightarrow>
     v_object_buffer_pool (iw_vol w') = v_object_buffer_pool (iw_vol w) \<and> iw_pages w' = iw_pages w \<and>
     request_id (iw_req w') = request_id (iw_req w) \<and>
     same_shape (iw_heap w) (iw_heap w') \<and> (\<forall>a. a \<notin> A \<longrightarrow> iw_heap w' a = iw_heap w a) \<and>
     set (iw_exchanges w') \<subseteq> set (iw_exchanges w) \<and>
     (\<exists>sent. iw_wire w' = iw_wire w @ sent \<and> length sent \<le> n \<and> list_all P sent)"

lemma same_shape_refl [simp]: "same_shape h h" by (simp add: same_shape_def)

lemma same_shape_trans: "same_shape h h' \<Longrightarrow> same_shape h' h'' \<Longrightarrow> same_shape h h''" by (simp add: same_shape_def)

lemma frame_refl [simp]: "frame P n A w w" by (simp add: frame_def)

lemma frame_trans:
  assumes "frame P m A w w'" "frame P n A w' w''" shows "frame P (m + n) A w w''"
proof -
  obtain l where l: "iw_wire w' = iw_wire w @ l" "length l \<le> m" "list_all P l" using assms(1) by (auto simp: frame_def)
  obtain k where k: "iw_wire w'' = iw_wire w' @ k" "length k \<le> n" "list_all P k" using assms(2) by (auto simp: frame_def)
  have "iw_wire w'' = iw_wire w @ (l @ k) \<and> length (l @ k) \<le> m + n \<and> list_all P (l @ k)" using l k by simp
  then show ?thesis using assms unfolding frame_def by (metis (no_types, lifting) same_shape_trans subset_trans)
qed

lemma frame_mono:
  assumes "frame P m A w w'" "m \<le> n" "\<And>e. P e \<Longrightarrow> Q e" "A \<subseteq> B" shows "frame Q n B w w'"
  using assms unfolding frame_def by (metis (no_types, lifting) le_trans list.pred_mono_strong subset_iff)

lemma frame_0: "frame P 0 {} w w' \<Longrightarrow> frame Q n A w w'"
  by (auto simp: frame_def)

lemma frame_then: "frame P n A w w' \<Longrightarrow> frame P 0 {} w' w'' \<Longrightarrow> frame P n A w w''"
  using frame_trans [of P n A w w' 0 w''] frame_0 by fastforce

lemma then_frame: "frame P 0 {} w w' \<Longrightarrow> frame P n A w' w'' \<Longrightarrow> frame P n A w w''"
  using frame_trans [of P 0 A w w' n w''] frame_0 by fastforce

text \<open>Changing the volume outside its buffer pool, and the request outside its identity.\<close>

lemma frame_vol [simp]:
  "v_object_buffer_pool (f (iw_vol w)) = v_object_buffer_pool (iw_vol w) \<Longrightarrow> frame P n A w (on_vol f w)"
  by (simp add: frame_def on_vol_def)

lemma frame_vol' [simp]:
  "frame P n A w (on_vol f w') \<longleftrightarrow> frame P n A w w'" if "v_object_buffer_pool (f (iw_vol w')) = v_object_buffer_pool (iw_vol w')"
  using that by (simp add: frame_def on_vol_def)

lemma frame_set [simp]:
  "frame P n A w (w' \<lparr> iw_vol := vol \<rparr>) \<longleftrightarrow> frame P n A w w'" if "v_object_buffer_pool vol = v_object_buffer_pool (iw_vol w')"
  using that by (simp add: frame_def)

lemma frame_set_req:
  "frame P n A w (w' \<lparr> iw_req := r \<rparr>) \<longleftrightarrow> frame P n A w w'" if "request_id r = request_id (iw_req w')"
  using that by (simp add: frame_def)

lemma frame_ghost [simp]:
  "frame P n A w (w' \<lparr> iw_completed := c \<rparr>) \<longleftrightarrow> frame P n A w w'"
  "frame P n A w (w' \<lparr> iw_connects := cs \<rparr>) \<longleftrightarrow> frame P n A w w'"
  by (simp_all add: frame_def)

lemma frame_hint [simp]:
  "frame P n A w (on_hint j f w') \<longleftrightarrow> frame P n A w w'" if "\<And>h. ph_nr_targets (f h) = ph_nr_targets h"
proof -
  have u: "map ph_nr_targets (hs[j := f (hs ! j)]) = map ph_nr_targets hs" for hs
    by (cases "j < length hs") (simp_all add: map_update that list_update_same_conv list_update_beyond)
  have "request_id (iw_req (on_hint j f w')) = request_id (iw_req w')"
    by (simp only: on_hint_def request_id_def hint_at_def io_world.simps request.simps io_world.update_convs request.update_convs u)
       (simp add: u)
  then show ?thesis by (simp add: frame_def on_hint_def)
qed

lemma hint_keeps [simp]:
  "ph_nr_targets (kfastblock_request_invalidate_pg_hint_leader h) = ph_nr_targets h"
  "ph_nr_targets (kfastblock_request_set_pg_hint_leader leader h) = ph_nr_targets h"
  by (simp_all add: kfastblock_request_invalidate_pg_hint_leader_def kfastblock_request_set_pg_hint_leader_def)

section \<open>Sockets\<close>

lemma frame_mark_failure [simp]:
  "frame P n A w (kfastblock_transport_mark_osd_socket_failure env i leader ret w') \<longleftrightarrow> frame P n A w w'"
  by (simp add: kfastblock_transport_mark_osd_socket_failure_def split: prod.splits)

lemma frame_connect_failed [simp]: "frame P n A w (connect_failed env i leader ret w') \<longleftrightarrow> frame P n A w w'"
  by (simp add: connect_failed_def Let_def)

lemma frame_connect [simp]:
  "frame P n A w (snd (kfastblock_transport_connect_osd_cached_locked env i leader w')) \<longleftrightarrow> frame P n A w w'"
proof -
  have "v_object_buffer_pool vol = v_object_buffer_pool v" if "kfastblock_transport_maybe_inject_fault now site v = (ret, vol)"
    for now site v ret vol
    using pool_inject [of now site v] that by simp
  then show ?thesis
    by (auto simp: kfastblock_transport_connect_osd_cached_locked_def Let_def next_connect_def on_vol_def
        split: prod.splits sum.splits list.splits)
qed

lemma frame_backoff [simp]:
  "frame P n A w (snd (kfastblock_transport_check_osd_backoff env leader w')) \<longleftrightarrow> frame P n A w w'"
  by (simp add: kfastblock_transport_check_osd_backoff_def split: prod.splits)

lemma frame_use_slot [simp]: "frame P n A w (snd (snd (use_slot i w'))) \<longleftrightarrow> frame P n A w w'"
  by (simp add: use_slot_def)

lemma frame_fallback [simp]: "frame P n A w (snd (snd (fallback_wait_match env leader w'))) \<longleftrightarrow> frame P n A w w'"
  by (simp add: fallback_wait_match_def split: prod.splits option.splits)

lemma frame_snd: "f x = (a, b) \<Longrightarrow> snd (f x) = b" "g x = (a, c, d) \<Longrightarrow> snd (snd (g x)) = d"
  by simp_all

lemma frame_acquire [simp]:
  "frame P n A w (snd (snd (kfastblock_transport_acquire_osd_socket env leader w'))) \<longleftrightarrow> frame P n A w w'"
proof -
  have b: "frame P n A w w1 \<longleftrightarrow> frame P n A w w'" if "kfastblock_transport_check_osd_backoff env leader w' = (ret, w1)" for ret w1
    using frame_backoff [of P n A w env leader w'] that by simp
  have c: "frame P n A w w3 \<longleftrightarrow> frame P n A w w2" if "kfastblock_transport_connect_osd_cached_locked env i leader w2 = (ret, w3)"
    for i w2 ret w3
    using frame_connect [of P n A w env i leader w2] that by simp
  show ?thesis
    by (auto simp: kfastblock_transport_acquire_osd_socket_def Let_def dest!: b c split: prod.splits option.splits)
qed

lemma frame_prepare_mux [simp]:
  "frame P n A w (snd (snd (kfastblock_transport_prepare_mux_osd_socket env leader w'))) \<longleftrightarrow> frame P n A w w'"
  by (simp add: kfastblock_transport_prepare_mux_osd_socket_def)

lemma frame_finalize_mux [simp]:
  "frame P n A w (kfastblock_transport_finalize_mux_osd_socket env i leader ret actions w') \<longleftrightarrow> frame P n A w w'"
  by (simp add: kfastblock_transport_finalize_mux_osd_socket_def Let_def split: prod.splits)

lemma frame_shared_seq [simp]: "frame P n A w (snd (shared_seq env i w')) \<longleftrightarrow> frame P n A w w'"
  by (simp add: shared_seq_def split: prod.splits)

lemma mux_exchange_frame:
  assumes "mux_exchange i opcode seq parts w = ((ret, response), w')" "P (i, opcode, seq, parts)"
  shows "frame P 1 {} w w'"
  using assms by (auto simp: mux_exchange_def next_exchange_def Let_def frame_def split: if_splits list.splits)

lemma mux_exchange_answer:
  assumes "mux_exchange i opcode seq parts w = ((0, response), w')"
  shows "(0, response) \<in> set (iw_exchanges w)"
  using assms by (auto simp: mux_exchange_def next_exchange_def Let_def split: if_splits list.splits)

section \<open>The leader query\<close>

definition get_leader_entry :: "wire_entry \<Rightarrow> bool" where
  "get_leader_entry e \<longleftrightarrow> fst (snd e) = KFASTBLOCK_RAW_OSD_OP_GET_LEADER"

lemma drive_target_frame:
  assumes "kfastblock_transport_drive_leader_query_target env j t leader w = (ret, actions, leader', w')"
  shows "frame get_leader_entry 1 {} w w'"
proof (cases "kfastblock_transport_prepare_leader_query_target (hint_at w j) t")
  case (Inl e)
  then show ?thesis using assms by (simp add: kfastblock_transport_drive_leader_query_target_def)
next
  case (Inr target)
  obtain ret1 slot1 w1 where p: "kfastblock_transport_prepare_mux_osd_socket env target w = (ret1, slot1, w1)"
    by (metis prod_cases3)
  have f1: "frame get_leader_entry 0 {} w w1"
    using frame_prepare_mux [of get_leader_entry 0 "{}" w env target w] p by simp
  show ?thesis
  proof (cases slot1)
    case None
    then have "w' = w1" using assms Inr p by (simp add: kfastblock_transport_drive_leader_query_target_def)
    then show ?thesis using f1 frame_0 by blast
  next
    case (Some i)
    obtain seq w2 where q: "shared_seq env i w1 = (seq, w2)" by fastforce
    define parts where "parts = get_leader_parts (kr_pool_id (iw_req w2)) (ph_pg_id (hint_at w j))"
    obtain xret response w3 where x: "mux_exchange i KFASTBLOCK_RAW_OSD_OP_GET_LEADER seq parts w2 = ((xret, response), w3)"
      by (metis surj_pair)
    have "frame get_leader_entry 0 {} w w2"
      using frame_shared_seq [of get_leader_entry 0 "{}" w env i w1] q f1 by simp
    moreover have "frame get_leader_entry 1 {} w2 w3" by (rule mux_exchange_frame [OF x]) (simp add: get_leader_entry_def)
    ultimately have f3: "frame get_leader_entry 1 {} w w3" by (rule then_frame)
    have "v_object_buffer_pool vol = v_object_buffer_pool v" if "kfastblock_recovery_update_live_pg_leader a b c v = (r, vol)" for a b c r v vol
      using pool_recovery(2) [of a b c v] that by simp
    then show ?thesis
      using assms Inr p Some q x f3
      by (auto simp: kfastblock_transport_drive_leader_query_target_def parts_def [symmetric] Let_def split: prod.splits if_splits)
  qed
qed

lemma query_loop_frame:
  assumes "leader_query_loop env j ts ret0 first leader w = (ret, first', leader', w')"
  shows "frame get_leader_entry (length ts) {} w w'"
  using assms
proof (induction ts arbitrary: ret0 first leader w)
  case (Cons t ts)
  obtain r acts l w1 where d: "kfastblock_transport_drive_leader_query_target env j t leader w = (r, acts, l, w1)"
    by (metis prod_cases4)
  note f = drive_target_frame [OF d]
  consider "r = - EHOSTDOWN" | "r \<noteq> - EHOSTDOWN" "r \<noteq> 0" | "r = 0" by blast
  then show ?case
  proof cases
    case 1
    then have "frame get_leader_entry (length ts) {} w1 w'" using Cons d by simp
    from frame_trans [OF f this] show ?thesis by simp
  next
    case b: 2
    define w2 where "w2 = kfastblock_transport_note_leader_query_failure env j r
      (if acts = 0 then kfastblock_recovery_classify_leader_failure r else acts) w1"
    have "frame get_leader_entry (length ts) {} w2 w'"
      using Cons d b by (simp add: w2_def)
    moreover have "frame get_leader_entry 1 {} w w2"
      using f by (simp add: w2_def kfastblock_transport_note_leader_query_failure_def apply_leader_failure_def)
    ultimately show ?thesis using frame_trans by fastforce
  next
    case 3
    then have "w' = w1" using Cons(2) d by simp
    then show ?thesis using f frame_mono [OF f, of "length (t # ts)"] by simp
  qed
qed simp

text \<open>The hint an object uses exists, and no placement group has more than \<open>m\<close> targets.\<close>

definition targets_ok :: "nat \<Rightarrow> nat option \<Rightarrow> request \<Rightarrow> bool" where
  "targets_ok m hint r \<longleftrightarrow> (\<forall>j. hint = Some j \<longrightarrow> j < length (kr_pg_hints r)) \<and> (\<forall>h\<in>set (kr_pg_hints r). unat (ph_nr_targets h) \<le> m)"

lemma targets_ok_frame: "frame P n A w w' \<Longrightarrow> targets_ok m hint (iw_req w') \<longleftrightarrow> targets_ok m hint (iw_req w)"
proof -
  assume "frame P n A w w'"
  then have *: "map ph_nr_targets (kr_pg_hints (iw_req w')) = map ph_nr_targets (kr_pg_hints (iw_req w))"
    by (simp add: frame_def request_id_def)
  have t: "(\<forall>h\<in>set hs. unat (ph_nr_targets h) \<le> m) = (\<forall>t\<in>set (map ph_nr_targets hs). unat t \<le> m)" for hs by simp
  show ?thesis unfolding targets_ok_def t * map_eq_imp_length_eq [OF *] by (rule refl)
qed

lemma query_hint_frame:
  assumes "kfastblock_transport_query_pg_leader env hint leader w = (ret, leader', w')"
    and t: "\<And>j. hint = Some j \<Longrightarrow> unat (ph_nr_targets (hint_at w j)) \<le> m"
  shows "frame get_leader_entry m {} w w'"
proof (cases hint)
  case None
  then show ?thesis using assms by (simp add: kfastblock_transport_query_pg_leader_def)
next
  case (Some j)
  obtain ret1 w1 where p: "kfastblock_transport_prepare_leader_query_request env j w = (ret1, w1)" by fastforce
  have inj: "v_object_buffer_pool vol = v_object_buffer_pool v" if "kfastblock_transport_maybe_inject_fault now site v = (r, vol)"
    for now site v r vol
    using pool_inject [of now site v] that by simp
  have f1: "frame get_leader_entry 0 {} w w1" and h1: "hint_at w1 j = hint_at w j"
    using p by (auto simp: kfastblock_transport_prepare_leader_query_request_def apply_leader_failure_def Let_def hint_at_def
        on_vol_def inj split: prod.splits if_splits)
  note m = t [OF Some]
  obtain r f l w2 where q: "leader_query_loop env j [0..<unat (ph_nr_targets (hint_at w j))] 0 (- ENOENT) leader w1 = (r, f, l, w2)"
    by (metis prod_cases4)
  have "frame get_leader_entry m {} w1 w2" using frame_mono [OF query_loop_frame [OF q] _ _ subset_refl, of m] m by simp
  then have "frame get_leader_entry m {} w w2" by (rule then_frame [OF f1])
  then show ?thesis
    using assms(1) Some p q h1 frame_0 [OF f1, of get_leader_entry m "{}"]
    by (auto simp: kfastblock_transport_query_pg_leader_def split: if_splits)
qed

lemma query_frame:
  assumes "kfastblock_transport_query_pg_leader env hint leader w = (ret, leader', w')" "targets_ok m hint (iw_req w)"
  shows "frame get_leader_entry m {} w w'"
  using assms(2) by (intro query_hint_frame [OF assms(1)]) (simp add: targets_ok_def hint_at_def)

section \<open>The request's bookkeeping\<close>

lemma id_update_runtime [simp]: "request_id (update_runtime i f r) = request_id r"
  by (simp add: request_id_def update_runtime_def)

lemma id_pipeline [simp]: "request_id (r \<lparr> kr_pipeline := p \<rparr>) = request_id r" by (simp add: request_id_def)

lemma id_inflight [simp]: "request_id (kfastblock_request_mark_object_inflight i r) = request_id r"
  by (simp add: kfastblock_request_mark_object_inflight_def request_id_def update_runtime_def)

definition keeps :: "volume \<times> request \<Rightarrow> volume \<times> request \<Rightarrow> bool" where
  "keeps vr vr' \<longleftrightarrow> v_object_buffer_pool (fst vr') = v_object_buffer_pool (fst vr) \<and> request_id (snd vr') = request_id (snd vr)"

lemma keeps_record_seq: "keeps vr (kfastblock_request_record_object_seq i sq vr)"
  by (simp add: keeps_def kfastblock_request_record_object_seq_def kfastblock_volume_account_pipeline_seq_def split: prod.splits)

lemma keeps_record_response: "keeps vr (kfastblock_request_record_object_response i a b c vr)"
  by (simp add: keeps_def kfastblock_request_record_object_response_def kfastblock_volume_account_pipeline_response_def split: prod.splits)

lemma keeps_note_retry: "keeps vr (kfastblock_request_note_object_retry now i ret vr)"
  by (simp add: keeps_def kfastblock_request_note_object_retry_def kfastblock_volume_account_pipeline_retry_def split: prod.splits)

lemma keeps_trans: "keeps a b \<Longrightarrow> keeps b c \<Longrightarrow> keeps a c" by (simp add: keeps_def)

lemma keeps_requeue: "keeps vr (snd (kfastblock_request_requeue_object now i ret vr))"
proof -
  obtain vol r where vr: "vr = (vol, r)" by fastforce
  have "keeps (vol, r) (kfastblock_request_note_object_retry now i ret (kfastblock_request_clear_object_response i
          (vol, update_runtime i f (r \<lparr> kr_queued_objects := a, kr_inflight_objects := b \<rparr>))))" for f a b
    unfolding kfastblock_request_clear_object_response_def
    by (rule keeps_trans [OF _ keeps_trans [OF keeps_record_response keeps_note_retry]])
       (simp add: keeps_def request_id_def update_runtime_def)
  then show ?thesis by (simp add: vr kfastblock_request_requeue_object_def Let_def) (simp add: keeps_def)
qed

lemma keeps_begin: "keeps vr (snd (snd (kfastblock_transport_begin_exchange now i service opcode sq vr)))"
proof -
  have "keeps (vol, r) (kfastblock_volume_update_pipeline_snapshot q v1, r1)"
    if "kfastblock_request_record_object_seq i sq (vol, r \<lparr> kr_pipeline := p \<rparr>) = (v1, r1)" for vol r p q v1 r1
    using keeps_record_seq [of "(vol, r \<lparr> kr_pipeline := p \<rparr>)" i sq] that by (simp add: keeps_def)
  then show ?thesis
    by (simp add: kfastblock_transport_begin_exchange_def Let_def split: prod.splits option.splits) (simp add: keeps_def)
qed

lemma keeps_finish: "keeps vr (kfastblock_transport_finish_exchange now ex ret hdr vr)"
proof -
  have "keeps (vol, r) (kfastblock_volume_update_pipeline_snapshot q v1, r1 \<lparr> kr_pipeline := p \<rparr>)"
    if "kfastblock_request_record_object_response o1 a b c (vol, r) = (v1, r1)" for vol r p q v1 r1 o1 a b c
    using keeps_record_response [of "(vol, r)" o1 a b c] that by (simp add: keeps_def)
  then show ?thesis
    by (simp add: kfastblock_transport_finish_exchange_def Let_def split: prod.splits) (simp add: keeps_def)
qed

lemma keeps_complete: "keeps vr (snd (kfastblock_transport_complete_exchange_response now ex rsp ret vr))"
  by (simp add: kfastblock_transport_complete_exchange_response_def Let_def keeps_finish)

lemma frame_both:
  "frame P n A w (w' \<lparr> iw_vol := vol, iw_req := r \<rparr>) \<longleftrightarrow> frame P n A w w'" if "keeps (iw_vol w', iw_req w') (vol, r)"
  using that by (simp add: frame_def keeps_def)

lemma frame_on_both [simp]:
  "frame P n A w (on_both f w') \<longleftrightarrow> frame P n A w w'" if "\<And>vr. keeps vr (f vr)"
  using that [of "(iw_vol w', iw_req w')"] by (cases "f (iw_vol w', iw_req w')") (simp add: on_both_def frame_both)

section \<open>One attempt\<close>

definition core :: "object_io_ctx \<Rightarrow> object_extent \<times> nat option \<times> u8 \<times> u32 \<times> addr option" where
  "core ctx = (oc_extent ctx, oc_hint ctx, oc_op ctx, oc_object_index ctx, oc_buf ctx)"

definition buf_area :: "object_io_ctx \<Rightarrow> addr set" where
  "buf_area ctx = (if oc_op ctx = REQ_OP_READ then set_option (oc_buf ctx) else {})"

text \<open>The requests an object may send: leader queries, and its own opcode with its own body.\<close>

definition object_entry :: "object_io_ctx \<Rightarrow> io_world \<Rightarrow> wire_entry \<Rightarrow> bool" where
  "object_entry ctx w e \<longleftrightarrow> get_leader_entry e \<or> (fst (snd e) = object_opcode ctx \<and> snd (snd (snd e)) = object_parts ctx w)"

definition io_ok :: "nat \<Rightarrow> object_io_ctx \<Rightarrow> io_world \<Rightarrow> bool" where
  "io_ok m ctx w \<longleftrightarrow> targets_ok m (oc_hint ctx) (iw_req w) \<and>
     (oc_op ctx = REQ_OP_READ \<longrightarrow>
        (\<exists>a e. oc_buf ctx = Some a \<and> iw_heap w a = Some e \<and> unat (ox_length (oc_extent ctx)) \<le> length (be_data e)))"

lemma same_shape_Some:
  assumes "same_shape h h'" "h a = Some e" obtains e' where "h' a = Some e'" "length (be_data e') = length (be_data e)"
  using assms(1) [unfolded same_shape_def, rule_format, of a] assms(2) by auto

lemma io_ok_frame:
  assumes "frame P n A w w'" "core ctx' = core ctx" "io_ok m ctx w" shows "io_ok m ctx' w'"
proof -
  have "same_shape (iw_heap w) (iw_heap w')" using assms(1) by (simp add: frame_def)
  then show ?thesis
    using assms(2,3) unfolding io_ok_def targets_ok_frame [OF assms(1)]
    by (fastforce simp: core_def elim: same_shape_Some)
qed

lemma core_op: "core ctx' = core ctx \<Longrightarrow> oc_op ctx' = oc_op ctx \<and> oc_buf ctx' = oc_buf ctx \<and> oc_extent ctx' = oc_extent ctx \<and> oc_hint ctx' = oc_hint ctx"
  by (simp add: core_def)

lemma buf_area_core: "core ctx' = core ctx \<Longrightarrow> buf_area ctx' = buf_area ctx" by (simp add: core_def buf_area_def)

lemma object_entry_frame:
  assumes "frame P n (buf_area ctx) w w'" "core ctx' = core ctx" shows "object_entry ctx' w' = object_entry ctx w"
proof -
  have c: "oc_op ctx' = oc_op ctx" "oc_buf ctx' = oc_buf ctx" "oc_extent ctx' = oc_extent ctx" using core_op [OF assms(2)] by auto
  have "kr_pool_id (iw_req w') = kr_pool_id (iw_req w)" using assms(1) by (simp add: frame_def request_id_def)
  moreover have "oc_op ctx \<noteq> REQ_OP_READ \<Longrightarrow> buf_data (oc_buf ctx) w' = buf_data (oc_buf ctx) w"
    using assms(1) by (simp add: frame_def buf_area_def buf_data_def split: option.splits)
  ultimately have "object_parts ctx' w' = object_parts ctx w"
    by (cases "oc_op ctx = REQ_OP_READ") (simp_all add: object_parts_def c)
  then show ?thesis by (simp add: object_entry_def object_opcode_def c fun_eq_iff)
qed

lemma frame_handle_failure [simp]:
  "frame P n A w (snd (kfastblock_transport_handle_object_failure env ctx w')) \<longleftrightarrow> frame P n A w w'"
  by (simp add: kfastblock_transport_handle_object_failure_def Let_def keeps_requeue split: option.splits)

lemma handle_failure_frame:
  assumes "kfastblock_transport_handle_object_failure env ctx w' = (again, w'')"
  shows "frame P n A w w'' \<longleftrightarrow> frame P n A w w'"
  using frame_handle_failure [of P n A w env ctx w'] by (simp only: assms snd_conv)

lemma finalize_socket_frame:
  assumes "kfastblock_transport_finalize_object_socket env ctx w' = (ctx', w'')"
  shows "core ctx' = core ctx \<and> oc_ret ctx' = oc_ret ctx \<and> oc_leader ctx' = oc_leader ctx \<and>
         (frame P n A w w'' \<longleftrightarrow> frame P n A w w')"
  using assms by (auto simp: kfastblock_transport_finalize_object_socket_def core_def split: option.splits)

lemma abort_frame:
  assumes "kfastblock_transport_abort_object_exchange env ctx w' = (ctx', w'')"
  shows "core ctx' = core ctx \<and> oc_ret ctx' = oc_ret ctx \<and> (frame P n A w w'' \<longleftrightarrow> frame P n A w w')"
proof -
  obtain c1 w1 where f: "kfastblock_transport_finalize_object_socket env ctx w' = (c1, w1)" by fastforce
  show ?thesis
    using assms f finalize_socket_frame [OF f, of P n A w]
    by (auto simp: kfastblock_transport_abort_object_exchange_def keeps_finish)
qed

lemma fail_attempt_frame:
  assumes "kfastblock_transport_fail_object_attempt env after_ex ctx w' = (again, ctx', w'')"
  shows "core ctx' = core ctx \<and> oc_ret ctx' = oc_ret ctx \<and> (frame P n A w w'' \<longleftrightarrow> frame P n A w w')"
proof -
  define c0 where "c0 = ctx \<lparr> oc_actions := kfastblock_recovery_classify_object_failure (oc_ret ctx) \<rparr>"
  have c0: "core c0 = core ctx" "oc_ret c0 = oc_ret ctx" by (simp_all add: c0_def core_def)
  define x where "x = (if after_ex then kfastblock_transport_abort_object_exchange env c0 w'
                       else kfastblock_transport_finalize_object_socket env c0 w')"
  obtain c1 w1 where x: "x = (c1, w1)" by fastforce
  have f: "core c1 = core c0 \<and> oc_ret c1 = oc_ret c0 \<and> (frame P n A w w1 \<longleftrightarrow> frame P n A w w')"
    using x abort_frame [of env c0 w' c1 w1 P n A w] finalize_socket_frame [of env c0 w' c1 w1 P n A w]
    by (auto simp: x_def split: if_splits)
  have "kfastblock_transport_fail_object_attempt env after_ex ctx w' =
      (case kfastblock_transport_handle_object_failure env c1 w1 of (again, w3) \<Rightarrow> (again, c1, w3))"
    using x by (simp add: kfastblock_transport_fail_object_attempt_def c0_def [symmetric] x_def [symmetric])
  then show ?thesis using assms f c0 by (auto simp: handle_failure_frame split: prod.splits)
qed

lemma pick_leader_frame:
  assumes "kfastblock_transport_pick_object_leader env ctx w = (ret, leader, w')" "targets_ok m (oc_hint ctx) (iw_req w)"
  shows "frame get_leader_entry m {} w w'"
  using assms query_frame [of env "oc_hint ctx" "oc_leader ctx" w ret leader w' m]
  by (auto simp: kfastblock_transport_pick_object_leader_def split: option.splits sum.splits if_splits)

lemma prepare_exchange_frame:
  assumes "kfastblock_transport_prepare_object_exchange env ctx w' = (ret, ctx', w'')"
  shows "core ctx' = core ctx \<and> oc_leader ctx' = oc_leader ctx \<and> (frame P n A w w'' \<longleftrightarrow> frame P n A w w')"
proof -
  obtain r1 i w1 where p: "kfastblock_transport_prepare_mux_osd_socket env (oc_leader ctx) w' = (r1, i, w1)" by (metis prod_cases3)
  have f1: "frame P n A w w1 \<longleftrightarrow> frame P n A w w'"
    using frame_prepare_mux [of P n A w env "oc_leader ctx" w'] by (simp only: p snd_conv)
  show ?thesis
  proof (cases i)
    case None
    then show ?thesis using assms p f1 by (simp add: kfastblock_transport_prepare_object_exchange_def)
  next
    case (Some k)
    obtain sq w2 where q: "shared_seq env k w1 = (sq, w2)" by fastforce
    have f2: "frame P n A w w2 \<longleftrightarrow> frame P n A w w1" using frame_shared_seq [of P n A w env k w1] by (simp only: q snd_conv)
    obtain r2 ex vol r where b: "kfastblock_transport_begin_exchange (te_now env) (oc_object_index ctx) KFASTBLOCK_RAW_SERVICE_OSD
      (oc_raw_opcode ctx) sq (iw_vol w2, iw_req w2) = (r2, ex, vol, r)" by (metis prod_cases4)
    have "keeps (iw_vol w2, iw_req w2) (vol, r)" using keeps_begin by (metis b snd_conv)
    then show ?thesis
      using assms p Some q b f1 f2
      by (auto simp: kfastblock_transport_prepare_object_exchange_def core_def frame_both)
  qed
qed

lemma begin_attempt_frame:
  assumes "kfastblock_transport_begin_object_attempt env ctx w = (ret, ctx', w')" "targets_ok m (oc_hint ctx) (iw_req w)"
  shows "core ctx' = core ctx \<and> frame get_leader_entry m {} w w'"
proof -
  obtain r1 leader w1 where p: "kfastblock_transport_pick_object_leader env ctx w = (r1, leader, w1)" by (metis prod_cases3)
  note f = pick_leader_frame [OF p assms(2)]
  have c: "core (ctx \<lparr> oc_leader := leader \<rparr>) = core ctx" by (simp add: core_def)
  show ?thesis
    using assms(1) p f c prepare_exchange_frame [of env "ctx \<lparr> oc_leader := leader \<rparr>" w1 ret ctx' w' get_leader_entry m "{}" w]
    by (auto simp: kfastblock_transport_begin_object_attempt_def split: if_splits)
qed

lemma frame_set_buf:
  assumes "frame P n A w w'" "\<And>a e. buf = Some a \<Longrightarrow> iw_heap w' a = Some e \<Longrightarrow> length (f (be_data e)) = length (be_data e)"
    "set_option buf \<subseteq> A"
  shows "frame P n A w (set_buf buf f w')"
proof (cases buf)
  case (Some a)
  have "same_shape (iw_heap w') ((iw_heap w')(a := map_option (be_data_update f) (iw_heap w' a)))"
    using assms(2) Some by (cases "iw_heap w' a") (auto simp: same_shape_def)
  then show ?thesis using assms(1,3) Some by (auto simp: frame_def set_buf_def elim: same_shape_trans)
qed (use assms in \<open>simp add: set_buf_def\<close>)

lemma length_memcpy_at: "n + length ys \<le> length xs \<Longrightarrow> length (memcpy_at xs n ys) = length xs"
  by (simp add: memcpy_at_def)

lemma read_done_length:
  assumes "read_object_done extent ret rsp = Inr data" shows "length data \<le> unat (ox_length extent)"
proof -
  define data_len where "data_len = rr_data_len (dec_read_object_rsp (take 8 (the (rs_body rsp))))"
  have "data_len \<le> ox_length extent \<and>
        data = take (unat data_len) (drop 8 (the (rs_body rsp))) @ replicate (unat (ox_length extent) - unat data_len) 0"
    using assms
    by (auto simp: read_object_done_def kfastblock_transport_response_decode_read_object_def Let_def data_len_def not_less split: if_splits)
  then show ?thesis by (auto simp: word_le_nat_alt)
qed

lemma execute_frame:
  assumes "kfastblock_transport_execute_object_opcode ctx w = (ret, response, w')" "io_ok m ctx w"
  shows "frame (object_entry ctx w) 1 (buf_area ctx) w w'"
proof -
  obtain xret rsp w1 where x: "mux_exchange (the (oc_cached ctx)) (object_opcode ctx) (ec_seq (oc_exchange ctx)) (object_parts ctx w) w
      = ((xret, rsp), w1)" by (metis surj_pair)
  have "frame (object_entry ctx w) 1 {} w w1" by (rule mux_exchange_frame [OF x]) (simp add: object_entry_def)
  then have f: "frame (object_entry ctx w) 1 (buf_area ctx) w w1" by (rule frame_mono) simp_all
  have "frame (object_entry ctx w) 1 (buf_area ctx) w (set_buf (oc_buf ctx) (\<lambda>bs. memcpy_at bs 0 data) w1)"
    if d: "read_object_done (oc_extent ctx) xret rsp = Inr data" and rd: "oc_op ctx = REQ_OP_READ" for data
  proof (rule frame_set_buf [OF f])
    fix a e assume a: "oc_buf ctx = Some a" "iw_heap w1 a = Some e"
    have "io_ok m ctx w1" by (rule io_ok_frame [OF f refl assms(2)])
    then have "unat (ox_length (oc_extent ctx)) \<le> length (be_data e)" using a rd by (simp add: io_ok_def)
    then show "length (memcpy_at (be_data e) 0 data) = length (be_data e)"
      using read_done_length [OF d] by (simp add: length_memcpy_at)
  qed (use rd in \<open>simp add: buf_area_def\<close>)
  then show ?thesis
    using assms(1) x f by (auto simp: kfastblock_transport_execute_object_opcode_def split: if_splits sum.splits)
qed

lemma run_exchange_frame:
  assumes "kfastblock_transport_run_object_exchange env ctx w = (ctx', w')" "io_ok m ctx w"
  shows "core ctx' = core ctx \<and> oc_leader ctx' = oc_leader ctx \<and> frame (object_entry ctx w) 1 (buf_area ctx) w w'"
proof -
  obtain r1 rsp w1 where e: "kfastblock_transport_execute_object_opcode ctx w = (r1, rsp, w1)" by (metis prod_cases3)
  obtain r2 w2 where n: "kfastblock_transport_normalize_object_ret ctx r1 w1 = (r2, w2)" by fastforce
  obtain r3 vol r where c: "kfastblock_transport_complete_exchange_response (te_now env) (oc_exchange ctx) rsp r2 (iw_vol w2, iw_req w2)
      = (r3, vol, r)" by (metis prod_cases3)
  note f1 = execute_frame [OF e assms(2)]
  have "frame (object_entry ctx w) 1 (buf_area ctx) w w2"
    using n f1 frame_set_buf [OF f1, of "oc_buf ctx" "zero_prefix (unat (ox_length (oc_extent ctx)))"]
    by (auto simp: kfastblock_transport_normalize_object_ret_def buf_area_def split: if_splits)
  moreover have "keeps (iw_vol w2, iw_req w2) (vol, r)" using keeps_complete by (metis c snd_conv)
  ultimately show ?thesis
    using assms(1) e n c by (auto simp: kfastblock_transport_run_object_exchange_def core_def frame_both)
qed

text \<open>The pages are the only thing outside the frame: a successful read writes them.\<close>

definition mask_pages :: "u8 list list \<Rightarrow> io_world \<Rightarrow> io_world" where
  "mask_pages segs w = w \<lparr> iw_pages := segs \<rparr>"

lemma mask_same: "iw_pages w' = iw_pages w \<Longrightarrow> mask_pages (iw_pages w) w' = w'"
  by (simp add: mask_pages_def)

lemma finish_success_frame:
  assumes "kfastblock_transport_finish_object_success env ctx w' = (ret, w'')" "frame P n A w w'"
  shows "frame P n A w (mask_pages (iw_pages w) w'')"
proof -
  have p: "iw_pages w' = iw_pages w" using assms(2) by (simp add: frame_def)
  have m: "frame P n A w (w' \<lparr> iw_pages := iw_pages w \<rparr>)" using assms(2) p by (simp add: frame_def)
  show ?thesis using assms(1) m by (auto simp: kfastblock_transport_finish_object_success_def mask_pages_def on_vol_def frame_def
      split: if_splits prod.splits)
qed

lemma completed_frame:
  assumes "kfastblock_transport_finalize_completed_object_attempt env ctx w' = (again, ctx', w'')" "frame P n A w w'"
  shows "core ctx' = core ctx \<and> frame P n A w (mask_pages (iw_pages w) w'') \<and>
         (again \<longrightarrow> iw_pages w'' = iw_pages w \<and> oc_ret ctx' \<noteq> 0)"
proof -
  define c0 where "c0 = ctx \<lparr> oc_actions := (if oc_ret ctx \<noteq> 0 then kfastblock_recovery_classify_object_failure (oc_ret ctx) else 0) \<rparr>"
  obtain c2 w2 where f: "kfastblock_transport_finalize_object_socket env c0 w' = (c2, w2)" by fastforce
  have c: "core c2 = core ctx \<and> oc_ret c2 = oc_ret ctx" and f2: "frame P n A w w2"
    using finalize_socket_frame [OF f, of P n A w] assms(2) by (auto simp: c0_def core_def)
  have eq: "kfastblock_transport_finalize_completed_object_attempt env ctx w' =
      (if oc_ret c2 \<noteq> 0
       then (case kfastblock_transport_handle_object_failure env c2 w2 of (again, w3) \<Rightarrow> (again, c2, w3))
       else (False, kfastblock_transport_complete_successful_object_attempt env c2 w2))"
    by (simp add: kfastblock_transport_finalize_completed_object_attempt_def c0_def [symmetric] f)
  show ?thesis
  proof (cases "oc_ret c2 = 0")
    case True
    define w1 where "w1 = (case oc_hint c2 of None \<Rightarrow> w2 | Some j \<Rightarrow> on_hint j (kfastblock_request_set_pg_hint_leader (oc_leader c2)) w2)"
    obtain ret w3 where s: "kfastblock_transport_finish_object_success env c2 w1 = (ret, w3)" by fastforce
    have "frame P n A w w1" using f2 by (simp add: w1_def split: option.splits)
    note finish_success_frame [OF s this]
    moreover have "ctx' = c2 \<lparr> oc_ret := ret \<rparr> \<and> w'' = w3 \<and> \<not> again"
      using assms(1) eq True s by (simp add: kfastblock_transport_complete_successful_object_attempt_def w1_def [symmetric])
    ultimately show ?thesis using c by (simp add: core_def)
  next
    case False
    then obtain w3 where h: "kfastblock_transport_handle_object_failure env c2 w2 = (again, w3)" and r: "ctx' = c2" "w'' = w3"
      using assms(1) eq by (auto split: prod.splits)
    have "frame P n A w w3" using f2 handle_failure_frame [OF h, of P n A w] by simp
    moreover then have "iw_pages w3 = iw_pages w" by (simp add: frame_def)
    ultimately show ?thesis using r c False mask_same [of w3 w] by simp
  qed
qed

lemma drive_frame:
  assumes "kfastblock_transport_drive_object_attempt env ctx w = (again, ctx', w')" "io_ok m ctx w"
  shows "core ctx' = core ctx \<and> frame (object_entry ctx w) (m + 1) (buf_area ctx) w (mask_pages (iw_pages w) w') \<and>
         (again \<longrightarrow> iw_pages w' = iw_pages w \<and> oc_ret ctx' \<noteq> 0)"
proof -
  let ?P = "object_entry ctx w" and ?A = "buf_area ctx"
  obtain r1 c1 w1 where b: "kfastblock_transport_begin_object_attempt env ctx w = (r1, c1, w1)" by (metis prod_cases3)
  have "targets_ok m (oc_hint ctx) (iw_req w)" using assms(2) by (simp add: io_ok_def)
  from begin_attempt_frame [OF b this] have cc1: "core c1 = core ctx" and "frame get_leader_entry m {} w w1" by auto
  then have f1: "frame ?P m ?A w w1" using frame_mono [of get_leader_entry m "{}" w w1 m ?P ?A] by (simp add: object_entry_def)
  obtain r2 vol where i: "kfastblock_transport_maybe_inject_fault (te_now env) KFASTBLOCK_FAULT_OBJECT_IO (iw_vol w1) = (r2, vol)"
    by fastforce
  have vp: "v_object_buffer_pool vol = v_object_buffer_pool (iw_vol w1)"
    using pool_inject [of "te_now env" KFASTBLOCK_FAULT_OBJECT_IO "iw_vol w1"] by (simp only: i snd_conv)
  define w2 where "w2 = w1 \<lparr> iw_vol := vol \<rparr>"
  have f2: "frame ?P m ?A w w2" using f1 vp by (simp add: w2_def)
  have failed: ?thesis
    if "kfastblock_transport_fail_object_attempt env k (c1 \<lparr> oc_ret := r \<rparr>) wx = (again, ctx', w')" "frame ?P m ?A w wx" "r \<noteq> 0" for k r wx
  proof -
    have "frame ?P m ?A w w'" "core ctx' = core ctx" "oc_ret ctx' = r"
      using fail_attempt_frame [OF that(1), of ?P m ?A w] that(2) cc1 by (auto simp: core_def)
    then show ?thesis using that(3) mask_same [of w' w] frame_mono [of ?P m ?A w w' "m + 1" ?P ?A] by (simp add: frame_def)
  qed
  show ?thesis
  proof (cases "r1 = 0 \<and> r2 = 0")
    case True
    obtain c3 w3 where e: "kfastblock_transport_run_object_exchange env c1 w2 = (c3, w3)" by fastforce
    have P: "object_entry c1 w2 = ?P" by (rule object_entry_frame [OF f2 cc1])
    have x: "core c3 = core c1" "frame ?P 1 ?A w2 w3"
      using run_exchange_frame [OF e io_ok_frame [OF f2 cc1 assms(2)]] by (simp_all add: P buf_area_core [OF cc1])
    have "core c3 = core ctx" "frame ?P (m + 1) ?A w w3" using x(1) cc1 frame_trans [OF f2 x(2)] by simp_all
    moreover have "kfastblock_transport_finalize_completed_object_attempt env c3 w3 = (again, ctx', w')"
      using assms(1) b i True e by (simp add: kfastblock_transport_drive_object_attempt_def w2_def [symmetric])
    ultimately show ?thesis using completed_frame by metis
  next
    case False
    then show ?thesis
      using assms(1) b i failed f1 f2
      by (auto simp: kfastblock_transport_drive_object_attempt_def w2_def [symmetric] split: if_splits)
  qed
qed

lemma attempts_frame:
  assumes "object_attempts env as ctx w = (ctx', w')" "io_ok m ctx w"
  shows "core ctx' = core ctx \<and> frame (object_entry ctx w) (length as * (m + 1)) (buf_area ctx) w (mask_pages (iw_pages w) w')"
  using assms
proof (induction as arbitrary: ctx w)
  case Nil
  then show ?case by (simp add: mask_same)
next
  case (Cons a as)
  define c0 where "c0 = (kfastblock_transport_object_io_ctx_reset_attempt ctx) \<lparr> oc_attempt := a \<rparr>"
  have c0: "core c0 = core ctx" by (simp add: c0_def core_def kfastblock_transport_object_io_ctx_reset_attempt_def)
  obtain again c1 w1 where d: "kfastblock_transport_drive_object_attempt env c0 w = (again, c1, w1)" by (metis prod_cases3)
  have e0: "object_entry c0 w = object_entry ctx w" using object_entry_frame [OF frame_refl c0] by blast
  have D: "core c1 = core ctx" "frame (object_entry ctx w) (m + 1) (buf_area ctx) w (mask_pages (iw_pages w) w1)"
      "again \<Longrightarrow> iw_pages w1 = iw_pages w"
    using drive_frame [OF d io_ok_frame [OF frame_refl c0 Cons(3)]] c0 by (auto simp: e0 buf_area_core [OF c0])
  show ?case
  proof (cases again)
    case True
    have f: "frame (object_entry ctx w) (m + 1) (buf_area ctx) w w1" using D(2) mask_same [OF D(3) [OF True]] by simp
    have "object_attempts env as c1 w1 = (ctx', w')" using Cons(2) d True by (simp add: c0_def [symmetric])
    from Cons(1) [OF this io_ok_frame [OF f D(1) Cons(3)]]
    have I: "core ctx' = core ctx" "frame (object_entry ctx w) (length as * (m + 1)) (buf_area ctx) w1 (mask_pages (iw_pages w) w')"
      using D(1) D(3) [OF True] object_entry_frame [OF f D(1)] buf_area_core [OF D(1)] by simp_all
    show ?thesis using I(1) frame_trans [OF f I(2)] by (simp add: algebra_simps)
  next
    case False
    then have "ctx' = c1 \<and> w' = w1" using Cons(2) d by (simp add: c0_def [symmetric])
    then show ?thesis using D frame_mono [OF D(2), of "length (a # as) * (m + 1)" "object_entry ctx w" "buf_area ctx"] by simp
  qed
qed

end
