(* ===== verification/KFB_Object_Data.thy ===== *)
theory KFB_Object_Data
  imports KFB_Object_Laws
begin

text \<open>
  The data path of one object: copying between the segments of a block request and a buffer is exact, a write sends
  exactly the bytes of the request, and a successful read stores exactly the bytes of the answer.
\<close>

section \<open>Copying\<close>

lemma memcpy_skip: "length seg \<le> d \<Longrightarrow> memcpy_at (seg @ rest) d ys = seg @ memcpy_at rest (d - length seg) ys"
  by (simp add: memcpy_at_def)

lemma memcpy_within: "d + length ys \<le> length seg \<Longrightarrow> memcpy_at (seg @ rest) d ys = memcpy_at seg d ys @ rest"
  by (simp add: memcpy_at_def)

lemma memcpy_across:
  assumes "d \<le> length seg" "length ys = length seg - d"
  shows "memcpy_at (seg @ rest) d (ys @ zs) = memcpy_at seg d ys @ memcpy_at rest 0 zs"
  using assms by (simp add: memcpy_at_def)

lemma memcpy_twice:
  assumes "c + length ys \<le> length buf"
  shows "memcpy_at (memcpy_at buf c ys) (c + length ys) zs = memcpy_at buf c (ys @ zs)"
  using assms by (simp add: memcpy_at_def add.commute add.left_commute)

lemma copy_words:
  fixes off len c s :: u32
  assumes "unat s + b < 2 ^ 32" "unat c < unat len" "unat off < unat s + b"
    and so_def: "so = (if s < off then off - s else 0)" and chunk_def: "chunk = min (len - c) (of_nat b - so)"
  shows "unat so = unat off - unat s" "unat chunk = min (unat len - unat c) (b - (unat off - unat s))"
    "unat (c + chunk) = unat c + unat chunk"
proof -
  show so: "unat so = unat off - unat s"
    by (auto simp: so_def word_less_nat_alt unat_sub word_le_nat_alt)
  have b: "unat (of_nat b :: u32) = b" using assms(1) by (simp add: unat_of_nat_small)
  have "unat (of_nat b - so) = b - (unat off - unat s)" using so b assms(3) by (simp add: unat_sub word_le_nat_alt)
  moreover have "unat (len - c) = unat len - unat c" using assms(2) by (simp add: unat_sub word_le_nat_alt)
  ultimately show ch: "unat chunk = min (unat len - unat c) (b - (unat off - unat s))"
    by (simp add: chunk_def min_def word_le_nat_alt)
  have "unat c + unat chunk \<le> unat len" using ch assms(2) by simp
  then show "unat (c + chunk) = unat c + unat chunk"
    using unat_u32_bound [of len] by (simp add: unat_word_ariths)
qed

text \<open>The loop, at any point of the segments: \<open>d\<close> bytes are still to be skipped and \<open>k\<close> are still to be copied.\<close>

definition copied_ok ::
    "u32 \<Rightarrow> u32 \<Rightarrow> bool \<Rightarrow> u8 list list \<Rightarrow> u32 \<Rightarrow> u32 \<Rightarrow> u8 list \<Rightarrow> int \<times> u8 list list \<times> u8 list \<Rightarrow> bool" where
  "copied_ok off len to_request segs c s buf res \<longleftrightarrow>
     (case res of (ret, segs', buf') \<Rightarrow>
        (let d = unat off - unat s; k = unat len - unat c
         in map length segs' = map length segs \<and> length buf' = length buf \<and> (to_request \<or> segs' = segs) \<and>
            (if d + k \<le> length (concat segs)
             then ret = 0 \<and>
               (if to_request then buf' = buf \<and> concat segs' = memcpy_at (concat segs) d (take k (drop (unat c) buf))
                else buf' = memcpy_at buf (unat c) (take k (drop d (concat segs))))
             else ret = - EIO)))"

lemma take_add_drop: "i \<le> k \<Longrightarrow> take k xs = take i xs @ take (k - i) (drop i xs)"
  by (metis le_add_diff_inverse take_add)

text \<open>A segment before the range.\<close>

lemma copied_skip:
  assumes "copied_ok off len to_request segs c (s + of_nat (length seg)) buf (ret, segs', buf')"
    and "unat s + length seg < 2 ^ 32" "unat s + length seg \<le> unat off"
  shows "copied_ok off len to_request (seg # segs) c s buf (ret, seg # segs', buf')"
proof -
  have "unat (s + of_nat (length seg)) = unat s + length seg"
    using assms(2) by (simp add: unat_word_ariths unat_of_nat_small)
  then have "unat off - unat s = length seg + (unat off - unat (s + of_nat (length seg)))" using assms(3) by simp
  then show ?thesis
    using assms(1) by (cases to_request) (auto simp: copied_ok_def Let_def memcpy_skip split: if_splits)
qed

text \<open>The segment the range ends in.\<close>

lemma copied_end:
  assumes "d = unat off - unat s" "k = unat len - unat c" "d + k \<le> length seg" "unat c < unat len" "unat len \<le> length buf"
  shows "copied_ok off len to_request (seg # segs) c s buf
    (0, (if to_request then memcpy_at seg d (take k (drop (unat c) buf)) else seg) # segs,
     if to_request then buf else memcpy_at buf (unat c) (take k (drop d seg)))"
proof -
  have l: "length (take k (drop (unat c) buf)) = k" using assms by simp
  have "memcpy_at (seg @ concat segs) d (take k (drop (unat c) buf)) = memcpy_at seg d (take k (drop (unat c) buf)) @ concat segs"
    by (rule memcpy_within) (use l assms(3) in simp)
  moreover have "length (memcpy_at seg d (take k (drop (unat c) buf))) = length seg"
    by (rule length_memcpy_at) (use l assms(3) in simp)
  moreover have "take k (drop d (seg @ concat segs)) = take k (drop d seg)" using assms(3) by simp
  moreover have "length (memcpy_at buf (unat c) (take k (drop d seg))) = length buf"
    by (rule length_memcpy_at) (use assms(2-5) in simp)
  ultimately show ?thesis using assms(1-3) by (simp add: copied_ok_def)
qed

text \<open>A segment the range runs through.\<close>

lemma copied_through:
  assumes d: "d = unat off - unat s" "d \<le> length seg" and i: "i = length seg - d" "i < unat len - unat c"
    and buf1: "buf1 = (if to_request then buf else memcpy_at buf (unat c) (drop d seg))"
    and c': "unat c' = unat c + i" and s': "unat s' = unat off + unat c'"
    and len: "unat len \<le> length buf" and ih: "copied_ok off len to_request segs c' s' buf1 (ret, segs', buf')"
  shows "copied_ok off len to_request (seg # segs) c s buf
    (ret, (if to_request then memcpy_at seg d (take i (drop (unat c) buf)) else seg) # segs', buf')"
proof -
  define k k' where "k = unat len - unat c" and "k' = unat len - unat c'"
  have k: "k = i + k'" using i c' by (simp add: k_def k'_def)
  have l: "length (take i (drop (unat c) buf)) = i" using i len by simp
  have D: "(d + k \<le> length seg + length (concat segs)) = (k' \<le> length (concat segs))" using k i d by simp
  have ih': "map length segs' = map length segs \<and> length buf' = length buf1 \<and> (to_request \<or> segs' = segs) \<and>
     (if k' \<le> length (concat segs)
      then ret = 0 \<and> (if to_request then buf' = buf1 \<and> concat segs' = memcpy_at (concat segs) 0 (take k' (drop (unat c') buf1))
        else buf' = memcpy_at buf1 (unat c') (take k' (concat segs))) else ret = - EIO)"
    using ih s' by (simp add: copied_ok_def k'_def Let_def)
  have r: "memcpy_at (seg @ concat segs) d (take k (drop (unat c) buf)) =
      memcpy_at seg d (take i (drop (unat c) buf)) @ memcpy_at (concat segs) 0 (take k' (drop (unat c') buf))"
  proof -
    have "take k (drop (unat c) buf) = take i (drop (unat c) buf) @ take k' (drop (unat c') buf)"
      by (simp add: k take_add c' drop_drop add.commute [of "unat c" i])
    then show ?thesis
      using memcpy_across [OF d(2), of "take i (drop (unat c) buf)" "concat segs" "take k' (drop (unat c') buf)"] l i(1) by simp
  qed
  have w: "memcpy_at buf (unat c) (take k (drop d (seg @ concat segs))) =
      memcpy_at (memcpy_at buf (unat c) (drop d seg)) (unat c') (take k' (concat segs))"
  proof -
    have "length (drop d seg) = i" using i(1) by simp
    moreover then have "take k (drop d (seg @ concat segs)) = drop d seg @ take k' (concat segs)" using d(2) by (simp add: k)
    ultimately show ?thesis
      using memcpy_twice [of "unat c" "drop d seg" buf "take k' (concat segs)"] i(2) len by (simp add: c')
  qed
  have m: "length (memcpy_at seg d (take i (drop (unat c) buf))) = length seg"
    by (rule length_memcpy_at) (use l i(1) d(2) in simp)
  have b: "length (memcpy_at buf (unat c) (drop d seg)) = length buf"
    by (rule length_memcpy_at) (use i len in simp)
  show ?thesis
  proof (cases to_request)
    case True
    then show ?thesis using ih' r m buf1 D by (auto simp: copied_ok_def d(1) [symmetric] k_def [symmetric])
  next
    case False
    then show ?thesis using ih' w b buf1 D by (auto simp: copied_ok_def d(1) [symmetric] k_def [symmetric])
  qed
qed

lemma copy_segments_exact:
  assumes "(c = 0 \<and> s \<le> off) \<or> unat s = unat off + unat c" "unat s + length (concat segs) < 2 ^ 32"
    and "unat c < unat len" "unat len \<le> length buf"
  shows "copied_ok off len to_request segs c s buf (copy_segments off len to_request segs c s buf)"
  using assms
proof (induction segs arbitrary: c s buf)
  case Nil
  then show ?case by (auto simp: copied_ok_def)
next
  case (Cons seg segs)
  define b where "b = length seg"
  have sb: "unat s + b < 2 ^ 32" using Cons(3) by (simp add: b_def)
  have us: "unat (s + of_nat b) = unat s + b" using sb by (simp add: unat_word_ariths unat_of_nat_small)
  show ?case
  proof (cases "s + of_nat b \<le> off")
    case True
    then have le: "unat s + b \<le> unat off" by (simp add: word_le_nat_alt us)
    then have "c = 0" using Cons(2) by (auto simp: unat_eq_0)
    then have "copied_ok off len to_request segs c (s + of_nat b) buf (copy_segments off len to_request segs c (s + of_nat b) buf)"
      using True Cons(3-5) us by (intro Cons(1)) (simp_all add: b_def)
    then show ?thesis
      using copied_skip [of off len to_request segs c s seg buf] sb le True
      by (cases "copy_segments off len to_request segs c (s + of_nat b) buf") (simp add: b_def Let_def)
  next
    case False
    then have gt: "unat off < unat s + b" by (simp add: word_le_nat_alt us)
    define so chunk where "so = (if s < off then off - s else 0)" and "chunk = min (len - c) (of_nat b - so)"
    note w = copy_words [OF sb Cons(4) gt so_def chunk_def]
    define d where "d = unat off - unat s"
    have db: "d \<le> b" using gt by (simp add: d_def)
    define seg1 where "seg1 = (if to_request then memcpy_at seg d (take (unat chunk) (drop (unat c) buf)) else seg)"
    define buf1 where "buf1 = (if to_request then buf else memcpy_at buf (unat c) (take (unat chunk) (drop d seg)))"
    have step: "copy_segments off len to_request (seg # segs) c s buf =
        (if c + chunk = len then (0, seg1 # segs, buf1)
         else (case copy_segments off len to_request segs (c + chunk) (s + of_nat b) buf1 of (ret, segs', buf'') \<Rightarrow> (ret, seg1 # segs', buf'')))"
      using False w(1) by (simp add: so_def [symmetric] chunk_def [symmetric] b_def [symmetric] d_def [symmetric] seg1_def buf1_def Let_def)
    have cl: "c + chunk = len \<longleftrightarrow> d + (unat len - unat c) \<le> b"
      using w db Cons(4) unfolding word_unat_eq_iff d_def [symmetric] by (auto simp: min_def)
    show ?thesis
    proof (cases "c + chunk = len")
      case True
      then have uc: "unat chunk = unat len - unat c" using w(2) cl by (simp add: d_def)
      have "copied_ok off len to_request (seg # segs) c s buf (0, seg1 # segs, buf1)"
        using copied_end [OF d_def refl _ Cons(4,5), of seg to_request segs] True cl
        unfolding seg1_def buf1_def uc by (simp add: b_def split del: if_split)
      then show ?thesis unfolding step using True by simp
    next
      case no: False
      then have ch: "unat chunk = b - d" "b - d < unat len - unat c" using w(2) cl db by (auto simp: d_def)
      have s': "unat (s + of_nat b) = unat off + unat (c + chunk)"
        using Cons(2) gt by (auto simp: us w(3) ch d_def word_le_nat_alt)
      have lb: "length buf1 = length buf"
        using Cons(5) ch by (auto simp: buf1_def b_def intro!: length_memcpy_at)
      have "copied_ok off len to_request segs (c + chunk) (s + of_nat b) buf1 (copy_segments off len to_request segs (c + chunk) (s + of_nat b) buf1)"
        using Cons(3-5) ch s' lb us by (intro Cons(1)) (auto simp: w(3) b_def)
      moreover have "buf1 = (if to_request then buf else memcpy_at buf (unat c) (drop d seg))" by (simp add: buf1_def ch b_def)
      ultimately have "copied_ok off len to_request (seg # segs) c s buf (ret, seg1 # segs', buf'')"
        if "copy_segments off len to_request segs (c + chunk) (s + of_nat b) buf1 = (ret, segs', buf'')" for ret segs' buf''
        using copied_through [OF d_def _ refl, of seg len c buf1 to_request buf "c + chunk" "s + of_nat b" segs ret segs' buf'']
          db ch s' Cons(5) w(3) that
        unfolding seg1_def ch(1) b_def by (simp split del: if_split)
      then show ?thesis unfolding step
        using no by (cases "copy_segments off len to_request segs (c + chunk) (s + of_nat b) buf1") simp
    qed
  qed
qed

lemma copy_from_request:
  assumes "rq \<noteq> None" "len \<noteq> 0" "length (concat segs) < 2 ^ 32" "unat off + unat len \<le> length (concat segs)" "unat len \<le> length buf"
  shows "kfastblock_transport_copy_request_data rq segs off (Some buf) len False =
    (0, segs, Some (memcpy_at buf 0 (take (unat len) (drop (unat off) (concat segs)))))"
  using copy_segments_exact [of 0 0 off segs len buf False] assms
  by (auto simp: kfastblock_transport_copy_request_data_def copied_ok_def word_gt_0 unat_gt_0 split: prod.splits)

lemma copy_to_request:
  assumes "rq \<noteq> None" "len \<noteq> 0" "length (concat segs) < 2 ^ 32" "unat off + unat len \<le> length (concat segs)" "unat len \<le> length buf"
    and "kfastblock_transport_copy_request_data rq segs off (Some buf) len True = (ret, segs', buf')"
  shows "ret = 0 \<and> concat segs' = memcpy_at (concat segs) (unat off) (take (unat len) buf) \<and> map length segs' = map length segs"
  using copy_segments_exact [of 0 0 off segs len buf True] assms
  by (auto simp: kfastblock_transport_copy_request_data_def copied_ok_def word_gt_0 unat_gt_0 split: prod.splits)

section \<open>What a read stores\<close>

text \<open>A response as the socket delivers it: its body has the length its header says.\<close>

definition responses_ok :: "io_world \<Rightarrow> bool" where
  "responses_ok w \<longleftrightarrow> (\<forall>x\<in>set (iw_exchanges w). case rs_body (snd x) of None \<Rightarrow> True | Some b \<Rightarrow> length b = unat (rs_body_len (snd x)))"

text \<open>The data of an answer: what a response carries, padded with zeros, or zeros for an object that does not
  exist.\<close>

definition answer_data :: "object_extent \<Rightarrow> io_world \<Rightarrow> u8 list \<Rightarrow> bool" where
  "answer_data extent w data \<longleftrightarrow> length data = unat (ox_length extent) \<and>
     ((\<exists>rsp. (0, rsp) \<in> set (iw_exchanges w) \<and> read_object_done extent 0 rsp = Inr data) \<or>
      (\<exists>rsp. (- ENOENT, rsp) \<in> set (iw_exchanges w) \<and> data = replicate (unat (ox_length extent)) 0))"

definition stored :: "object_extent \<Rightarrow> io_world \<Rightarrow> u8 list list \<Rightarrow> bool" where
  "stored extent w segs \<longleftrightarrow>
     (\<exists>data. answer_data extent w data \<and> concat segs = memcpy_at (concat (iw_pages w)) (unat (ox_request_offset extent)) data \<and>
             map length segs = map length (iw_pages w))"

text \<open>The extent lies in the data of the block request.\<close>

definition fits :: "object_extent \<Rightarrow> io_world \<Rightarrow> bool" where
  "fits extent w \<longleftrightarrow> kr_rq (iw_req w) \<noteq> None \<and> ox_length extent \<noteq> 0 \<and> length (concat (iw_pages w)) < 2 ^ 32 \<and>
     unat (ox_request_offset extent) + unat (ox_length extent) \<le> length (concat (iw_pages w))"

lemma fits_frame: "frame P n A w w' \<Longrightarrow> fits extent w' \<longleftrightarrow> fits extent w"
  by (simp add: frame_def fits_def request_id_def)

lemma stored_frame:
  assumes "frame P n A w w'" "stored extent w' segs" shows "stored extent w segs"
proof -
  have p: "iw_pages w' = iw_pages w" and sub: "set (iw_exchanges w') \<subseteq> set (iw_exchanges w)" using assms(1) by (simp_all add: frame_def)
  have "answer_data extent w' data \<Longrightarrow> answer_data extent w data" for data using sub unfolding answer_data_def by blast
  then show ?thesis using assms(2) unfolding stored_def p by blast
qed

lemma responses_frame: "frame P n A w w' \<Longrightarrow> responses_ok w \<Longrightarrow> responses_ok w'"
  unfolding frame_def responses_ok_def by blast

lemma read_done_exact:
  assumes "read_object_done extent ret rsp = Inr data" "(r, rsp) \<in> set (iw_exchanges w)" "responses_ok w"
  shows "length data = unat (ox_length extent)"
proof -
  define body where "body = the (rs_body rsp)"
  define data_len where "data_len = rr_data_len (dec_read_object_rsp (take 8 body))"
  have *: "rs_body rsp = Some body \<and> data_len \<le> ox_length extent \<and> unat (rs_body_len rsp) = 8 + unat data_len \<and>
        data = take (unat data_len) (drop 8 body) @ replicate (unat (ox_length extent) - unat data_len) 0"
    using assms(1)
    by (auto simp: read_object_done_def kfastblock_transport_response_decode_read_object_def kfastblock_transport_response_expect_min_body_def
        Let_def data_len_def body_def not_less split: if_splits)
  then have "length body = 8 + unat data_len" using bspec [OF assms(3) [unfolded responses_ok_def] assms(2)] by auto
  then show ?thesis using * by (simp add: word_le_nat_alt)
qed

lemma take_memcpy_0: "take (length data) (memcpy_at bs 0 data) = data" by (simp add: memcpy_at_def)

text \<open>After a read's exchange succeeded, the buffer starts with the answer.\<close>

lemma execute_read:
  assumes "kfastblock_transport_execute_object_opcode ctx w = (ret, response, w')" "oc_op ctx = REQ_OP_READ"
    and "io_ok m ctx w" "responses_ok w" "ret = 0 \<or> ret = - ENOENT" "ret = 0 \<Longrightarrow> w'' = w'"
    and "ret = - ENOENT \<Longrightarrow> w'' = set_buf (oc_buf ctx) (zero_prefix (unat (ox_length (oc_extent ctx)))) w'"
  shows "\<exists>data bs. buf_data (oc_buf ctx) w'' = Some bs \<and> unat (ox_length (oc_extent ctx)) \<le> length bs \<and>
           take (unat (ox_length (oc_extent ctx))) bs = data \<and> answer_data (oc_extent ctx) w data"
proof -
  let ?len = "unat (ox_length (oc_extent ctx))"
  obtain xret rsp w1 where x: "mux_exchange (the (oc_cached ctx)) (object_opcode ctx) (ec_seq (oc_exchange ctx)) (object_parts ctx w) w
      = ((xret, rsp), w1)" by (metis surj_pair)
  have f1: "frame (object_entry ctx w) 1 {} w w1" by (rule mux_exchange_frame [OF x]) (simp add: object_entry_def)
  obtain a e where a: "oc_buf ctx = Some a" and e: "iw_heap w1 a = Some e" "?len \<le> length (be_data e)"
    using io_ok_frame [OF f1 refl assms(3)] assms(2) by (auto simp: io_ok_def)
  show ?thesis
  proof (cases "read_object_done (oc_extent ctx) xret rsp")
    case (Inl r)
    then have "ret = r" "w' = w1" using assms(1,2) x by (simp_all add: kfastblock_transport_execute_object_opcode_def)
    then have "xret = - ENOENT \<and> ret = - ENOENT"
      using Inl assms(5) by (auto simp: read_object_done_def kfastblock_transport_response_decode_read_object_def Let_def split: if_splits)
    moreover then have "(- ENOENT, rsp) \<in> set (iw_exchanges w)"
      using x by (auto simp: mux_exchange_def next_exchange_def Let_def split: if_splits list.splits)
    ultimately show ?thesis
      using assms(7) a e \<open>w' = w1\<close>
      by (auto simp: buf_data_def set_buf_def zero_prefix_take answer_data_def)
  next
    case (Inr data)
    then have r: "ret = 0" "w' = set_buf (oc_buf ctx) (\<lambda>bs. memcpy_at bs 0 data) w1"
      using assms(1,2) x by (simp_all add: kfastblock_transport_execute_object_opcode_def)
    have "xret = 0" using Inr by (auto simp: read_object_done_def split: if_splits)
    then have m: "(0, rsp) \<in> set (iw_exchanges w)" using mux_exchange_answer x by blast
    have l: "length data = ?len" by (rule read_done_exact [OF Inr m assms(4)])
    have "answer_data (oc_extent ctx) w data" using m Inr \<open>xret = 0\<close> l by (auto simp: answer_data_def)
    then show ?thesis
      using assms(6) r a e l take_memcpy_0 [of data "be_data e"]
      by (auto simp: buf_data_def set_buf_def length_memcpy_at)
  qed
qed

lemma run_exchange_read:
  assumes "kfastblock_transport_run_object_exchange env ctx w = (ctx', w')" "oc_op ctx = REQ_OP_READ" "oc_ret ctx' = 0"
    and "io_ok m ctx w" "responses_ok w"
  shows "\<exists>data bs. buf_data (oc_buf ctx) w' = Some bs \<and> unat (ox_length (oc_extent ctx)) \<le> length bs \<and>
           take (unat (ox_length (oc_extent ctx))) bs = data \<and> answer_data (oc_extent ctx) w data"
proof -
  obtain r1 rsp w1 where e: "kfastblock_transport_execute_object_opcode ctx w = (r1, rsp, w1)" by (metis prod_cases3)
  obtain r2 w2 where n: "kfastblock_transport_normalize_object_ret ctx r1 w1 = (r2, w2)" by fastforce
  obtain r3 vol r where c: "kfastblock_transport_complete_exchange_response (te_now env) (oc_exchange ctx) rsp r2 (iw_vol w2, iw_req w2)
      = (r3, vol, r)" by (metis prod_cases3)
  have fin: "oc_ret ctx' = r3" "w' = w2 \<lparr> iw_vol := vol, iw_req := r \<rparr>"
    using assms(1) e n c by (auto simp: kfastblock_transport_run_object_exchange_def)
  then have "r2 = 0" using c assms(3) by (auto simp: kfastblock_transport_complete_exchange_response_def Let_def split: if_splits)
  then have n': "r1 = 0 \<or> r1 = - ENOENT" "r1 = 0 \<Longrightarrow> w2 = w1"
      "r1 = - ENOENT \<Longrightarrow> w2 = set_buf (oc_buf ctx) (zero_prefix (unat (ox_length (oc_extent ctx)))) w1"
    using n assms(2) by (auto simp: kfastblock_transport_normalize_object_ret_def split: if_splits)
  have "buf_data (oc_buf ctx) w' = buf_data (oc_buf ctx) w2" by (simp add: fin buf_data_def split: option.splits)
  then show ?thesis using execute_read [OF e assms(2,4,5) n'] by simp
qed

definition buffer_answers :: "object_io_ctx \<Rightarrow> io_world \<Rightarrow> io_world \<Rightarrow> bool" where
  "buffer_answers ctx w w' \<longleftrightarrow>
     (\<exists>bs. buf_data (oc_buf ctx) w' = Some bs \<and> unat (ox_length (oc_extent ctx)) \<le> length bs \<and>
           answer_data (oc_extent ctx) w (take (unat (ox_length (oc_extent ctx))) bs))"

text \<open>The end of an attempt: the pages are written by a read that succeeds, and by nothing else.\<close>

lemma finish_success_pages:
  assumes "kfastblock_transport_finish_object_success env ctx w' = (ret, w'')" "frame P n A w w'"
    and "oc_op ctx = REQ_OP_READ \<Longrightarrow> fits (oc_extent ctx) w \<and> buffer_answers ctx w w'"
  shows "ret = 0 \<and> (if oc_op ctx = REQ_OP_READ then stored (oc_extent ctx) w (iw_pages w'') else iw_pages w'' = iw_pages w)"
proof (cases "oc_op ctx = REQ_OP_READ")
  case False
  then show ?thesis using assms(1,2) by (auto simp: kfastblock_transport_finish_object_success_def on_vol_def frame_def)
next
  case True
  then obtain bs where bs: "buf_data (oc_buf ctx) w' = Some bs" "unat (ox_length (oc_extent ctx)) \<le> length bs"
    "answer_data (oc_extent ctx) w (take (unat (ox_length (oc_extent ctx))) bs)" and fi: "fits (oc_extent ctx) w'"
    using assms(3) fits_frame [OF assms(2)] by (auto simp: buffer_answers_def)
  obtain ret' segs' b' where cp: "kfastblock_transport_copy_request_data (kr_rq (iw_req w')) (iw_pages w')
    (ox_request_offset (oc_extent ctx)) (Some bs) (ox_length (oc_extent ctx)) True = (ret', segs', b')" by (metis prod_cases3)
  have P: "ret' = 0 \<and> concat segs' = memcpy_at (concat (iw_pages w')) (unat (ox_request_offset (oc_extent ctx)))
      (take (unat (ox_length (oc_extent ctx))) bs) \<and> map length segs' = map length (iw_pages w')"
    by (rule copy_to_request [OF _ _ _ _ bs(2) cp]) (use fi in \<open>simp_all add: fits_def\<close>)
  have "iw_pages w'' = segs' \<and> ret = 0"
    using assms(1) True bs(1) cp P by (auto simp: kfastblock_transport_finish_object_success_def on_vol_def)
  then show ?thesis using True P bs(3) assms(2) unfolding stored_def by (auto simp: frame_def)
qed

lemma buffer_answers_frame:
  assumes "buffer_answers ctx w w1" "frame P 0 {} w1 w2" "core ctx' = core ctx" shows "buffer_answers ctx' w w2"
  using assms by (auto simp: buffer_answers_def frame_def buf_data_def core_def split: option.splits)

lemma completed_pages:
  assumes "kfastblock_transport_finalize_completed_object_attempt env ctx w' = (again, ctx', w'')" "frame P n A w w'"
    and rd: "oc_op ctx = REQ_OP_READ \<Longrightarrow> oc_ret ctx = 0 \<Longrightarrow> fits (oc_extent ctx) w \<and> buffer_answers ctx w w'"
  shows "if oc_op ctx = REQ_OP_READ \<and> oc_ret ctx' = 0 then stored (oc_extent ctx) w (iw_pages w'') else iw_pages w'' = iw_pages w"
proof -
  define c0 where "c0 = ctx \<lparr> oc_actions := (if oc_ret ctx \<noteq> 0 then kfastblock_recovery_classify_object_failure (oc_ret ctx) else 0) \<rparr>"
  obtain c2 w2 where f: "kfastblock_transport_finalize_object_socket env c0 w' = (c2, w2)" by fastforce
  have c: "core c2 = core ctx" "oc_ret c2 = oc_ret ctx" and f2: "frame P n A w w2" "frame (\<lambda>_. True) 0 {} w' w2"
    using finalize_socket_frame [OF f, of P n A w] finalize_socket_frame [OF f, of "\<lambda>_. True" 0 "{}" w'] assms(2)
    by (auto simp: c0_def core_def)
  have eq: "kfastblock_transport_finalize_completed_object_attempt env ctx w' =
      (if oc_ret c2 \<noteq> 0
       then (case kfastblock_transport_handle_object_failure env c2 w2 of (again, w3) \<Rightarrow> (again, c2, w3))
       else (False, kfastblock_transport_complete_successful_object_attempt env c2 w2))"
    by (simp add: kfastblock_transport_finalize_completed_object_attempt_def c0_def [symmetric] f)
  show ?thesis
  proof (cases "oc_ret ctx = 0")
    case False
    then obtain w3 where h: "kfastblock_transport_handle_object_failure env c2 w2 = (again, w3)" and r: "ctx' = c2" "w'' = w3"
      using assms(1) eq c by (auto split: prod.splits)
    have "frame P n A w w3" using f2 handle_failure_frame [OF h, of P n A w] by simp
    then show ?thesis using r c False by (simp add: frame_def)
  next
    case True
    define w1 where "w1 = (case oc_hint c2 of None \<Rightarrow> w2 | Some j \<Rightarrow> on_hint j (kfastblock_request_set_pg_hint_leader (oc_leader c2)) w2)"
    have g: "frame P n A w w1" "frame (\<lambda>_. True) 0 {} w' w1" using f2 by (simp_all add: w1_def split: option.splits)
    obtain ret w3 where s: "kfastblock_transport_finish_object_success env c2 w1 = (ret, w3)" by fastforce
    have "oc_op c2 = REQ_OP_READ \<Longrightarrow> fits (oc_extent c2) w \<and> buffer_answers c2 w w1"
      using rd True c buffer_answers_frame [OF _ g(2) c(1)] by (auto simp: core_def)
    note finish_success_pages [OF s g(1) this]
    moreover have "ctx' = c2 \<lparr> oc_ret := ret \<rparr> \<and> w'' = w3"
      using assms(1) eq True c s by (simp add: kfastblock_transport_complete_successful_object_attempt_def w1_def [symmetric])
    ultimately show ?thesis using c by (auto simp: core_def)
  qed
qed

lemma drive_pages:
  assumes "kfastblock_transport_drive_object_attempt env ctx w = (again, ctx', w')" "io_ok m ctx w"
    and "oc_op ctx = REQ_OP_READ \<Longrightarrow> fits (oc_extent ctx) w \<and> responses_ok w"
  shows "if oc_op ctx = REQ_OP_READ \<and> oc_ret ctx' = 0 then stored (oc_extent ctx) w (iw_pages w') else iw_pages w' = iw_pages w"
proof -
  obtain r1 c1 w1 where b: "kfastblock_transport_begin_object_attempt env ctx w = (r1, c1, w1)" by (metis prod_cases3)
  have "targets_ok m (oc_hint ctx) (iw_req w)" using assms(2) by (simp add: io_ok_def)
  from begin_attempt_frame [OF b this] have cc1: "core c1 = core ctx" and f1: "frame get_leader_entry m {} w w1" by auto
  obtain r2 vol where i: "kfastblock_transport_maybe_inject_fault (te_now env) KFASTBLOCK_FAULT_OBJECT_IO (iw_vol w1) = (r2, vol)"
    by fastforce
  have vp: "v_object_buffer_pool vol = v_object_buffer_pool (iw_vol w1)"
    using pool_inject [of "te_now env" KFASTBLOCK_FAULT_OBJECT_IO "iw_vol w1"] by (simp only: i snd_conv)
  define w2 where "w2 = w1 \<lparr> iw_vol := vol \<rparr>"
  have f2: "frame get_leader_entry m {} w w2" using f1 vp by (simp add: w2_def)
  have c: "oc_op c1 = oc_op ctx" "oc_extent c1 = oc_extent ctx" using core_op [OF cc1] by auto
  have failed: ?thesis
    if "kfastblock_transport_fail_object_attempt env k (c1 \<lparr> oc_ret := r \<rparr>) wx = (again, ctx', w')" "frame get_leader_entry m {} w wx" "r \<noteq> 0" for k r wx
    using fail_attempt_frame [OF that(1), of get_leader_entry m "{}" w] that(2,3) by (simp add: frame_def)
  show ?thesis
  proof (cases "r1 = 0 \<and> r2 = 0")
    case True
    obtain c3 w3 where e: "kfastblock_transport_run_object_exchange env c1 w2 = (c3, w3)" by fastforce
    note ok2 = io_ok_frame [OF f2 cc1 assms(2)]
    from run_exchange_frame [OF e ok2] have c3: "core c3 = core c1" and f3: "frame (object_entry c1 w2) 1 (buf_area c1) w2 w3" by auto
    have fin: "kfastblock_transport_finalize_completed_object_attempt env c3 w3 = (again, ctx', w')"
      using assms(1) b i True e by (simp add: kfastblock_transport_drive_object_attempt_def w2_def [symmetric])
    have "oc_op c3 = REQ_OP_READ \<Longrightarrow> oc_ret c3 = 0 \<Longrightarrow> fits (oc_extent c3) w2 \<and> buffer_answers c3 w2 w3"
      using run_exchange_read [OF e _ _ ok2 responses_frame [OF f2]] assms(3) core_op [OF c3] c fits_frame [OF f2]
      by (auto simp: buffer_answers_def)
    from completed_pages [OF fin f3 this] show ?thesis
      using core_op [OF c3] c stored_frame [OF f2] f2 by (auto simp: frame_def split: if_splits)
  next
    case False
    then show ?thesis
      using assms(1) b i failed f1 f2
      by (auto simp: kfastblock_transport_drive_object_attempt_def w2_def [symmetric] split: if_splits)
  qed
qed

lemma attempts_pages:
  assumes "object_attempts env as ctx w = (ctx', w')" "io_ok m ctx w" "as \<noteq> []"
    and "oc_op ctx = REQ_OP_READ \<Longrightarrow> fits (oc_extent ctx) w \<and> responses_ok w"
  shows "if oc_op ctx = REQ_OP_READ \<and> oc_ret ctx' = 0 then stored (oc_extent ctx) w (iw_pages w') else iw_pages w' = iw_pages w"
  using assms
proof (induction as arbitrary: ctx w)
  case (Cons a as)
  define c0 where "c0 = (kfastblock_transport_object_io_ctx_reset_attempt ctx) \<lparr> oc_attempt := a \<rparr>"
  have c0: "core c0 = core ctx" by (simp add: c0_def core_def kfastblock_transport_object_io_ctx_reset_attempt_def)
  note cc = core_op [OF c0]
  obtain again c1 w1 where d: "kfastblock_transport_drive_object_attempt env c0 w = (again, c1, w1)" by (metis prod_cases3)
  note ok0 = io_ok_frame [OF frame_refl c0 Cons(3)]
  note P = drive_pages [OF d ok0, unfolded cc [THEN conjunct1]]
  note D = drive_frame [OF d ok0]
  show ?case
  proof (cases "again \<and> as \<noteq> []")
    case True
    have f: "frame (object_entry c0 w) (m + 1) (buf_area c0) w w1" using D mask_same [of w1 w] True by simp
    have c1: "core c1 = core ctx" using D c0 by simp
    have r: "object_attempts env as c1 w1 = (ctx', w')" using Cons(2) d True by (simp add: c0_def [symmetric])
    have "if oc_op c1 = REQ_OP_READ \<and> oc_ret ctx' = 0 then stored (oc_extent c1) w1 (iw_pages w') else iw_pages w' = iw_pages w1"
      by (rule Cons(1) [OF r io_ok_frame [OF f c1 Cons(3)]])
         (use True core_op [OF c1] Cons(5) fits_frame [OF f] responses_frame [OF f] in auto)
    then show ?thesis using core_op [OF c1] stored_frame [OF f] f by (auto simp: frame_def split: if_splits)
  next
    case False
    then have "ctx' = c1 \<and> w' = w1" using Cons(2) d by (auto simp: c0_def [symmetric] split: if_splits)
    then show ?thesis using P Cons(5) cc by (auto split: if_splits)
  qed
qed simp

end
