(* ===== verification/KFB_Object_Run.thy ===== *)
theory KFB_Object_Run
  imports KFB_Object_Data
begin

text \<open>
  One object from submission to result: its buffer is given back on every path, the number of requests it sends is
  bounded, and the requests and the pages carry exactly the data of the block request.
\<close>

section \<open>Buffers\<close>

lemma owned_ok_shape:
  assumes "owned_ok p h owned" "same_shape h h'" shows "owned_ok p h' owned"
proof -
  have t: "map_option (\<lambda>e. (be_pooled e, be_capacity e, length (be_data e))) (h' a) =
      map_option (\<lambda>e. (be_pooled e, be_capacity e, length (be_data e))) (h a)" for a
    using assms(2) by (simp add: same_shape_def)
  have n: "h' a = None \<longleftrightarrow> h a = None" for a using arg_cong [OF t [of a], of "\<lambda>x. x = None"] by simp
  have dm: "dom h' = dom h" by (simp add: dom_def n)
  have e: "h a = Some e \<Longrightarrow> \<exists>e'. h' a = Some e' \<and> chunk_entry p e' = chunk_entry p e" for a e
    using t [of a] by (auto simp: chunk_entry_def)
  have e': "h' a = Some e' \<Longrightarrow> \<exists>e. h a = Some e \<and> be_pooled e = be_pooled e' \<and> be_capacity e = be_capacity e' \<and> chunk_entry p e = chunk_entry p e'" for a e'
    using t [of a] by (cases "h a") (auto simp: chunk_entry_def)
  have fl: "\<exists>e. h' a = Some e \<and> chunk_entry p e" if a: "a \<in> set (bp_free_list p)" for a
  proof -
    obtain e1 where "h a = Some e1" "chunk_entry p e1" using assms(1) a by (auto simp: owned_ok_def pool_ok_def)
    then show ?thesis using e by metis
  qed
  have ow: "chunk_entry p e2" if a: "a \<in> set owned" "h' a = Some e2" "be_pooled e2 \<and> be_capacity e2 = ucast (bp_chunk_bytes p)" for a e2
  proof -
    obtain e1 where e1: "h a = Some e1" "be_pooled e1 = be_pooled e2" "be_capacity e1 = be_capacity e2" "chunk_entry p e1 = chunk_entry p e2"
      using e' [OF a(2)] by blast
    have "be_pooled e1 \<and> be_capacity e1 = ucast (bp_chunk_bytes p) \<longrightarrow> chunk_entry p e1"
      using assms(1) a(1) e1(1) by (simp add: owned_ok_def)
    then show ?thesis using e1 a(3) by simp
  qed
  have rest: "unat (bp_cached p) = length (bp_free_list p) \<and> distinct (bp_free_list p) \<and> bp_cached p \<le> bp_max_cached p \<and>
      0 < bp_max_cached p" "distinct owned \<and> set owned \<inter> set (bp_free_list p) = {} \<and> dom h = set owned \<union> set (bp_free_list p)"
    using assms(1) by (simp_all add: owned_ok_def pool_ok_def)
  show ?thesis unfolding owned_ok_def pool_ok_def dm using rest fl ow by blast
qed

definition world_owned :: "io_world \<Rightarrow> addr list \<Rightarrow> bool" where
  "world_owned w owned \<longleftrightarrow> owned_ok (v_object_buffer_pool (iw_vol w)) (iw_heap w) owned"

lemma owned_frame: "frame P n A w w' \<Longrightarrow> world_owned w owned \<Longrightarrow> world_owned w' owned"
  by (auto simp: frame_def world_owned_def intro: owned_ok_shape)

lemma owned_masked: "world_owned (mask_pages segs w) owned = world_owned w owned"
  by (simp add: world_owned_def mask_pages_def)

lemma alloc_pool_Some: "\<exists>p' h' r. kfastblock_buffer_pool_alloc kv (Some p) h bytes zero = (Some p', h', r)"
  by (auto simp: kfastblock_buffer_pool_alloc_def Let_def split: list.splits)

lemma free_pool_Some: "\<exists>p' h'. kfastblock_buffer_pool_free (Some p) h b = (Some p', h')"
  by (simp add: kfastblock_buffer_pool_free_def split: option.splits)

lemma free_buffer_owned:
  assumes "world_owned w (case buf of None \<Rightarrow> owned | Some a \<Rightarrow> a # owned)" shows "world_owned (free_object_buffer buf w) owned"
proof (cases buf)
  case None
  then show ?thesis using assms by (simp add: free_object_buffer_def kfastblock_buffer_pool_free_def on_vol_def world_owned_def)
next
  case (Some a)
  obtain p' h' where f: "kfastblock_buffer_pool_free (Some (v_object_buffer_pool (iw_vol w))) (iw_heap w) (Some a) = (Some p', h')"
    using free_pool_Some by blast
  have "owned_ok p' h' (remove1 a (a # owned))" by (rule free_owned [OF _ _ f]) (use assms Some in \<open>simp_all add: world_owned_def\<close>)
  then show ?thesis using Some f by (simp add: free_object_buffer_def on_vol_def world_owned_def)
qed

lemma alloc_buffer_owned:
  assumes "alloc_object_buffer env len zero w = (buf, w')" "world_owned w owned" "kvmalloc_ok (te_kv env) (iw_heap w)"
  shows "world_owned w' (case buf of None \<Rightarrow> owned | Some a \<Rightarrow> a # owned) \<and>
    (\<forall>a. buf = Some a \<longrightarrow> (\<exists>e. iw_heap w' a = Some e \<and> unat len \<le> length (be_data e) \<and>
       (zero \<longrightarrow> take (unat len) (be_data e) = replicate (unat len) 0))) \<and>
    (\<exists>p h. w' = w \<lparr> iw_heap := h, iw_vol := (iw_vol w) \<lparr> v_object_buffer_pool := p \<rparr> \<rparr>)"
proof -
  let ?p = "v_object_buffer_pool (iw_vol w)" and ?h = "iw_heap w"
  obtain p' h' where al: "kfastblock_buffer_pool_alloc (te_kv env) (Some ?p) ?h (ucast len) zero = (Some p', h', buf)"
    and w': "w' = on_vol (\<lambda>vol. vol \<lparr> v_object_buffer_pool := p' \<rparr>) (w \<lparr> iw_heap := h' \<rparr>)"
    using assms(1) alloc_pool_Some [of "te_kv env" ?p ?h "ucast len" zero] by (auto simp: alloc_object_buffer_def)
  have ok: "owned_ok ?p ?h owned" using assms(2) by (simp add: world_owned_def)
  have "world_owned w' (case buf of None \<Rightarrow> owned | Some a \<Rightarrow> a # owned)"
    using alloc_owned [OF ok assms(3) al] w' by (simp add: world_owned_def on_vol_def split: option.splits)
  moreover have "unat (ucast len :: u64) = unat len" "unat (ucast len :: u64) < 2 ^ 64 - 32"
    using unat_u32_bound [of len] by simp_all
  moreover have "w' = w \<lparr> iw_heap := h', iw_vol := (iw_vol w) \<lparr> v_object_buffer_pool := p' \<rparr> \<rparr>" by (simp add: w' on_vol_def)
  moreover have "\<exists>e. h' a = Some e \<and> unat len \<le> length (be_data e) \<and> (zero \<longrightarrow> take (unat len) (be_data e) = replicate (unat len) 0)"
    if "buf = Some a" for a
    using alloc_usable [OF ok assms(3) al [unfolded that] calculation(3)] calculation(2) by simp
  moreover have "iw_heap w' = h'" by (simp add: w' on_vol_def)
  ultimately show ?thesis by metis
qed

lemma copy_from_shape:
  assumes "kfastblock_transport_copy_request_data rq segs off (Some buf) len False = (ret, segs', data)"
    and "length (concat segs) < 2 ^ 32" "unat len \<le> length buf"
  shows "segs' = segs \<and> (\<exists>d. data = Some d \<and> length d = length buf)"
  using assms copy_segments_exact [of 0 0 off segs len buf False]
  by (auto simp: kfastblock_transport_copy_request_data_def copied_ok_def Let_def unat_gt_0 split: if_splits prod.splits)

lemma owned_set_buf:
  assumes "world_owned w owned" "iw_heap w a = Some e" "length d = length (be_data e)"
  shows "world_owned (set_buf (Some a) (\<lambda>_. d) w) owned"
proof -
  have "frame (\<lambda>_. True) 0 {a} w (set_buf (Some a) (\<lambda>_. d) w)"
    by (rule frame_set_buf [OF frame_refl]) (use assms in auto)
  then show ?thesis using owned_frame assms(1) by blast
qed

definition payload :: "object_io_ctx \<Rightarrow> io_world \<Rightarrow> io_world \<Rightarrow> u8 list \<Rightarrow> bool" where
  "payload ctx w w' data \<longleftrightarrow>
     (let len = unat (ox_length (oc_extent ctx))
      in len \<le> length data \<and>
         (oc_op ctx = REQ_OP_WRITE_ZEROES \<longrightarrow> take len data = replicate len 0) \<and>
         (oc_op ctx = REQ_OP_WRITE \<and> fits (oc_extent ctx) w \<longrightarrow>
            take len data = take len (drop (unat (ox_request_offset (oc_extent ctx))) (concat (iw_pages w)))))"

text \<open>Nothing but memory changes.\<close>

definition heap_step :: "io_world \<Rightarrow> io_world \<Rightarrow> bool" where
  "heap_step w w' \<longleftrightarrow> iw_req w' = iw_req w \<and> iw_pages w' = iw_pages w \<and> iw_exchanges w' = iw_exchanges w \<and> iw_wire w' = iw_wire w"

lemma heap_step_set_buf: "heap_step w w' \<Longrightarrow> heap_step w (set_buf buf f w')"
  by (auto simp: heap_step_def set_buf_def split: option.splits)

lemma heap_step_free: "heap_step w w' \<Longrightarrow> heap_step w (free_object_buffer buf w')"
  by (auto simp: heap_step_def free_object_buffer_def on_vol_def split: prod.splits)

lemma prepare_write_buffer:
  assumes "kfastblock_transport_prepare_object_buffer env ctx w = (ret, buf, w')" "oc_op ctx = REQ_OP_WRITE"
    and "world_owned w owned" "kvmalloc_ok (te_kv env) (iw_heap w)" "length (concat (iw_pages w)) < 2 ^ 32"
  shows "world_owned w' (case buf of None \<Rightarrow> owned | Some a \<Rightarrow> a # owned) \<and> heap_step w w' \<and>
    (ret = 0 \<longrightarrow> (\<exists>data. buf_data buf w' = Some data \<and> payload ctx w w' data))"
proof -
  let ?len = "ox_length (oc_extent ctx)" and ?off = "ox_request_offset (oc_extent ctx)"
  obtain b w1 where al: "alloc_object_buffer env ?len False w = (b, w1)" by fastforce
  note A = alloc_buffer_owned [OF al assms(3,4)]
  have h1: "heap_step w w1" using A by (auto simp: heap_step_def)
  show ?thesis
  proof (cases b)
    case None
    then show ?thesis using assms(1,2) al A h1 by (simp add: kfastblock_transport_prepare_object_buffer_def Let_def)
  next
    case (Some a)
    obtain e where e: "iw_heap w1 a = Some e" "unat ?len \<le> length (be_data e)" using A Some by auto
    have own1: "world_owned w1 (a # owned)" using A Some by simp
    have pg: "iw_pages w1 = iw_pages w" "iw_req w1 = iw_req w" using h1 by (auto simp: heap_step_def)
    have mk: "w1 \<lparr> iw_pages := iw_pages w \<rparr> = w1" using pg(1) by (simp flip: pg(1))
    obtain ret1 segs data where cp: "kfastblock_transport_copy_request_data (kr_rq (iw_req w)) (iw_pages w) ?off (Some (be_data e)) ?len False
        = (ret1, segs, data)" by (metis prod_cases3)
    obtain d where d: "segs = iw_pages w" "data = Some d" "length d = length (be_data e)"
      using copy_from_shape [OF cp assms(5) e(2)] by auto
    define w2 where "w2 = set_buf (Some a) (\<lambda>_. d) w1"
    have res: "(ret, buf, w') = (if ret1 \<noteq> 0 then (ret1, None, free_object_buffer (Some a) w2) else (0, Some a, w2))"
      using assms(1,2) al Some cp d e pg
      by (auto simp: kfastblock_transport_prepare_object_buffer_def Let_def buf_data_def w2_def mk split: if_splits)
    have own2: "world_owned w2 (a # owned)" unfolding w2_def by (rule owned_set_buf [OF own1 e(1) d(3)])
    have h2: "heap_step w w2" unfolding w2_def by (rule heap_step_set_buf [OF h1])
    have "buf_data (Some a) w2 = Some d" using e(1) by (simp add: buf_data_def w2_def set_buf_def)
    moreover have "payload ctx w w2 d"
    proof -
      have "fits (oc_extent ctx) w \<Longrightarrow> d = memcpy_at (be_data e) 0 (take (unat ?len) (drop (unat ?off) (concat (iw_pages w))))"
        using cp d copy_from_request [of "kr_rq (iw_req w)" ?len "iw_pages w" ?off "be_data e"] e(2) by (simp add: fits_def)
      then show ?thesis using assms(2) e(2) d(3) by (auto simp: payload_def Let_def fits_def memcpy_at_def)
    qed
    ultimately show ?thesis
      using res own2 h2 free_buffer_owned [of w2 owned "Some a"] heap_step_free [OF h2, of "Some a"]
      by (auto simp: payload_def split: if_splits)
  qed
qed

lemma prepare_buffer:
  assumes "kfastblock_transport_prepare_object_buffer env ctx w = (ret, buf, w')"
    and "world_owned w owned" "kvmalloc_ok (te_kv env) (iw_heap w)" "length (concat (iw_pages w)) < 2 ^ 32"
  shows "world_owned w' (case buf of None \<Rightarrow> owned | Some a \<Rightarrow> a # owned) \<and> heap_step w w' \<and>
    (ret = 0 \<longrightarrow> oc_op ctx \<in> {REQ_OP_READ, REQ_OP_WRITE, REQ_OP_WRITE_ZEROES} \<longrightarrow>
       (\<exists>data. buf_data buf w' = Some data \<and> payload ctx w w' data))"
proof -
  have hs: "heap_step w w" by (simp add: heap_step_def)
  consider (wr) "oc_op ctx = REQ_OP_WRITE" | (al) "oc_op ctx = REQ_OP_WRITE_ZEROES \<or> oc_op ctx = REQ_OP_READ"
    | (no) "oc_op ctx \<notin> {REQ_OP_READ, REQ_OP_WRITE, REQ_OP_WRITE_ZEROES}" by auto
  then show ?thesis
  proof cases
    case wr
    then show ?thesis using prepare_write_buffer [OF assms(1) wr assms(2-4)] by blast
  next
    case al
    obtain b w1 where a: "alloc_object_buffer env (ox_length (oc_extent ctx)) (oc_op ctx = REQ_OP_WRITE_ZEROES) w = (b, w1)" by fastforce
    note A = alloc_buffer_owned [OF a assms(2,3)]
    have "(ret, buf, w') = (case b of None \<Rightarrow> (- ENOMEM, None, w1) | Some x \<Rightarrow> (0, Some x, w1))"
      using assms(1) al a by (auto simp: kfastblock_transport_prepare_object_buffer_def Let_def split: option.splits)
    then show ?thesis using A al by (cases b) (auto simp: heap_step_def payload_def Let_def buf_data_def)
  next
    case no
    then show ?thesis using assms(1,2) hs by (auto simp: kfastblock_transport_prepare_object_buffer_def Let_def)
  qed
qed

section \<open>The requests of an object\<close>

text \<open>The request object \<open>i\<close> of a block request with the bytes \<open>data\<close> stands for: opcode and body.\<close>

definition object_request :: "request \<Rightarrow> u8 list \<Rightarrow> u32 \<Rightarrow> u8 \<times> u8 list list" where
  "object_request r data i =
     (let extent = kr_objects r ! unat i; op = kfastblock_transport_object_op r i;
          len = unat (ox_length extent); off = unat (ox_request_offset extent)
      in if op = REQ_OP_WRITE then (KFASTBLOCK_RAW_OSD_OP_WRITE_OBJECT, write_object_parts (kr_pool_id r) extent (take len (drop off data)))
         else if op = REQ_OP_WRITE_ZEROES
         then (KFASTBLOCK_RAW_OSD_OP_WRITE_OBJECT, write_object_parts (kr_pool_id r) extent (replicate len 0))
         else if op = REQ_OP_READ then (KFASTBLOCK_RAW_OSD_OP_READ_OBJECT, read_object_parts (kr_pool_id r) extent)
         else (KFASTBLOCK_RAW_OSD_OP_DELETE_OBJECT, delete_object_parts (kr_pool_id r) extent))"

definition allowed :: "io_world \<Rightarrow> u32 \<Rightarrow> wire_entry \<Rightarrow> bool" where
  "allowed w i e \<longleftrightarrow> get_leader_entry e \<or> (fst (snd e), snd (snd (snd e))) = object_request (iw_req w) (concat (iw_pages w)) i"

lemma write_parts_cong:
  "take (unat (ox_length extent)) data = take (unat (ox_length extent)) data' \<Longrightarrow>
     write_object_parts pool extent data = write_object_parts pool extent data'"
  by (simp add: write_object_parts_def)

lemma init_ctx:
  assumes "kfastblock_transport_object_io_ctx_init r i = Inr ctx"
  shows "core ctx = (kr_objects r ! unat i, oc_hint ctx, kfastblock_transport_object_op r i, i, None)"
  using assms by (auto simp: kfastblock_transport_object_io_ctx_init_def core_def Let_def split: if_splits)

lemma object_entry_allowed:
  assumes "core ctx' = (kr_objects (iw_req w) ! unat i, hint, kfastblock_transport_object_op (iw_req w) i, i, buf)"
    and "kr_pool_id (iw_req w') = kr_pool_id (iw_req w)" "iw_pages wp = iw_pages w" "kr_rq (iw_req wp) = kr_rq (iw_req w)"
    and "oc_op ctx' \<in> {REQ_OP_WRITE, REQ_OP_WRITE_ZEROES} \<Longrightarrow> \<exists>data. buf_data buf w' = Some data \<and> payload ctx' wp w' data"
    and "fits (kr_objects (iw_req w) ! unat i) w" "object_entry ctx' w' e"
  shows "allowed w i e"
proof -
  have c: "oc_extent ctx' = kr_objects (iw_req w) ! unat i" "oc_op ctx' = kfastblock_transport_object_op (iw_req w) i" "oc_buf ctx' = buf"
    using assms(1) by (simp_all add: core_def)
  have f: "fits (oc_extent ctx') wp" using assms(3,4,6) c by (simp add: fits_def)
  have "object_opcode ctx' = fst (object_request (iw_req w) (concat (iw_pages w)) i) \<and>
        object_parts ctx' w' = snd (object_request (iw_req w) (concat (iw_pages w)) i)"
  proof (cases "oc_op ctx' \<in> {REQ_OP_WRITE, REQ_OP_WRITE_ZEROES}")
    case True
    then obtain data where d: "buf_data buf w' = Some data" "payload ctx' wp w' data" using assms(5) by blast
    let ?x = "kr_objects (iw_req w) ! unat i"
    let ?bytes = "if oc_op ctx' = REQ_OP_WRITE then take (unat (ox_length ?x)) (drop (unat (ox_request_offset ?x)) (concat (iw_pages w)))
      else replicate (unat (ox_length ?x)) 0"
    have "take (unat (ox_length ?x)) data = ?bytes" using d(2) f True c(1) assms(3) by (auto simp: payload_def Let_def)
    then have "write_object_parts (kr_pool_id (iw_req w)) ?x data = write_object_parts (kr_pool_id (iw_req w)) ?x ?bytes"
      by (intro write_parts_cong) simp
    moreover have "object_parts ctx' w' = write_object_parts (kr_pool_id (iw_req w)) ?x data"
      using True c d(1) assms(2) by (auto simp: object_parts_def)
    moreover have "object_request (iw_req w) (concat (iw_pages w)) i =
        (KFASTBLOCK_RAW_OSD_OP_WRITE_OBJECT, write_object_parts (kr_pool_id (iw_req w)) ?x ?bytes)"
      using True c by (auto simp: object_request_def Let_def)
    moreover have "object_opcode ctx' = KFASTBLOCK_RAW_OSD_OP_WRITE_OBJECT" using True by (auto simp: object_opcode_def)
    ultimately show ?thesis by (simp only: fst_conv snd_conv simp_thms)
  next
    case False
    then show ?thesis using c assms(2) by (simp add: object_opcode_def object_parts_def object_request_def Let_def)
  qed
  then show ?thesis using assms(7) by (auto simp: object_entry_def allowed_def prod_eq_iff)
qed

lemma cleanup_keeps:
  assumes "world_owned w (case oc_buf ctx of None \<Rightarrow> owned | Some a \<Rightarrow> a # owned)"
  shows "world_owned (kfastblock_transport_cleanup_object_io env ctx w) owned \<and>
    iw_wire (kfastblock_transport_cleanup_object_io env ctx w) = iw_wire w \<and>
    iw_pages (kfastblock_transport_cleanup_object_io env ctx w) = iw_pages w"
proof -
  define w1 where "w1 = (if oc_ret ctx \<noteq> 0
        then on_vol (kfastblock_volume_account_object_error (te_now env) (oc_op ctx) (ox_pg_id (oc_extent ctx))
                       (li_osd_id (oc_leader ctx)) (ox_length (oc_extent ctx)) (oc_ret ctx)) w else w)"
  have "world_owned w1 (case oc_buf ctx of None \<Rightarrow> owned | Some a \<Rightarrow> a # owned)" "iw_wire w1 = iw_wire w" "iw_pages w1 = iw_pages w"
    using assms by (simp_all add: w1_def world_owned_def on_vol_def)
  then show ?thesis
    using free_buffer_owned [of w1 owned "oc_buf ctx"]
    by (simp add: kfastblock_transport_cleanup_object_io_def kfastblock_transport_release_object_buffer_def w1_def [symmetric]
        free_object_buffer_def on_vol_def split: prod.splits)
qed

section \<open>One object\<close>

text \<open>Nothing is sent and no page is written.\<close>

definition light :: "io_world \<Rightarrow> io_world \<Rightarrow> bool" where
  "light w w' \<longleftrightarrow> request_id (iw_req w') = request_id (iw_req w) \<and> iw_pages w' = iw_pages w \<and>
     set (iw_exchanges w') \<subseteq> set (iw_exchanges w) \<and> iw_wire w' = iw_wire w"

lemma light_frame: "frame P 0 A w w' \<Longrightarrow> light w w'" by (auto simp: frame_def light_def)

lemma light_heap: "heap_step w w' \<Longrightarrow> light w w'" by (simp add: heap_step_def light_def)

lemma light_trans: "light w w' \<Longrightarrow> light w' w'' \<Longrightarrow> light w w''" by (auto simp: light_def)

lemma light_fits: "light w w' \<Longrightarrow> fits extent w' = fits extent w" by (simp add: light_def fits_def request_id_def)

lemma light_stored: "light w w' \<Longrightarrow> stored extent w' segs \<Longrightarrow> stored extent w segs"
  unfolding light_def stored_def answer_data_def by (metis (no_types, opaque_lifting) subsetD)

lemma light_responses: "light w w' \<Longrightarrow> responses_ok w \<Longrightarrow> responses_ok w'"
  unfolding light_def responses_ok_def by blast

lemma light_targets: "light w w' \<Longrightarrow> targets_ok m hint (iw_req w') = targets_ok m hint (iw_req w)"
proof -
  assume "light w w'"
  then have *: "map ph_nr_targets (kr_pg_hints (iw_req w')) = map ph_nr_targets (kr_pg_hints (iw_req w))"
    by (simp add: light_def request_id_def)
  have t: "(\<forall>h\<in>set hs. unat (ph_nr_targets h) \<le> m) = (\<forall>t\<in>set (map ph_nr_targets hs). unat t \<le> m)" for hs by simp
  show ?thesis unfolding targets_ok_def t * map_eq_imp_length_eq [OF *] by (rule refl)
qed

lemma prepared:
  assumes p: "kfastblock_transport_prepare_object_execution env ctx w = (ctx', w')" and b: "oc_buf ctx = None"
    and own: "world_owned w owned" and kv: "kvmalloc_ok (te_kv env) (iw_heap w)" and pg: "length (concat (iw_pages w)) < 2 ^ 32"
  shows "core (ctx' \<lparr> oc_buf := None \<rparr>) = core ctx \<and> light w w' \<and>
    world_owned w' (case oc_buf ctx' of None \<Rightarrow> owned | Some a \<Rightarrow> a # owned) \<and>
    (oc_ret ctx' = 0 \<longrightarrow> oc_op ctx \<in> {REQ_OP_READ, REQ_OP_WRITE, REQ_OP_WRITE_ZEROES} \<longrightarrow>
       (\<exists>data. buf_data (oc_buf ctx') w' = Some data \<and> payload ctx w w' data))"
proof -
  define c0 where "c0 = ctx \<lparr> oc_ret := 0, oc_actions := 0 \<rparr>"
  obtain c1 w1 where s: "kfastblock_transport_reject_stale_object_request env c0 w = (c1, w1)" by fastforce
  have c1: "core c1 = core ctx" and f1: "frame (\<lambda>_. True) 0 {} w w1"
    using s by (auto simp: kfastblock_transport_reject_stale_object_request_def Let_def c0_def core_def split: if_splits)
  have own1: "world_owned w1 owned" by (rule owned_frame [OF f1 own])
  have kv1: "kvmalloc_ok (te_kv env) (iw_heap w1)" using kv f1 by (simp add: frame_def kvmalloc_ok_def)
  have pg1: "iw_pages w1 = iw_pages w" using f1 by (simp add: frame_def)
  show ?thesis
  proof (cases "oc_ret c1 = 0")
    case False
    then have "ctx' = c1 \<and> w' = w1" using p s by (simp add: kfastblock_transport_prepare_object_execution_def c0_def [symmetric])
    then show ?thesis using False c1 own1 b light_frame [OF f1] by (auto simp: core_def)
  next
    case True
    obtain r2 buf w2 where q: "kfastblock_transport_prepare_object_buffer env c1 w1 = (r2, buf, w2)" by (metis prod_cases3)
    have r: "ctx' = c1 \<lparr> oc_ret := r2, oc_buf := buf \<rparr> \<and> w' = w2"
      using p s True q by (simp add: kfastblock_transport_prepare_object_execution_def c0_def [symmetric])
    note B = prepare_buffer [OF q own1 kv1 pg [folded pg1]]
    have "light w w2" using light_trans [OF light_frame [OF f1]] light_heap B by blast
    moreover have "payload c1 w1 w2 = payload ctx w w2"
      using c1 pg1 fits_frame [OF f1] by (auto simp: payload_def core_def fun_eq_iff)
    ultimately show ?thesis using r c1 B core_op [OF c1] b by (auto simp: core_def)
  qed
qed

text \<open>What is proved of one object: its buffers are back, at most \<open>n\<close> requests were sent, and the data are right.\<close>

definition object_result :: "nat \<Rightarrow> u32 \<Rightarrow> addr list \<Rightarrow> io_world \<Rightarrow> int \<Rightarrow> io_world \<Rightarrow> bool" where
  "object_result n i owned w ret w' \<longleftrightarrow>
     (let extent = kr_objects (iw_req w) ! unat i
      in world_owned w' owned \<and>
         (\<exists>sent. iw_wire w' = iw_wire w @ sent \<and> length sent \<le> n \<and> (fits extent w \<longrightarrow> list_all (allowed w i) sent)) \<and>
         (fits extent w \<and> responses_ok w \<longrightarrow>
            (if kfastblock_transport_object_op (iw_req w) i = REQ_OP_READ \<and> ret = 0 then stored extent w (iw_pages w')
             else iw_pages w' = iw_pages w)))"

text \<open>The attempts of a prepared object.\<close>

lemma attempts_result:
  assumes c: "core (ctx \<lparr> oc_buf := None \<rparr>) = (kr_objects (iw_req w) ! unat i, hint, kfastblock_transport_object_op (iw_req w) i, i, None)"
    and l: "light w w1" and own: "world_owned w1 (case oc_buf ctx of None \<Rightarrow> owned | Some a \<Rightarrow> a # owned)"
    and pl: "oc_op ctx \<in> {REQ_OP_READ, REQ_OP_WRITE, REQ_OP_WRITE_ZEROES} \<Longrightarrow> \<exists>data. buf_data (oc_buf ctx) w1 = Some data \<and> payload ctx w w1 data"
    and t: "targets_ok m hint (iw_req w)" and r: "kfastblock_transport_run_object_attempts env ctx w1 = (ctx', w')"
  shows "oc_op ctx' = oc_op ctx \<and> oc_buf ctx' = oc_buf ctx \<and> world_owned w' (case oc_buf ctx' of None \<Rightarrow> owned | Some a \<Rightarrow> a # owned) \<and>
    (\<exists>sent. iw_wire w' = iw_wire w @ sent \<and> length sent \<le> 2 * (m + 1) \<and>
       (fits (oc_extent ctx) w \<longrightarrow> list_all (allowed w i) sent)) \<and>
    (fits (oc_extent ctx) w \<and> responses_ok w \<longrightarrow>
       (if oc_op ctx = REQ_OP_READ \<and> oc_ret ctx' = 0 then stored (oc_extent ctx) w (iw_pages w') else iw_pages w' = iw_pages w))"
proof -
  have x: "oc_extent ctx = kr_objects (iw_req w) ! unat i" "oc_hint ctx = hint" "oc_op ctx = kfastblock_transport_object_op (iw_req w) i"
    using c by (simp_all add: core_def)
  have cc: "core ctx = (kr_objects (iw_req w) ! unat i, hint, kfastblock_transport_object_op (iw_req w) i, i, oc_buf ctx)"
    using c by (simp add: core_def)
  have id: "kr_pool_id (iw_req w1) = kr_pool_id (iw_req w)" "iw_pages w1 = iw_pages w" using l by (simp_all add: light_def request_id_def)
  have "oc_op ctx = REQ_OP_READ \<longrightarrow> (\<exists>a e. oc_buf ctx = Some a \<and> iw_heap w1 a = Some e \<and> unat (ox_length (oc_extent ctx)) \<le> length (be_data e))"
    using pl by (auto simp: buf_data_def payload_def Let_def split: option.splits)
  then have ok: "io_ok m ctx w1" using light_targets [OF l] t x by (simp add: io_ok_def)
  have as: "object_attempts env [0, 1] ctx w1 = (ctx', w')" using r by (simp add: kfastblock_transport_run_object_attempts_def upt_rec)
  from attempts_frame [OF as ok] have c': "core ctx' = core ctx"
    and f: "frame (object_entry ctx w1) (2 * (m + 1)) (buf_area ctx) w1 (mask_pages (iw_pages w1) w')" by (simp_all add: mult_2)
  have "world_owned w' (case oc_buf ctx' of None \<Rightarrow> owned | Some a \<Rightarrow> a # owned)"
    using owned_frame [OF f own] core_op [OF c'] by (simp add: owned_masked)
  moreover obtain sent where sent: "iw_wire w' = iw_wire w1 @ sent" "length sent \<le> 2 * (m + 1)" "list_all (object_entry ctx w1) sent"
    using f by (auto simp: frame_def mask_pages_def)
  moreover have "allowed w i e" if "fits (oc_extent ctx) w" "object_entry ctx w1 e" for e
    by (rule object_entry_allowed [OF cc id(1) refl refl]) (use pl that x in auto)
  then have "fits (oc_extent ctx) w \<longrightarrow> list_all (allowed w i) sent" using sent(3) by (auto simp: list_all_iff)
  moreover have "fits (oc_extent ctx) w \<and> responses_ok w \<longrightarrow>
      (if oc_op ctx = REQ_OP_READ \<and> oc_ret ctx' = 0 then stored (oc_extent ctx) w (iw_pages w') else iw_pages w' = iw_pages w)"
    using attempts_pages [OF as ok] light_fits [OF l] light_responses [OF l] light_stored [OF l] id(2) by (auto split: if_splits)
  ultimately show ?thesis using core_op [OF c'] l by (auto simp: light_def)
qed

text \<open>What cleaning up makes of a finished context.\<close>

lemma cleanup_result:
  assumes own: "world_owned w3 (case oc_buf c of None \<Rightarrow> owned | Some a \<Rightarrow> a # owned)"
    and sent: "\<exists>sent. iw_wire w3 = iw_wire w @ sent \<and> length sent \<le> n \<and> (fits (kr_objects (iw_req w) ! unat i) w \<longrightarrow> list_all (allowed w i) sent)"
    and pages: "fits (kr_objects (iw_req w) ! unat i) w \<and> responses_ok w \<longrightarrow>
      (if kfastblock_transport_object_op (iw_req w) i = REQ_OP_READ \<and> ret = 0 then stored (kr_objects (iw_req w) ! unat i) w (iw_pages w3)
       else iw_pages w3 = iw_pages w)"
  shows "object_result n i owned w ret (kfastblock_transport_cleanup_object_io env c w3)"
  using cleanup_keeps [OF own, of env] sent pages by (simp add: object_result_def Let_def)

text \<open>An object that stops before its first attempt.\<close>

lemma stop_result:
  assumes "light w w3" "world_owned w3 (case oc_buf c of None \<Rightarrow> owned | Some a \<Rightarrow> a # owned)"
    and "kfastblock_transport_object_op (iw_req w) i = REQ_OP_READ \<Longrightarrow> ret \<noteq> 0"
  shows "object_result n i owned w ret (kfastblock_transport_cleanup_object_io env c w3)"
proof (rule cleanup_result [OF assms(2)])
  show "\<exists>sent. iw_wire w3 = iw_wire w @ sent \<and> length sent \<le> n \<and> (fits (kr_objects (iw_req w) ! unat i) w \<longrightarrow> list_all (allowed w i) sent)"
    using assms(1) by (simp add: light_def)
qed (use assms in \<open>auto simp: light_def\<close>)

lemma run_result:
  assumes init: "kfastblock_transport_object_io_ctx_init (iw_req w) i = Inr ctx" and run: "kfastblock_transport_run_object_io_ctx env ctx w = (ret, w')"
    and own: "world_owned w owned" and kv: "kvmalloc_ok (te_kv env) (iw_heap w)" and pg: "length (concat (iw_pages w)) < 2 ^ 32"
    and t: "targets_ok m (oc_hint ctx) (iw_req w)"
  shows "object_result (2 * (m + 1)) i owned w ret w'"
proof -
  note ic = init_ctx [OF init]
  obtain c1 w1 where b: "kfastblock_transport_begin_object_io_ctx ctx w = (c1, w1)" by fastforce
  have c1: "core c1 = core ctx" and w1: "w1 = w \<lparr> iw_req := kfastblock_request_mark_object_inflight (oc_object_index ctx) (iw_req w) \<rparr>"
    using b by (auto simp: kfastblock_transport_begin_object_io_ctx_def Let_def core_def)
  have f1: "frame (\<lambda>_. True) 0 {} w w1" by (simp add: w1 frame_set_req)
  note l1 = light_frame [OF f1] and own1 = owned_frame [OF f1 own]
  have x: "oc_op c1 = kfastblock_transport_object_op (iw_req w) i" "oc_extent c1 = kr_objects (iw_req w) ! unat i" "oc_buf c1 = None"
    using c1 ic by (simp_all add: core_def)
  have pg1: "length (concat (iw_pages w1)) < 2 ^ 32" "kvmalloc_ok (te_kv env) (iw_heap w1)" using pg kv by (simp_all add: w1)
  define c4 where "c4 c = (if oc_op c = REQ_OP_FLUSH then c \<lparr> oc_ret := 0 \<rparr> else c)" for c :: object_io_ctx
  have c4: "oc_buf (c4 c) = oc_buf c" for c by (simp add: c4_def)
  show ?thesis
  proof (cases "oc_ret c1 = 0 \<and> oc_op c1 \<noteq> REQ_OP_FLUSH")
    case False
    then have "ret = oc_ret (c4 c1) \<and> w' = kfastblock_transport_cleanup_object_io env (c4 c1) w1"
      using run b by (auto simp: kfastblock_transport_run_object_io_ctx_def c4_def)
    moreover have "kfastblock_transport_object_op (iw_req w) i = REQ_OP_READ \<Longrightarrow> oc_ret (c4 c1) \<noteq> 0"
      using False x(1) by (auto simp: c4_def)
    ultimately show ?thesis using stop_result [OF l1, of owned "c4 c1" i] own1 x by (simp add: c4)
  next
    case True
    obtain c2 w2 where p: "kfastblock_transport_prepare_object_execution env c1 w1 = (c2, w2)" by fastforce
    note P = prepared [OF p x(3) own1 pg1(2,1)]
    have l2: "light w w2" using light_trans [OF l1] P by blast
    have x2: "oc_op c2 = oc_op c1" "oc_extent c2 = oc_extent c1" "oc_hint c2 = oc_hint ctx" using P c1 by (auto simp: core_def)
    obtain c3 w3 where q: "(if oc_ret c2 = 0 then kfastblock_transport_run_object_attempts env c2 w2 else (c2, w2)) = (c3, w3)" by fastforce
    have r: "ret = oc_ret (c4 c3) \<and> w' = kfastblock_transport_cleanup_object_io env (c4 c3) w3"
      using run b True p q by (auto simp: kfastblock_transport_run_object_io_ctx_def c4_def split: if_splits)
    show ?thesis
    proof (cases "oc_ret c2 = 0")
      case no: False
      then have "c3 = c2 \<and> w3 = w2" using q by simp
      moreover have "oc_ret (c4 c2) = oc_ret c2" using x2 True by (simp add: c4_def)
      ultimately show ?thesis using stop_result [OF l2, of owned "c4 c2" i] P r no by (simp add: c4)
    next
      case yes: True
      have e: "payload c1 w1 w2 = payload c2 w w2" using x2 l1 light_fits [OF l1] by (auto simp: payload_def light_def fun_eq_iff)
      have "core (c2 \<lparr> oc_buf := None \<rparr>) = (kr_objects (iw_req w) ! unat i, oc_hint ctx, kfastblock_transport_object_op (iw_req w) i, i, None)"
        using P c1 ic by simp
      from attempts_result [OF this l2 conjunct1 [OF conjunct2 [OF conjunct2 [OF P]]] _ t, of env c3 w3]
      have A: "oc_op c3 = oc_op c2 \<and> oc_buf c3 = oc_buf c2 \<and> world_owned w3 (case oc_buf c3 of None \<Rightarrow> owned | Some a \<Rightarrow> a # owned) \<and>
        (\<exists>sent. iw_wire w3 = iw_wire w @ sent \<and> length sent \<le> 2 * (m + 1) \<and> (fits (oc_extent c2) w \<longrightarrow> list_all (allowed w i) sent)) \<and>
        (fits (oc_extent c2) w \<and> responses_ok w \<longrightarrow>
          (if oc_op c2 = REQ_OP_READ \<and> oc_ret c3 = 0 then stored (oc_extent c2) w (iw_pages w3) else iw_pages w3 = iw_pages w))"
        using P yes q x2 e by auto
      have "oc_ret (c4 c3) = oc_ret c3" using A True x2 by (simp add: c4_def)
      then have "object_result (2 * (m + 1)) i owned w (oc_ret c3) (kfastblock_transport_cleanup_object_io env (c4 c3) w3)"
        using A unfolding x2 x by (elim conjE, intro cleanup_result) (simp_all only: c4)
      then show ?thesis using r \<open>oc_ret (c4 c3) = oc_ret c3\<close> by simp
    qed
  qed
qed

lemma find_hint_bound:
  "kfastblock_transport_find_request_pg_hint r pg = Some j \<Longrightarrow> j < unat (kr_nr_unique_pgs r)"
  by (auto simp: kfastblock_transport_find_request_pg_hint_def find_Some_iff)

lemma submit_result:
  assumes sub: "kfastblock_transport_submit_object_io env i w = (ret, w')"
    and own: "world_owned w owned" and kv: "kvmalloc_ok (te_kv env) (iw_heap w)" and pg: "length (concat (iw_pages w)) < 2 ^ 32"
    and hints: "unat (kr_nr_unique_pgs (iw_req w)) \<le> length (kr_pg_hints (iw_req w))"
    and m: "\<forall>h\<in>set (kr_pg_hints (iw_req w)). unat (ph_nr_targets h) \<le> m"
  shows "object_result (2 * (m + 1)) i owned w ret w'"
proof (cases "kfastblock_transport_object_io_ctx_init (iw_req w) i")
  case (Inl e)
  then have "ret = - EINVAL \<and> w' = w"
    using sub by (auto simp: kfastblock_transport_submit_object_io_def kfastblock_transport_object_io_ctx_init_def Let_def split: if_splits)
  then show ?thesis using own by (simp add: object_result_def Let_def)
next
  case (Inr ctx)
  have "oc_hint ctx = kfastblock_transport_find_request_pg_hint (iw_req w) (ox_pg_id (kr_objects (iw_req w) ! unat i))"
    using Inr by (auto simp: kfastblock_transport_object_io_ctx_init_def Let_def split: if_splits)
  then have "targets_ok m (oc_hint ctx) (iw_req w)"
    using hints m by (auto simp: targets_ok_def dest!: find_hint_bound)
  then show ?thesis
    using run_result [OF Inr _ own kv pg] sub Inr by (simp add: kfastblock_transport_submit_object_io_def)
qed

section \<open>Properties\<close>

text \<open>
  C1. The data path of an object is exact. Whatever connections, faults and answers it meets, every request an
  object's I/O puts on the wire is a leader query or the object's own request: for a write its body carries
  exactly the bytes of the block request that the extent covers, for a partial discard as many zeros. A read
  that succeeds stores exactly an answer's data (zero-padded, or zeros for an object that does not exist) at the
  extent's place in the block request and changes no other byte; every other outcome leaves the block request's
  data untouched.
\<close>

theorem object_io_data:
  assumes "kfastblock_transport_submit_object_io env i w = (ret, w')"
    and "world_owned w owned" "kvmalloc_ok (te_kv env) (iw_heap w)"
    and "unat (kr_nr_unique_pgs (iw_req w)) \<le> length (kr_pg_hints (iw_req w))"
    and "fits (kr_objects (iw_req w) ! unat i) w" "responses_ok w"
  shows "(\<exists>sent. iw_wire w' = iw_wire w @ sent \<and>
            list_all (\<lambda>(_, opcode, _, parts). opcode = KFASTBLOCK_RAW_OSD_OP_GET_LEADER \<or>
              (opcode, parts) = object_request (iw_req w) (concat (iw_pages w)) i) sent) \<and>
         (if kfastblock_transport_object_op (iw_req w) i = REQ_OP_READ \<and> ret = 0
          then \<exists>data. answer_data (kr_objects (iw_req w) ! unat i) w data \<and>
                 concat (iw_pages w') = memcpy_at (concat (iw_pages w)) (unat (ox_request_offset (kr_objects (iw_req w) ! unat i))) data \<and>
                 map length (iw_pages w') = map length (iw_pages w)
          else iw_pages w' = iw_pages w)"
proof -
  have "\<forall>h\<in>set (kr_pg_hints (iw_req w)). unat (ph_nr_targets h) \<le> 2 ^ 32" using unat_u32_bound less_imp_le by auto
  moreover have "length (concat (iw_pages w)) < 2 ^ 32" using assms(5) by (simp add: fits_def)
  ultimately have "object_result (2 * (2 ^ 32 + 1)) i owned w ret w'" using submit_result [OF assms(1-3)] assms(4) by blast
  moreover have "allowed w i e \<longleftrightarrow> (\<lambda>(_, opcode, _, parts). opcode = KFASTBLOCK_RAW_OSD_OP_GET_LEADER \<or>
      (opcode, parts) = object_request (iw_req w) (concat (iw_pages w)) i) e" for e
    by (simp add: allowed_def get_leader_entry_def split: prod.splits)
  ultimately show ?thesis using assms(5,6) by (simp only: object_result_def Let_def stored_def list_all_iff) blast
qed


text \<open>
  C9. No buffer is leaked, freed twice or lost: on every path of an object's I/O (refused, cancelled, stale, out
  of memory, failed, retried, successful) the buffers held by callers and the buffers cached by the pool are again
  exactly the live memory, with the same callers as before.
\<close>

theorem object_io_no_leak:
  assumes "kfastblock_transport_submit_object_io env i w = (ret, w')"
    and "owned_ok (v_object_buffer_pool (iw_vol w)) (iw_heap w) owned" "kvmalloc_ok (te_kv env) (iw_heap w)"
    and "length (concat (iw_pages w)) < 2 ^ 32" "unat (kr_nr_unique_pgs (iw_req w)) \<le> length (kr_pg_hints (iw_req w))"
  shows "owned_ok (v_object_buffer_pool (iw_vol w')) (iw_heap w') owned"
proof -
  have "\<forall>h\<in>set (kr_pg_hints (iw_req w)). unat (ph_nr_targets h) \<le> 2 ^ 32" using unat_u32_bound less_imp_le by auto
  from submit_result [OF assms(1) _ assms(3-5) this] assms(2) show ?thesis
    by (simp add: world_owned_def object_result_def Let_def)
qed

section \<open>Witnesses\<close>

text \<open>A read of the last two of three bytes, whose leader is known; the OSD answers with one byte.\<close>

definition objio_request :: request where
  "objio_request = zero_request \<lparr> kr_rq := Some \<lparr> br_pos = 0, br_bytes = 3, br_op = REQ_OP_READ, br_passthrough = False \<rparr>,
     kr_has_vol := True, kr_pool_id := 1, kr_object_size := 4096, kr_nr_objects := 1, kr_nr_unique_pgs := 1,
     kr_pg_hints := [\<lparr> ph_pg_id = 5, ph_nr_targets = 1, ph_leader_valid = True,
        ph_leader = \<lparr> li_osd_id = 2, li_port = 80, li_address = ''10.0.0.1'' \<rparr>, ph_targets = [] \<rparr>],
     kr_objects := [zero_extent \<lparr> ox_request_offset := 1, ox_length := 2, ox_pg_id := 5, ox_object_name := ''x'' \<rparr>],
     kr_object_runtime := [zero_runtime], kr_pipeline := snd (kfastblock_pipeline_init True 1) \<rparr>"

definition objio_response :: response_ctx where
  "objio_response = osd_response (zero_header \<lparr> rh_service := KFASTBLOCK_RAW_SERVICE_OSD,
     rh_opcode := KFASTBLOCK_RAW_OSD_OP_READ_OBJECT, rh_seq := 1 \<rparr>) (enc_read_object_rsp \<lparr> rr_data_len = 1, rr_reserved = 0 \<rparr> @ [9])"

definition objio_world :: io_world where
  "objio_world = \<lparr> iw_vol = (init_volume 0) \<lparr> v_object_buffer_pool := kfastblock_buffer_pool_init 4 8 \<rparr>,
     iw_req = objio_request, iw_heap = \<lambda>_. None, iw_pages = [[10, 20], [30]],
     iw_connects = [Inr 4], iw_exchanges = [(0, objio_response)], iw_wire = [], iw_completed = [] \<rparr>"

definition objio_env :: transport_env where
  "objio_env = \<lparr> te_now = 0, te_m2j = ucast, te_j2m = ucast, te_busy = \<lambda>_. False, te_parallel_limit = 4, te_kv = demo_kv \<rparr>"

lemma objio_owned: "world_owned objio_world []"
  by (simp add: world_owned_def objio_world_def init_volume_def init_owned)

lemma objio_premises:
  "kvmalloc_ok (te_kv objio_env) (iw_heap objio_world)" "length (concat (iw_pages objio_world)) < 2 ^ 32"
  "unat (kr_nr_unique_pgs (iw_req objio_world)) \<le> length (kr_pg_hints (iw_req objio_world))"
  "\<forall>h\<in>set (kr_pg_hints (iw_req objio_world)). unat (ph_nr_targets h) \<le> 1"
  "fits (kr_objects (iw_req objio_world) ! unat (0 :: u32)) objio_world" "responses_ok objio_world"
  "kfastblock_transport_object_op (iw_req objio_world) 0 = REQ_OP_READ"
  by (simp_all add: objio_world_def objio_env_def objio_request_def demo_kv_ok fits_def responses_ok_def objio_response_def
      osd_response_def kfastblock_transport_object_op_def zero_request_def zero_extent_def enc_read_object_rsp_def)

lemma objio_run:
  "fst (kfastblock_transport_submit_object_io objio_env 0 objio_world) = 0 \<and>
   iw_pages (snd (kfastblock_transport_submit_object_io objio_env 0 objio_world)) = [[10, 9], [0]]"
  by code_simp

theorem object_io_data_witness:
  "\<exists>w' data. kfastblock_transport_submit_object_io objio_env 0 objio_world = (0, w') \<and> iw_pages w' = [[10, 9], [0]] \<and>
     answer_data (kr_objects (iw_req objio_world) ! unat (0 :: u32)) objio_world data \<and> concat (iw_pages w') = memcpy_at [10, 20, 30] 1 data"
proof -
  obtain w' where s: "kfastblock_transport_submit_object_io objio_env 0 objio_world = (0, w')" and p: "iw_pages w' = [[10, 9], [0]]"
    using objio_run by (cases "kfastblock_transport_submit_object_io objio_env 0 objio_world") simp
  have "concat (iw_pages objio_world) = [10, 20, 30]" "ox_request_offset (kr_objects (iw_req objio_world) ! unat (0 :: u32)) = 1"
    by (simp_all add: objio_world_def objio_request_def)
  then show ?thesis
    using object_io_data [OF s objio_owned objio_premises(1,3,5,6)] s p objio_premises(7) by auto
qed


theorem object_io_no_leak_witness:
  "\<exists>ret w'. kfastblock_transport_submit_object_io objio_env 0 objio_world = (ret, w') \<and>
     owned_ok (v_object_buffer_pool (iw_vol w')) (iw_heap w') []"
proof -
  obtain ret w' where s: "kfastblock_transport_submit_object_io objio_env 0 objio_world = (ret, w')" by fastforce
  show ?thesis
    using object_io_no_leak [OF s objio_owned [unfolded world_owned_def] objio_premises(1-3)] s by auto
qed

end
