(* ===== verification/KFB_Submit.thy ===== *)
theory KFB_Submit
  imports KFB_Object_Run KFB_Gate
begin

text \<open>
  Requests in the transport (\<^verbatim>\<open>kfastblock/src/transport.c\<close>): submission with the prefetch of leaders and the first
  dispatch, the work item of an object, and the completion of a request. The worker's state gains the work queue, as
  the list of object indices queued, and the statuses handed to \<^verbatim>\<open>blk_mq_end_request\<close>. \<open>wq\<close> says whether the
  work queue exists. The two drivers are \<^verbatim>\<open>while\<close> loops over a stage, so they are partial functions: \<open>None\<close> is a
  loop that does not end.
\<close>

section \<open>State\<close>

record submit_world =
  sw_io :: io_world
  sw_work :: "u32 list"
  sw_ended :: "blk_status list"

abbreviation sw_vol :: "submit_world \<Rightarrow> volume" where "sw_vol s \<equiv> iw_vol (sw_io s)"
abbreviation sw_req :: "submit_world \<Rightarrow> request" where "sw_req s \<equiv> iw_req (sw_io s)"

definition on_vr :: "(volume \<times> request \<Rightarrow> volume \<times> request) \<Rightarrow> submit_world \<Rightarrow> submit_world" where
  "on_vr f s = s \<lparr> sw_io := on_both f (sw_io s) \<rparr>"

definition map_vol :: "(volume \<Rightarrow> volume) \<Rightarrow> submit_world \<Rightarrow> submit_world" where
  "map_vol f s = s \<lparr> sw_io := on_vol f (sw_io s) \<rparr>"

definition map_req :: "(request \<Rightarrow> request) \<Rightarrow> submit_world \<Rightarrow> submit_world" where
  "map_req f s = s \<lparr> sw_io := (sw_io s) \<lparr> iw_req := f (iw_req (sw_io s)) \<rparr> \<rparr>"

definition end_request :: "blk_status \<Rightarrow> submit_world \<Rightarrow> submit_world" where
  "end_request st s = s \<lparr> sw_ended := sw_ended s @ [st] \<rparr>"

section \<open>Dispatch\<close>

definition kfastblock_transport_set_first_error :: "int \<Rightarrow> submit_world \<Rightarrow> bool \<times> submit_world" where
  "kfastblock_transport_set_first_error ret s =
     (if ret = 0 \<or> kr_status (sw_req s) \<noteq> 0 then (False, s) else (True, map_req (\<lambda>r. r \<lparr> kr_status := ret \<rparr>) s))"

definition kfastblock_transport_queue_object_work ::
    "transport_env \<Rightarrow> bool \<Rightarrow> u32 \<Rightarrow> submit_world \<Rightarrow> int \<times> submit_world" where
  "kfastblock_transport_queue_object_work env wq i s =
     (if kr_nr_objects (sw_req s) \<le> i then (- EINVAL, s)
      else (case kfastblock_request_mark_object_queued i (sw_req s) of (ret, r) \<Rightarrow>
              if ret \<noteq> 0 then (ret, s)
              else (let s1 = map_req (\<lambda>_. r) s
                    in if \<not> wq
                       then (- EBUSY, map_vol (\<lambda>vol. vol \<lparr> v_scheduler :=
                               kfastblock_scheduler_note_dispatch_failure (te_m2j env) (te_now env) (v_scheduler vol) \<rparr>) s1)
                       else (0, s1 \<lparr> sw_work := sw_work s1 @ [i] \<rparr>))))"

fun queue_batch :: "transport_env \<Rightarrow> bool \<Rightarrow> u32 list \<Rightarrow> submit_world \<Rightarrow> int \<times> submit_world" where
  "queue_batch env wq [] s = (0, s)"
| "queue_batch env wq (i # is) s =
     (case kfastblock_transport_queue_object_work env wq i s of (ret, s1) \<Rightarrow>
        if ret \<noteq> 0 then (ret, s1) else queue_batch env wq is s1)"

definition kfastblock_transport_queue_dispatch_batch ::
    "transport_env \<Rightarrow> bool \<Rightarrow> dispatch_batch \<Rightarrow> submit_world \<Rightarrow> int \<times> submit_world" where
  "kfastblock_transport_queue_dispatch_batch env wq batch s =
     queue_batch env wq (take (unat (db_nr_indexes batch)) (db_indexes batch)) s"

definition pick_batch :: "transport_env \<Rightarrow> u32 \<Rightarrow> submit_world \<Rightarrow> int \<times> dispatch_batch \<times> submit_world" where
  "pick_batch env n s =
     (case kfastblock_request_pick_dispatch_batch (te_now env) n (sw_vol s, sw_req s) of
        (ret, batch, vol, r) \<Rightarrow> (ret, batch, s \<lparr> sw_io := (sw_io s) \<lparr> iw_vol := vol, iw_req := r \<rparr> \<rparr>))"

definition kfastblock_transport_refill_dispatch_window ::
    "transport_env \<Rightarrow> bool \<Rightarrow> submit_world \<Rightarrow> int \<times> submit_world" where
  "kfastblock_transport_refill_dispatch_window env wq s =
     (let credits = kfastblock_request_dispatch_credits (sw_req s)
      in if credits = 0 then (0, s)
         else (case pick_batch env credits s of (ret, batch, s1) \<Rightarrow>
                 if ret < 0 \<or> db_nr_indexes batch = 0 then (ret, s1)
                 else kfastblock_transport_queue_dispatch_batch env wq batch s1))"

definition kfastblock_transport_discard_unscheduled :: "transport_env \<Rightarrow> submit_world \<Rightarrow> int \<times> submit_world" where
  "kfastblock_transport_discard_unscheduled env s =
     (case kfastblock_request_cancel_unqueued (te_now env) (sw_vol s, sw_req s) of
        (n, vol, r) \<Rightarrow> (n, s \<lparr> sw_io := (sw_io s) \<lparr> iw_vol := vol, iw_req := r \<rparr> \<rparr>))"

section \<open>Ending a request\<close>

definition kfastblock_transport_finish_request_now :: "transport_env \<Rightarrow> bool \<Rightarrow> submit_world \<Rightarrow> submit_world" where
  "kfastblock_transport_finish_request_now env mark_success s =
     (let st = kr_status (sw_req s);
          s1 = map_vol (kfastblock_volume_account_io_complete st) s;
          s2 = (if mark_success \<and> st = 0
                then map_vol (kfastblock_volume_mark_success (te_now env) KFASTBLOCK_VOLUME_SOURCE_OBJECT_IO) s1 else s1)
      in map_vol (\<lambda>vol. vol \<lparr> v_dev_refs := v_dev_refs vol - 1 \<rparr>)
           (map_vol kfastblock_volume_put_io
              (end_request (kfastblock_recovery_errno_to_blk_status st) (on_vr kfastblock_request_cleanup s2))))"

definition kfastblock_transport_finish_submit_now :: "int \<Rightarrow> submit_world \<Rightarrow> int \<times> submit_world" where
  "kfastblock_transport_finish_submit_now ret s =
     (if kr_rq (sw_req s) = None \<or> \<not> kr_has_vol (sw_req s) then (- EINVAL, s)
      else if ret = 0
      then (0, map_vol kfastblock_volume_put_io (end_request BLK_STS_OK (on_vr kfastblock_request_cleanup s)))
      else (0, map_vol kfastblock_volume_put_io
                 (end_request (kfastblock_recovery_errno_to_blk_status ret)
                    (map_vol (kfastblock_volume_account_io_complete ret) (on_vr kfastblock_request_cleanup s)))))"

definition kfastblock_transport_finish_request_if_idle ::
    "transport_env \<Rightarrow> int \<Rightarrow> bool \<Rightarrow> submit_world \<Rightarrow> submit_world" where
  "kfastblock_transport_finish_request_if_idle env remaining mark_success s =
     (if remaining \<noteq> 0 then s else kfastblock_transport_finish_request_now env mark_success s)"

datatype request_finish_stage = FINISH_INIT | FINISH_STATUS_UPDATED | FINISH_PENDING_UPDATED | FINISH_FINISHED

record request_finish_ctx =
  fc_object_index :: u32
  fc_ret :: int
  fc_remaining :: int
  fc_first_error :: bool
  fc_mark_success :: bool
  fc_finished :: bool
  fc_stage :: request_finish_stage

definition kfastblock_transport_request_finish_ctx_init :: "u32 \<Rightarrow> int \<Rightarrow> bool \<Rightarrow> request_finish_ctx" where
  "kfastblock_transport_request_finish_ctx_init i ret mark_success =
     \<lparr> fc_object_index = i, fc_ret = ret, fc_remaining = 0, fc_first_error = False, fc_mark_success = mark_success,
       fc_finished = False, fc_stage = FINISH_INIT \<rparr>"

definition kfastblock_transport_drop_unscheduled_pending :: "transport_env \<Rightarrow> int \<Rightarrow> submit_world \<Rightarrow> int \<times> submit_world" where
  "kfastblock_transport_drop_unscheduled_pending env remaining s =
     (case kfastblock_transport_discard_unscheduled env s of (n, s1) \<Rightarrow>
        if n = 0 then (remaining, s1)
        else (let p = kr_pending_objects (sw_req s1) - n in (p, map_req (\<lambda>r. r \<lparr> kr_pending_objects := p \<rparr>) s1)))"

definition kfastblock_transport_update_request_status_after_object ::
    "transport_env \<Rightarrow> bool \<Rightarrow> request_finish_ctx \<Rightarrow> submit_world \<Rightarrow> request_finish_ctx \<times> submit_world" where
  "kfastblock_transport_update_request_status_after_object env wq ctx s =
     (let s1 = on_vr (kfastblock_request_mark_object_complete (te_now env) (fc_object_index ctx) (fc_ret ctx)) s;
          (first, s2) =
            (if fc_ret ctx \<noteq> 0 then kfastblock_transport_set_first_error (fc_ret ctx) s1
             else if \<not> kfastblock_transport_request_failed (sw_req s1)
             then (case kfastblock_transport_refill_dispatch_window env wq s1 of
                     (ret, s') \<Rightarrow> kfastblock_transport_set_first_error ret s')
             else (fc_first_error ctx, s1))
      in (ctx \<lparr> fc_first_error := first, fc_stage := FINISH_STATUS_UPDATED \<rparr>, s2))"

definition kfastblock_transport_advance_request_pending ::
    "transport_env \<Rightarrow> bool \<Rightarrow> request_finish_ctx \<Rightarrow> submit_world \<Rightarrow> request_finish_ctx \<times> submit_world" where
  "kfastblock_transport_advance_request_pending env drop_unscheduled ctx s =
     (let p = kr_pending_objects (sw_req s) - 1; s1 = map_req (\<lambda>r. r \<lparr> kr_pending_objects := p \<rparr>) s;
          (remaining, s2) = (if drop_unscheduled then kfastblock_transport_drop_unscheduled_pending env p s1 else (p, s1))
      in (ctx \<lparr> fc_remaining := remaining, fc_stage := FINISH_PENDING_UPDATED \<rparr>, s2))"

definition kfastblock_transport_finish_request_ctx_if_idle ::
    "transport_env \<Rightarrow> request_finish_ctx \<Rightarrow> submit_world \<Rightarrow> request_finish_ctx \<times> submit_world" where
  "kfastblock_transport_finish_request_ctx_if_idle env ctx s =
     (ctx \<lparr> fc_finished := True, fc_stage := FINISH_FINISHED \<rparr>,
      kfastblock_transport_finish_request_if_idle env (fc_remaining ctx) (fc_mark_success ctx) s)"

definition kfastblock_transport_prepare_request_finish_status ::
    "transport_env \<Rightarrow> bool \<Rightarrow> request_finish_ctx \<Rightarrow> submit_world \<Rightarrow> request_finish_ctx \<times> submit_world" where
  "kfastblock_transport_prepare_request_finish_status env wq ctx s =
     (if fc_mark_success ctx then kfastblock_transport_update_request_status_after_object env wq ctx s
      else (ctx, snd (kfastblock_transport_set_first_error (fc_ret ctx) s)))"

definition kfastblock_transport_prepare_request_finish_pending ::
    "transport_env \<Rightarrow> request_finish_ctx \<Rightarrow> submit_world \<Rightarrow> request_finish_ctx \<times> submit_world" where
  "kfastblock_transport_prepare_request_finish_pending env ctx s =
     (if fc_mark_success ctx then kfastblock_transport_advance_request_pending env (fc_first_error ctx) ctx s
      else (case kfastblock_transport_drop_unscheduled_pending env 0 s of
              (remaining, s1) \<Rightarrow> (ctx \<lparr> fc_remaining := remaining, fc_stage := FINISH_PENDING_UPDATED \<rparr>, s1)))"

definition kfastblock_transport_advance_request_finish_ctx ::
    "transport_env \<Rightarrow> bool \<Rightarrow> request_finish_ctx \<Rightarrow> submit_world \<Rightarrow> bool \<times> request_finish_ctx \<times> submit_world" where
  "kfastblock_transport_advance_request_finish_ctx env wq ctx s =
     (case fc_stage ctx of
        FINISH_INIT \<Rightarrow>
          (case kfastblock_transport_prepare_request_finish_status env wq ctx s of (ctx', s') \<Rightarrow> (\<not> fc_finished ctx', ctx', s'))
      | FINISH_STATUS_UPDATED \<Rightarrow>
          (case kfastblock_transport_prepare_request_finish_pending env ctx s of (ctx', s') \<Rightarrow> (\<not> fc_finished ctx', ctx', s'))
      | FINISH_PENDING_UPDATED \<Rightarrow>
          (case kfastblock_transport_finish_request_ctx_if_idle env ctx s of (ctx', s') \<Rightarrow> (\<not> fc_finished ctx', ctx', s'))
      | FINISH_FINISHED \<Rightarrow> (False, ctx \<lparr> fc_finished := True \<rparr>, s))"

partial_function (option) kfastblock_transport_run_request_finish_ctx ::
    "transport_env \<Rightarrow> bool \<Rightarrow> request_finish_ctx \<Rightarrow> submit_world \<Rightarrow> submit_world option" where
  "kfastblock_transport_run_request_finish_ctx env wq ctx s =
     (if fc_finished ctx then Some s
      else (case kfastblock_transport_advance_request_finish_ctx env wq ctx s of (more_work, ctx', s') \<Rightarrow>
              if more_work then kfastblock_transport_run_request_finish_ctx env wq ctx' s' else Some s'))"

definition kfastblock_transport_complete_request ::
    "transport_env \<Rightarrow> bool \<Rightarrow> u32 \<Rightarrow> int \<Rightarrow> submit_world \<Rightarrow> submit_world option" where
  "kfastblock_transport_complete_request env wq i ret s =
     kfastblock_transport_run_request_finish_ctx env wq (kfastblock_transport_request_finish_ctx_init i ret True) s"

definition kfastblock_transport_abort_request ::
    "transport_env \<Rightarrow> bool \<Rightarrow> int \<Rightarrow> submit_world \<Rightarrow> submit_world option" where
  "kfastblock_transport_abort_request env wq ret s =
     kfastblock_transport_run_request_finish_ctx env wq (kfastblock_transport_request_finish_ctx_init 0 ret False) s"

definition kfastblock_transport_object_work ::
    "transport_env \<Rightarrow> bool \<Rightarrow> u32 \<Rightarrow> submit_world \<Rightarrow> submit_world option" where
  "kfastblock_transport_object_work env wq i s =
     (if kr_rq (sw_req s) = None \<or> \<not> kr_has_vol (sw_req s) then Some s
      else (case kfastblock_transport_submit_object env i (sw_io s) of
              (ret, w) \<Rightarrow> kfastblock_transport_complete_request env wq i ret (s \<lparr> sw_io := w \<rparr>)))"

section \<open>Submission\<close>

datatype submit_stage = SUBMIT_INIT | SUBMIT_EMPTY_DONE | SUBMIT_RUNTIME_READY | SUBMIT_PREFETCHED | SUBMIT_BATCH_PREPARED
  | SUBMIT_BATCH_QUEUING | SUBMIT_BATCH_QUEUED | SUBMIT_FINISHED

record submit_ctx =
  sc_batch :: dispatch_batch
  sc_batch_queue_index :: u32
  sc_initial_dispatch :: u32
  sc_ret :: int
  sc_finished :: bool
  sc_stage :: submit_stage

definition kfastblock_transport_submit_ctx_init :: "request \<Rightarrow> int + submit_ctx" where
  "kfastblock_transport_submit_ctx_init r =
     (if kr_rq r = None \<or> \<not> kr_has_vol r then Inl (- EINVAL)
      else Inr \<lparr> sc_batch = kfastblock_request_dispatch_batch_reset, sc_batch_queue_index = 0, sc_initial_dispatch = 0,
                 sc_ret = 0, sc_finished = False, sc_stage = SUBMIT_INIT \<rparr>)"

definition kfastblock_transport_prefetch_submit_pg_leader ::
    "transport_env \<Rightarrow> nat \<Rightarrow> io_world \<Rightarrow> int \<times> leader_info \<times> io_world" where
  "kfastblock_transport_prefetch_submit_pg_leader env j w =
     (case kfastblock_request_get_pg_hint_leader (hint_at w j) of
        Inr leader \<Rightarrow> (0, leader, w)
      | Inl _ \<Rightarrow>
          (case kfastblock_transport_query_pg_leader env (Some j) zero_leader w of (ret, leader, w1) \<Rightarrow>
             (ret, leader, if ret \<noteq> 0 then on_hint j kfastblock_request_invalidate_pg_hint_leader w1 else w1)))"

definition kfastblock_transport_prefetch_submit_pg_socket ::
    "transport_env \<Rightarrow> nat \<Rightarrow> leader_info \<Rightarrow> io_world \<Rightarrow> int \<times> io_world" where
  "kfastblock_transport_prefetch_submit_pg_socket env j leader w =
     (case kfastblock_transport_acquire_osd_socket env leader (on_hint j (kfastblock_request_set_pg_hint_leader leader) w) of
        (ret, _, w1) \<Rightarrow> (ret, w1))"

definition kfastblock_transport_drive_prefetch_submit_pg :: "transport_env \<Rightarrow> nat \<Rightarrow> io_world \<Rightarrow> int \<times> io_world" where
  "kfastblock_transport_drive_prefetch_submit_pg env j w =
     (case kfastblock_transport_prefetch_submit_pg_leader env j w of (ret, leader, w1) \<Rightarrow>
        if ret \<noteq> 0 then (ret, w1) else kfastblock_transport_prefetch_submit_pg_socket env j leader w1)"

fun prefetch_loop :: "transport_env \<Rightarrow> nat list \<Rightarrow> io_world \<Rightarrow> int \<times> io_world" where
  "prefetch_loop env [] w = (0, w)"
| "prefetch_loop env (j # js) w =
     (case kfastblock_transport_drive_prefetch_submit_pg env j w of (ret, w1) \<Rightarrow>
        if ret \<noteq> 0 \<and> kfastblock_recovery_prefetch_should_fail_request ret then (ret, w1) else prefetch_loop env js w1)"

definition kfastblock_transport_prefetch_submit_leaders :: "transport_env \<Rightarrow> io_world \<Rightarrow> int \<times> io_world" where
  "kfastblock_transport_prefetch_submit_leaders env w =
     (let ret = kfastblock_transport_request_view_stale w
      in if ret \<noteq> 0
         then (ret, on_vol (\<lambda>vol. kfastblock_volume_kick_refresh (kfastblock_volume_account_refresh_kick (te_now env) 0 ret vol)) w)
         else prefetch_loop env [0..<unat (kr_nr_unique_pgs (iw_req w))] w)"

definition kfastblock_transport_prepare_request_runtime :: "submit_ctx \<Rightarrow> submit_world \<Rightarrow> submit_ctx \<times> submit_world" where
  "kfastblock_transport_prepare_request_runtime ctx s =
     (if kr_nr_objects (sw_req s) = 0
      then (case kfastblock_transport_finish_submit_now 0 s of
              (ret, s1) \<Rightarrow> (ctx \<lparr> sc_ret := ret, sc_finished := True, sc_stage := SUBMIT_EMPTY_DONE \<rparr>, s1))
      else (let s1 = on_vr kfastblock_request_prepare_runtime (map_req (\<lambda>r. r \<lparr> kr_status := 0 \<rparr>) s);
                s2 = map_req (\<lambda>r. r \<lparr> kr_pending_objects := int (unat (kr_nr_objects r)) \<rparr>) s1;
                r = sw_req s2
            in (ctx \<lparr> sc_initial_dispatch := min (kr_nr_objects r) (if kr_dispatch_window r \<noteq> 0 then kr_dispatch_window r else 1),
                      sc_stage := SUBMIT_RUNTIME_READY \<rparr>, s2)))"

definition kfastblock_transport_prepare_request_prefetch ::
    "transport_env \<Rightarrow> submit_ctx \<Rightarrow> submit_world \<Rightarrow> submit_ctx \<times> submit_world" where
  "kfastblock_transport_prepare_request_prefetch env ctx s =
     (case kfastblock_transport_prefetch_submit_leaders env (sw_io s) of (ret, w) \<Rightarrow>
        (ctx \<lparr> sc_ret := ret, sc_stage := (if ret = 0 then SUBMIT_PREFETCHED else sc_stage ctx) \<rparr>, s \<lparr> sw_io := w \<rparr>))"

definition kfastblock_transport_prepare_initial_dispatch_batch ::
    "transport_env \<Rightarrow> bool \<Rightarrow> submit_ctx \<Rightarrow> submit_world \<Rightarrow> (submit_ctx \<times> submit_world) option" where
  "kfastblock_transport_prepare_initial_dispatch_batch env wq ctx s =
     (case pick_batch env (sc_initial_dispatch ctx) s of (ret, batch, s1) \<Rightarrow>
        (let ctx1 = ctx \<lparr> sc_batch := batch, sc_ret := ret \<rparr>
         in if ret < 0 then map_option (\<lambda>s2. (ctx1, s2)) (kfastblock_transport_abort_request env wq ret s1)
            else Some (ctx1 \<lparr> sc_stage := SUBMIT_BATCH_PREPARED \<rparr>, s1)))"

definition kfastblock_transport_finish_submit_ctx :: "submit_ctx \<Rightarrow> submit_world \<Rightarrow> int \<times> submit_ctx \<times> submit_world" where
  "kfastblock_transport_finish_submit_ctx ctx s =
     (case kfastblock_transport_finish_submit_now (sc_ret ctx) s of
        (ret, s1) \<Rightarrow> (ret, ctx \<lparr> sc_finished := True, sc_stage := SUBMIT_FINISHED \<rparr>, s1))"

definition kfastblock_transport_queue_initial_dispatch ::
    "transport_env \<Rightarrow> bool \<Rightarrow> submit_ctx \<Rightarrow> submit_world \<Rightarrow> (submit_ctx \<times> submit_world) option" where
  "kfastblock_transport_queue_initial_dispatch env wq ctx s =
     (if sc_ret ctx \<noteq> 0 then Some (ctx, s)
      else (let (ctx1, s1) =
                  (if sc_stage ctx = SUBMIT_BATCH_PREPARED
                   then (ctx \<lparr> sc_batch_queue_index := 0, sc_stage := SUBMIT_BATCH_QUEUING \<rparr>,
                         map_vol (\<lambda>vol. vol \<lparr> v_dev_refs := v_dev_refs vol + 1 \<rparr>) s)
                   else (ctx, s))
            in if sc_stage ctx1 \<noteq> SUBMIT_BATCH_QUEUING then Some (ctx1, s1)
               else if db_nr_indexes (sc_batch ctx1) \<le> sc_batch_queue_index ctx1
               then Some (ctx1 \<lparr> sc_stage := SUBMIT_BATCH_QUEUED \<rparr>, s1)
               else (case kfastblock_transport_queue_object_work env wq
                            (db_indexes (sc_batch ctx1) ! unat (sc_batch_queue_index ctx1)) s1 of
                       (ret, s2) \<Rightarrow>
                         (let ctx2 = ctx1 \<lparr> sc_ret := ret \<rparr>
                          in if ret \<noteq> 0 then map_option (\<lambda>s3. (ctx2, s3)) (kfastblock_transport_abort_request env wq ret s2)
                             else (let ctx3 = ctx2 \<lparr> sc_batch_queue_index := sc_batch_queue_index ctx2 + 1 \<rparr>
                                   in Some (if db_nr_indexes (sc_batch ctx3) \<le> sc_batch_queue_index ctx3
                                            then ctx3 \<lparr> sc_stage := SUBMIT_BATCH_QUEUED \<rparr> else ctx3, s2))))))"

definition kfastblock_transport_advance_submit_ctx ::
    "transport_env \<Rightarrow> bool \<Rightarrow> submit_ctx \<Rightarrow> submit_world \<Rightarrow> (bool \<times> submit_ctx \<times> submit_world) option" where
  "kfastblock_transport_advance_submit_ctx env wq ctx s =
     (case sc_stage ctx of
        SUBMIT_INIT \<Rightarrow>
          (case kfastblock_transport_prepare_request_runtime ctx s of (ctx', s') \<Rightarrow> Some (\<not> sc_finished ctx', ctx', s'))
      | SUBMIT_RUNTIME_READY \<Rightarrow>
          (case kfastblock_transport_prepare_request_prefetch env ctx s of (ctx', s') \<Rightarrow> Some (0 \<le> sc_ret ctx', ctx', s'))
      | SUBMIT_PREFETCHED \<Rightarrow>
          map_option (\<lambda>(ctx', s'). (0 \<le> sc_ret ctx', ctx', s')) (kfastblock_transport_prepare_initial_dispatch_batch env wq ctx s)
      | SUBMIT_BATCH_QUEUED \<Rightarrow> Some (False, ctx \<lparr> sc_finished := True, sc_stage := SUBMIT_FINISHED \<rparr>, s)
      | SUBMIT_EMPTY_DONE \<Rightarrow> Some (False, ctx \<lparr> sc_finished := True, sc_stage := SUBMIT_FINISHED \<rparr>, s)
      | SUBMIT_FINISHED \<Rightarrow> (case kfastblock_transport_finish_submit_ctx ctx s of (_, ctx', s') \<Rightarrow> Some (False, ctx', s'))
      | _ \<Rightarrow>
          map_option (\<lambda>(ctx', s'). (0 \<le> sc_ret ctx' \<and> sc_stage ctx' = SUBMIT_BATCH_QUEUING, ctx', s'))
            (kfastblock_transport_queue_initial_dispatch env wq ctx s))"

partial_function (option) submit_loop ::
    "transport_env \<Rightarrow> bool \<Rightarrow> submit_ctx \<Rightarrow> submit_world \<Rightarrow> (submit_ctx \<times> submit_world) option" where
  "submit_loop env wq ctx s =
     (if sc_finished ctx then Some (ctx, s)
      else (case kfastblock_transport_advance_submit_ctx env wq ctx s of
              None \<Rightarrow> None
            | Some (more_work, ctx', s') \<Rightarrow> if more_work then submit_loop env wq ctx' s' else Some (ctx', s')))"

definition kfastblock_transport_run_request_submit ::
    "transport_env \<Rightarrow> bool \<Rightarrow> submit_ctx \<Rightarrow> submit_world \<Rightarrow> (int \<times> submit_world) option" where
  "kfastblock_transport_run_request_submit env wq ctx s =
     (case submit_loop env wq ctx s of
        None \<Rightarrow> None
      | Some (ctx', s') \<Rightarrow>
          if sc_ret ctx' < 0
          then (case kfastblock_transport_finish_submit_ctx ctx' s' of (ret, _, s'') \<Rightarrow> Some (ret, s''))
          else Some (0, s'))"

definition kfastblock_transport_submit :: "transport_env \<Rightarrow> bool \<Rightarrow> submit_world \<Rightarrow> (int \<times> submit_world) option" where
  "kfastblock_transport_submit env wq s =
     (case kfastblock_transport_submit_ctx_init (sw_req s) of
        Inl ret \<Rightarrow> Some (ret, s)
      | Inr ctx \<Rightarrow> kfastblock_transport_run_request_submit env wq ctx s)"

section \<open>What a completion changes\<close>

text \<open>The part of the state a completion is about.\<close>

definition books :: "submit_world \<Rightarrow> int \<times> int \<times> u32 \<times> int \<times> int \<times> blk_status list" where
  "books s = (kr_status (sw_req s), kr_pending_objects (sw_req s), kr_cancelled_objects (sw_req s),
     v_inflight_ios (sw_vol s), v_dev_refs (sw_vol s), sw_ended s)"

text \<open>The statistics, the health and the event log of a volume are not in the books.\<close>

definition refs :: "volume \<Rightarrow> int \<times> int" where
  "refs vol = (v_inflight_ios vol, v_dev_refs vol)"

definition tally_of :: "request \<Rightarrow> int \<times> int \<times> u32" where
  "tally_of r = (kr_status r, kr_pending_objects r, kr_cancelled_objects r)"

lemma books_split: "books s = books s' \<longleftrightarrow> tally_of (sw_req s) = tally_of (sw_req s') \<and> refs (sw_vol s) = refs (sw_vol s') \<and> sw_ended s = sw_ended s'"
  by (auto simp: books_def tally_of_def refs_def)

lemma refs_core: "KFB_Gate.core a = KFB_Gate.core b \<Longrightarrow> refs a = refs b"
  using KFB_Gate.core_fields [of a b] by (simp add: refs_def)

lemma refs_account [simp]:
  "refs (kfastblock_volume_mark_success now src vol) = refs vol"
  "refs (kfastblock_volume_account_io_complete ret vol) = refs vol"
  "refs (kfastblock_volume_account_pipeline_complete b vol) = refs vol"
  "refs (kfastblock_volume_account_pipeline_dispatch_batch n vol) = refs vol"
  "refs (kfastblock_volume_account_pipeline_cancel n vol) = refs vol"
  "refs (vol \<lparr> v_scheduler := c \<rparr>) = refs vol"
proof -
  show "refs (kfastblock_volume_mark_success now src vol) = refs vol" by (rule refs_core) simp
qed (simp_all add: refs_def kfastblock_volume_account_io_complete_def kfastblock_volume_account_pipeline_complete_def Let_def
    kfastblock_volume_account_pipeline_dispatch_batch_def kfastblock_volume_account_pipeline_cancel_def)

lemma refs_cleanup [simp]: "refs (fst (kfastblock_request_cleanup vr)) = refs (fst vr)"
  by (simp add: kfastblock_request_cleanup_def refs_def kfastblock_volume_reset_pipeline_snapshot_def
      kfastblock_volume_account_pipeline_cleanup_def split: prod.splits)

lemma tally_cleanup [simp]: "tally_of (snd (kfastblock_request_cleanup vr)) = tally_of (snd vr)"
  by (simp add: kfastblock_request_cleanup_def tally_of_def split: prod.splits)

lemma complete_books [simp]: "books (on_vr (kfastblock_request_mark_object_complete now i ret) s) = books s"
  by (simp add: books_split on_vr_def on_both_def kfastblock_request_mark_object_complete_def tally_of_def update_runtime_def Let_def
      split: prod.splits)

lemma queue_object_books: "books (snd (kfastblock_transport_queue_object_work env wq i s)) = books s"
  by (simp add: books_split kfastblock_transport_queue_object_work_def kfastblock_request_mark_object_queued_def map_req_def map_vol_def
      on_vol_def tally_of_def update_runtime_def Let_def split: prod.splits)

lemma queue_batch_books: "books (snd (queue_batch env wq is s)) = books s"
proof (induction "is" arbitrary: s)
  case (Cons i "is")
  obtain ret s1 where q: "kfastblock_transport_queue_object_work env wq i s = (ret, s1)" by fastforce
  have "books s1 = books s" using queue_object_books [of env wq i s] q by simp
  then show ?case using Cons [of s1] q by simp
qed simp

lemma pick_books: "books (snd (snd (pick_batch env n s))) = books s"
  by (simp add: books_split pick_batch_def kfastblock_request_pick_dispatch_batch_def tally_of_def split: prod.splits)

lemma refill_books: "books (snd (kfastblock_transport_refill_dispatch_window env wq s)) = books s"
proof -
  obtain ret batch s1 where p: "pick_batch env (kfastblock_request_dispatch_credits (sw_req s)) s = (ret, batch, s1)" by (metis prod_cases3)
  have "books s1 = books s" using pick_books [of env "kfastblock_request_dispatch_credits (sw_req s)" s] p by simp
  then show ?thesis
    using p by (simp add: kfastblock_transport_refill_dispatch_window_def kfastblock_transport_queue_dispatch_batch_def queue_batch_books Let_def)
qed

text \<open>The first error is recorded once.\<close>

lemma set_first_error_books:
  assumes "kfastblock_transport_set_first_error ret s = (first, s')"
  shows "first = (ret \<noteq> 0 \<and> kr_status (sw_req s) = 0) \<and> refs (sw_vol s') = refs (sw_vol s) \<and> sw_ended s' = sw_ended s \<and>
    tally_of (sw_req s') = (if first then ret else kr_status (sw_req s), kr_pending_objects (sw_req s), kr_cancelled_objects (sw_req s))"
  using assms by (auto simp: kfastblock_transport_set_first_error_def map_req_def tally_of_def split: if_splits)

lemma status_books:
  assumes "kfastblock_transport_update_request_status_after_object env wq ctx s = (ctx', s')" "\<not> fc_first_error ctx"
  shows "refs (sw_vol s') = refs (sw_vol s) \<and> sw_ended s' = sw_ended s \<and> fc_stage ctx' = FINISH_STATUS_UPDATED \<and>
    fc_mark_success ctx' = fc_mark_success ctx \<and> fc_finished ctx' = fc_finished ctx \<and>
    kr_pending_objects (sw_req s') = kr_pending_objects (sw_req s) \<and> kr_cancelled_objects (sw_req s') = kr_cancelled_objects (sw_req s) \<and>
    fc_first_error ctx' = (kr_status (sw_req s) = 0 \<and> kr_status (sw_req s') \<noteq> 0) \<and>
    (if kr_status (sw_req s) \<noteq> 0 then kr_status (sw_req s') = kr_status (sw_req s)
     else if fc_ret ctx \<noteq> 0 then kr_status (sw_req s') = fc_ret ctx else True)"
proof -
  define s1 where "s1 = on_vr (kfastblock_request_mark_object_complete (te_now env) (fc_object_index ctx) (fc_ret ctx)) s"
  have b1: "books s1 = books s" by (simp add: s1_def)
  obtain rr sr where rf: "kfastblock_transport_refill_dispatch_window env wq s1 = (rr, sr)" by fastforce
  have br: "books sr = books s" using refill_books [of env wq s1] rf b1 by simp
  obtain f2 s2 where e2: "kfastblock_transport_set_first_error (fc_ret ctx) s1 = (f2, s2)" by fastforce
  obtain f3 s3 where e3: "kfastblock_transport_set_first_error rr sr = (f3, s3)" by fastforce
  show ?thesis
    using assms set_first_error_books [OF e2] set_first_error_books [OF e3] b1 br rf e2 e3
    by (auto simp: kfastblock_transport_update_request_status_after_object_def s1_def [symmetric] Let_def books_split tally_of_def
        kfastblock_transport_request_failed_def split: if_splits)
qed

lemma discard_books:
  assumes "kfastblock_transport_discard_unscheduled env s = (n, s')"
  shows "refs (sw_vol s') = refs (sw_vol s) \<and> sw_ended s' = sw_ended s \<and> kr_status (sw_req s') = kr_status (sw_req s) \<and>
    kr_pending_objects (sw_req s') = kr_pending_objects (sw_req s) \<and> n = sint (kr_cancelled_objects (sw_req s') - kr_cancelled_objects (sw_req s))"
  using assms
  by (auto simp: kfastblock_transport_discard_unscheduled_def kfastblock_request_cancel_unqueued_def Let_def split: prod.splits if_splits)

lemma pending_books:
  assumes "kfastblock_transport_advance_request_pending env dropped ctx s = (ctx', s')"
  shows "refs (sw_vol s') = refs (sw_vol s) \<and> sw_ended s' = sw_ended s \<and> kr_status (sw_req s') = kr_status (sw_req s) \<and>
    fc_stage ctx' = FINISH_PENDING_UPDATED \<and> fc_mark_success ctx' = fc_mark_success ctx \<and> fc_finished ctx' = fc_finished ctx \<and>
    fc_remaining ctx' = kr_pending_objects (sw_req s') \<and>
    kr_pending_objects (sw_req s') = kr_pending_objects (sw_req s) - 1 -
      (if dropped then sint (kr_cancelled_objects (sw_req s') - kr_cancelled_objects (sw_req s)) else 0)"
proof -
  define s1 where "s1 = map_req (\<lambda>r. r \<lparr> kr_pending_objects := kr_pending_objects (sw_req s) - 1 \<rparr>) s"
  have s1: "refs (sw_vol s1) = refs (sw_vol s)" "sw_ended s1 = sw_ended s" "kr_status (sw_req s1) = kr_status (sw_req s)"
      "kr_pending_objects (sw_req s1) = kr_pending_objects (sw_req s) - 1" "kr_cancelled_objects (sw_req s1) = kr_cancelled_objects (sw_req s)"
    by (simp_all add: s1_def map_req_def)
  obtain n s2 where d: "kfastblock_transport_discard_unscheduled env s1 = (n, s2)" by fastforce
  define p where "p = kr_pending_objects (sw_req s) - 1"
  define res where "res = (if dropped then kfastblock_transport_drop_unscheduled_pending env p s1 else (p, s1))"
  have res: "res = (if dropped then (if n = 0 then (p, s2) else (p - n, map_req (\<lambda>r. r \<lparr> kr_pending_objects := p - n \<rparr>) s2)) else (p, s1))"
    using discard_books [OF d] s1(4) by (simp add: res_def kfastblock_transport_drop_unscheduled_pending_def d Let_def p_def)
  have "ctx' = ctx \<lparr> fc_remaining := fst res, fc_stage := FINISH_PENDING_UPDATED \<rparr> \<and> s' = snd res"
    using assms by (auto simp: kfastblock_transport_advance_request_pending_def Let_def res_def p_def s1_def split: prod.splits)
  then show ?thesis
    using s1 discard_books [OF d] by (cases dropped; cases "n = 0") (simp_all add: res p_def map_req_def)
qed

lemma finish_now_books:
  "kr_pending_objects (sw_req (kfastblock_transport_finish_request_now env m s)) = kr_pending_objects (sw_req s)"
  "kr_status (sw_req (kfastblock_transport_finish_request_now env m s)) = kr_status (sw_req s)"
  "kr_cancelled_objects (sw_req (kfastblock_transport_finish_request_now env m s)) = kr_cancelled_objects (sw_req s)"
  "sw_ended (kfastblock_transport_finish_request_now env m s) = sw_ended s @ [kfastblock_recovery_errno_to_blk_status (kr_status (sw_req s))]"
  "refs (sw_vol (kfastblock_transport_finish_request_now env m s)) = (v_inflight_ios (sw_vol s) - 1, v_dev_refs (sw_vol s) - 1)"
proof -
  define s2 where "s2 = (if m \<and> kr_status (sw_req s) = 0
    then map_vol (kfastblock_volume_mark_success (te_now env) KFASTBLOCK_VOLUME_SOURCE_OBJECT_IO) (map_vol (kfastblock_volume_account_io_complete (kr_status (sw_req s))) s)
    else map_vol (kfastblock_volume_account_io_complete (kr_status (sw_req s))) s)"
  define s3 where "s3 = on_vr kfastblock_request_cleanup s2"
  have s2: "sw_req s2 = sw_req s" "sw_ended s2 = sw_ended s" "refs (sw_vol s2) = refs (sw_vol s)"
    by (simp_all add: s2_def map_vol_def on_vol_def)
  have s3: "tally_of (sw_req s3) = tally_of (sw_req s)" "sw_ended s3 = sw_ended s" "refs (sw_vol s3) = refs (sw_vol s)"
    using s2 refs_cleanup [of "(sw_vol s2, sw_req s2)"] tally_cleanup [of "(sw_vol s2, sw_req s2)"]
    by (cases "kfastblock_request_cleanup (sw_vol s2, sw_req s2)"; simp add: s3_def on_vr_def on_both_def)+
  have e: "kfastblock_transport_finish_request_now env m s = map_vol (\<lambda>vol. vol \<lparr> v_dev_refs := v_dev_refs vol - 1 \<rparr>)
      (map_vol kfastblock_volume_put_io (end_request (kfastblock_recovery_errno_to_blk_status (kr_status (sw_req s))) s3))"
    by (simp add: kfastblock_transport_finish_request_now_def Let_def s2_def [symmetric] s3_def)
  show "kr_pending_objects (sw_req (kfastblock_transport_finish_request_now env m s)) = kr_pending_objects (sw_req s)"
    "kr_status (sw_req (kfastblock_transport_finish_request_now env m s)) = kr_status (sw_req s)"
    "kr_cancelled_objects (sw_req (kfastblock_transport_finish_request_now env m s)) = kr_cancelled_objects (sw_req s)"
    "sw_ended (kfastblock_transport_finish_request_now env m s) = sw_ended s @ [kfastblock_recovery_errno_to_blk_status (kr_status (sw_req s))]"
    "refs (sw_vol (kfastblock_transport_finish_request_now env m s)) = (v_inflight_ios (sw_vol s) - 1, v_dev_refs (sw_vol s) - 1)"
    using s3 by (simp_all add: e map_vol_def on_vol_def end_request_def refs_def tally_of_def kfastblock_volume_put_io_def)
qed

text \<open>The three stages of a completion.\<close>

lemma complete_request_stages:
  assumes "kfastblock_transport_update_request_status_after_object env wq (kfastblock_transport_request_finish_ctx_init i ret True) s = (c1, s1)"
    and "kfastblock_transport_advance_request_pending env (fc_first_error c1) c1 s1 = (c2, s2)"
  shows "kfastblock_transport_complete_request env wq i ret s =
    Some (kfastblock_transport_finish_request_if_idle env (fc_remaining c2) True s2)"
proof -
  let ?c0 = "kfastblock_transport_request_finish_ctx_init i ret True"
  have c1: "fc_stage c1 = FINISH_STATUS_UPDATED" "fc_mark_success c1" "\<not> fc_finished c1"
    using status_books [OF assms(1)] by (simp_all add: kfastblock_transport_request_finish_ctx_init_def)
  have c2: "fc_stage c2 = FINISH_PENDING_UPDATED" "fc_mark_success c2" "\<not> fc_finished c2" using pending_books [OF assms(2)] c1 by simp_all
  have 1: "kfastblock_transport_advance_request_finish_ctx env wq ?c0 s = (True, c1, s1)"
    using assms(1) c1 by (simp add: kfastblock_transport_advance_request_finish_ctx_def kfastblock_transport_prepare_request_finish_status_def)
      (simp add: kfastblock_transport_request_finish_ctx_init_def kfastblock_transport_prepare_request_finish_status_def)
  have 2: "kfastblock_transport_advance_request_finish_ctx env wq c1 s1 = (True, c2, s2)"
    using assms(2) c1 c2 by (simp add: kfastblock_transport_advance_request_finish_ctx_def kfastblock_transport_prepare_request_finish_pending_def)
  have 3: "kfastblock_transport_advance_request_finish_ctx env wq c2 s2 =
      (False, c2 \<lparr> fc_finished := True, fc_stage := FINISH_FINISHED \<rparr>, kfastblock_transport_finish_request_if_idle env (fc_remaining c2) True s2)"
    using c2 by (simp add: kfastblock_transport_advance_request_finish_ctx_def kfastblock_transport_finish_request_ctx_if_idle_def)
  have "\<not> fc_finished ?c0" by (simp add: kfastblock_transport_request_finish_ctx_init_def)
  then show ?thesis
    using c1 c2 unfolding kfastblock_transport_complete_request_def
    by (subst kfastblock_transport_run_request_finish_ctx.simps, simp add: 1, subst kfastblock_transport_run_request_finish_ctx.simps, simp add: 2,
        subst kfastblock_transport_run_request_finish_ctx.simps, simp add: 3)
qed

text \<open>An aborted request stays in its first stage: the loop does not end.\<close>

lemma abort_request_never_returns: "kfastblock_transport_abort_request env wq ret s = None"
proof -
  let ?stuck = "\<lambda>ctx. fc_stage ctx = FINISH_INIT \<and> \<not> fc_mark_success ctx \<and> \<not> fc_finished ctx"
  have stuck: "\<not> ?stuck ctx" if "kfastblock_transport_run_request_finish_ctx env wq ctx s = Some s'" for ctx s s'
    by (rule kfastblock_transport_run_request_finish_ctx.raw_induct [where P = "\<lambda>env wq ctx s s'. \<not> ?stuck ctx", OF _ that])
       (auto simp: kfastblock_transport_advance_request_finish_ctx_def kfastblock_transport_prepare_request_finish_status_def
        split: if_splits request_finish_stage.splits, blast)
  have "?stuck (kfastblock_transport_request_finish_ctx_init 0 ret False)" by (simp add: kfastblock_transport_request_finish_ctx_init_def)
  then show ?thesis unfolding kfastblock_transport_abort_request_def using stuck by (metis not_None_eq)
qed

text \<open>
  C4. The completion of an object always returns. The first error of a request is the one it keeps: a status already set
  stays, otherwise an error of this object becomes the status. The count of pending objects drops by one, and by the
  objects cancelled when this completion is the one that fails the request. The block request is ended exactly when the
  count reaches 0, once, with the status, and only then the in-flight count and the device reference are given back.
\<close>

theorem request_completion:
  "\<exists>s'. kfastblock_transport_complete_request env wq i ret s = Some s' \<and>
     (let r = sw_req s; r' = sw_req s' in
       (if kr_status r \<noteq> 0 then kr_status r' = kr_status r else if ret \<noteq> 0 then kr_status r' = ret else True) \<and>
       kr_pending_objects r' = kr_pending_objects r - 1 -
         (if kr_status r = 0 \<and> kr_status r' \<noteq> 0 then sint (kr_cancelled_objects r' - kr_cancelled_objects r) else 0) \<and>
       (if kr_pending_objects r' = 0
        then sw_ended s' = sw_ended s @ [kfastblock_recovery_errno_to_blk_status (kr_status r')] \<and>
          v_inflight_ios (sw_vol s') = v_inflight_ios (sw_vol s) - 1 \<and> v_dev_refs (sw_vol s') = v_dev_refs (sw_vol s) - 1
        else sw_ended s' = sw_ended s \<and> v_inflight_ios (sw_vol s') = v_inflight_ios (sw_vol s) \<and>
          v_dev_refs (sw_vol s') = v_dev_refs (sw_vol s)))"
proof -
  let ?c0 = "kfastblock_transport_request_finish_ctx_init i ret True"
  obtain c1 s1 where u: "kfastblock_transport_update_request_status_after_object env wq ?c0 s = (c1, s1)" by fastforce
  obtain c2 s2 where a: "kfastblock_transport_advance_request_pending env (fc_first_error c1) c1 s1 = (c2, s2)" by fastforce
  define s3 where "s3 = kfastblock_transport_finish_request_if_idle env (fc_remaining c2) True s2"
  have c: "kfastblock_transport_complete_request env wq i ret s = Some s3"
    using complete_request_stages [OF u a] by (simp add: s3_def)
  have c0: "\<not> fc_first_error ?c0" "fc_ret ?c0 = ret" by (simp_all add: kfastblock_transport_request_finish_ctx_init_def)
  note S = status_books [OF u c0(1), unfolded c0(2)]
  note A = pending_books [OF a]
  have st1: "if kr_status (sw_req s) \<noteq> 0 then kr_status (sw_req s1) = kr_status (sw_req s) else if ret \<noteq> 0 then kr_status (sw_req s1) = ret else True"
    using S by (elim conjE) assumption
  have fe: "fc_first_error c1 = (kr_status (sw_req s) = 0 \<and> kr_status (sw_req s1) \<noteq> 0)" using S by (elim conjE) assumption
  have p1: "kr_pending_objects (sw_req s1) = kr_pending_objects (sw_req s)" using S by (elim conjE) assumption
  have x1: "kr_cancelled_objects (sw_req s1) = kr_cancelled_objects (sw_req s)" using S by (elim conjE) assumption
  have s2: "kr_status (sw_req s2) = kr_status (sw_req s1)" using A by (elim conjE) assumption
  have p2: "kr_pending_objects (sw_req s2) = kr_pending_objects (sw_req s1) - 1 -
      (if fc_first_error c1 then sint (kr_cancelled_objects (sw_req s2) - kr_cancelled_objects (sw_req s1)) else 0)"
    using A by (elim conjE) assumption
  note st = st1 [folded s2] and pe = p2 [unfolded fe p1 x1, folded s2]
  have e: "sw_ended s2 = sw_ended s" "v_inflight_ios (sw_vol s2) = v_inflight_ios (sw_vol s)" "v_dev_refs (sw_vol s2) = v_dev_refs (sw_vol s)"
      "fc_remaining c2 = kr_pending_objects (sw_req s2)"
    using S A by (simp_all add: refs_def)
  have f: "kr_status (sw_req s3) = kr_status (sw_req s2)" "kr_pending_objects (sw_req s3) = kr_pending_objects (sw_req s2)"
      "kr_cancelled_objects (sw_req s3) = kr_cancelled_objects (sw_req s2)"
    using finish_now_books(1-3) [of env True s2] by (simp_all add: s3_def kfastblock_transport_finish_request_if_idle_def)
  have g: "if kr_pending_objects (sw_req s2) = 0
      then sw_ended s3 = sw_ended s @ [kfastblock_recovery_errno_to_blk_status (kr_status (sw_req s2))] \<and>
        v_inflight_ios (sw_vol s3) = v_inflight_ios (sw_vol s) - 1 \<and> v_dev_refs (sw_vol s3) = v_dev_refs (sw_vol s) - 1
      else sw_ended s3 = sw_ended s \<and> v_inflight_ios (sw_vol s3) = v_inflight_ios (sw_vol s) \<and> v_dev_refs (sw_vol s3) = v_dev_refs (sw_vol s)"
    using e finish_now_books(4,5) [of env True s2] by (simp add: s3_def kfastblock_transport_finish_request_if_idle_def refs_def)
  show ?thesis unfolding Let_def by (rule exI [of _ s3], unfold f, intro conjI c st pe g)
qed

section \<open>What a submission does\<close>

lemma prefetch_loop_ret: "prefetch_loop env js w = (ret, w') \<Longrightarrow> ret \<le> 0"
proof (induction js arbitrary: w)
  case (Cons j js)
  then show ?case by (auto simp: kfastblock_recovery_prefetch_should_fail_request_def split: prod.splits if_splits)
qed simp

lemma prefetch_ret: "kfastblock_transport_prefetch_submit_leaders env w = (ret, w') \<Longrightarrow> ret \<le> 0"
  using prefetch_loop_ret
  by (fastforce simp: kfastblock_transport_prefetch_submit_leaders_def kfastblock_transport_request_view_stale_def Let_def split: if_splits)

text \<open>The prefetch sends leader queries only, and leaves the request and the buffer pool alone.\<close>

lemma prefetch_pg_frame:
  assumes "kfastblock_transport_drive_prefetch_submit_pg env j w = (ret, w')"
  shows "\<exists>m. frame get_leader_entry m {} w w'"
proof -
  obtain r leader w1 where l: "kfastblock_transport_prefetch_submit_pg_leader env j w = (r, leader, w1)" by (metis prod_cases3)
  obtain q l2 w2 where q: "kfastblock_transport_query_pg_leader env (Some j) zero_leader w = (q, l2, w2)" by (metis prod_cases3)
  obtain m where "frame get_leader_entry m {} w w2" using query_hint_frame [OF q] by blast
  then have "frame get_leader_entry m {} w w1"
    using l q by (auto simp: kfastblock_transport_prefetch_submit_pg_leader_def kfastblock_request_invalidate_pg_hint_leader_def
        split: sum.splits if_splits)
  moreover have "frame get_leader_entry 0 {} w1 w'" if s: "kfastblock_transport_prefetch_submit_pg_socket env j leader w1 = (ret, w')"
  proof -
    have "frame get_leader_entry 0 {} w1 (snd (snd (kfastblock_transport_acquire_osd_socket env leader
        (on_hint j (kfastblock_request_set_pg_hint_leader leader) w1))))"
      by (simp add: kfastblock_request_set_pg_hint_leader_def)
    then show ?thesis using s by (auto simp: kfastblock_transport_prefetch_submit_pg_socket_def split_beta simp del: frame_acquire)
  qed
  ultimately show ?thesis
    using assms l frame_then by (fastforce simp: kfastblock_transport_drive_prefetch_submit_pg_def split: if_splits)
qed

lemma prefetch_loop_frame: "prefetch_loop env js w = (ret, w') \<Longrightarrow> \<exists>m. frame get_leader_entry m {} w w'"
proof (induction js arbitrary: w)
  case (Cons j js)
  obtain r w1 where d: "kfastblock_transport_drive_prefetch_submit_pg env j w = (r, w1)" by fastforce
  obtain m where m: "frame get_leader_entry m {} w w1" using prefetch_pg_frame [OF d] by blast
  show ?case
  proof (cases "r \<noteq> 0 \<and> kfastblock_recovery_prefetch_should_fail_request r")
    case True
    then show ?thesis using Cons.prems d m by auto
  next
    case False
    then have "prefetch_loop env js w1 = (ret, w')" using Cons.prems d by (auto split: if_splits)
    then show ?thesis using Cons.IH [of w1] frame_trans [OF m] by blast
  qed
qed (auto intro: frame_refl)

lemma prefetch_frame:
  assumes "kfastblock_transport_prefetch_submit_leaders env w = (ret, w')"
  shows "\<exists>m. frame get_leader_entry m {} w w'"
proof (cases "kfastblock_transport_request_view_stale w = 0")
  case True
  then show ?thesis using assms prefetch_loop_frame by (simp add: kfastblock_transport_prefetch_submit_leaders_def)
next
  case False
  then show ?thesis using assms by (auto simp: kfastblock_transport_prefetch_submit_leaders_def Let_def)
qed

lemma pick_ret:
  assumes "pick_batch env n s = (ret, batch, s')" "n \<noteq> 0"
  shows "0 \<le> ret \<and> (ret = 0 \<longrightarrow> db_nr_indexes batch = 0) \<and> sw_work s' = sw_work s"
  using assms by (auto simp: pick_batch_def kfastblock_request_pick_dispatch_batch_def kfastblock_request_dispatch_batch_reset_def
      split: if_splits prod.splits)

definition runtime_ready_world :: "submit_world \<Rightarrow> submit_world" where
  "runtime_ready_world s = map_req (\<lambda>r. r \<lparr> kr_pending_objects := int (unat (kr_nr_objects r)) \<rparr>)
     (on_vr kfastblock_request_prepare_runtime (map_req (\<lambda>r. r \<lparr> kr_status := 0 \<rparr>) s))"

definition initial_window :: "request \<Rightarrow> u32" where
  "initial_window r = min (kr_nr_objects r) (if kr_dispatch_window r \<noteq> 0 then kr_dispatch_window r else 1)"

lemma ready_keeps:
  "kr_nr_objects (sw_req (runtime_ready_world s)) = kr_nr_objects (sw_req s)"
  "kr_dispatch_window (sw_req (runtime_ready_world s)) = kr_dispatch_window (sw_req s)"
  "kr_rq (sw_req (runtime_ready_world s)) = kr_rq (sw_req s)" "kr_has_vol (sw_req (runtime_ready_world s)) = kr_has_vol (sw_req s)"
  "refs (sw_vol (runtime_ready_world s)) = refs (sw_vol s)"
  "sw_work (runtime_ready_world s) = sw_work s" "sw_ended (runtime_ready_world s) = sw_ended s"
  by (simp_all add: runtime_ready_world_def map_req_def on_vr_def on_both_def kfastblock_request_prepare_runtime_def Let_def refs_def
      kfastblock_volume_update_pipeline_snapshot_def)

text \<open>
  The submission of a request with objects, followed through its stages. Picking the first batch leaves the number
  of objects picked in \<^verbatim>\<open>ctx->ret\<close>, and the stage that queues the batch does nothing when \<^verbatim>\<open>ctx->ret\<close> is not 0.
\<close>

lemma submit_stages:
  assumes v: "kr_rq (sw_req s) \<noteq> None" "kr_has_vol (sw_req s)" and nz: "kr_nr_objects (sw_req s) \<noteq> 0"
    and pf: "kfastblock_transport_prefetch_submit_leaders env (sw_io (runtime_ready_world s)) = (ret, w)"
    and pk: "pick_batch env (initial_window (sw_req s)) ((runtime_ready_world s) \<lparr> sw_io := w \<rparr>) = (n, batch, s3)"
  shows "kfastblock_transport_submit env wq s =
    Some (if ret \<noteq> 0 then kfastblock_transport_finish_submit_now ret ((runtime_ready_world s) \<lparr> sw_io := w \<rparr>)
          else (0, if n = 0 then map_vol (\<lambda>vol. vol \<lparr> v_dev_refs := v_dev_refs vol + 1 \<rparr>) s3 else s3))"
proof -
  define s1 s2 where "s1 = runtime_ready_world s" and "s2 = s1 \<lparr> sw_io := w \<rparr>"
  obtain c0 where c0: "kfastblock_transport_submit_ctx_init (sw_req s) = Inr c0" "sc_ret c0 = 0" "\<not> sc_finished c0" "sc_stage c0 = SUBMIT_INIT"
    using v by (simp add: kfastblock_transport_submit_ctx_init_def)
  define c1 where "c1 = c0 \<lparr> sc_initial_dispatch := initial_window (sw_req s), sc_stage := SUBMIT_RUNTIME_READY \<rparr>"
  have a1: "kfastblock_transport_advance_submit_ctx env wq c0 s = Some (True, c1, s1)"
    using c0 nz ready_keeps(1,2) [of s]
    by (simp add: kfastblock_transport_advance_submit_ctx_def kfastblock_transport_prepare_request_runtime_def Let_def
        runtime_ready_world_def initial_window_def c1_def s1_def)
  define c2 where "c2 = c1 \<lparr> sc_ret := ret, sc_stage := (if ret = 0 then SUBMIT_PREFETCHED else SUBMIT_RUNTIME_READY) \<rparr>"
  have a2: "kfastblock_transport_advance_submit_ctx env wq c1 s1 = Some (ret = 0, c2, s2)"
    using pf prefetch_ret [OF pf]
    by (simp add: kfastblock_transport_advance_submit_ctx_def kfastblock_transport_prepare_request_prefetch_def c1_def c2_def s1_def s2_def)
  define c3 where "c3 = c2 \<lparr> sc_batch := batch, sc_ret := n, sc_stage := SUBMIT_BATCH_PREPARED \<rparr>"
  have "initial_window (sw_req s) \<noteq> 0" using nz by (auto simp: initial_window_def min_def)
  note P = pick_ret [OF pk this]
  have a3: "kfastblock_transport_advance_submit_ctx env wq c2 s2 = Some (True, c3, s3)" if "ret = 0"
    using that pk P by (simp add: kfastblock_transport_advance_submit_ctx_def kfastblock_transport_prepare_initial_dispatch_batch_def Let_def
        c2_def c1_def c3_def s2_def s1_def)
  define s4 where "s4 = (if n = 0 then map_vol (\<lambda>vol. vol \<lparr> v_dev_refs := v_dev_refs vol + 1 \<rparr>) s3 else s3)"
  obtain c4 where a4: "kfastblock_transport_advance_submit_ctx env wq c3 s3 = Some (False, c4, s4)" and c4: "sc_ret c4 = n"
    using P by (cases "n = 0")
      (simp_all add: kfastblock_transport_advance_submit_ctx_def kfastblock_transport_queue_initial_dispatch_def c3_def s4_def)
  have f: "\<not> sc_finished c0" "\<not> sc_finished c1" "\<not> sc_finished c2" "\<not> sc_finished c3"
    using c0 by (simp_all add: c1_def c2_def c3_def)
  have "submit_loop env wq c0 s = Some (if ret = 0 then (c4, s4) else (c2, s2))"
  proof (cases "ret = 0")
    case True
    then show ?thesis
      using f by (subst submit_loop.simps, simp add: a1, subst submit_loop.simps, simp add: a2, subst submit_loop.simps, simp add: a3,
        subst submit_loop.simps, simp add: a4)
  next
    case False
    then show ?thesis using f by (subst submit_loop.simps, simp add: a1, subst submit_loop.simps, simp add: a2)
  qed
  then show ?thesis
    using c0 c4 P prefetch_ret [OF pf]
    by (auto simp: kfastblock_transport_submit_def kfastblock_transport_run_request_submit_def kfastblock_transport_finish_submit_ctx_def
        c2_def s4_def s2_def s1_def split: prod.splits)
qed

lemma prefetched_valid:
  assumes "kr_rq (sw_req s) \<noteq> None" "kr_has_vol (sw_req s)"
    and "kfastblock_transport_prefetch_submit_leaders env (sw_io (runtime_ready_world s)) = (e, w)"
  shows "kr_rq (iw_req w) \<noteq> None \<and> kr_has_vol (iw_req w)"
proof -
  have "request_id (iw_req w) = request_id (sw_req (runtime_ready_world s))"
    using prefetch_frame [OF assms(3)] by (auto simp: KFB_Object_Laws.frame_def)
  then show ?thesis using assms(1,2) ready_keeps [of s] by (simp add: request_id_def)
qed

lemma finish_submit_now_valid:
  assumes "kr_rq (sw_req s) \<noteq> None" "kr_has_vol (sw_req s)"
  obtains s' where "kfastblock_transport_finish_submit_now ret s = (0, s')" "sw_work s' = sw_work s"
    "sw_ended s' = sw_ended s @ [kfastblock_recovery_errno_to_blk_status ret]"
    "refs (sw_vol s') = (v_inflight_ios (sw_vol s) - 1, v_dev_refs (sw_vol s))"
proof -
  define s1 where "s1 = on_vr kfastblock_request_cleanup s"
  have s1: "sw_work s1 = sw_work s" "sw_ended s1 = sw_ended s" "refs (sw_vol s1) = refs (sw_vol s)"
    by (simp_all add: s1_def on_vr_def on_both_def split_beta)
  show thesis
  proof (cases "ret = 0")
    case True
    then show thesis
      using assms s1 by (intro that [of "map_vol kfastblock_volume_put_io (end_request BLK_STS_OK s1)"])
        (simp_all add: kfastblock_transport_finish_submit_now_def s1_def [symmetric] map_vol_def on_vol_def end_request_def refs_def
          kfastblock_volume_put_io_def kfastblock_recovery_errno_to_blk_status_def)
  next
    case False
    have "refs (kfastblock_volume_account_io_complete ret (sw_vol s1)) = refs (sw_vol s)" using s1 by simp
    with False show thesis
      using assms s1 by (intro that [of "map_vol kfastblock_volume_put_io (end_request (kfastblock_recovery_errno_to_blk_status ret)
          (map_vol (kfastblock_volume_account_io_complete ret) s1))"])
        (simp_all add: kfastblock_transport_finish_submit_now_def s1_def [symmetric] map_vol_def on_vol_def end_request_def refs_def
          kfastblock_volume_put_io_def)
  qed
qed

lemma submit_empty:
  assumes v: "kr_rq (sw_req s) \<noteq> None" "kr_has_vol (sw_req s)" and z: "kr_nr_objects (sw_req s) = 0"
  shows "kfastblock_transport_submit env wq s = Some (kfastblock_transport_finish_submit_now 0 s)"
proof -
  obtain s' where f: "kfastblock_transport_finish_submit_now 0 s = (0, s')" using finish_submit_now_valid [OF v] by blast
  show ?thesis
    using v z f
    by (simp add: kfastblock_transport_submit_def kfastblock_transport_submit_ctx_init_def kfastblock_transport_run_request_submit_def
        kfastblock_transport_advance_submit_ctx_def kfastblock_transport_prepare_request_runtime_def submit_loop.simps)
qed


section \<open>The block layer over the transport\<close>

text \<open>
  \<^verbatim>\<open>kfastblock_queue_rq\<close> sees the volume and the request; the sockets, the memory and the network are those of \<open>w\<close>.
  Submission always returns, so the last case of the definition does not arise.
\<close>

definition transport_submit_fn ::
    "transport_env \<Rightarrow> bool \<Rightarrow> io_world \<Rightarrow> volume \<times> request \<Rightarrow> int \<times> blk_status list \<times> volume \<times> request" where
  "transport_submit_fn env wq w vr =
     (case kfastblock_transport_submit env wq
             \<lparr> sw_io = w \<lparr> iw_vol := fst vr, iw_req := snd vr \<rparr>, sw_work = [], sw_ended = [] \<rparr> of
        Some (ret, s') \<Rightarrow> (ret, sw_ended s', sw_vol s', sw_req s')
      | None \<Rightarrow> (0, [], vr))"

lemma submit_refuses:
  assumes "kfastblock_transport_submit env wq s = Some (ret, s')" "ret \<noteq> 0"
  shows "s' = s"
proof (cases "kr_rq (sw_req s) = None \<or> \<not> kr_has_vol (sw_req s)")
  case True
  then show ?thesis using assms by (simp add: kfastblock_transport_submit_def kfastblock_transport_submit_ctx_init_def)
next
  case False
  then have v: "kr_rq (sw_req s) \<noteq> None" "kr_has_vol (sw_req s)" by simp_all
  have "ret = 0"
  proof (cases "kr_nr_objects (sw_req s) = 0")
    case True
    obtain s1 where "kfastblock_transport_finish_submit_now 0 s = (0, s1)" using finish_submit_now_valid [OF v] by blast
    then show ?thesis using submit_empty [OF v True, of env wq] assms by simp
  next
    case nz: False
    obtain e w where pf: "kfastblock_transport_prefetch_submit_leaders env (sw_io (runtime_ready_world s)) = (e, w)" by fastforce
    define s2 where "s2 = (runtime_ready_world s) \<lparr> sw_io := w \<rparr>"
    obtain n batch s3 where pk: "pick_batch env (initial_window (sw_req s)) s2 = (n, batch, s3)" by (metis prod_cases3)
    have "kr_rq (sw_req s2) \<noteq> None" "kr_has_vol (sw_req s2)" using prefetched_valid [OF v pf] by (simp_all add: s2_def)
    from finish_submit_now_valid [OF this] obtain s1 where "kfastblock_transport_finish_submit_now e s2 = (0, s1)" by metis
    then show ?thesis
      using submit_stages [OF v nz pf pk [unfolded s2_def], of wq] assms(1) by (auto simp: s2_def [symmetric] split: if_splits)
  qed
  with assms show ?thesis by simp
qed

interpretation transport: request_submitter "transport_submit_fn env wq w"
proof
  fix vr ret ended vol r
  assume f: "transport_submit_fn env wq w vr = (ret, ended, vol, r)" "ret \<noteq> 0"
  let ?s = "\<lparr> sw_io = w \<lparr> iw_vol := fst vr, iw_req := snd vr \<rparr>, sw_work = [], sw_ended = [] \<rparr>"
  obtain s' where s: "kfastblock_transport_submit env wq ?s = Some (ret, s')" "ended = sw_ended s'" "vol = sw_vol s'"
    using f by (auto simp: transport_submit_fn_def split: option.splits prod.splits)
  then show "ended = [] \<and> v_inflight_ios vol = v_inflight_ios (fst vr)" using submit_refuses [OF s(1) f(2)] by simp
qed

text \<open>
  C16. Over the transport, every data request the block layer is refused has been ended exactly once, with the status
  returned, and its in-flight count is as before.
\<close>

theorem transport_refusal_ends_once:
  assumes "kfastblock_queue_rq (transport_submit_fn env wq w) wait now al al' rq (vol, r) = (st, ended, vol', r')"
    and "br_op rq \<noteq> REQ_OP_FLUSH" and "st \<noteq> BLK_STS_OK"
  shows "ended = [st] \<and> v_inflight_ios vol' = v_inflight_ios vol"
  by (rule transport.refusal_ends_once [OF assms])

theorem transport_refusal_ends_once_witness:
  "\<exists>vol' r'. kfastblock_queue_rq (transport_submit_fn objio_env True objio_world) (\<lambda>v. (0, v)) 3 [] []
      \<lparr> br_pos = 0, br_bytes = 4096, br_op = REQ_OP_WRITE, br_passthrough = True \<rparr>
      ((iw_vol objio_world) \<lparr> v_ready := True, v_queue_paused := False \<rparr>, iw_req objio_world) = (BLK_STS_IOERR, [BLK_STS_IOERR], vol', r') \<and>
    v_inflight_ios vol' = v_inflight_ios (iw_vol objio_world)"
proof -
  let ?rq = "\<lparr> br_pos = 0, br_bytes = 4096, br_op = REQ_OP_WRITE, br_passthrough = True \<rparr>"
  obtain ended vol' r' where q: "kfastblock_queue_rq (transport_submit_fn objio_env True objio_world) (\<lambda>v. (0, v)) 3 [] [] ?rq
      ((iw_vol objio_world) \<lparr> v_ready := True, v_queue_paused := False \<rparr>, iw_req objio_world) = (BLK_STS_IOERR, ended, vol', r')"
    by (simp add: kfastblock_queue_rq_def)
  have "br_op ?rq \<noteq> REQ_OP_FLUSH" by simp
  from transport_refusal_ends_once [OF q this] q show ?thesis by simp
qed

end
